(* ===== verification/Argus_Prelude.thy ===== *)
theory Argus_Prelude
  imports Complex_Main "HOL-Library.Word"
begin

text \<open>
  Shared vocabulary of the ARGUS development: the machine integers, instants and results the
  Rust sources use, the string operations of the Rust standard library that occur in them, and
  the generic lemmas the component theories share.

  Conventions.
  \<^item> A \<^typ>\<open>char\<close> stands for the Unicode scalar value with the same code, so strings range over
    the code points 0 to 255; \<open>is_control\<close> and \<open>is_whitespace\<close> follow the Unicode tables
    on that range, and \<open>utf8\<close> gives the bytes \<open>str::as_bytes\<close> sees.
  \<^item> A Rust \<open>Result<T, E>\<close> is the sum \<open>'e + 'a\<close>, \<^const>\<open>Inl\<close> being the error.
  \<^item> An instant (\<open>DateTime<Utc>\<close>) is the number of nanoseconds since the epoch, a
    \<open>chrono::Duration\<close> a number of nanoseconds; both are integers.
\<close>

section \<open>Collections of rewrite rules\<close>

named_theorems cap_ids \<open>the literal capability identifiers\<close>
named_theorems port_defs \<open>unfolding of the ports a run is wired with\<close>

section \<open>Machine integers, instants, results\<close>

type_synonym u32 = "32 word"
type_synonym u64 = "64 word"
type_synonym uuid = "128 word"
type_synonym instant = int
type_synonym duration = int

definition sat_add :: "'a::len word \<Rightarrow> 'a word \<Rightarrow> 'a word" where
  "sat_add a b = (if unat a + unat b < 2 ^ LENGTH('a) then a + b else - 1)"

definition sat_sub :: "'a::len word \<Rightarrow> 'a word \<Rightarrow> 'a word" where
  "sat_sub a b = (if b \<le> a then a - b else 0)"

lemma unat_minus_one_max: "unat (- 1 :: 'a::len word) = 2 ^ LENGTH('a) - 1"
  by (simp add: unsigned_minus_1_eq_mask mask_eq_exp_minus_1)

lemma unat_sat_add: "unat (sat_add a (b :: 'a::len word)) = min (unat a + unat b) (2 ^ LENGTH('a) - 1)"
proof (cases "unat a + unat b < 2 ^ LENGTH('a)")
  case True
  then have "unat (a + b) = unat a + unat b"
    by (simp add: unat_word_ariths)
  with True show ?thesis by (simp add: sat_add_def)
next
  case False
  then show ?thesis by (simp add: sat_add_def unat_minus_one_max)
qed

lemma unat_sat_sub: "unat (sat_sub a (b :: 'a::len word)) = unat a - unat b"
  by (simp add: sat_sub_def unat_sub word_le_nat_alt)

lemma sat_add_ge: "a \<le> sat_add a (b :: 'a::len word)"
proof -
  have "unat a < 2 ^ LENGTH('a)" by (rule unsigned_less)
  then have "unat a \<le> 2 ^ LENGTH('a) - 1" by linarith
  then show ?thesis by (simp add: word_le_nat_alt unat_sat_add)
qed

lemma unat_plus_one_less: "a < (b :: 'a::len word) \<Longrightarrow> unat (a + 1) = Suc (unat a)"
proof -
  assume "a < b"
  then have "unat a < unat b" by (simp add: word_less_nat_alt)
  moreover have "unat b < 2 ^ LENGTH('a)" by (rule unsigned_less)
  ultimately have "Suc (unat a) < 2 ^ LENGTH('a)" by linarith
  then show ?thesis by (simp add: unat_word_ariths)
qed

text \<open>\<open>DateTime::timestamp\<close>: the whole seconds since the epoch, rounded towards minus infinity.\<close>

definition timestamp :: "instant \<Rightarrow> int" where
  "timestamp t = t div 1000000000"

abbreviation seconds :: "int \<Rightarrow> duration" where
  "seconds n \<equiv> n * 1000000000"

text \<open>\<open>Option::ok_or_else\<close> and \<open>Result::map_err\<close>.\<close>

definition ok_or :: "'e \<Rightarrow> 'a option \<Rightarrow> 'e + 'a" where
  "ok_or e x = (case x of None \<Rightarrow> Inl e | Some v \<Rightarrow> Inr v)"

definition map_err :: "('e \<Rightarrow> 'f) \<Rightarrow> 'e + 'a \<Rightarrow> 'f + 'a" where
  "map_err f r = (case r of Inl e \<Rightarrow> Inl (f e) | Inr v \<Rightarrow> Inr v)"

lemma ok_or_simps [simp]: "ok_or e None = Inl e" "ok_or e (Some v) = Inr v"
  by (simp_all add: ok_or_def)

lemma ok_or_Inr_iff: "ok_or e x = Inr v \<longleftrightarrow> x = Some v"
  by (cases x) simp_all

lemma map_err_simps [simp]: "map_err f (Inl e) = Inl (f e)" "map_err f (Inr v) = Inr v"
  by (simp_all add: map_err_def)

lemma map_err_Inr_iff [simp]: "map_err f r = Inr v \<longleftrightarrow> r = Inr v"
  by (cases r) simp_all

lemma map_err_Inl_iff: "map_err f r = Inl x \<longleftrightarrow> (\<exists>e. r = Inl e \<and> x = f e)"
  by (cases r) auto

definition is_ok :: "'e + 'a \<Rightarrow> bool" where
  "is_ok r = (case r of Inl _ \<Rightarrow> False | Inr _ \<Rightarrow> True)"

lemma is_ok_simps [simp]: "\<not> is_ok (Inl e)" "is_ok (Inr v)"
  by (simp_all add: is_ok_def)

lemma is_ok_iff: "is_ok r \<longleftrightarrow> (\<exists>v. r = Inr v)"
  by (cases r) simp_all

text \<open>\<open>filter_map\<close> of the Rust iterators.\<close>

abbreviation filter_map :: "('a \<Rightarrow> 'b option) \<Rightarrow> 'a list \<Rightarrow> 'b list" where
  "filter_map f xs \<equiv> List.map_filter f xs"

section \<open>Characters\<close>

abbreviation code :: "char \<Rightarrow> nat" where
  "code c \<equiv> of_char c"

definition is_ascii_lowercase :: "char \<Rightarrow> bool" where
  "is_ascii_lowercase c = (97 \<le> code c \<and> code c \<le> 122)"

definition is_ascii_digit :: "char \<Rightarrow> bool" where
  "is_ascii_digit c = (48 \<le> code c \<and> code c \<le> 57)"

definition is_control :: "char \<Rightarrow> bool" where
  "is_control c = (code c < 32 \<or> (127 \<le> code c \<and> code c < 160))"

definition is_whitespace :: "char \<Rightarrow> bool" where
  "is_whitespace c = ((9 \<le> code c \<and> code c \<le> 13) \<or> code c = 32 \<or> code c = 133 \<or> code c = 160)"

lemmas char_class_defs = is_ascii_lowercase_def is_ascii_digit_def is_control_def is_whitespace_def

text \<open>The UTF-8 encoding of one code point below 256.\<close>

definition utf8_char :: "char \<Rightarrow> 8 word list" where
  "utf8_char c =
     (if code c < 128 then [of_nat (code c)]
      else [of_nat (192 + code c div 64), of_nat (128 + code c mod 64)])"

definition utf8 :: "string \<Rightarrow> 8 word list" where
  "utf8 s = concat (map utf8_char s)"

section \<open>Strings\<close>

text \<open>\<open>str::starts_with\<close> and \<open>str::ends_with\<close>.\<close>

definition starts_with :: "string \<Rightarrow> string \<Rightarrow> bool" where
  "starts_with p s = (take (length p) s = p)"

definition ends_with :: "string \<Rightarrow> string \<Rightarrow> bool" where
  "ends_with p s = starts_with (rev p) (rev s)"

lemma starts_with_append [simp]: "starts_with p (p @ s)"
  by (simp add: starts_with_def)

lemma starts_with_iff: "starts_with p s \<longleftrightarrow> (\<exists>r. s = p @ r)"
  by (metis append_eq_conv_conj starts_with_append starts_with_def)

lemma starts_with_Nil [simp]: "starts_with [] s"
  by (simp add: starts_with_def)

lemma starts_with_Cons [simp]:
  "starts_with (a # p) (b # s) \<longleftrightarrow> a = b \<and> starts_with p s"
  "\<not> starts_with (a # p) []"
  by (auto simp: starts_with_def)

text \<open>\<open>str::trim\<close>.\<close>

definition trim :: "string \<Rightarrow> string" where
  "trim s = rev (dropWhile is_whitespace (rev (dropWhile is_whitespace s)))"

lemma trim_id: "\<forall>c \<in> set s. \<not> is_whitespace c \<Longrightarrow> trim s = s"
proof -
  assume a: "\<forall>c \<in> set s. \<not> is_whitespace c"
  then have "dropWhile is_whitespace s = s"
    by (cases s) auto
  moreover from a have "dropWhile is_whitespace (rev s) = rev s"
    by (cases "rev s") (auto dest: arg_cong [where f = set])
  ultimately show ?thesis by (simp add: trim_def)
qed

text \<open>\<open>str::to_lowercase\<close> on the code points below 256, and \<open>str::eq_ignore_ascii_case\<close>.\<close>

definition lowercase_char :: "char \<Rightarrow> char" where
  "lowercase_char c =
     (if 65 \<le> code c \<and> code c \<le> 90 \<or> 192 \<le> code c \<and> code c \<le> 222 \<and> code c \<noteq> 215
      then char_of (code c + 32) else c)"

definition to_lowercase :: "string \<Rightarrow> string" where
  "to_lowercase s = map lowercase_char s"

definition ascii_lower :: "char \<Rightarrow> char" where
  "ascii_lower c = (if 65 \<le> code c \<and> code c \<le> 90 then char_of (code c + 32) else c)"

definition eq_ignore_ascii_case :: "string \<Rightarrow> string \<Rightarrow> bool" where
  "eq_ignore_ascii_case a b = (map ascii_lower a = map ascii_lower b)"

text \<open>\<open>str::contains\<close> with a string pattern.\<close>

fun contains_str :: "string \<Rightarrow> string \<Rightarrow> bool" where
  "contains_str p [] = (p = [])"
| "contains_str p (c # cs) = (starts_with p (c # cs) \<or> contains_str p cs)"

text \<open>\<open>str::split\<close> on one character: never empty, \<open>""\<close> between adjacent separators.\<close>

fun split_on :: "char \<Rightarrow> string \<Rightarrow> string list" where
  "split_on c [] = [[]]"
| "split_on c (x # xs) =
     (case split_on c xs of [] \<Rightarrow> []
      | w # ws \<Rightarrow> if x = c then [] # w # ws else (x # w) # ws)"

lemma split_on_not_Nil [simp]: "split_on c s \<noteq> []"
  by (induction s) (auto split: list.splits)

lemma split_on_ConsE:
  obtains w ws where "split_on c s = w # ws"
  by (cases "split_on c s") auto

lemma split_on_no_sep: "w \<in> set (split_on c s) \<Longrightarrow> c \<notin> set w"
proof (induction s arbitrary: w)
  case Nil
  then show ?case by simp
next
  case (Cons x xs)
  obtain v vs where v: "split_on c xs = v # vs" by (rule split_on_ConsE)
  have "u \<in> set (v # vs) \<Longrightarrow> c \<notin> set u" for u
    using Cons.IH [of u] v by simp
  with Cons.prems v show ?case by (auto split: if_splits)
qed

lemma split_on_chars: "w \<in> set (split_on c s) \<Longrightarrow> set w \<subseteq> set s"
proof (induction s arbitrary: w)
  case Nil
  then show ?case by simp
next
  case (Cons x xs)
  obtain v vs where v: "split_on c xs = v # vs" by (rule split_on_ConsE)
  have "u \<in> set (v # vs) \<Longrightarrow> set u \<subseteq> set xs" for u
    using Cons.IH [of u] v by simp
  with Cons.prems v show ?case by (fastforce split: if_splits)
qed

lemma split_on_id: "c \<notin> set s \<Longrightarrow> split_on c s = [s]"
  by (induction s) auto

lemma split_on_append_sep: "split_on c (a @ c # b) = split_on c a @ split_on c b"
proof (induction a)
  case Nil
  show ?case by (cases "split_on c b") auto
next
  case (Cons x xs)
  then show ?case by (cases "split_on c xs") auto
qed

text \<open>\<open>str::split_once\<close>.\<close>

definition split_once :: "char \<Rightarrow> string \<Rightarrow> (string \<times> string) option" where
  "split_once c s =
     (if c \<in> set s then Some (takeWhile (\<lambda>x. x \<noteq> c) s, tl (dropWhile (\<lambda>x. x \<noteq> c) s)) else None)"

lemma split_once_append: "c \<notin> set a \<Longrightarrow> split_once c (a @ c # b) = Some (a, b)"
  by (auto simp: split_once_def takeWhile_append dropWhile_append)

section \<open>Decimal numerals\<close>

text \<open>\<open>i32::to_string\<close> and \<open>str::parse::<i32>\<close>.\<close>

definition digit_char :: "nat \<Rightarrow> char" where
  "digit_char d = char_of (48 + d)"

fun show_nat :: "nat \<Rightarrow> string" where
  "show_nat n = (if n < 10 then [digit_char n] else show_nat (n div 10) @ [digit_char (n mod 10)])"

declare show_nat.simps [simp del]

definition show_int :: "int \<Rightarrow> string" where
  "show_int i = (if i < 0 then CHR ''-'' # show_nat (nat (- i)) else show_nat (nat i))"

definition parse_digits :: "string \<Rightarrow> nat option" where
  "parse_digits s =
     (if s \<noteq> [] \<and> list_all is_ascii_digit s
      then Some (foldl (\<lambda>n c. 10 * n + (code c - 48)) 0 s) else None)"

definition parse_i32 :: "string \<Rightarrow> int option" where
  "parse_i32 s =
     (let (neg, ds) = (case s of [] \<Rightarrow> (False, [])
                       | c # cs \<Rightarrow> if c = CHR ''-'' then (True, cs)
                                 else if c = CHR ''+'' then (False, cs) else (False, s))
      in case parse_digits ds of None \<Rightarrow> None
         | Some n \<Rightarrow>
             (let v = (if neg then - int n else int n)
              in if - (2 ^ 31) \<le> v \<and> v < 2 ^ 31 then Some v else None))"

lemma code_digit_char: "d < 10 \<Longrightarrow> code (digit_char d) = 48 + d"
  by (simp add: digit_char_def)

lemma digits_show_nat: "list_all is_ascii_digit (show_nat n)"
proof (induction n rule: show_nat.induct)
  case (1 n)
  moreover have "d < 10 \<Longrightarrow> is_ascii_digit (digit_char d)" for d
    by (simp add: is_ascii_digit_def code_digit_char)
  ultimately show ?case
    by (subst show_nat.simps) simp
qed

lemma value_show_nat: "foldl (\<lambda>n c. 10 * n + (code c - 48)) 0 (show_nat n) = n"
proof (induction n rule: show_nat.induct)
  case (1 n)
  then show ?case
    by (subst show_nat.simps) (simp add: code_digit_char)
qed

lemma show_nat_not_Nil [simp]: "show_nat n \<noteq> []"
  by (subst show_nat.simps) simp

lemma parse_digits_show_nat: "parse_digits (show_nat n) = Some n"
  by (simp add: parse_digits_def digits_show_nat value_show_nat)

lemma hd_show_nat: "show_nat n = c # cs \<Longrightarrow> c \<noteq> CHR ''-'' \<and> c \<noteq> CHR ''+''"
  using digits_show_nat [of n] by (auto simp: is_ascii_digit_def)

lemma parse_i32_show_int:
  assumes "- (2 ^ 31) \<le> i" "i < 2 ^ 31"
  shows "parse_i32 (show_int i) = Some i"
proof (cases "i < 0")
  case True
  with assms show ?thesis by (simp add: show_int_def parse_i32_def parse_digits_show_nat)
next
  case False
  obtain c cs where s: "show_nat (nat i) = c # cs"
    by (cases "show_nat (nat i)") auto
  have "parse_digits (c # cs) = Some (nat i)"
    using parse_digits_show_nat [of "nat i"] s by simp
  with False assms s hd_show_nat [OF s] show ?thesis
    by (simp add: show_int_def parse_i32_def)
qed

section \<open>Lists\<close>

lemma mem_filter_map: "y \<in> set (filter_map f xs) \<longleftrightarrow> (\<exists>x \<in> set xs. f x = Some y)"
  by (force simp: List.map_filter_def)

lemma find_Some_iff_ex: "find P xs \<noteq> None \<longleftrightarrow> (\<exists>x \<in> set xs. P x)"
  by (induction xs) auto

lemma find_SomeD: "find P xs = Some x \<Longrightarrow> P x \<and> x \<in> set xs"
  by (induction xs) (auto split: if_splits)

lemma map_of_rev_distinct: "distinct (map fst xs) \<Longrightarrow> map_of (rev xs) = map_of xs"
proof
  fix k
  assume "distinct (map fst xs)"
  then have "distinct (map fst (rev xs))" by (simp add: rev_map [symmetric])
  with \<open>distinct (map fst xs)\<close> show "map_of (rev xs) k = map_of xs k"
    using map_of_eq_Some_iff [of xs k] map_of_eq_Some_iff [of "rev xs" k]
    by (cases "map_of xs k"; cases "map_of (rev xs) k") auto
qed

end
