(* ===== verification/Json.thy ===== *)
theory Json
  imports Argus_Prelude
begin

text \<open>
  JSON documents, as the sources handle them through \<open>serde_json::Value\<close>. A number is
  kept in the three classes \<open>serde_json::Number\<close> distinguishes, because \<open>is_i64\<close>,
  \<open>is_u64\<close> and \<open>as_i64\<close> depend on them. An object is the list of its members; \<open>serde_json\<close>
  is built here without \<open>preserve_order\<close>: one member per key, and no definition of the
  development observes the order of the members.
  Floating-point numbers are exact rationals or one of the non-finite values.
\<close>

section \<open>Floating-point values\<close>

datatype float_val = NaN | PosInf | NegInf | Fin rat

text \<open>\<open>a >= b\<close> on floats: false as soon as one side is NaN.\<close>

fun float_ge :: "float_val \<Rightarrow> float_val \<Rightarrow> bool" where
  "float_ge NaN b = False"
| "float_ge a NaN = False"
| "float_ge PosInf b = True"
| "float_ge a NegInf = True"
| "float_ge a PosInf = False"
| "float_ge NegInf b = False"
| "float_ge (Fin x) (Fin y) = (y \<le> x)"

text \<open>\<open>f64::clamp(0.0, 1.0)\<close>: NaN stays NaN.\<close>

fun clamp01 :: "float_val \<Rightarrow> float_val" where
  "clamp01 NaN = NaN"
| "clamp01 PosInf = Fin 1"
| "clamp01 NegInf = Fin 0"
| "clamp01 (Fin x) = Fin (if x < 0 then 0 else if 1 < x then 1 else x)"

text \<open>
  The cast \<open>as f32\<close> of a value in the unit interval: rounding to nearest, ties to even, to 24
  significant bits (the smallest normal exponent is \<open>-126\<close>).
\<close>

fun f32_exponent :: "nat \<Rightarrow> nat \<Rightarrow> rat \<Rightarrow> nat" where
  "f32_exponent 0 k x = k"
| "f32_exponent (Suc fuel) k x = (if 1 / 2 ^ k \<le> x then k else f32_exponent fuel (Suc k) x)"

definition round_half_even :: "rat \<Rightarrow> int" where
  "round_half_even x =
     (let f = \<lfloor>x\<rfloor>; r = x - of_int f
      in if r < 1 / 2 then f else if 1 / 2 < r then f + 1 else if even f then f else f + 1)"

definition round_f32 :: "rat \<Rightarrow> rat" where
  "round_f32 x =
     (let scale = 2 ^ (f32_exponent 126 0 x + 23)
      in of_int (round_half_even (x * scale)) / scale)"

fun as_f32 :: "float_val \<Rightarrow> float_val" where
  "as_f32 (Fin x) = Fin (round_f32 x)"
| "as_f32 v = v"


text \<open>
  Rounding of any non-negative value to a binary format with \<open>bits\<close> fraction bits and smallest
  normal exponent \<open>- depth\<close>: the conversions of unsigned integers to \<open>f32\<close> and \<open>f64\<close> and the
  quotients of such values. The values that occur stay far below the largest exponent.
\<close>

fun binade :: "nat \<Rightarrow> nat \<Rightarrow> rat \<Rightarrow> nat" where
  "binade 0 k x = k"
| "binade (Suc fuel) k x = (if x < 2 ^ Suc k then k else binade fuel (Suc k) x)"

definition round_scaled :: "rat \<Rightarrow> rat \<Rightarrow> rat" where
  "round_scaled scale x = of_int (round_half_even (x * scale)) / scale"

definition round_float :: "nat \<Rightarrow> nat \<Rightarrow> rat \<Rightarrow> rat" where
  "round_float bits depth x =
     (if 1 \<le> x then round_scaled (2 ^ bits / 2 ^ binade 127 0 x) x
      else round_scaled (2 ^ (f32_exponent depth 0 x + bits)) x)"

abbreviation to_f32 :: "rat \<Rightarrow> rat" where "to_f32 \<equiv> round_float 23 126"
abbreviation to_f64 :: "rat \<Rightarrow> rat" where "to_f64 \<equiv> round_float 52 1022"

lemma round_half_even_of_int [simp]: "round_half_even (of_int i) = i"
  by (simp add: round_half_even_def)

lemma round_half_even_mono: "x \<le> y \<Longrightarrow> round_half_even x \<le> round_half_even y"
proof -
  assume le: "x \<le> y"
  then have fl: "\<lfloor>x\<rfloor> \<le> \<lfloor>y\<rfloor>" by (rule floor_mono)
  show ?thesis
  proof (cases "\<lfloor>x\<rfloor> = \<lfloor>y\<rfloor>")
    case True
    with le show ?thesis by (auto simp: round_half_even_def Let_def)
  next
    case False
    with fl have "\<lfloor>x\<rfloor> + 1 \<le> \<lfloor>y\<rfloor>" by simp
    then show ?thesis by (auto simp: round_half_even_def Let_def)
  qed
qed

lemma round_scaled_exact: "x * scale = of_int i \<Longrightarrow> scale \<noteq> 0 \<Longrightarrow> round_scaled scale x = x"
  by (simp add: round_scaled_def field_simps)

lemma round_scaled_mono: "0 < scale \<Longrightarrow> x \<le> y \<Longrightarrow> round_scaled scale x \<le> round_scaled scale y"
  by (simp add: round_scaled_def divide_right_mono round_half_even_mono)

lemma round_scaled_pow2_bounds:
  assumes "0 \<le> x" "x \<le> 1"
  shows "0 \<le> round_scaled (2 ^ k) x" "round_scaled (2 ^ k) x \<le> 1"
proof -
  have "round_scaled (2 ^ k) 0 \<le> round_scaled (2 ^ k) x" "round_scaled (2 ^ k) x \<le> round_scaled (2 ^ k) 1"
    using assms by (auto intro: round_scaled_mono)
  then show "0 \<le> round_scaled (2 ^ k) x" "round_scaled (2 ^ k) x \<le> 1"
    using round_scaled_exact [of 0 "2 ^ k" 0] round_scaled_exact [of 1 "2 ^ k" "2 ^ k"] by simp_all
qed

lemma binade_le: "x < 2 ^ Suc (k + n) \<Longrightarrow> binade fuel k x \<le> k + n"
proof (induction fuel arbitrary: k n)
  case (Suc fuel)
  then show ?case
  proof (cases n)
    case (Suc m)
    then show ?thesis using Suc.IH [of "Suc k" m] \<open>x < 2 ^ Suc (k + n)\<close> by simp
  qed simp
qed simp

text \<open>Integers of at most \<open>bits + 1\<close> bits convert exactly; a value of the unit interval stays in it.\<close>

lemma round_float_of_nat:
  assumes "n < 2 ^ Suc bits"
  shows "round_float bits depth (of_nat n) = of_nat n"
proof (cases "n = 0")
  case True
  then show ?thesis by (simp add: round_float_def round_scaled_exact [of 0 _ 0])
next
  case False
  have lt: "of_nat n < (2 ^ Suc (0 + bits) :: rat)"
    using assms by (metis add_0 of_nat_less_iff of_nat_numeral of_nat_power)
  have le: "binade 127 0 (of_nat n) \<le> bits"
    using binade_le [OF lt, of 127] by simp
  have eq: "(2 ^ bits / 2 ^ binade 127 0 (of_nat n) :: rat) = 2 ^ (bits - binade 127 0 (of_nat n))"
    using le by (simp add: power_diff)
  have int: "of_nat n * 2 ^ (bits - binade 127 0 (of_nat n)) = (of_int (int n * 2 ^ (bits - binade 127 0 (of_nat n :: rat))) :: rat)"
    by simp
  show ?thesis
    using False unfolding round_float_def eq
    by (simp add: round_scaled_exact [OF int])
qed

lemma round_float_unit:
  assumes "0 \<le> x" "x \<le> 1"
  shows "0 \<le> round_float bits depth x \<and> round_float bits depth x \<le> 1"
proof (cases "1 \<le> x")
  case True
  with assms have "x = of_nat 1" by simp
  moreover have "(1 :: nat) < 2 ^ Suc bits" by (rule power_gt1) simp
  ultimately show ?thesis using round_float_of_nat [of 1 bits depth] by simp
next
  case False
  then show ?thesis using assms by (simp add: round_float_def round_scaled_pow2_bounds)
qed

text \<open>From 1 on the rounding stays within its binade and is monotone.\<close>

lemma binade_bounds:
  assumes "2 ^ k \<le> x" "x < 2 ^ (k + Suc fuel)"
  shows "2 ^ binade fuel k x \<le> x \<and> x < 2 ^ Suc (binade fuel k x)"
  using assms by (induction fuel arbitrary: k) auto

lemma round_float_binade:
  assumes "1 \<le> x" "x < 2 ^ 128"
  shows "2 ^ binade 127 0 x \<le> round_float bits depth x \<and> round_float bits depth x \<le> 2 ^ Suc (binade 127 0 x)"
proof -
  let ?b = "binade 127 0 x" and ?scale = "(2 ^ bits / 2 ^ binade 127 0 x :: rat)"
  have b: "2 ^ ?b \<le> x" "x \<le> 2 ^ Suc ?b" using binade_bounds [of 0 x 127] assms by auto
  have "round_scaled ?scale (2 ^ ?b) = 2 ^ ?b"
    by (rule round_scaled_exact [of _ _ "2 ^ bits"]) simp_all
  moreover have "round_scaled ?scale (2 ^ Suc ?b) = 2 ^ Suc ?b"
    by (rule round_scaled_exact [of _ _ "2 ^ Suc bits"]) simp_all
  ultimately show ?thesis
    using round_scaled_mono [of ?scale "2 ^ ?b" x] round_scaled_mono [of ?scale x "2 ^ Suc ?b"] b assms(1)
    by (simp add: round_float_def)
qed

lemma round_float_mono:
  assumes "1 \<le> x" "x \<le> y" "y < 2 ^ 128"
  shows "round_float bits depth x \<le> round_float bits depth y"
proof (cases "binade 127 0 x = binade 127 0 y")
  case True
  with assms show ?thesis by (simp add: round_float_def round_scaled_mono)
next
  case False
  have x: "2 ^ binade 127 0 x \<le> x" and y: "y < 2 ^ Suc (binade 127 0 y)"
    using binade_bounds [of 0 x 127] binade_bounds [of 0 y 127] assms by auto
  have "(2 :: rat) ^ binade 127 0 x < 2 ^ Suc (binade 127 0 y)" using x y assms(2) by linarith
  then have "binade 127 0 x < Suc (binade 127 0 y)" by (rule power_less_imp_less_exp [rotated]) simp
  with False have "Suc (binade 127 0 x) \<le> binade 127 0 y" by simp
  then have "(2 :: rat) ^ Suc (binade 127 0 x) \<le> 2 ^ binade 127 0 y" by (rule power_increasing) simp
  then show ?thesis
    using round_float_binade [of x bits depth] round_float_binade [of y bits depth] assms by linarith
qed

lemma round_float_0 [simp]: "round_float bits depth 0 = 0"
  using round_float_of_nat [of 0 bits depth] by simp

section \<open>Documents\<close>

datatype json_number = PosInt nat | NegInt int | FloatNum float_val

datatype json =
    JNull
  | JBool bool
  | JNum json_number
  | JStr string
  | JArr "json list"
  | JObj "(string \<times> json) list"

text \<open>\<open>Value::as_object\<close>, \<open>as_array\<close>, \<open>as_str\<close>, \<open>as_bool\<close>, \<open>as_i64\<close>, and \<open>Value::get\<close> with a key.\<close>

fun as_object :: "json \<Rightarrow> (string \<times> json) list option" where
  "as_object (JObj m) = Some m"
| "as_object _ = None"

fun as_array :: "json \<Rightarrow> json list option" where
  "as_array (JArr xs) = Some xs"
| "as_array _ = None"

fun as_string :: "json \<Rightarrow> string option" where
  "as_string (JStr s) = Some s"
| "as_string _ = None"

fun as_bool :: "json \<Rightarrow> bool option" where
  "as_bool (JBool b) = Some b"
| "as_bool _ = None"

fun as_i64 :: "json \<Rightarrow> int option" where
  "as_i64 (JNum (PosInt n)) = (if n < 2 ^ 63 then Some (int n) else None)"
| "as_i64 (JNum (NegInt i)) = Some i"
| "as_i64 _ = None"

definition json_get :: "string \<Rightarrow> json \<Rightarrow> json option" where
  "json_get k v = Option.bind (as_object v) (\<lambda>m. map_of m k)"

definition get_str :: "string \<Rightarrow> json \<Rightarrow> string option" where
  "get_str k v = Option.bind (json_get k v) as_string"

definition get_i64 :: "string \<Rightarrow> json \<Rightarrow> int option" where
  "get_i64 k v = Option.bind (json_get k v) as_i64"

text \<open>\<open>Map::insert\<close> on an object: the member's value is replaced, or the member is added.\<close>

definition obj_insert :: "string \<Rightarrow> json \<Rightarrow> (string \<times> json) list \<Rightarrow> (string \<times> json) list" where
  "obj_insert k v m = (if k \<in> fst ` set m then map (\<lambda>(k', v'). if k' = k then (k, v) else (k', v')) m
                       else m @ [(k, v)])"

lemma map_of_obj_insert: "map_of (obj_insert k v m) = (map_of m)(k \<mapsto> v)"
proof (cases "k \<in> fst ` set m")
  case True
  then have "map_of (map (\<lambda>(k', v'). if k' = k then (k, v) else (k', v')) m) = (map_of m)(k \<mapsto> v)"
  proof (induction m)
    case Nil
    then show ?case by simp
  next
    case (Cons a m)
    obtain k' v' where a: "a = (k', v')" by (cases a)
    have idem: "k \<notin> fst ` set m \<Longrightarrow> map (\<lambda>(k', v'). if k' = k then (k, v) else (k', v')) m = m"
      by (rule map_idI) force
    show ?case
      using Cons a idem by (cases "k \<in> fst ` set m") (auto simp: fun_eq_iff)
  qed
  with True show ?thesis by (simp add: obj_insert_def)
next
  case False
  then have "map_of m k = None" by (simp add: map_of_eq_None_iff)
  with False show ?thesis
    by (auto simp: obj_insert_def fun_eq_iff map_add_def split: option.splits)
qed

lemma json_get_simps [simp]:
  "json_get k (JObj m) = map_of m k"
  "json_get k JNull = None"
  by (simp_all add: json_get_def)

text \<open>The strings that occur as values in a document, at any depth.\<close>

fun json_strings :: "json \<Rightarrow> string list" where
  "json_strings (JStr s) = [s]"
| "json_strings (JArr items) = concat (map json_strings items)"
| "json_strings (JObj m) = concat (map (\<lambda>(_, v). json_strings v) m)"
| "json_strings _ = []"

end
