(* ===== verification/Identifiers.thy ===== *)
theory Identifiers
  imports Json "HOL-Library.Char_ord" "HOL-Library.List_Lexorder"
begin

text \<open>
  The typed identifiers of \<open>argus-domain\<close>: the string grammar of \<open>validate.rs\<close>, the
  \<open>CapabilityId\<close> and \<open>ResourceId\<close> newtypes of \<open>id.rs\<close> with their validating constructors,
  the capability vocabulary, and the error type of \<open>error.rs\<close>. The lemmas show that a
  constructed identifier satisfies its grammar and that a resource identifier is read back from
  its textual form.
\<close>

section \<open>The grammar\<close>

definition is_kind :: "string \<Rightarrow> bool" where
  "is_kind kind =
     (case kind of [] \<Rightarrow> False
      | c # cs \<Rightarrow> is_ascii_lowercase c \<and>
          list_all (\<lambda>c. is_ascii_lowercase c \<or> is_ascii_digit c \<or> c = CHR ''-'') cs)"

definition is_segment :: "string \<Rightarrow> bool" where
  "is_segment segment =
     (case segment of [] \<Rightarrow> False
      | c # cs \<Rightarrow> is_ascii_lowercase c \<and>
          list_all (\<lambda>c. is_ascii_lowercase c \<or> is_ascii_digit c \<or> c = CHR ''-'' \<or> c = CHR ''_'') cs)"

definition is_dotted_path :: "string \<Rightarrow> bool" where
  "is_dotted_path path =
     (let segments = split_on (CHR ''.'') path
      in length segments \<ge> 2 \<and> list_all is_segment segments)"

lemma is_kind_no_colon: "is_kind k \<Longrightarrow> CHR '':'' \<notin> set k"
  by (auto simp: is_kind_def char_class_defs list_all_iff split: list.splits)

lemma is_segment_not_Nil: "is_segment s \<Longrightarrow> s \<noteq> []"
  by (auto simp: is_segment_def)

section \<open>Errors\<close>

datatype os_privilege =
    LinuxCapability string
  | Namespace string
  | Seccomp string
  | Landlock

datatype domain_error =
    InvalidResourceId string
  | InvalidCapabilityId string
  | InvalidEventType string
  | ConfidenceOutOfRange float_val
  | InvalidPrediction string
  | InvalidChange string
  | InvalidPluginManifest string
  | DuplicateCapability string
  | UndeclaredPrivileges string
  | UngrantedPrivileges string "os_privilege list"

section \<open>Capability identifiers\<close>

datatype capability_id = CapabilityId (as_str: string)

definition capability_id_new :: "string \<Rightarrow> domain_error + capability_id" where
  "capability_id_new path =
     (if \<not> is_dotted_path path then Inl (InvalidCapabilityId path) else Inr (CapabilityId path))"

definition valid_capability :: "capability_id \<Rightarrow> bool" where
  "valid_capability c = is_dotted_path (as_str c)"

lemma capability_id_new_valid: "capability_id_new p = Inr c \<Longrightarrow> valid_capability c \<and> as_str c = p"
  by (auto simp: capability_id_new_def valid_capability_def split: if_splits)

lemma capability_reparse: "valid_capability c \<Longrightarrow> capability_id_new (as_str c) = Inr c"
  by (simp add: capability_id_new_def valid_capability_def)

text \<open>The derived order of the newtype (\<open>PartialOrd, Ord\<close>): the order of the strings.\<close>

instantiation capability_id :: linorder
begin

definition less_eq_capability_id :: "capability_id \<Rightarrow> capability_id \<Rightarrow> bool" where
  "less_eq_capability_id a b = (as_str a \<le> as_str b)"

definition less_capability_id :: "capability_id \<Rightarrow> capability_id \<Rightarrow> bool" where
  "less_capability_id a b = (as_str a < as_str b)"

instance
  by standard (auto simp: less_eq_capability_id_def less_capability_id_def capability_id.expand)

end

text \<open>The vocabulary: one constant per capability the runtime knows.\<close>

definition HOST_STATUS_READ :: string where [cap_ids]: "HOST_STATUS_READ = ''host.status.read''"
definition ARGUS_HEALTH_READ :: string where [cap_ids]: "ARGUS_HEALTH_READ = ''argus.health.read''"
definition ARGUS_CONFIG_READ :: string where [cap_ids]: "ARGUS_CONFIG_READ = ''argus.config.read''"
definition ARGUS_PLUGINS_LIST :: string where [cap_ids]: "ARGUS_PLUGINS_LIST = ''argus.plugins.list''"
definition HOST_SERVICE_RESTART :: string where [cap_ids]: "HOST_SERVICE_RESTART = ''host.service.restart''"
definition HOST_SERVICE_STOP :: string where [cap_ids]: "HOST_SERVICE_STOP = ''host.service.stop''"
definition HOST_SERVICE_START :: string where [cap_ids]: "HOST_SERVICE_START = ''host.service.start''"
definition HOST_PROCESS_SIGNAL :: string where [cap_ids]: "HOST_PROCESS_SIGNAL = ''host.process.signal''"
definition CONTAINER_RESTART :: string where [cap_ids]: "CONTAINER_RESTART = ''container.restart''"
definition HOST_CGROUP_FREEZE :: string where [cap_ids]: "HOST_CGROUP_FREEZE = ''host.cgroup.freeze''"
definition HOST_CGROUP_THAW :: string where [cap_ids]: "HOST_CGROUP_THAW = ''host.cgroup.thaw''"
definition HOST_MEMORY_RECLAIM :: string where [cap_ids]: "HOST_MEMORY_RECLAIM = ''host.memory.reclaim''"
definition HOST_JOURNAL_VACUUM :: string where [cap_ids]: "HOST_JOURNAL_VACUUM = ''host.journal.vacuum''"
definition K8S_CLUSTER_READ :: string where [cap_ids]: "K8S_CLUSTER_READ = ''k8s.cluster.read''"
definition K8S_NODE_READ :: string where [cap_ids]: "K8S_NODE_READ = ''k8s.node.read''"
definition K8S_POD_READ :: string where [cap_ids]: "K8S_POD_READ = ''k8s.pod.read''"
definition K8S_DEPLOYMENT_READ :: string where [cap_ids]: "K8S_DEPLOYMENT_READ = ''k8s.deployment.read''"
definition K8S_POD_RESTART :: string where [cap_ids]: "K8S_POD_RESTART = ''k8s.pod.restart''"
definition K8S_POD_DELETE :: string where [cap_ids]: "K8S_POD_DELETE = ''k8s.pod.delete''"
definition K8S_DEPLOYMENT_RESTART :: string where [cap_ids]: "K8S_DEPLOYMENT_RESTART = ''k8s.deployment.restart''"
definition K8S_DEPLOYMENT_ROLLBACK :: string where [cap_ids]: "K8S_DEPLOYMENT_ROLLBACK = ''k8s.deployment.rollback''"
definition K8S_WORKLOAD_SCALE :: string where [cap_ids]: "K8S_WORKLOAD_SCALE = ''k8s.workload.scale''"
definition K8S_NODE_CORDON :: string where [cap_ids]: "K8S_NODE_CORDON = ''k8s.node.cordon''"
definition K8S_NODE_UNCORDON :: string where [cap_ids]: "K8S_NODE_UNCORDON = ''k8s.node.uncordon''"
definition K8S_JOB_CLEANUP :: string where [cap_ids]: "K8S_JOB_CLEANUP = ''k8s.job.cleanup''"
definition K8S_NODE_DRAIN :: string where [cap_ids]: "K8S_NODE_DRAIN = ''k8s.node.drain''"
definition K8S_WORKLOAD_RESCHEDULE :: string where [cap_ids]: "K8S_WORKLOAD_RESCHEDULE = ''k8s.workload.reschedule''"

definition capability_vocabulary :: "string list" where
  "capability_vocabulary =
     [HOST_STATUS_READ, ARGUS_HEALTH_READ, ARGUS_CONFIG_READ, ARGUS_PLUGINS_LIST,
      HOST_SERVICE_RESTART, HOST_SERVICE_STOP, HOST_SERVICE_START,
      HOST_PROCESS_SIGNAL, CONTAINER_RESTART, HOST_CGROUP_FREEZE, HOST_CGROUP_THAW,
      HOST_MEMORY_RECLAIM, HOST_JOURNAL_VACUUM,
      K8S_CLUSTER_READ, K8S_NODE_READ, K8S_POD_READ, K8S_DEPLOYMENT_READ,
      K8S_POD_RESTART, K8S_POD_DELETE, K8S_DEPLOYMENT_RESTART, K8S_DEPLOYMENT_ROLLBACK,
      K8S_WORKLOAD_SCALE, K8S_NODE_CORDON, K8S_NODE_UNCORDON, K8S_JOB_CLEANUP,
      K8S_NODE_DRAIN, K8S_WORKLOAD_RESCHEDULE]"

text \<open>Every literal identifier parses, so the \<open>expect\<close> of each \<open>CapabilityId::new\<close> on one holds.\<close>

lemma vocabulary_valid: "list_all is_dotted_path capability_vocabulary"
  by (simp add: capability_vocabulary_def cap_ids is_dotted_path_def is_segment_def char_class_defs)

lemma vocabulary_distinct: "distinct capability_vocabulary"
  unfolding capability_vocabulary_def cap_ids by simp

text \<open>Whether a capability names an external MCP tool.\<close>

definition is_mcp_capability :: "capability_id \<Rightarrow> bool" where
  "is_mcp_capability c = starts_with ''mcp.'' (as_str c)"

lemma vocabulary_not_mcp: "s \<in> set capability_vocabulary \<Longrightarrow> \<not> is_mcp_capability (CapabilityId s)"
  by (auto simp: capability_vocabulary_def cap_ids is_mcp_capability_def)

section \<open>Resource identifiers\<close>

datatype resource_id = ResourceId (resource_str: string)

definition resource_id_new :: "string \<Rightarrow> string \<Rightarrow> domain_error + resource_id" where
  "resource_id_new kind identifier =
     (let valid = is_kind kind \<and> identifier \<noteq> [] \<and> \<not> list_ex is_control identifier
                  \<and> \<not> list_ex is_whitespace identifier
      in if \<not> valid then Inl (InvalidResourceId (kind @ '':'' @ identifier))
         else Inr (ResourceId (kind @ '':'' @ identifier)))"

definition resource_kind :: "resource_id \<Rightarrow> string" where
  "resource_kind r = (case split_once (CHR '':'') (resource_str r) of Some (k, _) \<Rightarrow> k | None \<Rightarrow> resource_str r)"

definition resource_identifier :: "resource_id \<Rightarrow> string" where
  "resource_identifier r = (case split_once (CHR '':'') (resource_str r) of Some (_, i) \<Rightarrow> i | None \<Rightarrow> resource_str r)"

lemma resource_id_new_Inr:
  assumes "resource_id_new kind identifier = Inr r"
  shows "is_kind kind" "identifier \<noteq> []" "resource_str r = kind @ '':'' @ identifier"
  using assms by (auto simp: resource_id_new_def Let_def split: if_splits)

section \<open>Properties\<close>

text \<open>
  A resource identifier that is accepted splits back into the kind and the identifier it was
  built from, even when the identifier itself contains colons; and a capability identifier is
  accepted exactly when it is a dotted path, and then reads back unchanged.
\<close>

theorem identifiers_round_trip:
  "(case resource_id_new kind identifier of
      Inr r \<Rightarrow> resource_kind r = kind \<and> resource_identifier r = identifier
    | Inl e \<Rightarrow> e = InvalidResourceId (kind @ '':'' @ identifier))
   \<and> (case capability_id_new path of
        Inr c \<Rightarrow> is_dotted_path path \<and> as_str c = path | Inl e \<Rightarrow> \<not> is_dotted_path path)"
  by (auto simp: resource_id_new_def Let_def resource_kind_def resource_identifier_def is_kind_no_colon
      split_once_append [simplified] capability_id_new_def split: sum.splits)

end
