(* ===== verification/Key_Maps.thy ===== *)
theory Key_Maps
  imports Argus_Prelude
begin

text \<open>
  The keyed collections of the Rust standard library that the components store their state in.
  A \<open>HashMap\<close> is a partial function; a \<open>BTreeMap\<close>, whose iteration order is observable, is an
  association list in strictly increasing key order. The locale \<open>key_map\<close> is the interface a
  component relies on; it is interpreted on both representations.
\<close>

locale key_map =
  fixes insert_key :: "'k \<Rightarrow> 'v \<Rightarrow> 'm \<Rightarrow> 'm"
    and remove_key :: "'k \<Rightarrow> 'm \<Rightarrow> 'm"
    and lookup_key :: "'m \<Rightarrow> 'k \<Rightarrow> 'v option"
    and well_formed :: "'m \<Rightarrow> bool"
  assumes lookup_insert: "well_formed m \<Longrightarrow> lookup_key (insert_key k v m) = (lookup_key m)(k \<mapsto> v)"
    and lookup_remove: "well_formed m \<Longrightarrow> lookup_key (remove_key k m) = (lookup_key m)(k := None)"
    and well_formed_insert: "well_formed m \<Longrightarrow> well_formed (insert_key k v m)"
    and well_formed_remove: "well_formed m \<Longrightarrow> well_formed (remove_key k m)"
begin

lemma lookup_insert_same: "well_formed m \<Longrightarrow> lookup_key (insert_key k v m) k = Some v"
  by (simp add: lookup_insert)

lemma lookup_insert_other: "well_formed m \<Longrightarrow> k' \<noteq> k \<Longrightarrow> lookup_key (insert_key k v m) k' = lookup_key m k'"
  by (simp add: lookup_insert)

lemma well_formed_remove_all: "well_formed m \<Longrightarrow> well_formed (fold remove_key ks m)"
  by (induction ks arbitrary: m) (simp_all add: well_formed_remove)

lemma lookup_remove_all:
  "well_formed m \<Longrightarrow> lookup_key (fold remove_key ks m) k = (if k \<in> set ks then None else lookup_key m k)"
  by (induction ks arbitrary: m) (auto simp: well_formed_remove lookup_remove)

end

section \<open>Hash maps\<close>

definition hm_insert :: "'k \<Rightarrow> 'v \<Rightarrow> ('k \<rightharpoonup> 'v) \<Rightarrow> ('k \<rightharpoonup> 'v)" where
  "hm_insert k v m = m(k \<mapsto> v)"

definition hm_remove :: "'k \<Rightarrow> ('k \<rightharpoonup> 'v) \<Rightarrow> ('k \<rightharpoonup> 'v)" where
  "hm_remove k m = m(k := None)"

interpretation hm: key_map hm_insert hm_remove "\<lambda>m. m" "\<lambda>_. True"
  by unfold_locales (simp_all add: hm_insert_def hm_remove_def)

section \<open>Ordered maps\<close>

type_synonym ('k, 'v) btree = "('k \<times> 'v) list"

fun bt_insert :: "'k::linorder \<Rightarrow> 'v \<Rightarrow> ('k, 'v) btree \<Rightarrow> ('k, 'v) btree" where
  "bt_insert k v [] = [(k, v)]"
| "bt_insert k v ((k', v') # m) =
     (if k < k' then (k, v) # (k', v') # m
      else if k = k' then (k, v) # m
      else (k', v') # bt_insert k v m)"

definition bt_remove :: "'k \<Rightarrow> ('k, 'v) btree \<Rightarrow> ('k, 'v) btree" where
  "bt_remove k m = filter (\<lambda>p. fst p \<noteq> k) m"

definition bt_wf :: "('k::linorder, 'v) btree \<Rightarrow> bool" where
  "bt_wf m = sorted_wrt (<) (map fst m)"

lemma set_bt_insert: "fst ` set (bt_insert k v m) = insert k (fst ` set m)"
  by (induction k v m rule: bt_insert.induct) auto

lemma bt_wf_insert: "bt_wf m \<Longrightarrow> bt_wf (bt_insert k v m)"
proof (induction k v m rule: bt_insert.induct)
  case (2 k v k' v' m)
  then show ?case
    using set_bt_insert [of k v m] by (force simp: bt_wf_def)
qed (simp add: bt_wf_def)

lemma map_of_bt_insert: "bt_wf m \<Longrightarrow> map_of (bt_insert k v m) = (map_of m)(k \<mapsto> v)"
proof (induction k v m rule: bt_insert.induct)
  case (2 k v k' v' m)
  then show ?case
    by (auto simp: bt_wf_def fun_eq_iff)
qed (simp add: bt_wf_def)

lemma map_of_bt_remove: "map_of (bt_remove k m) = (map_of m)(k := None)"
  by (induction m) (auto simp: bt_remove_def fun_eq_iff)

lemma bt_wf_remove: "bt_wf m \<Longrightarrow> bt_wf (bt_remove k m)"
  by (induction m) (auto simp: bt_wf_def bt_remove_def)

interpretation bt: key_map bt_insert bt_remove map_of bt_wf
  by unfold_locales (simp_all add: map_of_bt_insert map_of_bt_remove bt_wf_insert bt_wf_remove)

lemma bt_wf_distinct: "bt_wf m \<Longrightarrow> distinct (map fst m)"
  by (induction m) (auto simp: bt_wf_def)

lemma bt_wf_mem_iff: "bt_wf m \<Longrightarrow> (k, v) \<in> set m \<longleftrightarrow> map_of m k = Some v"
  by (simp add: bt_wf_distinct)

end
