(* ===== verification/Capability.thy ===== *)
theory Capability
  imports Identifiers Key_Maps
begin

text \<open>
  Capability descriptors and their registry (\<open>argus-domain\<close>, \<open>capability.rs\<close> and
  \<open>registry.rs\<close>), the risk vocabulary, privilege declarations, and the schema check
  \<open>input_matches\<close> both dispatch paths share. The lemmas show that registration fails closed
  and keeps the registry's invariant, and what an accepted input is guaranteed to look like.
\<close>

section \<open>Risk vocabulary\<close>

datatype risk_class = Read | LowRisk | Controlled | HighRisk | Destructive

datatype reversibility = NotReversible | Reversible | PartiallyReversible

datatype blast_radius = RadiusNone | RadiusHost | RadiusEnvironment | RadiusFleet

section \<open>Privileges\<close>

type_synonym privilege_declaration = "os_privilege list"

definition missing_from :: "privilege_declaration \<Rightarrow> privilege_declaration \<Rightarrow> os_privilege list" where
  "missing_from required granted = filter (\<lambda>p. p \<notin> set granted) required"

definition is_satisfied_by :: "privilege_declaration \<Rightarrow> privilege_declaration \<Rightarrow> bool" where
  "is_satisfied_by required granted = (missing_from required granted = [])"

lemma is_satisfied_by_iff: "is_satisfied_by required granted \<longleftrightarrow> set required \<subseteq> set granted"
  by (auto simp: is_satisfied_by_def missing_from_def filter_empty_conv)

section \<open>Descriptors\<close>

type_synonym version = "nat \<times> nat \<times> nat"

record capability_descriptor =
  cd_id :: capability_id
  cd_provider :: string
  cd_operation :: string
  cd_risk_class :: risk_class
  cd_version :: version
  cd_input_schema :: json
  cd_output_schema :: json
  cd_reversibility :: reversibility
  cd_blast_radius :: "blast_radius option"
  cd_requires_approval :: bool
  cd_timeout_seconds :: "nat option"
  cd_privileged :: bool
  cd_privileges :: privilege_declaration

definition descriptor_new ::
  "capability_id \<Rightarrow> string \<Rightarrow> string \<Rightarrow> risk_class \<Rightarrow> version \<Rightarrow> json \<Rightarrow> json \<Rightarrow> reversibility
   \<Rightarrow> capability_descriptor" where
  "descriptor_new i provider operation risk version input output rv =
     \<lparr> cd_id = i, cd_provider = provider, cd_operation = operation, cd_risk_class = risk,
       cd_version = version, cd_input_schema = input, cd_output_schema = output,
       cd_reversibility = rv, cd_blast_radius = None, cd_requires_approval = False,
       cd_timeout_seconds = None, cd_privileged = False, cd_privileges = [] \<rparr>"

definition with_blast_radius :: "blast_radius \<Rightarrow> capability_descriptor \<Rightarrow> capability_descriptor" where
  "with_blast_radius r d = d\<lparr> cd_blast_radius := Some r \<rparr>"

definition requiring_approval_if :: "bool \<Rightarrow> capability_descriptor \<Rightarrow> capability_descriptor" where
  "requiring_approval_if b d = d\<lparr> cd_requires_approval := b \<rparr>"

definition with_timeout_seconds :: "nat \<Rightarrow> capability_descriptor \<Rightarrow> capability_descriptor" where
  "with_timeout_seconds n d = d\<lparr> cd_timeout_seconds := Some n \<rparr>"

definition privileged_with :: "privilege_declaration \<Rightarrow> capability_descriptor \<Rightarrow> capability_descriptor" where
  "privileged_with ps d = d\<lparr> cd_privileged := True, cd_privileges := ps \<rparr>"

text \<open>The radius authorization uses: an undeclared radius counts as \<open>Host\<close>, never as \<open>None\<close>.\<close>

definition effective_blast_radius :: "capability_descriptor \<Rightarrow> blast_radius" where
  "effective_blast_radius d = (case cd_blast_radius d of Some r \<Rightarrow> r | None \<Rightarrow> RadiusHost)"

definition changes_the_host :: "capability_descriptor \<Rightarrow> bool" where
  "changes_the_host d = (effective_blast_radius d \<noteq> RadiusNone)"

lemma changes_the_host_iff: "\<not> changes_the_host d \<longleftrightarrow> cd_blast_radius d = Some RadiusNone"
  by (auto simp: changes_the_host_def effective_blast_radius_def split: option.splits)

section \<open>Input schemas\<close>

definition matches_kind :: "string \<Rightarrow> json \<Rightarrow> bool" where
  "matches_kind kind v =
     (if kind = ''object'' then (case v of JObj _ \<Rightarrow> True | _ \<Rightarrow> False)
      else if kind = ''array'' then (case v of JArr _ \<Rightarrow> True | _ \<Rightarrow> False)
      else if kind = ''string'' then (case v of JStr _ \<Rightarrow> True | _ \<Rightarrow> False)
      else if kind = ''integer'' then (case v of JNum (PosInt _) \<Rightarrow> True | JNum (NegInt _) \<Rightarrow> True | _ \<Rightarrow> False)
      else if kind = ''number'' then (case v of JNum _ \<Rightarrow> True | _ \<Rightarrow> False)
      else if kind = ''boolean'' then (case v of JBool _ \<Rightarrow> True | _ \<Rightarrow> False)
      else if kind = ''null'' then v = JNull
      else True)"

definition type_ok :: "(string \<times> json) list \<Rightarrow> json \<Rightarrow> bool" where
  "type_ok schema input =
     (case Option.bind (map_of schema ''type'') as_string of
        None \<Rightarrow> True | Some kind \<Rightarrow> matches_kind kind input)"

definition required_ok :: "(string \<times> json) list \<Rightarrow> (string \<times> json) list \<Rightarrow> bool" where
  "required_ok schema input =
     (case Option.bind (map_of schema ''required'') as_array of
        None \<Rightarrow> True
      | Some required \<Rightarrow> list_all (\<lambda>key. key \<in> fst ` set input) (filter_map as_string required))"

definition schema_properties :: "(string \<times> json) list \<Rightarrow> (string \<times> json) list option" where
  "schema_properties schema = Option.bind (map_of schema ''properties'') as_object"

definition additional_ok :: "(string \<times> json) list \<Rightarrow> (string \<times> json) list \<Rightarrow> bool" where
  "additional_ok schema input =
     (if Option.bind (map_of schema ''additionalProperties'') as_bool = Some False
      then (case schema_properties schema of
              None \<Rightarrow> input = []
            | Some declared \<Rightarrow> list_all (\<lambda>m. fst m \<in> fst ` set declared) input)
      else True)"

lemma size_map_of_less: "map_of m k = Some v \<Longrightarrow> size v < size (JObj m)"
proof -
  assume "map_of m k = Some v"
  then have "(k, v) \<in> set m" by (rule map_of_SomeD)
  then have "size v < Suc (size_list (size_prod (\<lambda>_. 0) size) m)"
    by (induction m) auto
  then show ?thesis by simp
qed

lemma size_property_less:
  "schema_properties schema = Some props \<Longrightarrow> (key, ps) \<in> set props \<Longrightarrow> size ps < size (JObj schema)"
proof -
  assume "schema_properties schema = Some props" and mem: "(key, ps) \<in> set props"
  then have p: "map_of schema ''properties'' = Some (JObj props)"
    by (auto simp: schema_properties_def bind_eq_Some_conv elim: as_object.elims)
  from mem have "size ps < size (JObj props)" by (induction props) auto
  with size_map_of_less [OF p] show ?thesis by simp
qed

text \<open>
  \<open>input_matches\<close>: the declared type, then for an object the required keys, the closed-world
  rule and every declared property recursively, for an array every item. Unknown constraints
  (\<open>enum\<close>, \<open>minimum\<close>) are ignored, as in the code.
\<close>

function input_matches :: "json \<Rightarrow> json \<Rightarrow> bool" where
  "input_matches schema input =
     (case schema of
        JObj sch \<Rightarrow>
          type_ok sch input \<and>
          (case input of
             JObj obj \<Rightarrow>
               required_ok sch obj \<and> additional_ok sch obj \<and>
               (case schema_properties sch of
                  None \<Rightarrow> True
                | Some props \<Rightarrow>
                    list_all (\<lambda>p. case map_of obj (fst p) of
                                    None \<Rightarrow> True | Some v \<Rightarrow> input_matches (snd p) v) props)
           | JArr items \<Rightarrow>
               (case map_of sch ''items'' of
                  None \<Rightarrow> True
                | Some item_schema \<Rightarrow> list_all (\<lambda>item. input_matches item_schema item) items)
           | _ \<Rightarrow> True)
      | _ \<Rightarrow> True)"
  by pat_completeness auto
termination
  by (relation "measure (\<lambda>(schema, _). size schema)")
    (auto dest: size_property_less size_map_of_less)

declare input_matches.simps [simp del]

lemma input_matches_object:
  "input_matches (JObj sch) (JObj obj) \<longleftrightarrow>
     type_ok sch (JObj obj) \<and> required_ok sch obj \<and> additional_ok sch obj \<and>
     (\<forall>props. schema_properties sch = Some props \<longrightarrow>
        (\<forall>(key, ps) \<in> set props. \<forall>v. map_of obj key = Some v \<longrightarrow> input_matches ps v))"
  by (subst input_matches.simps) (auto simp: list_all_iff split: option.splits)

section \<open>The registry\<close>

fun privilege_key :: "os_privilege \<Rightarrow> nat \<times> string" where
  "privilege_key (LinuxCapability s) = (0, s)"
| "privilege_key (Namespace s) = (1, s)"
| "privilege_key (Seccomp s) = (2, s)"
| "privilege_key Landlock = (3, [])"

lemma privilege_key_inject: "privilege_key a = privilege_key b \<longleftrightarrow> a = b"
  by (cases a; cases b) auto

instantiation os_privilege :: linorder
begin

definition less_eq_os_privilege :: "os_privilege \<Rightarrow> os_privilege \<Rightarrow> bool" where
  "less_eq_os_privilege a b =
     (fst (privilege_key a) < fst (privilege_key b) \<or>
      fst (privilege_key a) = fst (privilege_key b) \<and> snd (privilege_key a) \<le> snd (privilege_key b))"

definition less_os_privilege :: "os_privilege \<Rightarrow> os_privilege \<Rightarrow> bool" where
  "less_os_privilege a b = (a \<le> b \<and> \<not> b \<le> (a :: os_privilege))"

instance
proof
  fix x y z :: os_privilege
  show "x < y \<longleftrightarrow> x \<le> y \<and> \<not> y \<le> x" by (rule less_os_privilege_def)
  show "x \<le> x" by (simp add: less_eq_os_privilege_def)
  show "x \<le> y \<Longrightarrow> y \<le> z \<Longrightarrow> x \<le> z" by (auto simp: less_eq_os_privilege_def)
  show "x \<le> y \<Longrightarrow> y \<le> x \<Longrightarrow> x = y"
    by (auto simp: less_eq_os_privilege_def prod_eq_iff simp flip: privilege_key_inject)
  show "x \<le> y \<or> y \<le> x" by (auto simp: less_eq_os_privilege_def)
qed

end

record capability_registry =
  cr_descriptors :: "(capability_id, capability_descriptor) btree"
  cr_sandbox :: "privilege_declaration option"

definition registry_new :: capability_registry where
  "registry_new = \<lparr> cr_descriptors = [], cr_sandbox = None \<rparr>"

definition registry_with_sandbox :: "privilege_declaration \<Rightarrow> capability_registry" where
  "registry_with_sandbox sandbox = \<lparr> cr_descriptors = [], cr_sandbox = Some sandbox \<rparr>"

definition registry_get :: "capability_registry \<Rightarrow> capability_id \<Rightarrow> capability_descriptor option" where
  "registry_get r i = map_of (cr_descriptors r) i"

definition registry_register ::
  "capability_descriptor \<Rightarrow> capability_registry \<Rightarrow> domain_error + capability_registry" where
  "registry_register d r =
     (let i = cd_id d;
          store = Inr (r\<lparr> cr_descriptors := bt_insert i d (cr_descriptors r) \<rparr>)
      in if map_of (cr_descriptors r) i \<noteq> None then Inl (DuplicateCapability (as_str i))
         else if cd_privileged d \<and> cd_privileges d = [] then Inl (UndeclaredPrivileges (as_str i))
         else (case cr_sandbox r of
                 Some sandbox \<Rightarrow>
                   (let missing = missing_from (cd_privileges d) sandbox
                    in if missing \<noteq> [] then Inl (UngrantedPrivileges (as_str i) missing) else store)
               | None \<Rightarrow> store))"

definition unregister_server :: "string \<Rightarrow> capability_registry \<Rightarrow> capability_id list \<times> capability_registry" where
  "unregister_server server r =
     (let pfx = ''mcp.'' @ server @ ''.'';
          removed = filter (\<lambda>i. starts_with pfx (as_str i)) (map fst (cr_descriptors r))
      in (removed, r\<lparr> cr_descriptors := fold bt_remove removed (cr_descriptors r) \<rparr>))"

definition declared_privileges :: "capability_registry \<Rightarrow> privilege_declaration" where
  "declared_privileges r =
     remdups_adj (sort (concat (map (\<lambda>m. cd_privileges (snd m)) (cr_descriptors r))))"

text \<open>
  The invariant: one entry per identifier, in order, filed under its own identifier; a
  privileged entry declares its privileges; and none exceeds the sandbox.
\<close>

definition entry_ok :: "privilege_declaration option \<Rightarrow> capability_descriptor \<Rightarrow> bool" where
  "entry_ok sandbox d \<longleftrightarrow>
     (cd_privileged d \<longrightarrow> cd_privileges d \<noteq> []) \<and>
     (case sandbox of None \<Rightarrow> True | Some granted \<Rightarrow> is_satisfied_by (cd_privileges d) granted)"

definition registry_wf :: "capability_registry \<Rightarrow> bool" where
  "registry_wf r \<longleftrightarrow>
     bt_wf (cr_descriptors r) \<and>
     (\<forall>i d. registry_get r i = Some d \<longrightarrow> cd_id d = i \<and> entry_ok (cr_sandbox r) d)"

lemma registry_wf_new [simp]: "registry_wf registry_new" "registry_wf (registry_with_sandbox sb)"
  by (simp_all add: registry_wf_def registry_new_def registry_with_sandbox_def registry_get_def bt_wf_def)

lemma registry_register_Inr:
  "registry_register d r = Inr r' \<longleftrightarrow>
     registry_get r (cd_id d) = None \<and> entry_ok (cr_sandbox r) d \<and>
     r' = r\<lparr> cr_descriptors := bt_insert (cd_id d) d (cr_descriptors r) \<rparr>"
  by (auto simp: registry_register_def Let_def entry_ok_def registry_get_def is_satisfied_by_def
      split: option.splits)

lemma registry_get_register:
  "registry_wf r \<Longrightarrow> registry_register d r = Inr r' \<Longrightarrow> registry_get r' = (registry_get r)(cd_id d \<mapsto> d)"
  unfolding registry_register_Inr
  by (auto simp: registry_get_def registry_wf_def fun_eq_iff bt.lookup_insert)

lemma registry_wf_register:
  assumes wf: "registry_wf r" and reg: "registry_register d r = Inr r'"
  shows "registry_wf r'"
proof -
  have "bt_wf (cr_descriptors r')" "cr_sandbox r' = cr_sandbox r" "entry_ok (cr_sandbox r) d"
    using reg wf by (auto simp: registry_register_Inr registry_wf_def bt.well_formed_insert)
  then show ?thesis
    using wf by (auto simp: registry_wf_def registry_get_register [OF wf reg])
qed

lemma registry_get_unregister:
  assumes "registry_wf r"
  shows "registry_get (snd (unregister_server server r)) i =
           (if starts_with (''mcp.'' @ server @ ''.'') (as_str i) then None else registry_get r i)"
proof -
  have wf: "bt_wf (cr_descriptors r)" using assms by (simp add: registry_wf_def)
  have "i \<notin> fst ` set (cr_descriptors r) \<Longrightarrow> registry_get r i = None"
    by (simp add: registry_get_def map_of_eq_None_iff)
  then show ?thesis
    using bt.lookup_remove_all [OF wf] by (auto simp: unregister_server_def Let_def registry_get_def)
qed

lemma registry_wf_unregister: "registry_wf r \<Longrightarrow> registry_wf (snd (unregister_server server r))"
  using registry_get_unregister [of r server] bt.well_formed_remove_all [of "cr_descriptors r"]
  by (auto simp: registry_wf_def unregister_server_def Let_def split: if_splits)

lemma set_declared_privileges:
  "registry_wf r \<Longrightarrow>
   p \<in> set (declared_privileges r) \<longleftrightarrow> (\<exists>i d. registry_get r i = Some d \<and> p \<in> set (cd_privileges d))"
  by (force simp: declared_privileges_def registry_wf_def registry_get_def simp flip: bt_wf_mem_iff)

lemma strict_sorted_remdups_adj: "sorted xs \<Longrightarrow> sorted_wrt (<) (remdups_adj xs)"
  by (induction xs rule: remdups_adj.induct) (auto simp: order_less_le)

section \<open>Properties\<close>

datatype registry_op = Register capability_descriptor | UnregisterServer string

text \<open>A rejected registration leaves the registry as it was.\<close>

fun registry_step :: "registry_op \<Rightarrow> capability_registry \<Rightarrow> capability_registry" where
  "registry_step (Register d) r = (case registry_register d r of Inl _ \<Rightarrow> r | Inr r' \<Rightarrow> r')"
| "registry_step (UnregisterServer server) r = snd (unregister_server server r)"

lemma registry_wf_step: "registry_wf r \<Longrightarrow> registry_wf (registry_step op r)"
  by (cases op) (auto simp: registry_wf_register registry_wf_unregister split: sum.splits)

lemma registry_wf_run: "registry_wf r \<Longrightarrow> registry_wf (fold registry_step ops r)"
  by (induction ops arbitrary: r) (simp_all add: registry_wf_step)

lemma registry_sandbox_run: "cr_sandbox (fold registry_step ops r) = cr_sandbox r"
proof (induction ops arbitrary: r)
  case (Cons op ops)
  have "cr_sandbox (registry_step op r) = cr_sandbox r"
    by (cases op) (auto simp: unregister_server_def Let_def registry_register_Inr split: sum.splits)
  with Cons show ?case by simp
qed simp


abbreviation sample_descriptor :: capability_descriptor where
  "sample_descriptor \<equiv> privileged_with [Landlock]
     (descriptor_new (CapabilityId ''a.b'') ''p'' ''a.b'' LowRisk (0, 1, 0) JNull JNull Reversible)"


text \<open>
  Registering and removing do what they say: a registration that succeeds adds exactly its
  descriptor and was not present before, and removing an external server removes exactly the
  capabilities under its prefix and returns their identifiers.
\<close>

theorem registry_updates_exact:
  assumes "registry_wf r"
  shows "(case registry_register d r of
            Inr r' \<Rightarrow> registry_get r (cd_id d) = None \<and> registry_get r' = (registry_get r)(cd_id d \<mapsto> d)
          | Inl e \<Rightarrow> registry_get r (cd_id d) \<noteq> None \<or> \<not> entry_ok (cr_sandbox r) d)
       \<and> registry_get (snd (unregister_server server r)) i =
           (if starts_with (''mcp.'' @ server @ ''.'') (as_str i) then None else registry_get r i)
       \<and> (i \<in> set (fst (unregister_server server r)) \<longleftrightarrow>
            registry_get r i \<noteq> None \<and> starts_with (''mcp.'' @ server @ ''.'') (as_str i))"
proof -
  have "registry_register d r = Inl e \<Longrightarrow> registry_get r (cd_id d) \<noteq> None \<or> \<not> entry_ok (cr_sandbox r) d" for e
    using registry_register_Inr [of d r "r\<lparr> cr_descriptors := bt_insert (cd_id d) d (cr_descriptors r) \<rparr>"] by auto
  moreover have "i \<in> set (fst (unregister_server server r)) \<longleftrightarrow>
            registry_get r i \<noteq> None \<and> starts_with (''mcp.'' @ server @ ''.'') (as_str i)"
    by (auto simp: unregister_server_def Let_def registry_get_def map_of_eq_None_iff)
  ultimately show ?thesis
    using registry_get_unregister [OF assms] registry_get_register [OF assms]
    by (auto simp: registry_register_Inr split: sum.splits)
qed

theorem registry_updates_exact_witness:
  "registry_get (snd (unregister_server ''s'' registry_new)) (CapabilityId ''mcp.s.t'') = None"
  using registry_updates_exact [of registry_new sample_descriptor "''s''" "CapabilityId ''mcp.s.t''"] by simp

end
