(* ===== verification/Reasoning.thy ===== *)
theory Reasoning
  imports Capability
begin

text \<open>
  The typed output of the reasoning layer and the authorization contracts (\<open>argus-domain\<close>:
  \<open>reasoning.rs\<close>, \<open>autonomy.rs\<close>, \<open>authorization.rs\<close>, \<open>context.rs\<close>): autonomy levels and the
  promotion ladder, actions and plans with their wire form, the context hash an approval is
  bound to, and requests and decisions. The clock read \<open>decided_at\<close> of a decision and the random
  identifiers of records are audit data no operation reads back, and are left out.
\<close>

section \<open>Autonomy levels\<close>

datatype autonomy_mode =
  L0Observe | L1Explain | L2Recommend | L3Assisted | L4Autonomous | L5Adaptive

fun canonical_name :: "autonomy_mode \<Rightarrow> string" where
  "canonical_name L0Observe = ''l0_observe''"
| "canonical_name L1Explain = ''l1_explain''"
| "canonical_name L2Recommend = ''l2_recommend''"
| "canonical_name L3Assisted = ''l3_assisted''"
| "canonical_name L4Autonomous = ''l4_autonomous''"
| "canonical_name L5Adaptive = ''l5_adaptive''"

definition from_legacy_name :: "string \<Rightarrow> autonomy_mode option" where
  "from_legacy_name name =
     (if name = ''observe_only'' then Some L0Observe
      else if name = ''propose'' then Some L2Recommend
      else if name = ''assisted'' then Some L3Assisted
      else None)"

definition deserialize_mode :: "string \<Rightarrow> autonomy_mode option" where
  "deserialize_mode name =
     (case from_legacy_name name of Some mode \<Rightarrow> Some mode
      | None \<Rightarrow>
         if name = ''l0_observe'' then Some L0Observe
         else if name = ''l1_explain'' then Some L1Explain
         else if name = ''l2_recommend'' then Some L2Recommend
         else if name = ''l3_assisted'' then Some L3Assisted
         else if name = ''l4_autonomous'' then Some L4Autonomous
         else if name = ''l5_adaptive'' then Some L5Adaptive
         else None)"

fun rank :: "autonomy_mode \<Rightarrow> nat" where
  "rank L0Observe = 0"
| "rank L1Explain = 1"
| "rank L2Recommend = 2"
| "rank L3Assisted = 3"
| "rank L4Autonomous = 4"
| "rank L5Adaptive = 5"

definition lower_of :: "autonomy_mode \<Rightarrow> autonomy_mode \<Rightarrow> autonomy_mode" where
  "lower_of a b = (if rank a \<le> rank b then a else b)"

fun next_rung :: "autonomy_mode \<Rightarrow> autonomy_mode option" where
  "next_rung L0Observe = Some L2Recommend"
| "next_rung L1Explain = Some L2Recommend"
| "next_rung L2Recommend = Some L3Assisted"
| "next_rung L3Assisted = Some L4Autonomous"
| "next_rung L4Autonomous = None"
| "next_rung L5Adaptive = None"

fun demote_rung :: "autonomy_mode \<Rightarrow> autonomy_mode" where
  "demote_rung L3Assisted = L2Recommend"
| "demote_rung L4Autonomous = L3Assisted"
| "demote_rung L5Adaptive = L3Assisted"
| "demote_rung _ = L0Observe"

lemma rank_inject: "rank a = rank b \<longleftrightarrow> a = b"
  by (cases a; cases b) simp_all

text \<open>Levels are ordered by rank, so the effective level is the minimum of the library's order.\<close>

instantiation autonomy_mode :: linorder
begin

definition less_eq_autonomy_mode :: "autonomy_mode \<Rightarrow> autonomy_mode \<Rightarrow> bool" where
  "less_eq_autonomy_mode a b = (rank a \<le> rank b)"

definition less_autonomy_mode :: "autonomy_mode \<Rightarrow> autonomy_mode \<Rightarrow> bool" where
  "less_autonomy_mode a b = (rank a < rank b)"

instance
  by standard (auto simp: less_eq_autonomy_mode_def less_autonomy_mode_def rank_inject)

end

lemma lower_of_min: "lower_of a b = min a b"
  by (simp add: lower_of_def min_def less_eq_autonomy_mode_def)

lemma rank_le_5: "rank a \<le> 5"
  by (cases a) simp_all

lemma rank_le_0 [simp]: "rank a = 0 \<longleftrightarrow> a = L0Observe"
  by (cases a) simp_all

lemma demote_rung_less: "0 < rank a \<Longrightarrow> rank (demote_rung a) < rank a"
  by (cases a) simp_all

lemma next_rung_less: "next_rung a = Some b \<Longrightarrow> rank a < rank b \<and> rank b \<le> 4"
  by (cases a) auto

section \<open>Actions and plans\<close>

record action =
  ac_capability :: capability_id
  ac_resource :: "resource_id option"
  ac_arguments :: json

datatype plan_status =
    Proposed | Approved | Denied | Superseded | Executing | Completed | Failed
  | RollingBack | RolledBack | NeedsManual | AwaitingApproval

record plan_step =
  ps_action :: action
  ps_rollback :: "action option"

record plan =
  pl_objective :: string
  pl_steps :: "plan_step list"
  pl_preconditions :: "string list"
  pl_expected_outcomes :: "string list"
  pl_blast_radius :: blast_radius
  pl_confidence :: float_val
  pl_status :: plan_status
  pl_runbook :: "string option"

definition is_validation_failure :: "plan_status \<Rightarrow> bool" where
  "is_validation_failure status = (status = RolledBack \<or> status = NeedsManual)"

text \<open>The wire form a plan is read from: \<open>steps\<close>, or the older flat list of \<open>actions\<close>.\<close>

record plan_wire =
  pw_objective :: string
  pw_steps :: "plan_step list option"
  pw_actions :: "action list option"
  pw_preconditions :: "string list"
  pw_expected_outcomes :: "string list"
  pw_blast_radius :: blast_radius
  pw_confidence :: float_val
  pw_status :: plan_status
  pw_runbook :: "string option"

definition plan_of_wire :: "plan_wire \<Rightarrow> string + plan" where
  "plan_of_wire w =
     (let steps = (case (pw_steps w, pw_actions w) of
                     (Some steps, _) \<Rightarrow> Inr steps
                   | (None, Some actions) \<Rightarrow>
                       Inr (map (\<lambda>a. \<lparr> ps_action = a, ps_rollback = None \<rparr>) actions)
                   | (None, None) \<Rightarrow> Inl ''plan must carry `steps` (or the legacy `actions`)'')
      in case steps of Inl e \<Rightarrow> Inl e
         | Inr steps \<Rightarrow>
             Inr \<lparr> pl_objective = pw_objective w, pl_steps = steps,
                   pl_preconditions = pw_preconditions w,
                   pl_expected_outcomes = pw_expected_outcomes w,
                   pl_blast_radius = pw_blast_radius w, pl_confidence = pw_confidence w,
                   pl_status = pw_status w, pl_runbook = pw_runbook w \<rparr>)"

text \<open>The derived \<open>Serialize\<close>: the document \<open>serde_json::to_value\<close> builds from a plan.\<close>

fun blast_radius_name :: "blast_radius \<Rightarrow> string" where
  "blast_radius_name RadiusNone = ''none''"
| "blast_radius_name RadiusHost = ''host''"
| "blast_radius_name RadiusEnvironment = ''environment''"
| "blast_radius_name RadiusFleet = ''fleet''"

fun plan_status_name :: "plan_status \<Rightarrow> string" where
  "plan_status_name Proposed = ''proposed''"
| "plan_status_name Approved = ''approved''"
| "plan_status_name Denied = ''denied''"
| "plan_status_name Superseded = ''superseded''"
| "plan_status_name Executing = ''executing''"
| "plan_status_name Completed = ''completed''"
| "plan_status_name Failed = ''failed''"
| "plan_status_name RollingBack = ''rolling_back''"
| "plan_status_name RolledBack = ''rolled_back''"
| "plan_status_name NeedsManual = ''needs_manual''"
| "plan_status_name AwaitingApproval = ''awaiting_approval''"

definition action_to_value :: "action \<Rightarrow> json" where
  "action_to_value a =
     JObj [(''arguments'', ac_arguments a), (''capability'', JStr (as_str (ac_capability a))),
           (''resource'', case ac_resource a of None \<Rightarrow> JNull | Some r \<Rightarrow> JStr (resource_str r))]"

definition step_to_value :: "plan_step \<Rightarrow> json" where
  "step_to_value s =
     JObj [(''action'', action_to_value (ps_action s)),
           (''rollback'', case ps_rollback s of None \<Rightarrow> JNull | Some r \<Rightarrow> action_to_value r)]"

definition plan_to_value :: "plan \<Rightarrow> json" where
  "plan_to_value p =
     JObj ([(''blast_radius'', JStr (blast_radius_name (pl_blast_radius p))),
            (''confidence'', JNum (FloatNum (pl_confidence p))),
            (''expected_outcomes'', JArr (map JStr (pl_expected_outcomes p))),
            (''objective'', JStr (pl_objective p)),
            (''preconditions'', JArr (map JStr (pl_preconditions p)))] @
           (case pl_runbook p of None \<Rightarrow> [] | Some r \<Rightarrow> [(''runbook'', JStr r)]) @
           [(''status'', JStr (plan_status_name (pl_status p))),
            (''steps'', JArr (map step_to_value (pl_steps p)))])"

section \<open>The context hash\<close>

text \<open>64-bit FNV-1a over the UTF-8 bytes, printed as sixteen hexadecimal digits.\<close>

definition fnv_step :: "u64 \<Rightarrow> 8 word \<Rightarrow> u64" where
  "fnv_step hash byte = xor hash (ucast byte) * 0x100000001b3"

definition fnv1a :: "string \<Rightarrow> u64" where
  "fnv1a input = foldl fnv_step 0xcbf29ce484222325 (utf8 input)"

definition hex_digit :: "nat \<Rightarrow> char" where
  "hex_digit d = char_of (if d < 10 then 48 + d else 87 + d)"

fun hex_digits :: "nat \<Rightarrow> nat \<Rightarrow> string" where
  "hex_digits 0 n = []"
| "hex_digits (Suc k) n = hex_digits k (n div 16) @ [hex_digit (n mod 16)]"

definition fnv1a_hex :: "string \<Rightarrow> string" where
  "fnv1a_hex input = hex_digits 16 (unat (fnv1a input))"

text \<open>\<open>serde_json::to_string\<close>, the text of a document, is the parameter \<open>to_text\<close>.\<close>

definition plan_context_hash :: "(json \<Rightarrow> string) \<Rightarrow> plan \<Rightarrow> string" where
  "plan_context_hash to_text p =
     (let content = (case plan_to_value p of
                       JObj m \<Rightarrow> JObj (filter (\<lambda>e. fst e \<noteq> ''status'') m) | v \<Rightarrow> v)
      in fnv1a_hex (to_text content))"

lemma hex_digit_inject: "a < 16 \<Longrightarrow> b < 16 \<Longrightarrow> hex_digit a = hex_digit b \<longleftrightarrow> a = b"
  by (auto simp: hex_digit_def split: if_splits dest: arg_cong [where f = "of_char :: char \<Rightarrow> nat"])

lemma length_hex_digits [simp]: "length (hex_digits k n) = k"
  by (induction k arbitrary: n) simp_all

lemma hex_digits_inject:
  "n < 16 ^ k \<Longrightarrow> m < 16 ^ k \<Longrightarrow> hex_digits k n = hex_digits k m \<longleftrightarrow> n = m"
proof (induction k arbitrary: n m)
  case (Suc k)
  have "n div 16 < 16 ^ k" "m div 16 < 16 ^ k"
    using Suc.prems by (simp_all add: less_mult_imp_div_less mult.commute)
  then show ?case
    using Suc.IH [of "n div 16" "m div 16"]
    by (auto simp: hex_digit_inject) (metis div_mult_mod_eq)
qed simp

section \<open>Requests and decisions\<close>

record principal =
  pr_uid :: "nat option"
  pr_gid :: "nat option"

definition principal_cloud :: principal where
  "principal_cloud = \<lparr> pr_uid = None, pr_gid = None \<rparr>"

record capability_request =
  rq_capability :: capability_id
  rq_principal :: principal
  rq_resource :: "resource_id option"
  rq_arguments :: json
  rq_correlation :: uuid

record authorization_request =
  az_capability_request :: capability_request
  az_risk_class :: risk_class
  az_blast_radius :: blast_radius
  az_requires_approval :: bool

definition authorization_request_new ::
  "capability_request \<Rightarrow> risk_class \<Rightarrow> blast_radius \<Rightarrow> authorization_request" where
  "authorization_request_new rq risk radius =
     \<lparr> az_capability_request = rq, az_risk_class = risk, az_blast_radius = radius,
       az_requires_approval = False \<rparr>"

definition az_requiring_approval :: "bool \<Rightarrow> authorization_request \<Rightarrow> authorization_request" where
  "az_requiring_approval b az = az\<lparr> az_requires_approval := b \<rparr>"

datatype policy_outcome = Allow | Deny | RequireApproval

record policy_decision =
  pd_outcome :: policy_outcome
  pd_reason :: string
  pd_policy_id :: string

definition decision_allow :: "string \<Rightarrow> string \<Rightarrow> policy_decision" where
  "decision_allow policy_id reason = \<lparr> pd_outcome = Allow, pd_reason = reason, pd_policy_id = policy_id \<rparr>"

definition decision_deny :: "string \<Rightarrow> string \<Rightarrow> policy_decision" where
  "decision_deny policy_id reason = \<lparr> pd_outcome = Deny, pd_reason = reason, pd_policy_id = policy_id \<rparr>"

definition decision_require_approval :: "string \<Rightarrow> string \<Rightarrow> policy_decision" where
  "decision_require_approval policy_id reason =
     \<lparr> pd_outcome = RequireApproval, pd_reason = reason, pd_policy_id = policy_id \<rparr>"

definition decision_is_allowed :: "policy_decision \<Rightarrow> bool" where
  "decision_is_allowed d = (pd_outcome d = Allow)"

lemmas decision_simps [simp] =
  decision_allow_def decision_deny_def decision_require_approval_def decision_is_allowed_def

datatype execution_status = ExecCompleted | ExecFailed

record execution =
  ex_action :: action
  ex_status :: execution_status
  ex_evidence :: json

section \<open>Properties\<close>

text \<open>
  Autonomy levels and context hashes survive the wire: a level reads back from its canonical
  name, every accepted name is a canonical or a legacy one, and the printed hash determines the
  64-bit value, so two plans have the same printed hash exactly when their hashes are equal; the
  status of a plan does not enter it.
\<close>

theorem wire_round_trips:
  "deserialize_mode (canonical_name m) = Some m
   \<and> (deserialize_mode name = Some m' \<longleftrightarrow>
        name = canonical_name m' \<or> (name, m') \<in> {(''observe_only'', L0Observe), (''propose'', L2Recommend), (''assisted'', L3Assisted)})
   \<and> (fnv1a_hex x = fnv1a_hex y \<longleftrightarrow> fnv1a x = fnv1a y) \<and> length (fnv1a_hex x) = 16
   \<and> plan_context_hash to_text (p\<lparr> pl_status := st \<rparr>) = plan_context_hash to_text p"
proof -
  have "deserialize_mode (canonical_name m) = Some m"
    by (cases m) (simp_all add: deserialize_mode_def from_legacy_name_def)
  moreover have "deserialize_mode name = Some m' \<longleftrightarrow>
        name = canonical_name m' \<or> (name, m') \<in> {(''observe_only'', L0Observe), (''propose'', L2Recommend), (''assisted'', L3Assisted)}"
    by (cases m') (auto simp: deserialize_mode_def from_legacy_name_def)
  moreover have "fnv1a_hex x = fnv1a_hex y \<longleftrightarrow> fnv1a x = fnv1a y"
  proof -
    have "unat (fnv1a w) < 16 ^ 16" for w
      using unsigned_less [of "fnv1a w"] by simp
    then show ?thesis by (simp add: fnv1a_hex_def hex_digits_inject word_unat_eq_iff)
  qed
  ultimately show ?thesis
    by (simp add: fnv1a_hex_def plan_context_hash_def plan_to_value_def)
qed

end
