(* ===== verification/Autopilot.thy ===== *)
theory Autopilot
  imports Reasoning
begin

text \<open>
  The resource-autopilot governor (\<open>argus-policy\<close>, \<open>autopilot.rs\<close>). The source keeps a queue of
  grants and forgets the front of it while it decides; the reference decision \<open>decide_spec\<close>
  looks at the complete history instead, and the two are shown to agree along every run whose
  clock does not go backwards. The locale \<open>resource_governor\<close> is the \<open>ResourceGovernor\<close> port.
\<close>

section \<open>Data\<close>

datatype criticality = Protected | Critical | Standard | BestEffort

fun criticality_debug :: "criticality \<Rightarrow> string" where
  "criticality_debug Protected = ''Protected''"
| "criticality_debug Critical = ''Critical''"
| "criticality_debug Standard = ''Standard''"
| "criticality_debug BestEffort = ''BestEffort''"

record resource_adjustment =
  ra_subject :: string
  ra_capability :: string
  ra_reason :: string

datatype refusal = Unclassified | RefusedProtected | BudgetExhausted | Cooldown

datatype governance_decision = Allowed string | Refused refusal

definition governance_is_allowed :: "governance_decision \<Rightarrow> bool" where
  "governance_is_allowed d = (case d of Allowed _ \<Rightarrow> True | Refused _ \<Rightarrow> False)"

lemma governance_is_allowed_simps [simp]:
  "governance_is_allowed (Allowed r)" "\<not> governance_is_allowed (Refused w)"
  by (simp_all add: governance_is_allowed_def)

record autopilot_limits =
  al_budget_per_window :: u32
  al_window :: duration
  al_cooldown_per_subject :: duration

definition autopilot_limits_default :: autopilot_limits where
  "autopilot_limits_default =
     \<lparr> al_budget_per_window = 10, al_window = seconds 3600, al_cooldown_per_subject = seconds 600 \<rparr>"

definition GOVERNED_PREFIXES :: "string list" where
  "GOVERNED_PREFIXES = [''host.cgroup.'']"

record governor =
  gv_criticality :: "string \<rightharpoonup> criticality"
  gv_limits :: autopilot_limits
  gv_granted :: "(instant \<times> string) list"

section \<open>Operations\<close>

definition governor_new :: "autopilot_limits \<Rightarrow> governor" where
  "governor_new limits = \<lparr> gv_criticality = Map.empty, gv_limits = limits, gv_granted = [] \<rparr>"

definition classify :: "string \<Rightarrow> criticality \<Rightarrow> governor \<Rightarrow> governor" where
  "classify subject c g = g\<lparr> gv_criticality := hm_insert subject c (gv_criticality g) \<rparr>"

definition classification :: "governor \<Rightarrow> string \<Rightarrow> criticality option" where
  "classification g subject = gv_criticality g subject"

definition in_cooldown :: "duration \<Rightarrow> string \<Rightarrow> instant \<Rightarrow> (instant \<times> string) list \<Rightarrow> bool" where
  "in_cooldown cooldown subject now granted =
     (find (\<lambda>(time, s). s = subject \<and> now - time < cooldown) (rev granted) \<noteq> None)"

definition prune :: "duration \<Rightarrow> instant \<Rightarrow> (instant \<times> string) list \<Rightarrow> (instant \<times> string) list" where
  "prune window now granted = dropWhile (\<lambda>(time, _). now - time \<ge> window) granted"

definition decide :: "resource_adjustment \<Rightarrow> instant \<Rightarrow> governor \<Rightarrow> governance_decision \<times> governor" where
  "decide adj now g =
     (case gv_criticality g (ra_subject adj) of
        None \<Rightarrow> (Refused Unclassified, g)
      | Some c \<Rightarrow>
          if c = Protected \<or> c = Critical then (Refused RefusedProtected, g)
          else if in_cooldown (al_cooldown_per_subject (gv_limits g)) (ra_subject adj) now (gv_granted g)
          then (Refused Cooldown, g)
          else
            (let granted = prune (al_window (gv_limits g)) now (gv_granted g);
                 g' = g\<lparr> gv_granted := granted \<rparr>
             in if length granted \<ge> unat (al_budget_per_window (gv_limits g))
                then (Refused BudgetExhausted, g')
                else (Allowed (''subject '' @ [CHR 0x27] @ ra_subject adj @ [CHR 0x27] @ '' is '' @
                        criticality_debug c @ '' and within budget and cooldown''), g')))"

text \<open>The constructor \<open>record\<close> of the source; \<open>record\<close> is a keyword here.\<close>

definition record_grant :: "resource_adjustment \<Rightarrow> instant \<Rightarrow> governor \<Rightarrow> governor" where
  "record_grant adj now g = g\<lparr> gv_granted := gv_granted g @ [(now, ra_subject adj)] \<rparr>"

text \<open>\<open>evaluate\<close> reads the clock twice: \<open>t1\<close> to decide, \<open>t2\<close> to record.\<close>

definition autopilot_evaluate ::
  "resource_adjustment \<Rightarrow> instant \<Rightarrow> instant \<Rightarrow> governor \<Rightarrow> governance_decision \<times> governor" where
  "autopilot_evaluate adj t1 t2 g =
     (let (decision, g') = decide adj t1 g
      in if governance_is_allowed decision then (decision, record_grant adj t2 g') else (decision, g'))"

definition no_governor_evaluate ::
  "resource_adjustment \<Rightarrow> instant \<Rightarrow> instant \<Rightarrow> 'g \<Rightarrow> governance_decision \<times> 'g" where
  "no_governor_evaluate adj t1 t2 g = (Refused Unclassified, g)"

section \<open>The reference decision\<close>

definition adjustable :: "governor \<Rightarrow> string \<Rightarrow> bool" where
  "adjustable g subject = (gv_criticality g subject \<in> {Some Standard, Some BestEffort})"

definition decide_spec ::
  "autopilot_limits \<Rightarrow> (string \<rightharpoonup> criticality) \<Rightarrow> string \<Rightarrow> instant \<Rightarrow> (instant \<times> string) list \<Rightarrow> refusal option" where
  "decide_spec l crit subject now hist =
     (case crit subject of
        None \<Rightarrow> Some Unclassified
      | Some c \<Rightarrow>
          if c = Protected \<or> c = Critical then Some RefusedProtected
          else if \<exists>(time, s) \<in> set hist. s = subject \<and> now - time < al_cooldown_per_subject l
          then Some Cooldown
          else if unat (al_budget_per_window l) \<le> length (filter (\<lambda>(time, _). now - time < al_window l) hist)
          then Some BudgetExhausted else None)"

definition refusal_of :: "governance_decision \<Rightarrow> refusal option" where
  "refusal_of d = (case d of Allowed _ \<Rightarrow> None | Refused w \<Rightarrow> Some w)"

text \<open>
  What the queue keeps of the history: a suffix, the part left out being older than the window,
  and the times in order and not in the future.
\<close>

definition tracks :: "governor \<Rightarrow> (instant \<times> string) list \<Rightarrow> instant \<Rightarrow> bool" where
  "tracks g hist now \<longleftrightarrow>
     (\<exists>old. hist = old @ gv_granted g \<and> (\<forall>(time, _) \<in> set old. now - time \<ge> al_window (gv_limits g)))
     \<and> sorted (map fst hist) \<and> (\<forall>(time, _) \<in> set hist. time \<le> now)"

lemma tracks_later: "tracks g hist now \<Longrightarrow> now \<le> now' \<Longrightarrow> tracks g hist now'"
  unfolding tracks_def by fastforce

lemma in_cooldown_iff:
  "in_cooldown cd subject now xs \<longleftrightarrow> (\<exists>(time, s) \<in> set xs. s = subject \<and> now - time < cd)"
  unfolding in_cooldown_def find_Some_iff_ex by simp

lemma prune_append:
  "xs = takeWhile (\<lambda>(time, _). now - time \<ge> w) xs @ prune w now xs"
  by (simp add: prune_def)

lemma prune_sorted:
  "sorted (map fst xs) \<Longrightarrow> prune w now xs = filter (\<lambda>(time, _). now - time < w) xs"
proof (induction xs)
  case (Cons x xs)
  show ?case
  proof (cases "now - fst x \<ge> w")
    case True
    with Cons show ?thesis by (auto simp: prune_def)
  next
    case False
    then have "\<forall>y \<in> set (x # xs). now - fst y < w" using Cons.prems by auto
    then have "filter (\<lambda>(time, _). now - time < w) (x # xs) = x # xs"
      by (intro filter_True) auto
    with False show ?thesis by (auto simp: prune_def)
  qed
qed (simp add: prune_def)

lemma tracks_filter:
  assumes "tracks g hist now"
  shows "prune (al_window (gv_limits g)) now (gv_granted g)
           = filter (\<lambda>(time, _). now - time < al_window (gv_limits g)) hist"
proof -
  from assms obtain old where h: "hist = old @ gv_granted g"
    and old: "\<forall>(time, _) \<in> set old. now - time \<ge> al_window (gv_limits g)"
    and s: "sorted (map fst hist)"
    unfolding tracks_def by blast
  have "filter (\<lambda>(time, _). now - time < al_window (gv_limits g)) old = []"
    using old by (auto simp: filter_empty_conv)
  with h s show ?thesis by (simp add: prune_sorted sorted_append)
qed

lemma tracks_cooldown:
  assumes "tracks g hist now" "al_cooldown_per_subject (gv_limits g) \<le> al_window (gv_limits g)"
  shows "in_cooldown (al_cooldown_per_subject (gv_limits g)) subject now (gv_granted g)
           \<longleftrightarrow> (\<exists>(time, s) \<in> set hist. s = subject \<and> now - time < al_cooldown_per_subject (gv_limits g))"
  using assms unfolding tracks_def in_cooldown_iff by fastforce

lemma decide_refines:
  assumes "tracks g hist now" "al_cooldown_per_subject (gv_limits g) \<le> al_window (gv_limits g)"
  shows "refusal_of (fst (decide adj now g))
           = decide_spec (gv_limits g) (gv_criticality g) (ra_subject adj) now hist"
  using tracks_filter [OF assms(1)] tracks_cooldown [OF assms]
  by (auto simp: decide_def decide_spec_def refusal_of_def Let_def split: option.splits)

lemma decide_frame [simp]:
  "gv_limits (snd (decide adj now g)) = gv_limits g"
  "gv_criticality (snd (decide adj now g)) = gv_criticality g"
  by (auto simp: decide_def Let_def split: option.splits)

lemma evaluate_frame [simp]:
  "gv_limits (snd (autopilot_evaluate adj t1 t2 g)) = gv_limits g"
  "gv_criticality (snd (autopilot_evaluate adj t1 t2 g)) = gv_criticality g"
  by (auto simp: autopilot_evaluate_def record_grant_def case_prod_beta)

lemma fst_evaluate [simp]: "fst (autopilot_evaluate adj t1 t2 g) = fst (decide adj t1 g)"
  by (simp add: autopilot_evaluate_def case_prod_beta)

lemma decide_granted:
  "gv_granted (snd (decide adj now g)) = gv_granted g
   \<or> gv_granted (snd (decide adj now g)) = prune (al_window (gv_limits g)) now (gv_granted g)"
  by (auto simp: decide_def Let_def split: option.splits)

lemma tracks_decide:
  assumes "tracks g hist now"
  shows "tracks (snd (decide adj now g)) hist now"
proof (rule disjE [OF decide_granted [of adj now g]])
  assume "gv_granted (snd (decide adj now g)) = gv_granted g"
  with assms show ?thesis by (simp add: tracks_def)
next
  let ?w = "al_window (gv_limits g)"
  let ?pre = "takeWhile (\<lambda>(time, _). now - time \<ge> ?w) (gv_granted g)"
  assume g: "gv_granted (snd (decide adj now g)) = prune ?w now (gv_granted g)"
  from assms obtain old where h: "hist = old @ gv_granted g"
    and old: "\<forall>(time, _) \<in> set old. now - time \<ge> ?w"
    and rest: "sorted (map fst hist)" "\<forall>(time, _) \<in> set hist. time \<le> now"
    unfolding tracks_def by blast
  have "hist = (old @ ?pre) @ prune ?w now (gv_granted g)"
    using h prune_append [of "gv_granted g"] by simp
  moreover have "\<forall>(time, _) \<in> set (old @ ?pre). now - time \<ge> ?w"
    using old by (auto dest: set_takeWhileD)
  ultimately show ?thesis using rest g unfolding tracks_def by (metis decide_frame(1))
qed

lemma tracks_record:
  assumes "tracks g hist now" "now \<le> t"
  shows "tracks (record_grant adj t g) (hist @ [(t, ra_subject adj)]) t"
proof -
  from tracks_later [OF assms] obtain old where "hist = old @ gv_granted g"
    and "\<forall>(time, _) \<in> set old. t - time \<ge> al_window (gv_limits g)"
    and "sorted (map fst hist)" "\<forall>(time, _) \<in> set hist. time \<le> t"
    unfolding tracks_def by blast
  then show ?thesis
    by (auto simp: tracks_def record_grant_def sorted_append)
qed

section \<open>Runs\<close>

type_synonym evaluation = "resource_adjustment \<times> instant \<times> instant"

definition grant_of :: "evaluation \<Rightarrow> governor \<Rightarrow> (instant \<times> string) list" where
  "grant_of e g =
     (case e of (adj, t1, t2) \<Rightarrow> if governance_is_allowed (fst (decide adj t1 g)) then [(t2, ra_subject adj)] else [])"

fun governor_run :: "evaluation list \<Rightarrow> governor \<Rightarrow> governor" where
  "governor_run [] g = g"
| "governor_run ((adj, t1, t2) # es) g = governor_run es (snd (autopilot_evaluate adj t1 t2 g))"

text \<open>Every grant of the run, oldest first: the history the queue does not keep.\<close>

fun governor_history :: "evaluation list \<Rightarrow> governor \<Rightarrow> (instant \<times> string) list" where
  "governor_history [] g = []"
| "governor_history (e # es) g =
     (case e of (adj, t1, t2) \<Rightarrow>
        grant_of e g @ governor_history es (snd (autopilot_evaluate adj t1 t2 g)))"

fun clock_ok :: "instant \<Rightarrow> evaluation list \<Rightarrow> bool" where
  "clock_ok t [] = True"
| "clock_ok t ((adj, t1, t2) # es) = (t \<le> t1 \<and> t1 \<le> t2 \<and> clock_ok t2 es)"

lemma tracks_evaluate:
  assumes "tracks g hist t" "t \<le> t1" "t1 \<le> t2"
  shows "tracks (snd (autopilot_evaluate adj t1 t2 g)) (hist @ grant_of (adj, t1, t2) g) t2"
proof -
  have d: "tracks (snd (decide adj t1 g)) hist t1"
    using tracks_later [OF assms(1,2)] by (rule tracks_decide)
  show ?thesis
  proof (cases "governance_is_allowed (fst (decide adj t1 g))")
    case True
    then show ?thesis
      using tracks_record [OF d assms(3)]
      by (simp add: autopilot_evaluate_def grant_of_def case_prod_beta)
  next
    case False
    then show ?thesis
      using tracks_later [OF d assms(3)]
      by (simp add: autopilot_evaluate_def grant_of_def case_prod_beta)
  qed
qed

lemma tracks_run:
  "tracks g hist t \<Longrightarrow> clock_ok t (es @ [(adj, t1, t2)]) \<Longrightarrow>
   tracks (governor_run es g) (hist @ governor_history es g) t1"
proof (induction es arbitrary: g hist t)
  case Nil
  then show ?case by (auto intro: tracks_later)
next
  case (Cons e es)
  obtain a u1 u2 where e: "e = (a, u1, u2)" by (cases e)
  have "tracks (snd (autopilot_evaluate a u1 u2 g)) (hist @ grant_of e g) u2"
    using Cons.prems e by (auto intro: tracks_evaluate)
  from Cons.IH [OF this] Cons.prems show ?case by (simp add: e)
qed

lemma run_frame [simp]:
  "gv_limits (governor_run es g) = gv_limits g"
  "gv_criticality (governor_run es g) = gv_criticality g"
  by (induction es g rule: governor_run.induct) simp_all

section \<open>The governor port\<close>

text \<open>
  What the plan loop relies on: an adjustment is allowed only on a subject the operator made
  adjustable, and evaluating one never reclassifies a subject.
\<close>

locale resource_governor =
  fixes gov_evaluate :: "resource_adjustment \<Rightarrow> instant \<Rightarrow> instant \<Rightarrow> 'g \<Rightarrow> governance_decision \<times> 'g"
    and gov_adjustable :: "'g \<Rightarrow> string \<Rightarrow> bool"
  assumes allowed_adjustable:
      "governance_is_allowed (fst (gov_evaluate adj t1 t2 g)) \<Longrightarrow> gov_adjustable g (ra_subject adj)"
    and adjustable_kept: "gov_adjustable (snd (gov_evaluate adj t1 t2 g)) = gov_adjustable g"
begin

fun run :: "evaluation list \<Rightarrow> 'g \<Rightarrow> 'g" where
  "run [] g = g"
| "run ((adj, t1, t2) # es) g = run es (snd (gov_evaluate adj t1 t2 g))"

lemma run_adjustable: "gov_adjustable (run es g) = gov_adjustable g"
  by (induction es g rule: run.induct) (simp_all add: adjustable_kept)

lemma run_allowed:
  "governance_is_allowed (fst (gov_evaluate adj t1 t2 (run es g))) \<Longrightarrow> gov_adjustable g (ra_subject adj)"
  using allowed_adjustable [of adj t1 t2 "run es g"] by (simp add: run_adjustable)

end

lemma decide_allowed_adjustable:
  "governance_is_allowed (fst (decide adj now g)) \<Longrightarrow> adjustable g (ra_subject adj)"
  by (auto simp: decide_def adjustable_def Let_def split: option.splits if_splits intro: criticality.exhaust)

lemma adjustable_evaluate: "adjustable (snd (autopilot_evaluate adj t1 t2 g)) = adjustable g"
  by (simp add: adjustable_def fun_eq_iff)

interpretation autopilot: resource_governor autopilot_evaluate adjustable
  by unfold_locales (simp_all add: decide_allowed_adjustable adjustable_evaluate)

interpretation no_governor: resource_governor no_governor_evaluate "\<lambda>g subject. False"
  by unfold_locales (simp_all add: no_governor_evaluate_def)

section \<open>Properties\<close>

text \<open>
  C15. The queue-pruning decision of the governor is the reference decision over the complete
  history of grants, whatever evaluations came before, when the cooldown does not exceed the
  window and the clock does not go backwards: the same refusal, with the same precedence, and a
  grant exactly when the reference grants.
\<close>

theorem governor_refines_history:
  assumes "al_cooldown_per_subject limits \<le> al_window limits"
    and "clock_ok t (es @ [(adj, t1, t2)])"
  shows "refusal_of (fst (autopilot_evaluate adj t1 t2
             (governor_run es \<lparr> gv_criticality = crit, gv_limits = limits, gv_granted = [] \<rparr>)))
         = decide_spec limits crit (ra_subject adj) t1
             (governor_history es \<lparr> gv_criticality = crit, gv_limits = limits, gv_granted = [] \<rparr>)"
proof -
  let ?g = "\<lparr> gv_criticality = crit, gv_limits = limits, gv_granted = [] \<rparr>"
  have "tracks ?g [] t" by (simp add: tracks_def)
  from tracks_run [OF this assms(2)] have "tracks (governor_run es ?g) (governor_history es ?g) t1"
    by simp
  from decide_refines [OF this] assms(1) show ?thesis by simp
qed

definition sample_adjustment :: resource_adjustment where
  "sample_adjustment = \<lparr> ra_subject = ''web'', ra_capability = ''host.cgroup.freeze'', ra_reason = [] \<rparr>"

lemmas sample_eval = sample_adjustment_def autopilot_limits_default_def autopilot_evaluate_def
  decide_def in_cooldown_def prune_def record_grant_def refusal_of_def decide_spec_def grant_of_def

theorem governor_refines_history_witness:
  "refusal_of (fst (autopilot_evaluate sample_adjustment (seconds 60) (seconds 60)
     (governor_run [(sample_adjustment, 0, 1)]
        \<lparr> gv_criticality = [''web'' \<mapsto> BestEffort], gv_limits = autopilot_limits_default, gv_granted = [] \<rparr>)))
   = Some Cooldown"
  using governor_refines_history [of autopilot_limits_default 0 "[(sample_adjustment, 0, 1)]"
      sample_adjustment "seconds 60" "seconds 60" "[''web'' \<mapsto> BestEffort]"]
  by (simp add: sample_eval)

text \<open>
  A grant is spaced from the earlier ones: when an adjustment is allowed at an instant, no
  earlier grant of the run to the same subject is within the cooldown, and fewer grants than the
  budget are within the window.
\<close>

theorem governor_grant_spaced:
  assumes "al_cooldown_per_subject limits \<le> al_window limits"
    and "clock_ok t (es @ [(adj, t1, t2)])"
    and "g = \<lparr> gv_criticality = crit, gv_limits = limits, gv_granted = [] \<rparr>"
    and "governance_is_allowed (fst (autopilot_evaluate adj t1 t2 (governor_run es g)))"
  shows "(\<forall>(time, s) \<in> set (governor_history es g). s = ra_subject adj \<longrightarrow> t1 - time \<ge> al_cooldown_per_subject limits)
       \<and> length (filter (\<lambda>(time, _). t1 - time < al_window limits) (governor_history es g)) < unat (al_budget_per_window limits)
       \<and> adjustable g (ra_subject adj)"
proof -
  have "tracks g [] t" using assms(3) by (simp add: tracks_def)
  from tracks_run [OF this assms(2)] have tr: "tracks (governor_run es g) (governor_history es g) t1"
    by simp
  from assms(4) have "refusal_of (fst (decide adj t1 (governor_run es g))) = None"
    by (auto simp: refusal_of_def governance_is_allowed_def split: governance_decision.splits)
  with decide_refines [OF tr, of adj] assms(1,3)
  have "decide_spec limits crit (ra_subject adj) t1 (governor_history es g) = None" by simp
  moreover have "adjustable g (ra_subject adj)"
    using autopilot.allowed_adjustable [OF assms(4)] by (simp add: adjustable_def)
  ultimately show ?thesis
    by (auto simp: decide_spec_def not_le not_less split: option.splits if_splits)
qed

theorem governor_grant_spaced_witness:
  "adjustable \<lparr> gv_criticality = [''web'' \<mapsto> BestEffort], gv_limits = autopilot_limits_default,
                gv_granted = [] \<rparr> ''web''"
  using governor_grant_spaced [of autopilot_limits_default 0 "[(sample_adjustment, 0, 1)]"
      sample_adjustment "seconds 601" "seconds 601" _ "[''web'' \<mapsto> BestEffort]", OF _ _ refl]
  by (simp add: sample_eval)

text \<open>
  When the cooldown is longer than the window, deciding about one subject forgets the grant of
  another before its cooldown is over: with a window of one second and a cooldown of ten, a
  subject granted at 0 is granted again at 3 seconds, because an evaluation of a second subject
  at 2 seconds dropped the first grant from the queue. Without that evaluation it is refused.
\<close>

theorem cooldown_forgotten_beyond_window:
  "let limits = \<lparr> al_budget_per_window = 10, al_window = seconds 1, al_cooldown_per_subject = seconds 10 \<rparr>;
       g = \<lparr> gv_criticality = [''web'' \<mapsto> Standard, ''db'' \<mapsto> Standard], gv_limits = limits, gv_granted = [] \<rparr>;
       web = \<lparr> ra_subject = ''web'', ra_capability = ''host.cgroup.freeze'', ra_reason = [] \<rparr>;
       db = \<lparr> ra_subject = ''db'', ra_capability = ''host.cgroup.freeze'', ra_reason = [] \<rparr>;
       e1 = (web, 0, 0); e2 = (db, seconds 2, seconds 2)
   in refusal_of (fst (autopilot_evaluate web (seconds 3) (seconds 3) (governor_run [e1] g))) = Some Cooldown
    \<and> refusal_of (fst (autopilot_evaluate web (seconds 3) (seconds 3) (governor_run [e1, e2] g))) = None"
  by (simp add: sample_eval Let_def)

end
