(* ===== verification/Policy.thy ===== *)
theory Policy
  imports Autopilot
begin

text \<open>
  Deterministic authorization: the bootstrap policy (\<open>argus-policy\<close>, \<open>bootstrap.rs\<close>), the
  autonomy matrix (\<open>argus-ai-core\<close>, \<open>decision/autonomy.rs\<close>) and the escalation decision
  (\<open>argus-policy\<close>, \<open>escalation.rs\<close>). The locale \<open>policy_port\<close> is the \<open>PolicyEvaluator\<close> trait.
\<close>

section \<open>The bootstrap policy\<close>

record policy_evaluator =
  pe_allowed :: "capability_id set"
  pe_allowed_prefixes :: "string list"

definition bootstrap_policy :: policy_evaluator where
  "bootstrap_policy =
     \<lparr> pe_allowed = set (map CapabilityId
         [HOST_STATUS_READ, ARGUS_HEALTH_READ, ARGUS_CONFIG_READ, ARGUS_PLUGINS_LIST,
          HOST_SERVICE_RESTART, HOST_SERVICE_STOP, HOST_SERVICE_START]),
       pe_allowed_prefixes = [] \<rparr>"

definition with_local_remediation :: policy_evaluator where
  "with_local_remediation =
     (let evaluator = bootstrap_policy
      in evaluator\<lparr> pe_allowed_prefixes := pe_allowed_prefixes evaluator @ [''mcp.''],
                    pe_allowed := pe_allowed evaluator \<union> set (map CapabilityId
           [HOST_PROCESS_SIGNAL, CONTAINER_RESTART, HOST_CGROUP_FREEZE, HOST_CGROUP_THAW,
            HOST_MEMORY_RECLAIM, HOST_JOURNAL_VACUUM,
            K8S_CLUSTER_READ, K8S_NODE_READ, K8S_POD_READ, K8S_DEPLOYMENT_READ,
            K8S_POD_RESTART, K8S_DEPLOYMENT_RESTART, K8S_DEPLOYMENT_ROLLBACK, K8S_WORKLOAD_SCALE,
            K8S_NODE_CORDON, K8S_NODE_UNCORDON, K8S_JOB_CLEANUP]) \<rparr>)"

definition locally_permitted :: "policy_evaluator \<Rightarrow> capability_id \<Rightarrow> bool" where
  "locally_permitted p c \<longleftrightarrow>
     c \<in> pe_allowed p \<or> list_ex (\<lambda>pfx. starts_with pfx (as_str c)) (pe_allowed_prefixes p)"

abbreviation quoted :: "string \<Rightarrow> string" where
  "quoted s \<equiv> [CHR 0x27] @ s @ [CHR 0x27]"

definition policy_evaluate :: "policy_evaluator \<Rightarrow> authorization_request \<Rightarrow> policy_decision" where
  "policy_evaluate p az =
     (let capability = rq_capability (az_capability_request az)
      in if \<not> locally_permitted p capability
         then decision_deny ''bootstrap.read-only''
                (''capability '' @ quoted (as_str capability) @ '' is not permitted in bootstrap'')
         else if az_requires_approval az
         then decision_require_approval ''bootstrap.approval-required''
                (''capability '' @ quoted (as_str capability) @ '' requires a local approval for each invocation'')
         else decision_allow ''bootstrap.read-only''
                (''read-only capability '' @ quoted (as_str capability) @ '' is permitted''))"

lemma policy_outcome_iff:
  "pd_outcome (policy_evaluate p az) = Allow \<longleftrightarrow>
     locally_permitted p (rq_capability (az_capability_request az)) \<and> \<not> az_requires_approval az"
  "pd_outcome (policy_evaluate p az) = RequireApproval \<longleftrightarrow>
     locally_permitted p (rq_capability (az_capability_request az)) \<and> az_requires_approval az"
  "pd_outcome (policy_evaluate p az) = Deny \<longleftrightarrow>
     \<not> locally_permitted p (rq_capability (az_capability_request az))"
  by (simp_all add: policy_evaluate_def Let_def)

text \<open>What the callers of the evaluator rely on.\<close>

locale policy_port =
  fixes evaluate :: "authorization_request \<Rightarrow> policy_decision"
    and permits :: "capability_id \<Rightarrow> bool"
  assumes deny_by_default:
      "\<not> permits (rq_capability (az_capability_request az)) \<Longrightarrow> pd_outcome (evaluate az) = Deny"
    and approval_is_never_waived: "az_requires_approval az \<Longrightarrow> pd_outcome (evaluate az) \<noteq> Allow"
    and origin_gives_no_authority:
      "evaluate (az\<lparr> az_capability_request := (az_capability_request az)\<lparr> rq_principal := p \<rparr> \<rparr>) = evaluate az"
begin

lemma allowed_means:
  "pd_outcome (evaluate az) = Allow \<Longrightarrow>
   permits (rq_capability (az_capability_request az)) \<and> \<not> az_requires_approval az"
  using deny_by_default [of az] approval_is_never_waived [of az] by force

lemma approval_means:
  "pd_outcome (evaluate az) = RequireApproval \<Longrightarrow> permits (rq_capability (az_capability_request az))"
  using deny_by_default [of az] by force

end

interpretation bootstrap: policy_port "policy_evaluate p" "locally_permitted p"
  by unfold_locales (simp_all add: policy_evaluate_def Let_def)

lemma bootstrap_permits:
  "locally_permitted bootstrap_policy c \<longleftrightarrow> c \<in> pe_allowed bootstrap_policy"
  by (simp add: locally_permitted_def bootstrap_policy_def)

lemma local_remediation_permits:
  "locally_permitted with_local_remediation c \<longleftrightarrow>
     c \<in> pe_allowed with_local_remediation \<or> is_mcp_capability c"
  by (simp add: locally_permitted_def with_local_remediation_def bootstrap_policy_def Let_def
      is_mcp_capability_def)

lemma local_remediation_extends:
  "locally_permitted bootstrap_policy c \<Longrightarrow> locally_permitted with_local_remediation c"
  unfolding bootstrap_permits local_remediation_permits by (auto simp: with_local_remediation_def Let_def)

lemma bootstrap_not_mcp: "is_mcp_capability c \<Longrightarrow> \<not> locally_permitted bootstrap_policy c"
  unfolding bootstrap_permits by (auto simp: bootstrap_policy_def is_mcp_capability_def cap_ids)

section \<open>The autonomy matrix\<close>

fun may_execute_without_approval :: "autonomy_mode \<Rightarrow> risk_class \<Rightarrow> bool" where
  "may_execute_without_approval L3Assisted risk = (risk \<in> {Read, LowRisk})"
| "may_execute_without_approval L4Autonomous risk = (risk \<in> {Read, LowRisk, Controlled})"
| "may_execute_without_approval L5Adaptive risk = (risk \<in> {Read, LowRisk, Controlled})"
| "may_execute_without_approval _ risk = False"

lemma matrix_monotone:
  "rank m \<le> rank m' \<Longrightarrow> may_execute_without_approval m risk \<Longrightarrow> may_execute_without_approval m' risk"
  by (cases m; cases m') auto

lemma matrix_bounds:
  "may_execute_without_approval m risk \<Longrightarrow> 3 \<le> rank m \<and> risk \<notin> {HighRisk, Destructive}"
  by (cases m) auto

section \<open>Escalation\<close>

datatype evidence_quality = Sparse | Adequate | Strong

datatype environment = Production | Staging | Development

datatype escalation = Observe | Explain | Recommend | AskHuman | AutoFix

record escalation_input =
  ei_evidence_quality :: evidence_quality
  ei_confidence :: float_val
  ei_reversible :: bool
  ei_blast_radius :: blast_radius
  ei_risk :: risk_class
  ei_criticality :: criticality
  ei_environment :: environment
  ei_historical_success :: "float_val option"
  ei_autonomy :: autonomy_mode
  ei_policy :: policy_outcome

text \<open>The \<open>f32\<close> literals: 0.75 and 0.5 are exact, 0.6 and 0.7 are the nearest 24-bit fractions.\<close>

definition f32_0_6 :: rat where "f32_0_6 = 10066330 / 2 ^ 24"
definition f32_0_7 :: rat where "f32_0_7 = 11744051 / 2 ^ 24"

fun confidence_threshold :: "environment \<Rightarrow> float_val" where
  "confidence_threshold Production = Fin (3 / 4)"
| "confidence_threshold Staging = Fin f32_0_6"
| "confidence_threshold Development = Fin (1 / 2)"

definition safe_to_fix :: "escalation_input \<Rightarrow> bool" where
  "safe_to_fix i =
     (let bounded = ei_blast_radius i \<in> {RadiusNone, RadiusHost};
          non_critical = ei_criticality i \<notin> {Protected, Critical};
          bounded_risk = ei_risk i \<in> {Read, LowRisk, Controlled};
          confident = float_ge (ei_confidence i) (confidence_threshold (ei_environment i));
          historically_sound = (case ei_historical_success i of None \<Rightarrow> True
                                | Some rate \<Rightarrow> float_ge rate (Fin f32_0_7))
      in ei_reversible i \<and> bounded \<and> non_critical \<and> bounded_risk \<and> confident
         \<and> historically_sound \<and> ei_evidence_quality i \<noteq> Sparse)"

definition decide_escalation :: "escalation_input \<Rightarrow> escalation" where
  "decide_escalation i =
     (if ei_policy i = Deny then Observe
      else if ei_policy i = RequireApproval then AskHuman
      else if ei_autonomy i = L0Observe then Observe
      else if ei_autonomy i = L1Explain then Explain
      else if ei_autonomy i = L2Recommend then Recommend
      else if safe_to_fix i then AutoFix
      else if ei_evidence_quality i = Sparse then Recommend
      else AskHuman)"

lemma decide_escalation_AutoFix:
  "decide_escalation i = AutoFix \<longleftrightarrow> ei_policy i = Allow \<and> 3 \<le> rank (ei_autonomy i) \<and> safe_to_fix i"
  by (cases "ei_policy i"; cases "ei_autonomy i") (simp_all add: decide_escalation_def)

section \<open>Properties\<close>


text \<open>
  An automatic fix is decided only when every bound holds: policy allows, the level is at
  least L3, the action is reversible, its radius is at most the host, its risk at most
  controlled, its subject neither protected nor critical, evidence is not sparse, and the
  confidence is a number of at least one half (three quarters in production); NaN never passes.
  It is decided for no other reason: those bounds are also sufficient.
\<close>

theorem auto_fix_iff:
  "decide_escalation i = AutoFix \<longleftrightarrow>
     ei_policy i = Allow \<and> L3Assisted \<le> ei_autonomy i \<and> ei_reversible i
     \<and> ei_blast_radius i \<in> {RadiusNone, RadiusHost} \<and> ei_risk i \<notin> {HighRisk, Destructive}
     \<and> ei_criticality i \<in> {Standard, BestEffort} \<and> ei_evidence_quality i \<in> {Adequate, Strong}
     \<and> (ei_confidence i = PosInf \<or>
         (\<exists>x. ei_confidence i = Fin x \<and>
             (case ei_environment i of Production \<Rightarrow> 3 / 4 | Staging \<Rightarrow> f32_0_6 | Development \<Rightarrow> 1 / 2) \<le> x))
     \<and> (ei_historical_success i = None \<or> ei_historical_success i = Some PosInf \<or>
         (\<exists>x. ei_historical_success i = Some (Fin x) \<and> f32_0_7 \<le> x))"
proof -
  have conf: "float_ge v (Fin y) \<longleftrightarrow> v = PosInf \<or> (\<exists>x. v = Fin x \<and> y \<le> x)" for v y
    by (cases v) simp_all
  have thr: "confidence_threshold e = Fin (case e of Production \<Rightarrow> 3 / 4 | Staging \<Rightarrow> f32_0_6 | Development \<Rightarrow> 1 / 2)" for e
    by (cases e) simp_all
  have risk: "r \<in> {Read, LowRisk, Controlled} \<longleftrightarrow> r \<notin> {HighRisk, Destructive}" for r
    by (cases r) simp_all
  have crit: "c \<notin> {Protected, Critical} \<longleftrightarrow> c \<in> {Standard, BestEffort}" for c
    by (cases c) simp_all
  have evid: "q \<noteq> Sparse \<longleftrightarrow> q \<in> {Adequate, Strong}" for q
    by (cases q) simp_all
  have hist: "(case h of None \<Rightarrow> True | Some rate \<Rightarrow> float_ge rate (Fin f32_0_7)) \<longleftrightarrow>
      h = None \<or> h = Some PosInf \<or> (\<exists>x. h = Some (Fin x) \<and> f32_0_7 \<le> x)" for h
    by (auto simp: conf split: option.splits)
  show ?thesis
    unfolding decide_escalation_AutoFix safe_to_fix_def Let_def conf thr risk crit evid hist
      less_eq_autonomy_mode_def by auto
qed

end
