(* ===== verification/Guardrail.thy ===== *)
theory Guardrail
  imports Policy
begin

text \<open>
  Execution-time guardrails: the predicate registry and the predicates of \<open>argus-executor\<close>
  (\<open>guardrail.rs\<close>, the guards of \<open>remediation.rs\<close> and \<open>cluster.rs\<close>) with the three registries
  the daemon wires. A predicate maps the resolved target to a refusal reason or to success.
  The process id of the daemon is a parameter.
\<close>

section \<open>The registry\<close>

type_synonym guardrail = "string \<Rightarrow> string + unit"

record guardrail_violation =
  gr_capability :: capability_id
  gr_reason :: string

type_synonym guardrail_registry = "capability_id \<rightharpoonup> guardrail list"

definition guardrail_register :: "capability_id \<Rightarrow> guardrail \<Rightarrow> guardrail_registry \<Rightarrow> guardrail_registry" where
  "guardrail_register c g r = r(c \<mapsto> (case r c of None \<Rightarrow> [] | Some gs \<Rightarrow> gs) @ [g])"

fun check_all :: "capability_id \<Rightarrow> guardrail list \<Rightarrow> string \<Rightarrow> guardrail_violation + unit" where
  "check_all c [] target = Inr ()"
| "check_all c (g # gs) target =
     (case g target of
        Inl reason \<Rightarrow> Inl \<lparr> gr_capability = c, gr_reason = reason \<rparr>
      | Inr _ \<Rightarrow> check_all c gs target)"

definition guardrail_check :: "guardrail_registry \<Rightarrow> capability_id \<Rightarrow> string \<Rightarrow> guardrail_violation + unit" where
  "guardrail_check r c target =
     (case r c of None \<Rightarrow> Inr () | Some predicates \<Rightarrow> check_all c predicates target)"

lemma check_all_Inr: "check_all c gs t = Inr u \<longleftrightarrow> (\<forall>g \<in> set gs. g t = Inr ())"
  by (induction gs) (auto split: sum.splits)

lemma guardrail_check_Inr:
  "guardrail_check r c t = Inr u \<longleftrightarrow> (\<forall>gs. r c = Some gs \<longrightarrow> (\<forall>g \<in> set gs. g t = Inr ()))"
  by (auto simp: guardrail_check_def check_all_Inr split: option.splits)

lemma guardrail_check_register:
  "guardrail_check (guardrail_register c g r) c' t = Inr () \<longleftrightarrow>
     guardrail_check r c' t = Inr () \<and> (c' = c \<longrightarrow> g t = Inr ())"
  by (cases "r c") (auto simp: guardrail_check_Inr guardrail_register_def)

lemma guardrail_check_empty [simp]: "guardrail_check Map.empty c t = Inr ()"
  by (simp add: guardrail_check_def)

section \<open>Service guards\<close>

definition never_target_argusd :: "string \<Rightarrow> guardrail" where
  "never_target_argusd own target =
     (let unit = trim target
      in if unit = own \<or> unit = own @ ''.service''
         then Inl (''refusing to target the daemon'' @ [CHR 0x27] @ ''s own unit '' @ quoted unit) else Inr ())"

definition is_valid_unit_name :: "string \<Rightarrow> bool" where
  "is_valid_unit_name unit \<longleftrightarrow>
     unit \<noteq> [] \<and> unit \<noteq> ''..'' \<and> \<not> starts_with ''-'' unit \<and> CHR ''/'' \<notin> set unit
     \<and> CHR 0x5C \<notin> set unit \<and> \<not> list_ex is_control unit \<and> \<not> list_ex is_whitespace unit"

definition valid_service_unit :: guardrail where
  "valid_service_unit target =
     (if \<not> is_valid_unit_name target then Inl (quoted target @ '' is not a valid service unit name'') else Inr ())"

definition allowed_targets :: "string set \<Rightarrow> guardrail" where
  "allowed_targets allowed target =
     (if target \<notin> allowed then Inl (quoted target @ '' is not in the allowed target set'') else Inr ())"

definition DAEMON_UNIT :: string where
  "DAEMON_UNIT = ''argusd''"

definition service_guardrails :: "string \<Rightarrow> guardrail_registry" where
  "service_guardrails daemon_unit =
     fold (\<lambda>c r. guardrail_register (CapabilityId c) valid_service_unit
                   (guardrail_register (CapabilityId c) (never_target_argusd daemon_unit) r))
       [HOST_SERVICE_RESTART, HOST_SERVICE_STOP, HOST_SERVICE_START] Map.empty"

section \<open>Remediation guards\<close>

definition pid_above_one :: "int \<Rightarrow> string + unit" where
  "pid_above_one pid =
     (if pid \<le> 1
      then Inl (''refusing to signal PID '' @ show_int pid @ '': PID must be greater than 1'') else Inr ())"

definition pid_above_one_guard :: guardrail where
  "pid_above_one_guard target =
     (case parse_i32 target of
        None \<Rightarrow> Inl (''target '' @ quoted target @ '' is not a pid'')
      | Some pid \<Rightarrow> pid_above_one pid)"

definition never_signal_self :: "int \<Rightarrow> guardrail" where
  "never_signal_self own_pid target =
     (case parse_i32 target of
        None \<Rightarrow> Inl (''target '' @ quoted target @ '' is not a pid'')
      | Some pid \<Rightarrow>
          if pid = own_pid
          then Inl (''refusing to signal this daemon'' @ [CHR 0x27] @ ''s own process'') else Inr ())"

definition never_target :: "string set \<Rightarrow> guardrail" where
  "never_target protected target =
     (if target \<in> protected then Inl (quoted target @ '' is a protected remediation target'') else Inr ())"

datatype remediation_error = Unavailable string | RemFailed string

fun show_remediation_error :: "remediation_error \<Rightarrow> string" where
  "show_remediation_error (Unavailable s) = ''remediation target is unavailable: '' @ s"
| "show_remediation_error (RemFailed s) = ''remediation operation failed: '' @ s"

definition validate_cgroup_path :: "string \<Rightarrow> remediation_error + unit" where
  "validate_cgroup_path path =
     (if path = [] then Inl (RemFailed ''cgroup path is empty'')
      else if starts_with ''/'' path then Inl (RemFailed ''cgroup path must be relative to the mount root'')
      else if list_ex (\<lambda>component. component = [] \<or> component = ''..'') (split_on (CHR ''/'') path)
      then Inl (RemFailed (''cgroup path '' @ quoted path @ '' contains an empty or '' @ quoted ''..'' @ '' component''))
      else Inr ())"

definition valid_cgroup_path :: guardrail where
  "valid_cgroup_path target = map_err show_remediation_error (validate_cgroup_path target)"

definition remediation_guardrails :: "int \<Rightarrow> string list \<Rightarrow> string list \<Rightarrow> guardrail_registry" where
  "remediation_guardrails own_pid protected_containers protected_cgroups =
     (let signal = CapabilityId HOST_PROCESS_SIGNAL;
          r1 = guardrail_register signal (never_signal_self own_pid) Map.empty;
          r2 = guardrail_register signal pid_above_one_guard r1;
          r3 = guardrail_register (CapabilityId CONTAINER_RESTART) (never_target (set protected_containers)) r2
      in fold (\<lambda>c r. guardrail_register (CapabilityId c) (never_target (set protected_cgroups))
                       (guardrail_register (CapabilityId c) valid_cgroup_path r))
           [HOST_CGROUP_FREEZE, HOST_CGROUP_THAW] r3)"

text \<open>The file a controller rooted at \<open>base\<close> writes for a cgroup path.\<close>

definition trim_root :: "string \<Rightarrow> string \<Rightarrow> string" where
  "trim_root base path =
     (let r = rev (dropWhile (\<lambda>c. c = CHR ''/'') (rev base)); p = dropWhile (\<lambda>c. c = CHR ''/'') path
      in if p = [] then r else r @ ''/'' @ p)"

definition freeze_file :: "string \<Rightarrow> string \<Rightarrow> remediation_error + string" where
  "freeze_file base path =
     (case validate_cgroup_path path of Inl e \<Rightarrow> Inl e
      | Inr _ \<Rightarrow> Inr (trim_root base path @ ''/cgroup.freeze''))"

section \<open>Cluster guards\<close>

definition protected_namespaces :: "string set \<Rightarrow> guardrail" where
  "protected_namespaces protected target =
     (let namespace = (case split_on (CHR ''/'') target of [] \<Rightarrow> [] | n # _ \<Rightarrow> n)
      in if namespace \<in> protected
         then Inl (''namespace '' @ quoted namespace @ '' is protected from kubernetes remediation'')
         else Inr ())"

definition check_replicas :: "int \<Rightarrow> int \<Rightarrow> string + unit" where
  "check_replicas max_replicas replicas =
     (if \<not> (0 \<le> replicas \<and> replicas \<le> max_replicas)
      then Inl (''replicas '' @ show_int replicas @ '' is outside the quota bound 0..='' @ show_int max_replicas)
      else Inr ())"

text \<open>One component of a name; \<open>len\<close> counts the UTF-8 bytes.\<close>

definition k8s_part :: "string \<Rightarrow> string + unit" where
  "k8s_part part =
     (if part = [] \<or> length (utf8 part) > 253 then Inl (quoted part @ '' is not a valid kubernetes name'')
      else if \<not> list_all (\<lambda>c. is_ascii_lowercase c \<or> is_ascii_digit c \<or> c = CHR ''-'' \<or> c = CHR ''.'') part
      then Inl (quoted part @ '' contains characters outside [a-z0-9.-]'')
      else if starts_with ''-'' part \<or> ends_with ''-'' part \<or> starts_with ''.'' part \<or> ends_with ''.'' part
      then Inl (quoted part @ '' has a leading or trailing separator'')
      else Inr ())"

fun k8s_parts :: "string list \<Rightarrow> string + unit" where
  "k8s_parts [] = Inr ()"
| "k8s_parts (p # ps) = (case k8s_part p of Inl e \<Rightarrow> Inl e | Inr _ \<Rightarrow> k8s_parts ps)"

definition valid_k8s_name :: guardrail where
  "valid_k8s_name target = k8s_parts (split_on (CHR ''/'') target)"

definition kubernetes_guardrails :: "string list \<Rightarrow> guardrail_registry" where
  "kubernetes_guardrails protected =
     (let r = fold (\<lambda>c r. guardrail_register (CapabilityId c) (protected_namespaces (set protected)) r)
                [K8S_POD_RESTART, K8S_POD_DELETE] Map.empty
      in fold (\<lambda>c r. guardrail_register (CapabilityId c) valid_k8s_name r)
           [K8S_POD_RESTART, K8S_POD_DELETE, K8S_DEPLOYMENT_RESTART, K8S_DEPLOYMENT_ROLLBACK,
            K8S_WORKLOAD_SCALE, K8S_JOB_CLEANUP] r)"

section \<open>What the registries let through\<close>

lemma sum_if_Inr: "(if b then Inl e else Inr ()) = Inr () \<longleftrightarrow> \<not> b"
  by simp

lemma k8s_parts_Inr: "k8s_parts ps = Inr () \<longleftrightarrow> (\<forall>p \<in> set ps. k8s_part p = Inr ())"
  by (induction ps) (auto split: sum.splits)

lemma service_check_iff:
  assumes "c \<in> set [HOST_SERVICE_RESTART, HOST_SERVICE_STOP, HOST_SERVICE_START]"
  shows "guardrail_check (service_guardrails own) (CapabilityId c) unit = Inr () \<longleftrightarrow>
           is_valid_unit_name unit \<and> unit \<noteq> own \<and> unit \<noteq> own @ ''.service''"
proof -
  have "is_valid_unit_name unit \<Longrightarrow> trim unit = unit"
    by (rule trim_id) (auto simp: is_valid_unit_name_def list_ex_iff)
  with assms show ?thesis
    by (auto simp: service_guardrails_def guardrail_check_register never_target_argusd_def
        valid_service_unit_def Let_def cap_ids split: if_splits)
qed

lemma pid_check_iff:
  assumes "- (2 ^ 31) \<le> pid" "pid < 2 ^ 31"
  shows "guardrail_check (remediation_guardrails own cs gs) (CapabilityId HOST_PROCESS_SIGNAL) (show_int pid) = Inr ()
           \<longleftrightarrow> 1 < pid \<and> pid \<noteq> own"
  using parse_i32_show_int [OF assms]
  by (auto simp: remediation_guardrails_def Let_def guardrail_check_register never_signal_self_def
      pid_above_one_guard_def pid_above_one_def cap_ids)

lemma container_check_iff:
  "guardrail_check (remediation_guardrails own cs gs) (CapabilityId CONTAINER_RESTART) i = Inr () \<longleftrightarrow> i \<notin> set cs"
  by (simp add: remediation_guardrails_def Let_def guardrail_check_register never_target_def cap_ids)

lemma validate_cgroup_path_Inr:
  "validate_cgroup_path path = Inr () \<longleftrightarrow>
     (\<forall>component \<in> set (split_on (CHR ''/'') path). component \<noteq> [] \<and> component \<noteq> ''..'')"
proof -
  have "path = [] \<or> starts_with ''/'' path \<Longrightarrow> [] \<in> set (split_on (CHR ''/'') path)"
    by (cases path; cases "split_on (CHR ''/'') (tl path)") auto
  then show ?thesis
    by (auto simp: validate_cgroup_path_def list_ex_iff)
qed

lemma cgroup_check_iff:
  assumes "c \<in> set [HOST_CGROUP_FREEZE, HOST_CGROUP_THAW]"
  shows "guardrail_check (remediation_guardrails own cs gs) (CapabilityId c) path = Inr () \<longleftrightarrow>
           (\<forall>component \<in> set (split_on (CHR ''/'') path). component \<noteq> [] \<and> component \<noteq> ''..'')
           \<and> path \<notin> set gs"
proof -
  from assms have "c = HOST_CGROUP_FREEZE \<or> c = HOST_CGROUP_THAW" by simp
  then show ?thesis
    by (elim disjE; simp add: remediation_guardrails_def Let_def guardrail_check_register never_target_def
        valid_cgroup_path_def validate_cgroup_path_Inr cap_ids)
qed

lemma kubernetes_check_iff:
  "guardrail_check (kubernetes_guardrails protected) (CapabilityId c) target = Inr () \<longleftrightarrow>
     (c \<in> {K8S_POD_RESTART, K8S_POD_DELETE} \<longrightarrow>
        protected_namespaces (set protected) target = Inr ()) \<and>
     (c \<in> {K8S_POD_RESTART, K8S_POD_DELETE, K8S_DEPLOYMENT_RESTART, K8S_DEPLOYMENT_ROLLBACK,
           K8S_WORKLOAD_SCALE, K8S_JOB_CLEANUP} \<longrightarrow> valid_k8s_name target = Inr ())"
  by (simp add: kubernetes_guardrails_def Let_def guardrail_check_register)

lemma protected_namespace_refused:
  assumes "CHR ''/'' \<notin> set ns" "ns \<in> protected"
  shows "protected_namespaces protected (ns @ ''/'' @ name) \<noteq> Inr ()"
  using assms split_on_append_sep [of "CHR ''/''" ns name]
  by (simp add: protected_namespaces_def split_on_id)

lemma check_replicas_Inr: "check_replicas m r = Inr () \<longleftrightarrow> 0 \<le> r \<and> r \<le> m"
  by (auto simp: check_replicas_def)

end
