(* ===== verification/Executors.thy ===== *)
theory Executors
  imports Guardrail
begin

text \<open>
  The execution boundary (\<open>argus-executor\<close>): authorized actions (\<open>action.rs\<close>), the read-only
  executor (\<open>bootstrap.rs\<close>), the service executor with its reversal (\<open>privileged.rs\<close>,
  \<open>service.rs\<close>), the remediation executor (\<open>remediation.rs\<close>, \<open>mcp.rs\<close>) and the routing of the
  composite executor. The controllers are the operating system's side of the boundary: each is a
  record of functions on a host state \<open>'h\<close>, and an executor maps an action and a host to a
  result and the host afterwards. The times stamped on a result are audit data and left out;
  the clock the journal vacuum computes its bound from is a reading of the host.
\<close>

section \<open>Authorized actions\<close>

record authorized_action =
  aa_request :: capability_request
  aa_decision :: policy_decision

datatype reversal_status = NotAttempted | Reversed | ReversalFailed | NotPossible

fun reversal_name :: "reversal_status \<Rightarrow> string" where
  "reversal_name NotAttempted = ''not_attempted''"
| "reversal_name Reversed = ''reversed''"
| "reversal_name ReversalFailed = ''reversal_failed''"
| "reversal_name NotPossible = ''not_possible''"

datatype execution_error =
    NotAuthorized policy_outcome
  | Unsupported capability_id
  | ExecutionFailed string
  | GuardrailRefused guardrail_violation
  | FailedAfterEffect string reversal_status

record execution_result =
  er_capability :: capability_id
  er_evidence :: json

definition authorized_action_new ::
  "capability_request \<Rightarrow> policy_decision \<Rightarrow> execution_error + authorized_action" where
  "authorized_action_new rq d =
     (if pd_outcome d \<noteq> Allow then Inl (NotAuthorized (pd_outcome d))
      else Inr \<lparr> aa_request = rq, aa_decision = d \<rparr>)"

definition aa_capability :: "authorized_action \<Rightarrow> capability_id" where
  "aa_capability a = rq_capability (aa_request a)"

abbreviation aa_arguments :: "authorized_action \<Rightarrow> json" where
  "aa_arguments a \<equiv> rq_arguments (aa_request a)"

type_synonym 'h executor = "authorized_action \<Rightarrow> 'h \<Rightarrow> (execution_error + execution_result) \<times> 'h"

text \<open>The tail every effect shares: success carries the evidence, an error becomes \<open>Failed\<close>.\<close>

definition finish ::
  "capability_id \<Rightarrow> json \<Rightarrow> (remediation_error + 'a) \<times> 'h \<Rightarrow> (execution_error + execution_result) \<times> 'h" where
  "finish c evidence r =
     (case r of
        (Inl e, h) \<Rightarrow> (Inl (ExecutionFailed (show_remediation_error e)), h)
      | (Inr _, h) \<Rightarrow> (Inr \<lparr> er_capability = c, er_evidence = evidence \<rparr>, h))"

definition non_blank :: "string option \<Rightarrow> string option" where
  "non_blank s = Option.bind s (\<lambda>x. if trim x = [] then None else Some x)"

definition json_int :: "int \<Rightarrow> json" where
  "json_int i = JNum (if i < 0 then NegInt i else PosInt (nat i))"

section \<open>The read-only executor\<close>

record 'h capability_provider =
  cp_host_status :: "'h \<Rightarrow> json"
  cp_health :: "'h \<Rightarrow> json"
  cp_config :: "'h \<Rightarrow> json"
  cp_plugins :: "'h \<Rightarrow> json"

definition bootstrap_execute :: "'h capability_provider \<Rightarrow> 'h executor" where
  "bootstrap_execute p a h =
     (let c = aa_capability a; ok = (\<lambda>v. (Inr \<lparr> er_capability = c, er_evidence = v \<rparr>, h))
      in if as_str c = HOST_STATUS_READ then ok (cp_host_status p h)
         else if as_str c = ARGUS_HEALTH_READ then ok (JObj [(''health'', cp_health p h)])
         else if as_str c = ARGUS_CONFIG_READ then ok (cp_config p h)
         else if as_str c = ARGUS_PLUGINS_LIST then ok (cp_plugins p h)
         else (Inl (Unsupported c), h))"

section \<open>The service executor\<close>

datatype service_error = SvcUnavailable string | SvcFailed string

fun show_service_error :: "service_error \<Rightarrow> string" where
  "show_service_error (SvcUnavailable s) = ''service control unavailable: '' @ s"
| "show_service_error (SvcFailed s) = ''service operation failed: '' @ s"

record 'h service_controller =
  sc_restart :: "string \<Rightarrow> 'h \<Rightarrow> (service_error + unit) \<times> 'h"
  sc_stop :: "string \<Rightarrow> 'h \<Rightarrow> (service_error + unit) \<times> 'h"
  sc_start :: "string \<Rightarrow> 'h \<Rightarrow> (service_error + unit) \<times> 'h"
  sc_is_active :: "string \<Rightarrow> 'h \<Rightarrow> service_error + bool"

datatype service_op = OpRestart | OpStop | OpStart

definition service_op_of :: "capability_id \<Rightarrow> service_op option" where
  "service_op_of c =
     (if as_str c = HOST_SERVICE_RESTART then Some OpRestart
      else if as_str c = HOST_SERVICE_STOP then Some OpStop
      else if as_str c = HOST_SERVICE_START then Some OpStart
      else None)"

fun service_verb :: "service_op \<Rightarrow> string" where
  "service_verb OpRestart = ''restart''"
| "service_verb OpStop = ''stop''"
| "service_verb OpStart = ''start''"

fun service_apply :: "service_op \<Rightarrow> 'h service_controller \<Rightarrow> string \<Rightarrow> 'h \<Rightarrow> (service_error + unit) \<times> 'h" where
  "service_apply OpRestart sc = sc_restart sc"
| "service_apply OpStop sc = sc_stop sc"
| "service_apply OpStart sc = sc_start sc"

fun service_inverse :: "service_op \<Rightarrow> service_op option" where
  "service_inverse OpStop = Some OpStart"
| "service_inverse OpStart = Some OpStop"
| "service_inverse OpRestart = None"

definition attempt_reversal ::
  "service_op \<Rightarrow> 'h service_controller \<Rightarrow> string \<Rightarrow> 'h \<Rightarrow> reversal_status \<times> 'h" where
  "attempt_reversal operation sc unit h =
     (case service_inverse operation of
        None \<Rightarrow> (NotPossible, h)
      | Some undo \<Rightarrow>
          (case service_apply undo sc unit h of
             (Inr _, h') \<Rightarrow> (Reversed, h')
           | (Inl _, h') \<Rightarrow> (ReversalFailed, h')))"

definition privileged_handles :: "capability_id \<Rightarrow> bool" where
  "privileged_handles c = (service_op_of c \<noteq> None)"

definition privileged_execute :: "'h service_controller \<Rightarrow> guardrail_registry \<Rightarrow> 'h executor" where
  "privileged_execute sc guards a h =
     (let c = aa_capability a
      in case service_op_of c of
           None \<Rightarrow> (Inl (Unsupported c), h)
         | Some operation \<Rightarrow>
             (case non_blank (get_str ''unit'' (aa_arguments a)) of
                None \<Rightarrow> (Inl (ExecutionFailed ''the request does not name a service unit''), h)
              | Some unit \<Rightarrow>
                  (case guardrail_check guards c unit of
                     Inl v \<Rightarrow> (Inl (GuardrailRefused v), h)
                   | Inr _ \<Rightarrow>
                       (case service_apply operation sc unit h of
                          (Inr _, h1) \<Rightarrow>
                            (Inr \<lparr> er_capability = c,
                                   er_evidence = JObj [(''operation'', JStr (service_verb operation)),
                                                       (''reversal'', JStr (reversal_name NotAttempted)),
                                                       (''unit'', JStr unit)] \<rparr>, h1)
                        | (Inl e, h1) \<Rightarrow>
                            (let (reversal, h2) = attempt_reversal operation sc unit h1
                             in (Inl (FailedAfterEffect (show_service_error e) reversal), h2))))))"

text \<open>The deterministic in-memory controller: its host is the call log and the active units.\<close>

type_synonym mock_services = "(string \<times> string) list \<times> string set"

definition mock_service_controller :: "mock_services service_controller" where
  "mock_service_controller =
     \<lparr> sc_restart = (\<lambda>u h. (Inr (), (fst h @ [(''restart'', u)], insert u (snd h)))),
       sc_stop = (\<lambda>u h. (Inr (), (fst h @ [(''stop'', u)], snd h - {u}))),
       sc_start = (\<lambda>u h. (Inr (), (fst h @ [(''start'', u)], insert u (snd h)))),
       sc_is_active = (\<lambda>u h. Inr (u \<in> snd h)) \<rparr>"

section \<open>The remediation executor\<close>

datatype process_signal = SigTerm | SigKill | SigStop | SigCont

definition process_signal_parse :: "string \<Rightarrow> process_signal option" where
  "process_signal_parse v =
     (if v = ''term'' then Some SigTerm else if v = ''kill'' then Some SigKill
      else if v = ''stop'' then Some SigStop else if v = ''cont'' then Some SigCont else None)"

fun process_signal_name :: "process_signal \<Rightarrow> string" where
  "process_signal_name SigTerm = ''term''"
| "process_signal_name SigKill = ''kill''"
| "process_signal_name SigStop = ''stop''"
| "process_signal_name SigCont = ''cont''"

record 'h remediation_ports =
  rp_signal :: "int \<Rightarrow> process_signal \<Rightarrow> 'h \<Rightarrow> (remediation_error + unit) \<times> 'h"
  rp_exists :: "int \<Rightarrow> 'h \<Rightarrow> remediation_error + bool"
  rp_container_restart :: "string \<Rightarrow> 'h \<Rightarrow> (remediation_error + unit) \<times> 'h"
  rp_is_running :: "string \<Rightarrow> 'h \<Rightarrow> remediation_error + bool"
  rp_set_freeze :: "string \<Rightarrow> bool \<Rightarrow> 'h \<Rightarrow> (remediation_error + unit) \<times> 'h"
  rp_is_frozen :: "string \<Rightarrow> 'h \<Rightarrow> remediation_error + bool"
  rp_reclaim_page_cache :: "'h \<Rightarrow> (remediation_error + unit) \<times> 'h"
  rp_vacuum :: "nat \<Rightarrow> 'h \<Rightarrow> (remediation_error + unit) \<times> 'h"
  rp_mcp_call :: "capability_id \<Rightarrow> json \<Rightarrow> 'h \<Rightarrow> (remediation_error + json) \<times> 'h"
  rp_now :: "'h \<Rightarrow> instant"

record 'h remediation_executor =
  re_ports :: "'h remediation_ports"
  re_journal_keep_days :: u32
  re_guardrails :: guardrail_registry

definition MIN_KEEP_DAYS :: u32 where "MIN_KEEP_DAYS = 1"
definition MAX_KEEP_DAYS :: u32 where "MAX_KEEP_DAYS = 365"

definition no_mcp_tools :: "capability_id \<Rightarrow> json \<Rightarrow> 'h \<Rightarrow> (remediation_error + json) \<times> 'h" where
  "no_mcp_tools c args h =
     (Inl (Unavailable (''no MCP runtime is wired; '' @ quoted (as_str c) @ '' cannot execute'')), h)"

definition remediation_new :: "'h remediation_ports \<Rightarrow> u32 \<Rightarrow> guardrail_registry \<Rightarrow> 'h remediation_executor" where
  "remediation_new ports keep_days guards =
     \<lparr> re_ports = ports\<lparr> rp_mcp_call := no_mcp_tools \<rparr>,
       re_journal_keep_days = min (max keep_days MIN_KEEP_DAYS) MAX_KEEP_DAYS,
       re_guardrails = guards \<rparr>"

definition with_mcp_controller ::
  "(capability_id \<Rightarrow> json \<Rightarrow> 'h \<Rightarrow> (remediation_error + json) \<times> 'h) \<Rightarrow> 'h remediation_executor \<Rightarrow> 'h remediation_executor" where
  "with_mcp_controller call x = x\<lparr> re_ports := (re_ports x)\<lparr> rp_mcp_call := call \<rparr> \<rparr>"

definition remediation_handles :: "capability_id \<Rightarrow> bool" where
  "remediation_handles c \<longleftrightarrow>
     as_str c \<in> {HOST_PROCESS_SIGNAL, CONTAINER_RESTART, HOST_CGROUP_FREEZE, HOST_CGROUP_THAW,
                 HOST_MEMORY_RECLAIM, HOST_JOURNAL_VACUUM} \<or> is_mcp_capability c"

definition as_i32 :: "int \<Rightarrow> int option" where
  "as_i32 i = (if - (2 ^ 31) \<le> i \<and> i < 2 ^ 31 then Some i else None)"

definition guarded ::
  "guardrail_registry \<Rightarrow> capability_id \<Rightarrow> string \<Rightarrow> 'h \<Rightarrow>
   ('h \<Rightarrow> (execution_error + execution_result) \<times> 'h) \<Rightarrow> (execution_error + execution_result) \<times> 'h" where
  "guarded guards c target h effect =
     (case guardrail_check guards c target of
        Inl v \<Rightarrow> (Inl (GuardrailRefused v), h) | Inr _ \<Rightarrow> effect h)"

definition signal_pid :: "'h remediation_executor \<Rightarrow> 'h executor" where
  "signal_pid x a h =
     (let c = aa_capability a; arguments = aa_arguments a
      in case Option.bind (get_i64 ''pid'' arguments) as_i32 of
           None \<Rightarrow> (Inl (ExecutionFailed (''the request does not name a valid numeric '' @ quoted ''pid'')), h)
         | Some pid \<Rightarrow>
             (case Option.bind (get_str ''signal'' arguments) process_signal_parse of
                None \<Rightarrow> (Inl (ExecutionFailed ''the request does not name a signal in {term,kill,stop,cont}''), h)
              | Some signal \<Rightarrow>
                  guarded (re_guardrails x) c (show_int pid) h (\<lambda>h.
                    finish c (JObj [(''pid'', json_int pid), (''signal'', JStr (process_signal_name signal))])
                      (rp_signal (re_ports x) pid signal h))))"

definition restart_container :: "'h remediation_executor \<Rightarrow> 'h executor" where
  "restart_container x a h =
     (let c = aa_capability a
      in case non_blank (get_str ''container'' (aa_arguments a)) of
           None \<Rightarrow> (Inl (ExecutionFailed (''the request does not name a '' @ quoted ''container'')), h)
         | Some i \<Rightarrow>
             guarded (re_guardrails x) c i h (\<lambda>h.
               finish c (JObj [(''container'', JStr i), (''operation'', JStr ''restart'')])
                 (rp_container_restart (re_ports x) i h)))"

definition set_cgroup_freeze :: "bool \<Rightarrow> 'h remediation_executor \<Rightarrow> 'h executor" where
  "set_cgroup_freeze frozen x a h =
     (let c = aa_capability a
      in case non_blank (get_str ''path'' (aa_arguments a)) of
           None \<Rightarrow> (Inl (ExecutionFailed (''the request does not name a cgroup '' @ quoted ''path'')), h)
         | Some path \<Rightarrow>
             guarded (re_guardrails x) c path h (\<lambda>h.
               finish c (JObj [(''frozen'', JBool frozen), (''path'', JStr path)])
                 (rp_set_freeze (re_ports x) path frozen h)))"

definition pressure_subject :: "authorized_action \<Rightarrow> string option" where
  "pressure_subject a = get_str ''subject'' (aa_arguments a)"

definition with_subject :: "string option \<Rightarrow> (string \<times> json) list \<Rightarrow> json" where
  "with_subject subject evidence =
     JObj (case subject of None \<Rightarrow> evidence | Some s \<Rightarrow> obj_insert ''subject'' (JStr s) evidence)"

definition reclaim_page_cache :: "'h remediation_executor \<Rightarrow> 'h executor" where
  "reclaim_page_cache x a h =
     finish (aa_capability a)
       (with_subject (pressure_subject a)
          [(''operation'', JStr ''page-cache-reclaim''), (''value'', JStr ''1'')])
       (rp_reclaim_page_cache (re_ports x) h)"

definition vacuum_since :: "instant \<Rightarrow> u32 \<Rightarrow> nat" where
  "vacuum_since now keep_days =
     (let cutoff_usec = now div 1000 - int (unat keep_days) * 24 * 60 * 60 * 1000000
      in nat (max cutoff_usec 0))"

definition vacuum_journal :: "'h remediation_executor \<Rightarrow> 'h executor" where
  "vacuum_journal x a h =
     (let since_usec = vacuum_since (rp_now (re_ports x) h) (re_journal_keep_days x)
      in finish (aa_capability a)
           (with_subject (pressure_subject a)
              [(''keep_days'', json_int (int (unat (re_journal_keep_days x)))),
               (''operation'', JStr ''journal-vacuum''), (''since_usec'', JNum (PosInt since_usec))])
           (rp_vacuum (re_ports x) since_usec h))"

definition call_mcp_tool :: "'h remediation_executor \<Rightarrow> 'h executor" where
  "call_mcp_tool x a h =
     (let c = aa_capability a
      in case rp_mcp_call (re_ports x) c (aa_arguments a) h of
           (Inl e, h') \<Rightarrow> (Inl (ExecutionFailed (show_remediation_error e)), h')
         | (Inr evidence, h') \<Rightarrow> (Inr \<lparr> er_capability = c, er_evidence = evidence \<rparr>, h'))"

definition remediation_execute :: "'h remediation_executor \<Rightarrow> 'h executor" where
  "remediation_execute x a h =
     (let c = aa_capability a
      in if as_str c = HOST_PROCESS_SIGNAL then signal_pid x a h
         else if as_str c = CONTAINER_RESTART then restart_container x a h
         else if as_str c = HOST_CGROUP_FREEZE then set_cgroup_freeze True x a h
         else if as_str c = HOST_CGROUP_THAW then set_cgroup_freeze False x a h
         else if as_str c = HOST_MEMORY_RECLAIM then reclaim_page_cache x a h
         else if as_str c = HOST_JOURNAL_VACUUM then vacuum_journal x a h
         else if starts_with ''mcp.'' (as_str c) then call_mcp_tool x a h
         else (Inl (Unsupported c), h))"

section \<open>Kernel-facing controllers\<close>

text \<open>
  The cgroup v2 and page-cache controllers are file writes; \<open>write\<close> and \<open>read\<close> are the file
  system's, given as functions on the host, and \<open>sync\<close> flushes it.
\<close>

definition cgroup_v2_set_freeze ::
  "string \<Rightarrow> (string \<Rightarrow> string \<Rightarrow> 'h \<Rightarrow> (string + unit) \<times> 'h) \<Rightarrow> string \<Rightarrow> bool \<Rightarrow> 'h \<Rightarrow> (remediation_error + unit) \<times> 'h" where
  "cgroup_v2_set_freeze base write path frozen h =
     (case freeze_file base path of
        Inl e \<Rightarrow> (Inl e, h)
      | Inr file \<Rightarrow>
          (let (r, h') = write file (if frozen then ''1'' else ''0'') h
           in (map_err (\<lambda>e. RemFailed (''cgroup.freeze write failed: '' @ e)) r, h')))"

definition cgroup_v2_is_frozen ::
  "string \<Rightarrow> (string \<Rightarrow> 'h \<Rightarrow> string + string) \<Rightarrow> string \<Rightarrow> 'h \<Rightarrow> remediation_error + bool" where
  "cgroup_v2_is_frozen base read path h =
     (case freeze_file base path of
        Inl e \<Rightarrow> Inl e
      | Inr file \<Rightarrow>
          (case read file h of
             Inl e \<Rightarrow> Inl (RemFailed (''cgroup.freeze read failed: '' @ e))
           | Inr raw \<Rightarrow> Inr (trim raw = ''1'')))"

definition drop_caches_reclaim ::
  "string \<Rightarrow> ('h \<Rightarrow> 'h) \<Rightarrow> (string \<Rightarrow> string \<Rightarrow> 'h \<Rightarrow> (string + unit) \<times> 'h) \<Rightarrow> 'h \<Rightarrow> (remediation_error + unit) \<times> 'h" where
  "drop_caches_reclaim path sync write h =
     (let (r, h') = write path ''1'' (sync h)
      in (map_err (\<lambda>e. RemFailed (''drop_caches write to '' @ quoted path @ '' failed: '' @ e)) r, h'))"

section \<open>Routing\<close>

definition kubernetes_handles :: "capability_id \<Rightarrow> bool" where
  "kubernetes_handles c \<longleftrightarrow>
     as_str c \<in> {K8S_POD_RESTART, K8S_POD_DELETE, K8S_DEPLOYMENT_RESTART, K8S_DEPLOYMENT_ROLLBACK,
                 K8S_WORKLOAD_SCALE, K8S_NODE_CORDON, K8S_NODE_UNCORDON, K8S_JOB_CLEANUP,
                 K8S_CLUSTER_READ, K8S_NODE_READ, K8S_POD_READ, K8S_DEPLOYMENT_READ}"

record 'h composite_executor =
  ce_read_only :: "'h executor"
  ce_environment_changing :: "'h executor"
  ce_remediation :: "'h executor option"
  ce_kubernetes :: "'h executor option"

definition dispatch_optional :: "'h executor option \<Rightarrow> 'h executor" where
  "dispatch_optional x a h =
     (case x of Some execute \<Rightarrow> execute a h | None \<Rightarrow> (Inl (Unsupported (aa_capability a)), h))"

definition composite_execute :: "'h composite_executor \<Rightarrow> 'h executor" where
  "composite_execute x a h =
     (let c = aa_capability a
      in if privileged_handles c then ce_environment_changing x a h
         else if remediation_handles c then dispatch_optional (ce_remediation x) a h
         else if kubernetes_handles c then dispatch_optional (ce_kubernetes x) a h
         else ce_read_only x a h)"

section \<open>The executor port\<close>

text \<open>
  What the plan loop relies on: an executor leaves the host alone on a capability it does not
  handle and on a guardrail refusal, and a result carries the capability of its action.
\<close>

locale executor_port =
  fixes execute :: "'h executor"
    and handles :: "capability_id \<Rightarrow> bool"
  assumes unhandled:
      "\<not> handles (aa_capability a) \<Longrightarrow> snd (execute a h) = h \<and> (\<exists>e. fst (execute a h) = Inl e)"
    and result_capability: "fst (execute a h) = Inr r \<Longrightarrow> er_capability r = aa_capability a"
    and refusal_untouched:
      "fst (execute a h) = Inl (GuardrailRefused v) \<Longrightarrow> snd (execute a h) = h \<and> gr_capability v = aa_capability a"
begin

lemma effect_is_handled: "snd (execute a h) \<noteq> h \<Longrightarrow> handles (aa_capability a)"
  using unhandled [of a h] by auto

lemma success_is_handled: "is_ok (fst (execute a h)) \<Longrightarrow> handles (aa_capability a)"
  using unhandled [of a h] by (metis is_ok_simps(1))

end

lemma finish_cases [simp]:
  "snd (finish c v r) = snd r"
  "fst (finish c v r) = Inr res \<longleftrightarrow> is_ok (fst r) \<and> res = \<lparr> er_capability = c, er_evidence = v \<rparr>"
  "fst (finish c v r) \<noteq> Inl (GuardrailRefused g)"
  by (cases r; cases "fst r"; auto simp: finish_def)+

lemma check_all_capability: "check_all c gs t = Inl v \<Longrightarrow> gr_capability v = c"
  by (induction gs) (auto split: sum.splits)

lemma guardrail_check_capability: "guardrail_check r c t = Inl v \<Longrightarrow> gr_capability v = c"
  by (auto simp: guardrail_check_def check_all_capability split: option.splits)

lemma guarded_simps:
  "snd (guarded g c t h eff) = (if is_ok (guardrail_check g c t) then snd (eff h) else h)"
  "fst (guarded g c t h eff) = Inr res \<longleftrightarrow> is_ok (guardrail_check g c t) \<and> fst (eff h) = Inr res"
  by (auto simp: guarded_def split: sum.splits)

text \<open>The last two laws as one predicate on an outcome, closed under the shared combinators.\<close>

definition port_ok :: "capability_id \<Rightarrow> 'h \<Rightarrow> (execution_error + execution_result) \<times> 'h \<Rightarrow> bool" where
  "port_ok c h out \<longleftrightarrow>
     (\<forall>r. fst out = Inr r \<longrightarrow> er_capability r = c) \<and>
     (\<forall>v. fst out = Inl (GuardrailRefused v) \<longrightarrow> snd out = h \<and> gr_capability v = c)"

lemma port_ok_simps [simp]:
  "port_ok c h (Inl (ExecutionFailed s), h')"
  "port_ok c h (Inl (Unsupported k), h')"
  "port_ok c h (Inl (FailedAfterEffect s rv), h')"
  "port_ok c h (Inr r, h') \<longleftrightarrow> er_capability r = c"
  "port_ok c h (finish c v out)"
  by (simp_all add: port_ok_def)

lemma port_ok_result: "port_ok c h out \<Longrightarrow> fst out = Inr r \<Longrightarrow> er_capability r = c"
  by (simp add: port_ok_def)

lemma port_ok_refusal:
  "port_ok c h out \<Longrightarrow> fst out = Inl (GuardrailRefused v) \<Longrightarrow> snd out = h \<and> gr_capability v = c"
  by (simp add: port_ok_def)

lemma port_ok_guarded: "(\<And>h'. port_ok c h (eff h')) \<Longrightarrow> port_ok c h (guarded g c t h eff)"
  by (auto simp: port_ok_def guarded_def guardrail_check_capability split: sum.splits)

interpretation bootstrap_exec: executor_port "bootstrap_execute p"
    "\<lambda>c. as_str c \<in> {HOST_STATUS_READ, ARGUS_HEALTH_READ, ARGUS_CONFIG_READ, ARGUS_PLUGINS_LIST}"
  by unfold_locales (auto simp: bootstrap_execute_def Let_def split: if_splits)

lemma privileged_port_ok: "port_ok (aa_capability a) h (privileged_execute sc g a h)"
  by (auto simp: privileged_execute_def Let_def port_ok_def guardrail_check_capability
      split: option.splits sum.splits prod.splits)

interpretation privileged_exec: executor_port "privileged_execute sc g" privileged_handles
proof (unfold_locales, goal_cases)
  case (1 a h)
  then show ?case by (simp add: privileged_execute_def privileged_handles_def)
qed (erule port_ok_result [OF privileged_port_ok] port_ok_refusal [OF privileged_port_ok])+

lemma port_ok_operations:
  "port_ok (aa_capability a) h (signal_pid x a h)"
  "port_ok (aa_capability a) h (restart_container x a h)"
  "port_ok (aa_capability a) h (set_cgroup_freeze frozen x a h)"
  "port_ok (aa_capability a) h (reclaim_page_cache x a h)"
  "port_ok (aa_capability a) h (vacuum_journal x a h)"
  "port_ok (aa_capability a) h (call_mcp_tool x a h)"
  by (auto simp: signal_pid_def restart_container_def set_cgroup_freeze_def reclaim_page_cache_def
      vacuum_journal_def call_mcp_tool_def Let_def port_ok_guarded split: option.split sum.split prod.split)

lemma remediation_port_ok: "port_ok (aa_capability a) h (remediation_execute x a h)"
  by (simp add: remediation_execute_def Let_def port_ok_operations)

interpretation remediation_exec: executor_port "remediation_execute x" remediation_handles
proof (unfold_locales, goal_cases)
  case (1 a h)
  then show ?case by (simp add: remediation_execute_def remediation_handles_def is_mcp_capability_def Let_def)
qed (erule port_ok_result [OF remediation_port_ok] port_ok_refusal [OF remediation_port_ok])+

text \<open>The composite inherits the port from its parts.\<close>

definition optional_port :: "'h executor option \<Rightarrow> (capability_id \<Rightarrow> bool) \<Rightarrow> bool" where
  "optional_port x handles = (case x of None \<Rightarrow> True | Some execute \<Rightarrow> executor_port execute handles)"

lemma dispatch_optional_port: "optional_port x handles \<Longrightarrow> executor_port (dispatch_optional x) handles"
  by (cases x) (auto simp: optional_port_def dispatch_optional_def executor_port_def)

lemma composite_port:
  assumes "executor_port (ce_read_only x) ro" "executor_port (ce_environment_changing x) privileged_handles"
    and "optional_port (ce_remediation x) remediation_handles"
    and "optional_port (ce_kubernetes x) kubernetes_handles"
  shows "executor_port (composite_execute x)
           (\<lambda>c. privileged_handles c \<or> remediation_handles c \<or> kubernetes_handles c \<or> ro c)"
proof -
  note ports = assms(1,2) dispatch_optional_port [OF assms(3)] dispatch_optional_port [OF assms(4)]
  show ?thesis
    using ports [unfolded executor_port_def]
    by (intro executor_port.intro) (auto simp: composite_execute_def Let_def split: if_splits)
qed

end
