(* ===== verification/Cluster.thy ===== *)
theory Cluster
  imports Executors
begin

text \<open>
  The Kubernetes executor (\<open>argus-executor\<close>, \<open>cluster.rs\<close>) over a cluster controller, and the
  composite executor the daemon wires from the four executors. The properties state what can
  reach a controller: the only way the host changes is the one typed effect of the action, on a
  target every guardrail of its capability accepted.
\<close>

section \<open>The controller\<close>

record 'h cluster_controller =
  cc_restart_pod :: "string \<Rightarrow> string \<Rightarrow> 'h \<Rightarrow> (remediation_error + unit) \<times> 'h"
  cc_delete_pod :: "string \<Rightarrow> string \<Rightarrow> 'h \<Rightarrow> (remediation_error + unit) \<times> 'h"
  cc_restart_deployment :: "string \<Rightarrow> string \<Rightarrow> 'h \<Rightarrow> (remediation_error + unit) \<times> 'h"
  cc_rollback_deployment :: "string \<Rightarrow> string \<Rightarrow> int option \<Rightarrow> 'h \<Rightarrow> (remediation_error + unit) \<times> 'h"
  cc_scale_workload :: "string \<Rightarrow> string \<Rightarrow> int \<Rightarrow> 'h \<Rightarrow> (remediation_error + unit) \<times> 'h"
  cc_set_node_schedulable :: "string \<Rightarrow> bool \<Rightarrow> 'h \<Rightarrow> (remediation_error + unit) \<times> 'h"
  cc_cleanup_job :: "string \<Rightarrow> string \<Rightarrow> 'h \<Rightarrow> (remediation_error + unit) \<times> 'h"
  cc_pod_running :: "string \<Rightarrow> string \<Rightarrow> 'h \<Rightarrow> remediation_error + bool"
  cc_deployment_available :: "string \<Rightarrow> string \<Rightarrow> 'h \<Rightarrow> remediation_error + bool"
  cc_node_schedulable :: "string \<Rightarrow> 'h \<Rightarrow> remediation_error + bool"
  cc_read :: "string \<Rightarrow> string option \<Rightarrow> string option \<Rightarrow> 'h \<Rightarrow> remediation_error + json"

definition cluster_unavailable :: remediation_error where
  "cluster_unavailable = Unavailable ''no kubernetes cluster is configured''"

definition unavailable_cluster :: "'h cluster_controller" where
  "unavailable_cluster =
     \<lparr> cc_restart_pod = (\<lambda>_ _ h. (Inl cluster_unavailable, h)),
       cc_delete_pod = (\<lambda>_ _ h. (Inl cluster_unavailable, h)),
       cc_restart_deployment = (\<lambda>_ _ h. (Inl cluster_unavailable, h)),
       cc_rollback_deployment = (\<lambda>_ _ _ h. (Inl cluster_unavailable, h)),
       cc_scale_workload = (\<lambda>_ _ _ h. (Inl cluster_unavailable, h)),
       cc_set_node_schedulable = (\<lambda>_ _ h. (Inl cluster_unavailable, h)),
       cc_cleanup_job = (\<lambda>_ _ h. (Inl cluster_unavailable, h)),
       cc_pod_running = (\<lambda>_ _ _. Inl cluster_unavailable),
       cc_deployment_available = (\<lambda>_ _ _. Inl cluster_unavailable),
       cc_node_schedulable = (\<lambda>_ _. Inl cluster_unavailable),
       cc_read = (\<lambda>_ _ _ _. Inl cluster_unavailable) \<rparr>"

record 'h kubernetes_executor =
  ke_cluster :: "'h cluster_controller"
  ke_guardrails :: guardrail_registry
  ke_max_replicas :: int

section \<open>The executor\<close>

definition namespace_name :: "json \<Rightarrow> execution_error + string \<times> string" where
  "namespace_name arguments =
     (let namespace = (case get_str ''namespace'' arguments of None \<Rightarrow> ''default'' | Some n \<Rightarrow> n)
      in case get_str ''name'' arguments of
           None \<Rightarrow> Inl (ExecutionFailed (''the request does not name a '' @ quoted ''name''))
         | Some name \<Rightarrow> Inr (namespace, name))"

definition read_resource :: "capability_id \<Rightarrow> string" where
  "read_resource c =
     (if as_str c = K8S_CLUSTER_READ then ''cluster''
      else if as_str c = K8S_NODE_READ then ''nodes''
      else if as_str c = K8S_POD_READ then ''pods''
      else if as_str c = K8S_DEPLOYMENT_READ then ''deployments''
      else ''unknown'')"

text \<open>An effect on a namespaced object, its evidence naming the operation.\<close>

definition named_effect ::
  "'h kubernetes_executor \<Rightarrow> authorized_action \<Rightarrow> string \<Rightarrow> string \<Rightarrow> (string \<times> json) list \<Rightarrow>
   ('h \<Rightarrow> (remediation_error + unit) \<times> 'h) \<Rightarrow> 'h \<Rightarrow> (execution_error + execution_result) \<times> 'h" where
  "named_effect x a namespace name extra effect h =
     guarded (ke_guardrails x) (aa_capability a) (namespace @ ''/'' @ name) h (\<lambda>h.
       finish (aa_capability a) (JObj ([(''name'', JStr name), (''namespace'', JStr namespace)] @ extra)) (effect h))"

definition scale_effect ::
  "'h kubernetes_executor \<Rightarrow> authorized_action \<Rightarrow> string \<Rightarrow> string \<Rightarrow> 'h \<Rightarrow> (execution_error + execution_result) \<times> 'h" where
  "scale_effect x a namespace name h =
     guarded (ke_guardrails x) (aa_capability a) (namespace @ ''/'' @ name) h (\<lambda>h.
       case get_i64 ''replicas'' (aa_arguments a) of
         None \<Rightarrow> (Inl (ExecutionFailed (''the request does not name numeric '' @ quoted ''replicas'')), h)
       | Some replicas \<Rightarrow>
           (case check_replicas (ke_max_replicas x) replicas of
              Inl e \<Rightarrow> (Inl (ExecutionFailed e), h)
            | Inr _ \<Rightarrow>
                finish (aa_capability a)
                  (JObj [(''name'', JStr name), (''namespace'', JStr namespace), (''replicas'', json_int replicas)])
                  (cc_scale_workload (ke_cluster x) namespace name replicas h)))"

definition node_effect ::
  "'h kubernetes_executor \<Rightarrow> authorized_action \<Rightarrow> string \<Rightarrow> 'h \<Rightarrow> (execution_error + execution_result) \<times> 'h" where
  "node_effect x a name h =
     guarded (ke_guardrails x) (aa_capability a) name h (\<lambda>h.
       let schedulable = (as_str (aa_capability a) = K8S_NODE_UNCORDON)
       in finish (aa_capability a) (JObj [(''name'', JStr name), (''schedulable'', JBool schedulable)])
            (cc_set_node_schedulable (ke_cluster x) name schedulable h))"

definition cluster_read ::
  "'h kubernetes_executor \<Rightarrow> authorized_action \<Rightarrow> string \<Rightarrow> string \<Rightarrow> 'h \<Rightarrow> (execution_error + execution_result) \<times> 'h" where
  "cluster_read x a namespace name h =
     guarded (ke_guardrails x) (aa_capability a) (namespace @ ''/'' @ name) h (\<lambda>h.
       let resource = read_resource (aa_capability a)
       in case cc_read (ke_cluster x) resource (Some namespace) (get_str ''name'' (aa_arguments a)) h of
            Inl e \<Rightarrow> (Inl (ExecutionFailed (show_remediation_error e)), h)
          | Inr payload \<Rightarrow>
              (Inr \<lparr> er_capability = aa_capability a,
                     er_evidence = JObj [(''resource'', JStr resource), (''result'', payload)] \<rparr>, h))"

definition kubernetes_execute :: "'h kubernetes_executor \<Rightarrow> 'h executor" where
  "kubernetes_execute x a h =
     (case namespace_name (aa_arguments a) of
        Inl e \<Rightarrow> (Inl e, h)
      | Inr (namespace, name) \<Rightarrow>
          (let c = as_str (aa_capability a); cl = ke_cluster x;
               operation = (\<lambda>op. [(''operation'', JStr op)])
           in if c = K8S_POD_RESTART
              then named_effect x a namespace name (operation ''restart'') (cc_restart_pod cl namespace name) h
              else if c = K8S_POD_DELETE
              then named_effect x a namespace name (operation ''delete'') (cc_delete_pod cl namespace name) h
              else if c = K8S_DEPLOYMENT_RESTART
              then named_effect x a namespace name (operation ''rollout-restart'') (cc_restart_deployment cl namespace name) h
              else if c = K8S_DEPLOYMENT_ROLLBACK
              then (let revision = get_i64 ''revision'' (aa_arguments a)
                    in named_effect x a namespace name
                         (operation ''rollback'' @ [(''revision'', case revision of None \<Rightarrow> JNull | Some r \<Rightarrow> json_int r)])
                         (cc_rollback_deployment cl namespace name revision) h)
              else if c = K8S_WORKLOAD_SCALE then scale_effect x a namespace name h
              else if c = K8S_NODE_CORDON \<or> c = K8S_NODE_UNCORDON then node_effect x a name h
              else if c = K8S_JOB_CLEANUP
              then named_effect x a namespace name (operation ''cleanup'') (cc_cleanup_job cl namespace name) h
              else if c \<in> {K8S_CLUSTER_READ, K8S_NODE_READ, K8S_POD_READ, K8S_DEPLOYMENT_READ}
              then cluster_read x a namespace name h
              else (Inl (Unsupported (aa_capability a)), h)))"

lemma namespace_name_Inl: "namespace_name v = Inl e \<Longrightarrow> \<exists>s. e = ExecutionFailed s"
  by (auto simp: namespace_name_def Let_def split: option.splits)

lemma port_ok_cluster:
  "port_ok (aa_capability a) h (named_effect x a namespace name extra effect h)"
  "port_ok (aa_capability a) h (scale_effect x a namespace name h)"
  "port_ok (aa_capability a) h (node_effect x a name h)"
  "port_ok (aa_capability a) h (cluster_read x a namespace name h)"
  by (auto simp: named_effect_def scale_effect_def node_effect_def cluster_read_def Let_def
      intro!: port_ok_guarded split: option.split sum.split)

lemma kubernetes_port_ok: "port_ok (aa_capability a) h (kubernetes_execute x a h)"
proof (cases "namespace_name (aa_arguments a)")
  case (Inl e)
  with namespace_name_Inl [OF Inl] show ?thesis by (auto simp: kubernetes_execute_def)
next
  case (Inr p)
  then show ?thesis
    by (cases p) (simp add: kubernetes_execute_def Let_def port_ok_cluster)
qed

interpretation kubernetes_exec: executor_port "kubernetes_execute x" kubernetes_handles
proof (unfold_locales, goal_cases)
  case (1 a h)
  then show ?case
    by (cases "namespace_name (aa_arguments a)")
      (auto simp: kubernetes_execute_def kubernetes_handles_def Let_def)
qed (erule port_ok_result [OF kubernetes_port_ok] port_ok_refusal [OF kubernetes_port_ok])+

section \<open>The cloud channel's composite\<close>

text \<open>
  The executor the cloud channel routes to has no remediation and no cluster part: those
  capabilities stay unrouted rather than falling through to the read-only executor.
\<close>

definition cloud_executor :: "'h capability_provider \<Rightarrow> 'h service_controller \<Rightarrow> 'h composite_executor" where
  "cloud_executor p sc =
     \<lparr> ce_read_only = bootstrap_execute p,
       ce_environment_changing = privileged_execute sc (service_guardrails DAEMON_UNIT),
       ce_remediation = None, ce_kubernetes = None \<rparr>"

definition connected_cluster :: "'h cluster_controller \<Rightarrow> 'h kubernetes_executor" where
  "connected_cluster cluster =
     \<lparr> ke_cluster = cluster, ke_guardrails = kubernetes_guardrails [''kube-system'', ''kube-public''],
       ke_max_replicas = 10 \<rparr>"

interpretation cloud_exec: executor_port "composite_execute (cloud_executor p sc)"
    "\<lambda>c. privileged_handles c \<or> remediation_handles c \<or> kubernetes_handles c \<or>
         as_str c \<in> {HOST_STATUS_READ, ARGUS_HEALTH_READ, ARGUS_CONFIG_READ, ARGUS_PLUGINS_LIST}"
  using composite_port [OF _ _ _ _, of "cloud_executor p sc"] bootstrap_exec.executor_port_axioms [of p]
    privileged_exec.executor_port_axioms [of sc "service_guardrails DAEMON_UNIT"]
  by (simp add: cloud_executor_def optional_port_def)

section \<open>Properties\<close>

lemma guarded_effect:
  "snd (guarded g c t h eff) \<noteq> h \<Longrightarrow> guardrail_check g c t = Inr () \<and> snd (guarded g c t h eff) = snd (eff h)"
  by (auto simp: guarded_def split: sum.splits)

lemma scale_effect_changes:
  assumes "snd (scale_effect x a namespace name h) \<noteq> h"
  shows "guardrail_check (ke_guardrails x) (aa_capability a) (namespace @ ''/'' @ name) = Inr ()
       \<and> (\<exists>replicas. get_i64 ''replicas'' (aa_arguments a) = Some replicas
            \<and> check_replicas (ke_max_replicas x) replicas = Inr ()
            \<and> snd (scale_effect x a namespace name h) = snd (cc_scale_workload (ke_cluster x) namespace name replicas h))"
proof -
  have ok: "guardrail_check (ke_guardrails x) (aa_capability a) (namespace @ ''/'' @ name) = Inr ()"
    using guarded_effect [OF assms [unfolded scale_effect_def]] by blast
  then show ?thesis
    using assms unfolding scale_effect_def guarded_def
    by (cases "get_i64 ''replicas'' (aa_arguments a)";
        cases "check_replicas (ke_max_replicas x) (the (get_i64 ''replicas'' (aa_arguments a)))") auto
qed

lemma non_blank_Some: "non_blank s = Some x \<longleftrightarrow> s = Some x \<and> trim x \<noteq> []"
  by (auto simp: non_blank_def bind_eq_Some_conv)


definition sample_action :: "string \<Rightarrow> (string \<times> json) list \<Rightarrow> authorized_action" where
  "sample_action c arguments =
     \<lparr> aa_request = \<lparr> rq_capability = CapabilityId c, rq_principal = principal_cloud, rq_resource = None,
                      rq_arguments = JObj arguments, rq_correlation = 0 \<rparr>,
       aa_decision = \<lparr> pd_outcome = Allow, pd_reason = [], pd_policy_id = [] \<rparr> \<rparr>"

lemma sample_action_simps [simp]:
  "aa_capability (sample_action c arguments) = CapabilityId c"
  "aa_arguments (sample_action c arguments) = JObj arguments"
  by (simp_all add: sample_action_def aa_capability_def)



text \<open>A host that records the cgroup paths frozen, for concrete runs.\<close>

definition recording_ports :: "string list remediation_ports" where
  "recording_ports =
     \<lparr> rp_signal = (\<lambda>_ _ h. (Inr (), ''signal'' # h)), rp_exists = (\<lambda>_ _. Inr True),
       rp_container_restart = (\<lambda>i h. (Inr (), i # h)), rp_is_running = (\<lambda>_ _. Inr True),
       rp_set_freeze = (\<lambda>p _ h. (Inr (), p # h)), rp_is_frozen = (\<lambda>p h. Inr (p \<in> set h)),
       rp_reclaim_page_cache = (\<lambda>h. (Inr (), ''reclaim'' # h)), rp_vacuum = (\<lambda>_ h. (Inr (), ''vacuum'' # h)),
       rp_mcp_call = no_mcp_tools, rp_now = (\<lambda>_. 0) \<rparr>"

lemmas remediation_eval = remediation_execute_def set_cgroup_freeze_def restart_container_def signal_pid_def
  recording_ports_def remediation_new_def guarded_def finish_def get_str_def get_i64_def json_get_def
  non_blank_def trim_def remediation_guardrails_def guardrail_check_def guardrail_register_def
  valid_cgroup_path_def validate_cgroup_path_def never_target_def char_class_defs cap_ids


text \<open>
  C35. The protected list is compared with the path as written, and a \<open>.\<close> component passes the
  path check: with \<open>system.slice\<close> protected, freezing \<open>./system.slice\<close> reaches the controller,
  whose freeze file is the same file of the kernel's tree as that of the protected path.
\<close>

theorem protected_cgroup_spelled_with_dot:
  "let x = remediation_new recording_ports 7 (remediation_guardrails 99 [] [''system.slice''])
   in fst (remediation_execute x (sample_action HOST_CGROUP_FREEZE [(''path'', JStr ''system.slice'')]) [])
        = Inl (GuardrailRefused \<lparr> gr_capability = CapabilityId HOST_CGROUP_FREEZE,
                 gr_reason = quoted ''system.slice'' @ '' is a protected remediation target'' \<rparr>)
    \<and> snd (remediation_execute x (sample_action HOST_CGROUP_FREEZE [(''path'', JStr ''./system.slice'')]) [])
        = [''./system.slice'']
    \<and> freeze_file ''/sys/fs/cgroup'' ''./system.slice'' = Inr ''/sys/fs/cgroup/./system.slice/cgroup.freeze''"
  by (simp add: remediation_eval freeze_file_def trim_root_def)

text \<open>
  A cluster effect happens only through the guardrails and the replica quota: no pod of a
  protected namespace is restarted or deleted, the namespace and name of a guarded object consist
  of valid name components, and a workload is scaled only to a count between zero and the quota.
\<close>

theorem kubernetes_effect_guarded:
  assumes guards: "ke_guardrails x = kubernetes_guardrails protected"
    and run: "snd (kubernetes_execute x a h) = h'" and changed: "h' \<noteq> h"
    and names: "namespace_name (aa_arguments a) = Inr (namespace, name)"
  shows "(as_str (aa_capability a) \<in> {K8S_POD_RESTART, K8S_POD_DELETE} \<longrightarrow>
            CHR ''/'' \<notin> set namespace \<longrightarrow> namespace \<notin> set protected)
       \<and> (as_str (aa_capability a) \<in> {K8S_POD_RESTART, K8S_POD_DELETE, K8S_DEPLOYMENT_RESTART,
             K8S_DEPLOYMENT_ROLLBACK, K8S_WORKLOAD_SCALE, K8S_JOB_CLEANUP} \<longrightarrow>
            (\<forall>part \<in> set (split_on (CHR ''/'') namespace @ split_on (CHR ''/'') name). k8s_part part = Inr ()))
       \<and> (as_str (aa_capability a) = K8S_WORKLOAD_SCALE \<longrightarrow>
            (\<exists>replicas. get_i64 ''replicas'' (aa_arguments a) = Some replicas \<and> 0 \<le> replicas
               \<and> replicas \<le> ke_max_replicas x \<and> h' = snd (cc_scale_workload (ke_cluster x) namespace name replicas h)))"
proof -
  obtain c where c: "aa_capability a = CapabilityId c" by (cases "aa_capability a")
  define checked where "checked \<longleftrightarrow> guardrail_check (ke_guardrails x) (CapabilityId c) (namespace @ ''/'' @ name) = Inr ()"
  have named: "snd (named_effect x a namespace name extra eff h) \<noteq> h \<Longrightarrow> checked" for extra eff
    unfolding named_effect_def checked_def c by (auto dest: guarded_effect)
  have scale: "checked \<and> (\<exists>replicas. get_i64 ''replicas'' (aa_arguments a) = Some replicas \<and> 0 \<le> replicas
               \<and> replicas \<le> ke_max_replicas x \<and> h' = snd (cc_scale_workload (ke_cluster x) namespace name replicas h))"
    if "snd (scale_effect x a namespace name h) = h'"
    using scale_effect_changes [of x a namespace name h] that changed c
    by (auto simp: checked_def check_replicas_Inr)
  have job_not_node: "K8S_JOB_CLEANUP \<noteq> K8S_NODE_CORDON" "K8S_JOB_CLEANUP \<noteq> K8S_NODE_UNCORDON"
    by (simp_all add: cap_ids)
  have "c \<in> {K8S_POD_RESTART, K8S_POD_DELETE, K8S_DEPLOYMENT_RESTART, K8S_DEPLOYMENT_ROLLBACK,
             K8S_WORKLOAD_SCALE, K8S_JOB_CLEANUP} \<Longrightarrow> checked"
    using run changed names scale named job_not_node
    by (auto simp: kubernetes_execute_def c Let_def split: if_splits)
  moreover have "c = K8S_WORKLOAD_SCALE \<Longrightarrow> snd (scale_effect x a namespace name h) = h'"
    using run names by (simp add: kubernetes_execute_def c cap_ids)
  ultimately show ?thesis
    using scale guards protected_namespace_refused [of namespace "set protected" name]
    by (auto simp: c checked_def kubernetes_check_iff valid_k8s_name_def k8s_parts_Inr
        split_on_append_sep [of _ namespace name, simplified append_Cons])
qed

text \<open>A cluster that records the names it is called with, for concrete runs.\<close>

definition recording_cluster :: "string list cluster_controller" where
  "recording_cluster = unavailable_cluster
     \<lparr> cc_scale_workload := (\<lambda>_ n _ h. (Inr (), n # h)),
       cc_set_node_schedulable := (\<lambda>n _ h. (Inr (), n # h)) \<rparr>"

lemmas kubernetes_eval = kubernetes_execute_def namespace_name_def connected_cluster_def recording_cluster_def
  scale_effect_def node_effect_def cluster_read_def guarded_def finish_def get_str_def get_i64_def json_get_def
  guardrail_check_def kubernetes_guardrails_def guardrail_register_def valid_k8s_name_def k8s_part_def
  ends_with_def utf8_def utf8_char_def check_replicas_def char_class_defs cap_ids Let_def

theorem kubernetes_effect_guarded_witness:
  "3 \<le> ke_max_replicas (connected_cluster recording_cluster)"
  using kubernetes_effect_guarded [of "connected_cluster recording_cluster" "[''kube-system'', ''kube-public'']"
      "sample_action K8S_WORKLOAD_SCALE [(''name'', JStr ''web''), (''replicas'', JNum (PosInt 3))]" "[]"
      _ "''default''" "''web''", OF _ refl]
  by (simp add: kubernetes_eval)

text \<open>
  Nodes are the exception to the name check: no predicate is registered for cordon and
  uncordon, so a node name that no object of a guarded effect may have reaches the controller.
\<close>

theorem node_names_unchecked:
  "snd (kubernetes_execute (connected_cluster recording_cluster)
          (sample_action K8S_NODE_CORDON [(''name'', JStr ''../Node 1'')]) []) = [''../Node 1'']
   \<and> valid_k8s_name ''../Node 1'' \<noteq> Inr ()"
  by (simp add: kubernetes_eval)

end
