(* ===== verification/Validation.thy ===== *)
theory Validation
  imports Cluster
begin

text \<open>
  The post-execution validator (\<open>argus-validate\<close>, \<open>lib.rs\<close>): the desired state of a
  capability, its comparison with the re-observed state, and the event payloads.
\<close>

datatype validation_outcome = Passed | FailedValidation | Inconclusive

definition VALIDATION_PASSED :: string where "VALIDATION_PASSED = ''validation.passed''"
definition VALIDATION_FAILED :: string where "VALIDATION_FAILED = ''validation.failed''"
definition VALIDATION_READ_FAILED :: string where "VALIDATION_READ_FAILED = ''brain.validation.read.failed''"

definition desired_state :: "capability_id \<Rightarrow> bool option" where
  "desired_state c =
     (let s = as_str c
      in if s = HOST_SERVICE_START \<or> s = HOST_SERVICE_RESTART then Some True
         else if s = HOST_SERVICE_STOP then Some False
         else if s = CONTAINER_RESTART then Some True
         else if s = HOST_CGROUP_FREEZE then Some True
         else if s = HOST_CGROUP_THAW then Some False
         else if s = K8S_POD_RESTART then Some True
         else if s = K8S_POD_DELETE then Some False
         else if s = K8S_DEPLOYMENT_RESTART \<or> s = K8S_DEPLOYMENT_ROLLBACK then Some True
         else if s = K8S_NODE_CORDON then Some False
         else if s = K8S_NODE_UNCORDON then Some True
         else None)"

fun validate :: "bool option \<Rightarrow> bool \<Rightarrow> validation_outcome" where
  "validate (Some desired) observed = (if desired = observed then Passed else FailedValidation)"
| "validate None observed = Inconclusive"

abbreviation show_bool :: "bool \<Rightarrow> string" where
  "show_bool b \<equiv> (if b then ''true'' else ''false'')"

definition validation_event ::
  "capability_id \<Rightarrow> string \<Rightarrow> bool \<Rightarrow> bool \<Rightarrow> string \<Rightarrow> (string \<times> json) option" where
  "validation_event c unit expected observed context_hash =
     (case validate (Some expected) observed of
        Passed \<Rightarrow>
          Some (VALIDATION_PASSED,
                JObj [(''capability'', JStr (as_str c)),
                      (''evidence'', JObj [(''desired'', JBool expected), (''observed'', JBool observed),
                                           (''unit'', JStr unit)]),
                      (''plan_id'', JStr context_hash)])
      | FailedValidation \<Rightarrow>
          Some (VALIDATION_FAILED,
                JObj [(''capability'', JStr (as_str c)), (''plan_id'', JStr context_hash),
                      (''reason'', JStr (''observed '' @ show_bool observed @ '', desired '' @ show_bool expected))])
      | Inconclusive \<Rightarrow> None)"

definition read_failure_event :: "capability_id \<Rightarrow> string \<Rightarrow> string \<Rightarrow> string \<Rightarrow> json" where
  "read_failure_event c unit context_hash reason =
     JObj [(''capability'', JStr (as_str c)), (''plan_id'', JStr context_hash),
           (''reason'', JStr reason), (''unit'', JStr unit)]"

lemma validation_event_type:
  "validation_event c unit expected observed context_hash = Some (t, payload) \<Longrightarrow>
   t = (if expected = observed then VALIDATION_PASSED else VALIDATION_FAILED)"
  by (auto simp: validation_event_def split: if_splits)

lemma validation_event_Some: "\<exists>t payload. validation_event c unit expected observed context_hash = Some (t, payload)"
  by (simp add: validation_event_def)

end
