(* ===== verification/Approval.thy ===== *)
theory Approval
  imports Reasoning
begin

text \<open>
  Per-invocation execution approvals: the \<open>ExecutionApproval\<close> value of \<open>argus-domain\<close>
  (\<open>cloud.rs\<close>) and the \<open>ApprovalStore\<close> of \<open>argus-policy\<close> (\<open>approval.rs\<close>), a map from
  single-use tokens to approvals. The store is also presented as a machine over its operations;
  the lemmas show that an approval authorizes at most one consumption, only for its own token
  and context hash, and only before it expires.
\<close>

section \<open>Approvals\<close>

datatype approval_state = ApprovalGranted | ApprovalDenied | ApprovalExpired

record execution_approval =
  ea_token :: uuid
  ea_context_hash :: string
  ea_granted_by :: string
  ea_granted_at :: instant
  ea_expires_at :: instant
  ea_state :: approval_state

definition approval_grant :: "uuid \<Rightarrow> string \<Rightarrow> string \<Rightarrow> instant \<Rightarrow> instant \<Rightarrow> execution_approval" where
  "approval_grant token hash by granted_at expires_at =
     \<lparr> ea_token = token, ea_context_hash = hash, ea_granted_by = by, ea_granted_at = granted_at,
       ea_expires_at = expires_at, ea_state = ApprovalGranted \<rparr>"

definition approval_deny :: "uuid \<Rightarrow> string \<Rightarrow> string \<Rightarrow> instant \<Rightarrow> execution_approval" where
  "approval_deny token hash by now =
     \<lparr> ea_token = token, ea_context_hash = hash, ea_granted_by = by, ea_granted_at = now,
       ea_expires_at = now, ea_state = ApprovalDenied \<rparr>"

definition authorizes :: "execution_approval \<Rightarrow> uuid \<Rightarrow> string \<Rightarrow> instant \<Rightarrow> bool" where
  "authorizes a token hash now \<longleftrightarrow>
     ea_state a = ApprovalGranted \<and> ea_token a = token \<and> ea_context_hash a = hash
     \<and> now < ea_expires_at a"

section \<open>The store\<close>

type_synonym approval_store = "uuid \<rightharpoonup> execution_approval"

definition store_grant :: "execution_approval \<Rightarrow> approval_store \<Rightarrow> approval_store" where
  "store_grant a s = hm_insert (ea_token a) a s"

definition store_grant_for ::
  "uuid \<Rightarrow> string \<Rightarrow> string \<Rightarrow> instant \<Rightarrow> instant \<Rightarrow> approval_store \<Rightarrow> execution_approval \<times> approval_store" where
  "store_grant_for token hash by granted_at expires_at s =
     (let a = approval_grant token hash by granted_at expires_at in (a, store_grant a s))"

definition store_grant_for_a_while ::
  "uuid \<Rightarrow> string \<Rightarrow> string \<Rightarrow> instant \<Rightarrow> duration \<Rightarrow> approval_store \<Rightarrow> execution_approval \<times> approval_store" where
  "store_grant_for_a_while token hash by now ttl s = store_grant_for token hash by now (now + ttl) s"

definition store_deny ::
  "uuid \<Rightarrow> string \<Rightarrow> string \<Rightarrow> instant \<Rightarrow> approval_store \<Rightarrow> execution_approval \<times> approval_store" where
  "store_deny token hash by now s =
     (let a = approval_deny token hash by now in (a, store_grant a s))"

definition store_consume ::
  "uuid \<Rightarrow> string \<Rightarrow> instant \<Rightarrow> approval_store \<Rightarrow> execution_approval option \<times> approval_store" where
  "store_consume token hash now s =
     (case s token of
        Some a \<Rightarrow> if authorizes a token hash now then (Some a, hm_remove token s) else (None, s)
      | None \<Rightarrow> (None, s))"

definition store_revoke :: "uuid \<Rightarrow> approval_store \<Rightarrow> execution_approval option \<times> approval_store" where
  "store_revoke token s = (s token, hm_remove token s)"

lemmas store_defs = store_grant_def store_grant_for_def store_grant_for_a_while_def store_deny_def
  store_consume_def store_revoke_def hm_insert_def hm_remove_def

lemma store_consume_Some:
  "store_consume token hash now s = (Some a, s') \<longleftrightarrow>
     s token = Some a \<and> authorizes a token hash now \<and> s' = s(token := None)"
  by (auto simp: store_consume_def hm_remove_def split: option.splits)

lemma store_consume_None:
  "store_consume token hash now s = (None, s') \<longleftrightarrow>
     s' = s \<and> \<not> (\<exists>a. s token = Some a \<and> authorizes a token hash now)"
  by (auto simp: store_consume_def split: option.splits)

section \<open>The store as a machine\<close>

datatype approval_op =
    Grant uuid string string instant instant
  | DenyToken uuid string string instant
  | Consume uuid string instant
  | Revoke uuid

fun approval_step :: "approval_op \<Rightarrow> approval_store \<Rightarrow> bool \<times> approval_store" where
  "approval_step (Grant t h by now e) s = (False, snd (store_grant_for t h by now e s))"
| "approval_step (DenyToken t h by now) s = (False, snd (store_deny t h by now s))"
| "approval_step (Consume t h now) s =
     (let (r, s') = store_consume t h now s in (r \<noteq> None, s'))"
| "approval_step (Revoke t) s = (False, snd (store_revoke t s))"

text \<open>The results of a sequence of operations: which of them consumed an approval.\<close>

fun approval_run :: "approval_op list \<Rightarrow> approval_store \<Rightarrow> bool list \<times> approval_store" where
  "approval_run [] s = ([], s)"
| "approval_run (x # xs) s =
     (let (b, s1) = approval_step x s; (bs, s2) = approval_run xs s1 in (b # bs, s2))"

definition grants_of :: "uuid \<Rightarrow> approval_op list \<Rightarrow> nat" where
  "grants_of t xs = length (filter (\<lambda>x. case x of Grant t' _ _ _ _ \<Rightarrow> t' = t | _ \<Rightarrow> False) xs)"

definition consumed_of :: "uuid \<Rightarrow> approval_op list \<Rightarrow> bool list \<Rightarrow> nat" where
  "consumed_of t xs bs =
     length (filter (\<lambda>(x, b). b \<and> (case x of Consume t' _ _ \<Rightarrow> t' = t | _ \<Rightarrow> False)) (zip xs bs))"

definition live :: "uuid \<Rightarrow> approval_store \<Rightarrow> nat" where
  "live t s = (case s t of Some a \<Rightarrow> if ea_state a = ApprovalGranted then 1 else 0 | None \<Rightarrow> 0)"

lemma consumed_of_Cons:
  "consumed_of t (x # xs) (b # bs) =
     (if b \<and> (case x of Consume t' _ _ \<Rightarrow> t' = t | _ \<Rightarrow> False) then 1 else 0) + consumed_of t xs bs"
  by (simp add: consumed_of_def)

lemma grants_of_Cons:
  "grants_of t (x # xs) =
     (case x of Grant t' _ _ _ _ \<Rightarrow> if t' = t then 1 else 0 | _ \<Rightarrow> 0) + grants_of t xs"
  by (simp add: grants_of_def split: approval_op.splits)

lemma approval_step_live:
  assumes "approval_step x s = (b, s')"
  shows "live t s' + (if b \<and> (case x of Consume t' _ _ \<Rightarrow> t' = t | _ \<Rightarrow> False) then 1 else 0)
         \<le> live t s + (case x of Grant t' _ _ _ _ \<Rightarrow> if t' = t then 1 else 0 | _ \<Rightarrow> 0)"
proof (cases x)
  case (Consume t' h now)
  then show ?thesis
    using assms
    by (auto simp: Let_def live_def store_consume_def hm_remove_def authorizes_def split: option.splits if_splits)
qed (use assms in \<open>auto simp: Let_def live_def store_defs approval_grant_def approval_deny_def
      split: option.splits if_splits\<close>)

lemma approval_run_live:
  "approval_run xs s = (bs, s') \<Longrightarrow> live t s' + consumed_of t xs bs \<le> live t s + grants_of t xs"
proof (induction xs arbitrary: s bs)
  case Nil
  then show ?case by (simp add: consumed_of_def grants_of_def)
next
  case (Cons x xs)
  obtain b s1 where step: "approval_step x s = (b, s1)" by (cases "approval_step x s")
  obtain bs1 where run: "approval_run xs s1 = (bs1, s')" and bs: "bs = b # bs1"
    using Cons.prems step by (cases "approval_run xs s1") auto
  from Cons.IH [OF run] approval_step_live [OF step, of t] show ?case
    by (simp add: bs consumed_of_Cons grants_of_Cons)
qed

section \<open>Properties\<close>

text \<open>
  An approval authorizes at most one execution: along any sequence of grants, denials,
  consumptions and revocations from the empty store, the consumptions that succeed for a token
  are at most the grants made for it.
\<close>

theorem consumptions_bounded_by_grants:
  assumes "approval_run xs Map.empty = (bs, s')"
  shows "consumed_of t xs bs \<le> grants_of t xs"
  using approval_run_live [OF assms, of t] by (simp add: live_def)

theorem consumptions_bounded_by_grants_witness:
  "consumed_of 5 [Grant 5 ''h'' ''root'' 0 9, Consume 5 ''h'' 1, Consume 5 ''h'' 2] [False, True, False] \<le> 1"
  using consumptions_bounded_by_grants [of "[Grant 5 ''h'' ''root'' 0 9, Consume 5 ''h'' 1, Consume 5 ''h'' 2]"
      "[False, True, False]" Map.empty 5]
  by (simp add: store_defs approval_grant_def authorizes_def grants_of_def Let_def)

text \<open>
  A consumption succeeds exactly on a granted approval stored under the token, made for that
  token and that context hash, and strictly before its expiry; it removes that entry and no
  other. Every other attempt, a denial among them, leaves the store as it was, and after a
  success the next attempt with any hash at any time fails.
\<close>

theorem consume_exact:
  "store_consume token hash now s =
     (case s token of
        Some a \<Rightarrow>
          if ea_state a = ApprovalGranted \<and> ea_token a = token \<and> ea_context_hash a = hash \<and> now < ea_expires_at a
          then (Some a, s(token := None)) else (None, s)
      | None \<Rightarrow> (None, s))
   \<and> fst (store_consume token hash' now' (snd (store_revoke token s))) = None
   \<and> fst (store_consume token hash' now' (snd (store_deny token hash by_whom at_time s))) = None
   \<and> fst (store_consume token hash' now' (s(token := None))) = None"
  by (auto simp: store_defs authorizes_def approval_deny_def Let_def split: option.split)

end
