(* ===== verification/Budget.thy ===== *)
theory Budget
  imports Reasoning
begin

text \<open>
  The blast-radius budget (\<open>argus-policy\<close>, \<open>budget.rs\<close>; the window state is
  \<open>argus-domain\<close>, \<open>autonomy.rs\<close>): anchored UTC hour and day buckets, a reservation that rolls
  over, checks and consumes in one call, and its refund. Counters are 32-bit words. The locale
  \<open>budget_gate\<close> is the \<open>BudgetGate\<close> port the plan loop consults.
\<close>

section \<open>Windows and limits\<close>

type_synonym window = "(int \<times> u32) option"

record budget_windows =
  bw_low_risk_hour :: window
  bw_controlled_day :: window
  bw_host_scope_day :: window

definition budget_windows_default :: budget_windows where
  "budget_windows_default =
     \<lparr> bw_low_risk_hour = None, bw_controlled_day = None, bw_host_scope_day = None \<rparr>"

record budget_limits =
  bl_low_risk_per_hour :: u32
  bl_controlled_per_day :: u32
  bl_host_scope_per_day :: u32

definition budget_limits_default :: budget_limits where
  "budget_limits_default =
     \<lparr> bl_low_risk_per_hour = 20, bl_controlled_per_day = 5, bl_host_scope_per_day = 3 \<rparr>"

text \<open>Reading the limits: absent keys take the defaults, and every key is lifted to at least one.\<close>

definition limits_of_wire :: "u32 option \<Rightarrow> u32 option \<Rightarrow> u32 option \<Rightarrow> budget_limits" where
  "limits_of_wire low controlled host =
     \<lparr> bl_low_risk_per_hour = max (case low of None \<Rightarrow> 20 | Some n \<Rightarrow> n) 1,
       bl_controlled_per_day = max (case controlled of None \<Rightarrow> 5 | Some n \<Rightarrow> n) 1,
       bl_host_scope_per_day = max (case host of None \<Rightarrow> 3 | Some n \<Rightarrow> n) 1 \<rparr>"

definition hour_index :: "instant \<Rightarrow> int" where
  "hour_index now = timestamp now div 3600"

definition day_index :: "instant \<Rightarrow> int" where
  "day_index now = timestamp now div 86400"

definition rolled :: "window \<Rightarrow> int \<Rightarrow> u32" where
  "rolled w anchor =
     (case w of Some (a, used) \<Rightarrow> if a = anchor then used else 0 | None \<Rightarrow> 0)"

definition bump :: "window \<Rightarrow> int \<Rightarrow> bool \<Rightarrow> window" where
  "bump w anchor applies = (if applies then Some (anchor, rolled w anchor + 1) else w)"

section \<open>Reserve, refund, remaining\<close>

text \<open>The three blocks of \<open>reserve\<close>: each rolls its window over, then checks for room.\<close>

definition check_low :: "budget_limits \<Rightarrow> risk_class \<Rightarrow> int \<Rightarrow> budget_windows \<Rightarrow> bool \<times> budget_windows" where
  "check_low l risk hour ws =
     (if risk = LowRisk
      then (let used = rolled (bw_low_risk_hour ws) hour
            in (used < bl_low_risk_per_hour l, ws\<lparr> bw_low_risk_hour := Some (hour, used) \<rparr>))
      else (True, ws))"

definition check_controlled :: "budget_limits \<Rightarrow> risk_class \<Rightarrow> int \<Rightarrow> budget_windows \<Rightarrow> bool \<times> budget_windows" where
  "check_controlled l risk day ws =
     (if risk = Controlled
      then (let used = rolled (bw_controlled_day ws) day
            in (used < bl_controlled_per_day l, ws\<lparr> bw_controlled_day := Some (day, used) \<rparr>))
      else (True, ws))"

definition check_host :: "budget_limits \<Rightarrow> blast_radius \<Rightarrow> int \<Rightarrow> budget_windows \<Rightarrow> bool \<times> budget_windows" where
  "check_host l scope day ws =
     (if scope = RadiusHost
      then (let used = rolled (bw_host_scope_day ws) day
            in (used < bl_host_scope_per_day l, ws\<lparr> bw_host_scope_day := Some (day, used) \<rparr>))
      else (True, ws))"

definition reserve ::
  "budget_limits \<Rightarrow> risk_class \<Rightarrow> blast_radius \<Rightarrow> instant \<Rightarrow> budget_windows \<Rightarrow> bool \<times> budget_windows" where
  "reserve l risk scope now ws =
     (let hour = hour_index now; day = day_index now;
          (ok1, ws1) = check_low l risk hour ws
      in if \<not> ok1 then (False, ws1)
         else let (ok2, ws2) = check_controlled l risk day ws1
         in if \<not> ok2 then (False, ws2)
         else let (ok3, ws3) = check_host l scope day ws2
         in if \<not> ok3 then (False, ws3)
         else (True, ws3\<lparr> bw_low_risk_hour := bump (bw_low_risk_hour ws3) hour (risk = LowRisk),
                          bw_controlled_day := bump (bw_controlled_day ws3) day (risk = Controlled),
                          bw_host_scope_day := bump (bw_host_scope_day ws3) day (scope = RadiusHost) \<rparr>))"

definition refund ::
  "risk_class \<Rightarrow> blast_radius \<Rightarrow> instant \<Rightarrow> budget_windows \<Rightarrow> budget_windows" where
  "refund risk scope now ws =
     (let hour = hour_index now; day = day_index now;
          give = (\<lambda>w anchor. Some (anchor, sat_sub (rolled w anchor) 1));
          ws1 = (if risk = LowRisk then ws\<lparr> bw_low_risk_hour := give (bw_low_risk_hour ws) hour \<rparr> else ws);
          ws2 = (if risk = Controlled then ws1\<lparr> bw_controlled_day := give (bw_controlled_day ws1) day \<rparr> else ws1)
      in if scope = RadiusHost then ws2\<lparr> bw_host_scope_day := give (bw_host_scope_day ws2) day \<rparr> else ws2)"

definition remaining :: "budget_windows \<Rightarrow> budget_limits \<Rightarrow> instant \<Rightarrow> (string \<times> u32 \<times> u32) list" where
  "remaining ws l now =
     (let low = rolled (bw_low_risk_hour ws) (hour_index now);
          controlled = rolled (bw_controlled_day ws) (day_index now);
          host = rolled (bw_host_scope_day ws) (day_index now)
      in [(''low_risk_per_hour'', sat_sub (bl_low_risk_per_hour l) low, bl_low_risk_per_hour l),
          (''controlled_per_day'', sat_sub (bl_controlled_per_day l) controlled, bl_controlled_per_day l),
          (''host_scope_per_day'', sat_sub (bl_host_scope_per_day l) host, bl_host_scope_per_day l)])"

section \<open>An abstract view: three counters\<close>

datatype window_kind = LowRiskHour | ControlledDay | HostScopeDay

fun applies :: "risk_class \<Rightarrow> blast_radius \<Rightarrow> window_kind \<Rightarrow> bool" where
  "applies risk scope LowRiskHour = (risk = LowRisk)"
| "applies risk scope ControlledDay = (risk = Controlled)"
| "applies risk scope HostScopeDay = (scope = RadiusHost)"

fun window_of :: "budget_windows \<Rightarrow> window_kind \<Rightarrow> window" where
  "window_of ws LowRiskHour = bw_low_risk_hour ws"
| "window_of ws ControlledDay = bw_controlled_day ws"
| "window_of ws HostScopeDay = bw_host_scope_day ws"

fun anchor_of :: "instant \<Rightarrow> window_kind \<Rightarrow> int" where
  "anchor_of now LowRiskHour = hour_index now"
| "anchor_of now ControlledDay = day_index now"
| "anchor_of now HostScopeDay = day_index now"

fun limit_of :: "budget_limits \<Rightarrow> window_kind \<Rightarrow> u32" where
  "limit_of l LowRiskHour = bl_low_risk_per_hour l"
| "limit_of l ControlledDay = bl_controlled_per_day l"
| "limit_of l HostScopeDay = bl_host_scope_per_day l"

definition used :: "budget_windows \<Rightarrow> int \<Rightarrow> window_kind \<Rightarrow> nat" where
  "used ws anchor k = unat (rolled (window_of ws k) anchor)"

definition has_room :: "budget_limits \<Rightarrow> risk_class \<Rightarrow> blast_radius \<Rightarrow> instant \<Rightarrow> budget_windows \<Rightarrow> bool" where
  "has_room l risk scope now ws \<longleftrightarrow>
     (\<forall>k. applies risk scope k \<longrightarrow> used ws (anchor_of now k) k < unat (limit_of l k))"

lemma rolled_simps [simp]:
  "rolled None a = 0" "rolled (Some (a, n)) a = n" "b \<noteq> a \<Longrightarrow> rolled (Some (a, n)) b = 0"
  by (simp_all add: rolled_def)

lemma all_window_kind: "(\<forall>k. P k) \<longleftrightarrow> P LowRiskHour \<and> P ControlledDay \<and> P HostScopeDay"
  by (metis window_kind.exhaust)

lemma has_room_iff:
  "has_room l risk scope now ws \<longleftrightarrow>
     (risk = LowRisk \<longrightarrow> rolled (bw_low_risk_hour ws) (hour_index now) < bl_low_risk_per_hour l) \<and>
     (risk = Controlled \<longrightarrow> rolled (bw_controlled_day ws) (day_index now) < bl_controlled_per_day l) \<and>
     (scope = RadiusHost \<longrightarrow> rolled (bw_host_scope_day ws) (day_index now) < bl_host_scope_per_day l)"
  by (simp add: has_room_def all_window_kind used_def word_less_nat_alt)

lemma fst_reserve: "fst (reserve l risk scope now ws) = has_room l risk scope now ws"
  by (auto simp: has_room_iff reserve_def check_low_def check_controlled_def check_host_def Let_def)

lemma reserve_windows:
  "fst (reserve l risk scope now ws) \<Longrightarrow>
   window_of (snd (reserve l risk scope now ws)) k =
     (if applies risk scope k
      then Some (anchor_of now k, rolled (window_of ws k) (anchor_of now k) + 1) else window_of ws k)"
  by (cases k)
    (auto simp: reserve_def check_low_def check_controlled_def check_host_def Let_def bump_def
      split: if_splits)

lemma reserve_failed_windows:
  "\<not> fst (reserve l risk scope now ws) \<Longrightarrow>
   window_of (snd (reserve l risk scope now ws)) k \<in>
     {window_of ws k, Some (anchor_of now k, rolled (window_of ws k) (anchor_of now k))}"
  by (cases k)
    (auto simp: reserve_def check_low_def check_controlled_def check_host_def Let_def
      split: if_splits prod.splits)

lemma refund_windows:
  "window_of (refund risk scope now ws) k =
     (if applies risk scope k
      then Some (anchor_of now k, sat_sub (rolled (window_of ws k) (anchor_of now k)) 1)
      else window_of ws k)"
  by (cases k) (auto simp: refund_def Let_def)

lemma used_reserve:
  assumes "fst (reserve l risk scope now ws)"
  shows "used (snd (reserve l risk scope now ws)) (anchor_of now k) k =
           used ws (anchor_of now k) k + (if applies risk scope k then 1 else 0)"
proof (cases "applies risk scope k")
  case True
  from assms have "has_room l risk scope now ws" by (simp add: fst_reserve)
  with True have "rolled (window_of ws k) (anchor_of now k) < limit_of l k"
    by (simp add: has_room_def used_def word_less_nat_alt)
  then have "unat (rolled (window_of ws k) (anchor_of now k) + 1) =
             Suc (unat (rolled (window_of ws k) (anchor_of now k)))"
    by (rule unat_plus_one_less)
  with True show ?thesis by (simp add: used_def reserve_windows [OF assms])
next
  case False
  then show ?thesis by (simp add: used_def reserve_windows [OF assms])
qed

lemma used_reserve_failed:
  assumes "\<not> fst (reserve l risk scope now ws)"
  shows "used (snd (reserve l risk scope now ws)) (anchor_of now k) k = used ws (anchor_of now k) k"
  using reserve_failed_windows [OF assms, of k] by (auto simp: used_def)

lemma used_refund:
  "used (refund risk scope now ws) (anchor_of now k) k =
     used ws (anchor_of now k) k - (if applies risk scope k then 1 else 0)"
  by (simp add: used_def refund_windows unat_sat_sub)

section \<open>The budget port\<close>

text \<open>
  What the plan loop relies on: a failed reservation consumes nothing, a refund returns what its
  reservation took, and no window ever holds more than its cap.
\<close>

locale budget_gate =
  fixes gate_reserve :: "risk_class \<Rightarrow> blast_radius \<Rightarrow> instant \<Rightarrow> 'b \<Rightarrow> bool \<times> 'b"
    and gate_refund :: "risk_class \<Rightarrow> blast_radius \<Rightarrow> instant \<Rightarrow> 'b \<Rightarrow> 'b"
    and gate_used :: "'b \<Rightarrow> instant \<Rightarrow> window_kind \<Rightarrow> nat"
    and gate_cap :: "'b \<Rightarrow> window_kind \<Rightarrow> nat"
  assumes exhausted_consumes_nothing:
      "\<not> fst (gate_reserve r s t b) \<Longrightarrow> gate_used (snd (gate_reserve r s t b)) t k = gate_used b t k"
    and refund_returns:
      "fst (gate_reserve r s t b) \<Longrightarrow>
       gate_used (gate_refund r s t (snd (gate_reserve r s t b))) t k = gate_used b t k"
    and reserve_within_cap:
      "fst (gate_reserve r s t b) \<Longrightarrow> applies r s k \<Longrightarrow>
       gate_used (snd (gate_reserve r s t b)) t k \<le> gate_cap b k"
    and reserve_other:
      "\<not> applies r s k \<Longrightarrow> gate_used (snd (gate_reserve r s t b)) t k = gate_used b t k"
begin

lemma reserve_then_refund:
  "gate_reserve r s t b = (True, b') \<Longrightarrow> gate_used (gate_refund r s t b') t k = gate_used b t k"
  using refund_returns [of r s t b k] by simp

lemma cap_kept:
  assumes "\<forall>k. gate_used b t k \<le> gate_cap b k"
  shows "gate_used (snd (gate_reserve r s t b)) t k \<le> gate_cap b k"
  using assms exhausted_consumes_nothing [of r s t b k] reserve_within_cap [of r s t b k]
    reserve_other [of r s k t b]
  by (cases "fst (gate_reserve r s t b)"; cases "applies r s k") simp_all

end

interpretation windows: budget_gate "reserve l" refund "\<lambda>ws t k. used ws (anchor_of t k) k" "\<lambda>_ k. unat (limit_of l k)"
proof (unfold_locales, goal_cases)
  case (1 r s t b k)
  then show ?case by (rule used_reserve_failed)
next
  case (2 r s t b k)
  then show ?case by (simp add: used_refund used_reserve)
next
  case (3 r s t b k)
  then show ?case
    by (simp add: used_reserve fst_reserve has_room_def Suc_leI)
next
  case (4 r s k t b)
  then show ?case
    by (cases "fst (reserve l r s t b)") (simp_all add: used_reserve used_reserve_failed)
qed

text \<open>\<open>NoopBudget\<close>: every step passes and nothing is consumed.\<close>

definition noop_reserve :: "risk_class \<Rightarrow> blast_radius \<Rightarrow> instant \<Rightarrow> 'b \<Rightarrow> bool \<times> 'b" where
  "noop_reserve risk scope now b = (True, b)"

definition noop_refund :: "risk_class \<Rightarrow> blast_radius \<Rightarrow> instant \<Rightarrow> 'b \<Rightarrow> 'b" where
  "noop_refund risk scope now b = b"

interpretation noop: budget_gate noop_reserve noop_refund "\<lambda>_ _ _. 0" "\<lambda>_ _. 0"
  by unfold_locales (simp_all add: noop_reserve_def noop_refund_def)

section \<open>A run of reservations\<close>

type_synonym reservation = "risk_class \<times> blast_radius \<times> instant"

fun reserve_run :: "budget_limits \<Rightarrow> reservation list \<Rightarrow> budget_windows \<Rightarrow> bool list \<times> budget_windows" where
  "reserve_run l [] ws = ([], ws)"
| "reserve_run l ((risk, scope, now) # xs) ws =
     (let (ok, ws1) = reserve l risk scope now ws; (oks, ws2) = reserve_run l xs ws1 in (ok # oks, ws2))"

definition charges :: "window_kind \<Rightarrow> int \<Rightarrow> reservation \<Rightarrow> bool" where
  "charges k anchor x = (case x of (risk, scope, now) \<Rightarrow> applies risk scope k \<and> anchor_of now k = anchor)"

definition granted_in :: "window_kind \<Rightarrow> int \<Rightarrow> reservation list \<Rightarrow> bool list \<Rightarrow> nat" where
  "granted_in k anchor xs oks = length (filter (\<lambda>(x, ok). ok \<and> charges k anchor x) (zip xs oks))"

fun clock_from :: "instant \<Rightarrow> reservation list \<Rightarrow> bool" where
  "clock_from t [] = True"
| "clock_from t ((risk, scope, now) # xs) = (t \<le> now \<and> clock_from now xs)"

text \<open>No window is anchored later than the current time.\<close>

definition anchored_by :: "budget_windows \<Rightarrow> instant \<Rightarrow> bool" where
  "anchored_by ws t \<longleftrightarrow> (\<forall>k a n. window_of ws k = Some (a, n) \<longrightarrow> a \<le> anchor_of t k)"

lemma anchor_of_mono: "t \<le> t' \<Longrightarrow> anchor_of t k \<le> anchor_of t' k"
  by (cases k) (simp_all add: hour_index_def day_index_def timestamp_def zdiv_mono1)

lemma anchored_by_reserve:
  assumes "anchored_by ws t" "t \<le> now"
  shows "anchored_by (snd (reserve l risk scope now ws)) now"
proof -
  have later: "window_of ws k = Some (a, n) \<Longrightarrow> a \<le> anchor_of now k" for k a n
    using assms anchor_of_mono [OF assms(2), of k] by (fastforce simp: anchored_by_def)
  show ?thesis
  proof (cases "fst (reserve l risk scope now ws)")
    case True
    then show ?thesis using later by (auto simp: anchored_by_def reserve_windows split: if_splits)
  next
    case False
    show ?thesis unfolding anchored_by_def
    proof (intro allI impI)
      fix k a n
      assume "window_of (snd (reserve l risk scope now ws)) k = Some (a, n)"
      with reserve_failed_windows [OF False, of k] later [of k a n] show "a \<le> anchor_of now k" by auto
    qed
  qed
qed

lemma used_other_anchor:
  "anchored_by ws t \<Longrightarrow> anchor_of t k < a \<Longrightarrow> used ws a k = 0"
  by (cases "window_of ws k") (force simp: anchored_by_def used_def rolled_def split: prod.splits)+

lemma granted_later_zero:
  "clock_from t xs \<Longrightarrow> a < anchor_of t k \<Longrightarrow> granted_in k a xs oks = 0"
proof (induction xs arbitrary: t oks)
  case (Cons x xs)
  obtain r sc now where x: "x = (r, sc, now)" by (cases x)
  have "a < anchor_of now k" using Cons.prems x anchor_of_mono [of t now k] by simp
  with Cons x show ?case
    by (cases oks) (auto simp: granted_in_def charges_def)
qed (simp add: granted_in_def)

lemma granted_in_bound:
  "anchored_by ws t \<Longrightarrow> clock_from t xs \<Longrightarrow> used ws a k \<le> unat (limit_of l k) \<Longrightarrow>
   granted_in k a xs (fst (reserve_run l xs ws)) + used ws a k \<le> unat (limit_of l k)"
proof (induction xs arbitrary: ws t)
  case Nil
  then show ?case by (simp add: granted_in_def)
next
  case (Cons x xs)
  obtain r sc now where x: "x = (r, sc, now)" by (cases x)
  obtain ok ws1 where res: "reserve l r sc now ws = (ok, ws1)" by (cases "reserve l r sc now ws")
  let ?here = "if ok \<and> charges k a x then 1 else (0::nat)"
  have split: "granted_in k a (x # xs) (fst (reserve_run l (x # xs) ws)) =
      ?here + granted_in k a xs (fst (reserve_run l xs ws1))"
    by (simp add: x res granted_in_def case_prod_beta Let_def)
  have anch: "anchored_by ws1 now" and clk: "clock_from now xs"
    using anchored_by_reserve [of ws t now l r sc] Cons.prems x res by auto
  consider (now) "anchor_of now k = a" | (past) "anchor_of now k > a" | (future) "anchor_of now k < a" by linarith
  then show ?case
  proof cases
    case now
    have u: "used ws1 a k = used ws a k + ?here"
      using used_reserve [of l r sc now ws k] used_reserve_failed [of l r sc now ws k] res now
      by (cases ok) (auto simp: charges_def x)
    have "used ws1 a k \<le> unat (limit_of l k)"
      using windows.cap_kept [of ws now l] u Cons.prems(3) now res fst_reserve [of l r sc now ws]
      by (auto simp: charges_def x has_room_def split: if_splits)
    from Cons.IH [OF anch clk this] show ?thesis unfolding split u by linarith
  next
    case past
    then show ?thesis
      using granted_later_zero [OF clk past] Cons.prems(3) unfolding split by (simp add: charges_def x)
  next
    case future
    have "used ws1 a k = 0" "used ws a k = 0"
      using used_other_anchor [OF anch future] used_other_anchor [OF Cons.prems(1)]
        anchor_of_mono [of t now k] Cons.prems(2) future x by auto
    with Cons.IH [OF anch clk] future show ?thesis unfolding split by (simp add: charges_def x)
  qed
qed

section \<open>Properties\<close>

text \<open>
  C13. The budget holds over any history: along a run of reservations whose clock does not go
  backwards, no hour grants more low-risk actions, and no day more controlled or host-scope
  actions, than the configured limit - with 32-bit counters that never wrap.
\<close>

theorem budget_cap_per_window:
  assumes "clock_from t xs"
  shows "granted_in k anchor xs (fst (reserve_run l xs budget_windows_default)) \<le> unat (limit_of l k)"
proof -
  have "anchored_by budget_windows_default t" "used budget_windows_default anchor k = 0"
    by (cases k; simp add: anchored_by_def budget_windows_default_def used_def all_window_kind)+
  from granted_in_bound [OF this(1) assms, of anchor k l] this(2) show ?thesis by simp
qed

theorem budget_cap_per_window_witness:
  "granted_in HostScopeDay 0 [(Read, RadiusHost, 0), (Read, RadiusHost, 1)]
     (fst (reserve_run (limits_of_wire None None (Some 0)) [(Read, RadiusHost, 0), (Read, RadiusHost, 1)] budget_windows_default)) \<le> 1"
  using budget_cap_per_window [of 0 "[(Read, RadiusHost, 0), (Read, RadiusHost, 1)]" HostScopeDay 0
      "limits_of_wire None None (Some 0)"]
  by (simp add: limits_of_wire_def)

text \<open>
  C14. A reservation is all or nothing and exact: it succeeds exactly when every window that
  applies to the action has room; then each of those windows, and no other, is charged one unit;
  when it fails no window is charged; and a refund at the same instant restores every count.
\<close>

theorem reserve_all_or_nothing:
  "fst (reserve l risk scope now ws) = has_room l risk scope now ws
   \<and> used (snd (reserve l risk scope now ws)) (anchor_of now k) k
       = used ws (anchor_of now k) k + (if has_room l risk scope now ws \<and> applies risk scope k then 1 else 0)
   \<and> (if has_room l risk scope now ws
      then used (refund risk scope now (snd (reserve l risk scope now ws))) (anchor_of now k) k
             = used ws (anchor_of now k) k else True)"
proof -
  have "fst (reserve l risk scope now ws) \<Longrightarrow>
      used (refund risk scope now (snd (reserve l risk scope now ws))) (anchor_of now k) k = used ws (anchor_of now k) k"
    by (rule windows.refund_returns)
  then show ?thesis
    using fst_reserve [of l risk scope now ws] used_reserve [of l risk scope now ws k]
      used_reserve_failed [of l risk scope now ws k] by auto
qed

end
