(* ===== verification/Control.thy ===== *)
theory Control
  imports Validation Approval Budget
begin

text \<open>
  The control loop (\<open>argus-daemon\<close>, \<open>control.rs\<close>): the only path from a proposed plan to
  execution. A run is a function of an environment (the plan-independent dependencies the source
  injects: policy, registry, service controller, autonomy level and the \<open>LoopPorts\<close>) and a state
  (host, governor, budget, published events, ledger, outcome so far, executed indices). The clock
  is a parameter read by position; \<open>Uuid::new_v4\<close> results and the text of a document
  (\<open>serde_json::to_string\<close>) are parameters. Durations and record timestamps are left out.
  Publishing an event cannot fail the loop: the source discards the result.
\<close>

section \<open>Environment and state\<close>

record ('h, 'g, 'b) loop_ports =
  lp_governor :: "resource_adjustment \<Rightarrow> instant \<Rightarrow> instant \<Rightarrow> 'g \<Rightarrow> governance_decision \<times> 'g"
  lp_governed_prefixes :: "string list"
  lp_is_running :: "string \<Rightarrow> 'h \<Rightarrow> remediation_error + bool"
  lp_is_frozen :: "string \<Rightarrow> 'h \<Rightarrow> remediation_error + bool"
  lp_cluster :: "'h cluster_controller"
  lp_remediation :: "'h executor"
  lp_kubernetes :: "'h executor"
  lp_reserve :: "risk_class \<Rightarrow> blast_radius \<Rightarrow> instant \<Rightarrow> 'b \<Rightarrow> bool \<times> 'b"
  lp_refund :: "risk_class \<Rightarrow> blast_radius \<Rightarrow> instant \<Rightarrow> 'b \<Rightarrow> 'b"

record ('h, 'g, 'b) loop_env =
  le_registry :: capability_registry
  le_policy :: "authorization_request \<Rightarrow> policy_decision"
  le_service :: "'h service_controller"
  le_autonomy :: autonomy_mode
  le_ports :: "('h, 'g, 'b) loop_ports"
  le_clock :: "nat \<Rightarrow> instant"
  le_to_text :: "json \<Rightarrow> string"
  le_correlation :: uuid

record action_event_record =
  ae_correlation :: uuid
  ae_kind :: string
  ae_target :: "string option"
  ae_args :: json
  ae_verdict :: string
  ae_policy_id :: "string option"
  ae_outcome :: string
  ae_validation :: "json option"

record execution_outcome =
  eo_executions :: "execution list"
  eo_denied :: "capability_id list"
  eo_requires_approval :: "capability_id list"
  eo_status :: plan_status
  eo_plan_id :: uuid

record ('h, 'g, 'b) loop_state =
  ls_host :: 'h
  ls_gov :: 'g
  ls_budget :: 'b
  ls_tick :: nat
  ls_events :: "(string \<times> json) list"
  ls_ledger :: "action_event_record list"
  ls_outcome :: execution_outcome
  ls_executed :: "nat list"

record pending_plan =
  pp_plan :: plan
  pp_token :: uuid
  pp_context_hash :: string
  pp_executed :: "nat list"
  pp_dedup_key :: "string option"

text \<open>A panic of the source (an index out of bounds, a failed \<open>expect\<close>) is an outcome of its own.\<close>

datatype plan_run = Finished execution_outcome | Paused pending_plan | Panicked

datatype resume_refusal = Stale | NoGrant

datatype run_outcome = RunFinished execution_outcome | RunPending pending_plan | RunPanicked

datatype resume_outcome = ResumeFinished execution_outcome | ResumeRefused resume_refusal | ResumePanicked

section \<open>Small helpers\<close>

definition publish :: "string \<Rightarrow> json \<Rightarrow> ('h, 'g, 'b) loop_state \<Rightarrow> ('h, 'g, 'b) loop_state" where
  "publish event_type payload s = s\<lparr> ls_events := ls_events s @ [(event_type, payload)] \<rparr>"

definition escalation_bounded :: "autonomy_mode \<Rightarrow> bool" where
  "escalation_bounded m = (m \<in> {L4Autonomous, L5Adaptive})"

text \<open>The static risk table.\<close>

definition risk_for :: "capability_id \<Rightarrow> risk_class" where
  "risk_for c =
     (let s = as_str c
      in if s \<in> {HOST_SERVICE_RESTART, HOST_SERVICE_STOP, HOST_SERVICE_START, HOST_CGROUP_FREEZE, HOST_CGROUP_THAW}
         then LowRisk
         else if s \<in> {HOST_PROCESS_SIGNAL, K8S_POD_DELETE} then HighRisk
         else if s \<in> {CONTAINER_RESTART, K8S_POD_RESTART, K8S_DEPLOYMENT_RESTART, K8S_DEPLOYMENT_ROLLBACK,
                      K8S_WORKLOAD_SCALE, K8S_NODE_CORDON, K8S_NODE_UNCORDON, K8S_JOB_CLEANUP,
                      HOST_MEMORY_RECLAIM, HOST_JOURNAL_VACUUM} then Controlled
         else if s \<in> {K8S_NODE_DRAIN, K8S_WORKLOAD_RESCHEDULE} then HighRisk
         else if starts_with ''mcp.'' s then HighRisk
         else Controlled)"

definition governed_risk :: "capability_id \<Rightarrow> capability_registry \<Rightarrow> risk_class" where
  "governed_risk c registry =
     (if is_mcp_capability c
      then (case registry_get registry c of Some d \<Rightarrow> cd_risk_class d | None \<Rightarrow> risk_for c)
      else risk_for c)"

definition is_kubernetes_action :: "capability_id \<Rightarrow> bool" where
  "is_kubernetes_action c = kubernetes_handles c"

definition is_service_action :: "capability_id \<Rightarrow> bool" where
  "is_service_action c = (as_str c \<in> {HOST_SERVICE_RESTART, HOST_SERVICE_STOP, HOST_SERVICE_START})"

definition action_target :: "action \<Rightarrow> string option" where
  "action_target a =
     (if is_kubernetes_action (ac_capability a)
      then (case get_str ''name'' (ac_arguments a) of
              None \<Rightarrow> None
            | Some name \<Rightarrow>
                Some ((case get_str ''namespace'' (ac_arguments a) of None \<Rightarrow> ''default'' | Some n \<Rightarrow> n) @ ''/'' @ name))
      else (case get_str ''path'' (ac_arguments a) of
              Some t \<Rightarrow> Some t
            | None \<Rightarrow>
                (case get_str ''container'' (ac_arguments a) of
                   Some t \<Rightarrow> Some t
                 | None \<Rightarrow> get_str ''unit'' (ac_arguments a))))"

definition action_event ::
  "action \<Rightarrow> uuid \<Rightarrow> string \<Rightarrow> string option \<Rightarrow> string \<Rightarrow> json option \<Rightarrow> action_event_record" where
  "action_event a correlation verdict policy_id outcome validation =
     \<lparr> ae_correlation = correlation, ae_kind = as_str (ac_capability a), ae_target = action_target a,
       ae_args = ac_arguments a, ae_verdict = verdict, ae_policy_id = policy_id, ae_outcome = outcome,
       ae_validation = validation \<rparr>"

definition record_action ::
  "('h, 'g, 'b) loop_env \<Rightarrow> action \<Rightarrow> string \<Rightarrow> string \<Rightarrow> string \<Rightarrow> json option \<Rightarrow>
   ('h, 'g, 'b) loop_state \<Rightarrow> ('h, 'g, 'b) loop_state" where
  "record_action env a verdict policy_id outcome validation s =
     s\<lparr> ls_ledger := ls_ledger s @ [action_event a (le_correlation env) verdict (Some policy_id) outcome validation] \<rparr>"

fun show_outcome :: "policy_outcome \<Rightarrow> string" where
  "show_outcome Allow = ''Allow''"
| "show_outcome Deny = ''Deny''"
| "show_outcome RequireApproval = ''RequireApproval''"

fun show_reversal :: "reversal_status \<Rightarrow> string" where
  "show_reversal NotAttempted = ''NotAttempted''"
| "show_reversal Reversed = ''Reversed''"
| "show_reversal ReversalFailed = ''ReversalFailed''"
| "show_reversal NotPossible = ''NotPossible''"

fun show_execution_error :: "execution_error \<Rightarrow> string" where
  "show_execution_error (NotAuthorized p) = ''action is not authorized (outcome: '' @ show_outcome p @ '')''"
| "show_execution_error (Unsupported c) = ''capability '' @ quoted (as_str c) @ '' is not supported by this executor''"
| "show_execution_error (ExecutionFailed s) = ''execution failed: '' @ s"
| "show_execution_error (GuardrailRefused v) =
     ''guardrail refused '' @ quoted (as_str (gr_capability v)) @ '': '' @ gr_reason v"
| "show_execution_error (FailedAfterEffect reason rv) =
     ''the operation failed after taking effect ('' @ show_reversal rv @ ''): '' @ reason"

section \<open>Reading the target\<close>

definition k8s_target :: "action \<Rightarrow> string + string \<times> string" where
  "k8s_target a =
     (case get_str ''name'' (ac_arguments a) of
        None \<Rightarrow> Inl (''action missing '' @ quoted ''name'' @ '' argument'')
      | Some name \<Rightarrow>
          Inr (case get_str ''namespace'' (ac_arguments a) of None \<Rightarrow> ''default'' | Some n \<Rightarrow> n, name))"

definition observe_target :: "('h, 'g, 'b) loop_env \<Rightarrow> action \<Rightarrow> 'h \<Rightarrow> string + bool" where
  "observe_target env a h =
     (let c = as_str (ac_capability a); p = le_ports env;
          argument = (\<lambda>k. ok_or (''action missing '' @ quoted k @ '' argument'') (get_str k (ac_arguments a)));
          rem = map_err show_remediation_error
      in if is_service_action (ac_capability a)
         then (case argument ''unit'' of Inl e \<Rightarrow> Inl e
               | Inr unit \<Rightarrow> map_err show_service_error (sc_is_active (le_service env) unit h))
         else if c = CONTAINER_RESTART
         then (case argument ''container'' of Inl e \<Rightarrow> Inl e | Inr i \<Rightarrow> rem (lp_is_running p i h))
         else if c = HOST_CGROUP_FREEZE \<or> c = HOST_CGROUP_THAW
         then (case argument ''path'' of Inl e \<Rightarrow> Inl e | Inr path \<Rightarrow> rem (lp_is_frozen p path h))
         else if c = K8S_POD_RESTART \<or> c = K8S_POD_DELETE
         then (case k8s_target a of Inl e \<Rightarrow> Inl e
               | Inr (namespace, name) \<Rightarrow> rem (cc_pod_running (lp_cluster p) namespace name h))
         else if c = K8S_DEPLOYMENT_RESTART \<or> c = K8S_DEPLOYMENT_ROLLBACK
         then (case k8s_target a of Inl e \<Rightarrow> Inl e
               | Inr (namespace, name) \<Rightarrow> rem (cc_deployment_available (lp_cluster p) namespace name h))
         else if c = K8S_NODE_CORDON \<or> c = K8S_NODE_UNCORDON
         then (case argument ''name'' of Inl e \<Rightarrow> Inl e
               | Inr name \<Rightarrow> rem (cc_node_schedulable (lp_cluster p) name h))
         else Inl (''no live-state read for capability '' @ quoted c))"

definition desired_state_holds :: "('h, 'g, 'b) loop_env \<Rightarrow> action \<Rightarrow> 'h \<Rightarrow> string + bool" where
  "desired_state_holds env a h =
     (case desired_state (ac_capability a) of
        None \<Rightarrow> Inr False
      | Some desired \<Rightarrow>
          (case observe_target env a h of Inl e \<Rightarrow> Inl e | Inr observed \<Rightarrow> Inr (observed = desired)))"

definition validate_step ::
  "('h, 'g, 'b) loop_env \<Rightarrow> string \<Rightarrow> action \<Rightarrow> ('h, 'g, 'b) loop_state \<Rightarrow> json option \<times> ('h, 'g, 'b) loop_state" where
  "validate_step env context_hash a s =
     (case desired_state (ac_capability a) of
        None \<Rightarrow> (None, s)
      | Some expected \<Rightarrow>
          (case action_target a of
             None \<Rightarrow> (None, s)
           | Some target \<Rightarrow>
               (case observe_target env a (ls_host s) of
                  Inl e \<Rightarrow>
                    (None, publish VALIDATION_READ_FAILED
                             (read_failure_event (ac_capability a) target context_hash e) s)
                | Inr observed \<Rightarrow>
                    (case validation_event (ac_capability a) target expected observed context_hash of
                       None \<Rightarrow> (None, s)
                     | Some (event_type, payload) \<Rightarrow> (Some payload, publish event_type payload s)))))"

section \<open>Executing one action\<close>

definition step_request :: "('h, 'g, 'b) loop_env \<Rightarrow> action \<Rightarrow> capability_request" where
  "step_request env a =
     \<lparr> rq_capability = ac_capability a, rq_principal = \<lparr> pr_uid = None, pr_gid = None \<rparr>,
       rq_resource = ac_resource a, rq_arguments = ac_arguments a, rq_correlation = le_correlation env \<rparr>"

text \<open>Through the executor boundary: the decision must be an allow.\<close>

definition cross_boundary ::
  "('h, 'g, 'b) loop_env \<Rightarrow> 'h executor \<Rightarrow> action \<Rightarrow> policy_decision \<Rightarrow> 'h \<Rightarrow> (string + json) \<times> 'h" where
  "cross_boundary env execute a decision h =
     (case authorized_action_new (step_request env a) decision of
        Inl e \<Rightarrow> (Inl (''action could not be authorized for execution: '' @ show_execution_error e), h)
      | Inr authorized \<Rightarrow>
          (case execute authorized h of
             (Inl e, h') \<Rightarrow> (Inl (show_execution_error e), h')
           | (Inr result, h') \<Rightarrow> (Inr (er_evidence result), h')))"

definition execute_service :: "('h, 'g, 'b) loop_env \<Rightarrow> action \<Rightarrow> 'h \<Rightarrow> (string + json) \<times> 'h" where
  "execute_service env a h =
     (case get_str ''unit'' (ac_arguments a) of
        None \<Rightarrow> (Inl (''action missing '' @ quoted ''unit'' @ '' argument''), h)
      | Some unit \<Rightarrow>
          (let c = as_str (ac_capability a); sc = le_service env;
               (r, h') = (if c = HOST_SERVICE_RESTART then sc_restart sc unit h
                          else if c = HOST_SERVICE_STOP then sc_stop sc unit h
                          else sc_start sc unit h)
           in case r of
                Inl e \<Rightarrow> (Inl (show_service_error e), h')
              | Inr _ \<Rightarrow> (Inr (JObj [(''capability'', JStr c), (''unit'', JStr unit)]), h')))"

definition execute_action ::
  "('h, 'g, 'b) loop_env \<Rightarrow> action \<Rightarrow> policy_decision \<Rightarrow> 'h \<Rightarrow> (string + json) \<times> 'h" where
  "execute_action env a decision h =
     (let c = ac_capability a
      in if is_service_action c then execute_service env a h
         else if is_kubernetes_action c then cross_boundary env (lp_kubernetes (le_ports env)) a decision h
         else if remediation_handles c then cross_boundary env (lp_remediation (le_ports env)) a decision h
         else (Inl (''unsupported executable capability '' @ quoted (as_str c)), h))"

section \<open>Rollback\<close>

definition set_status :: "plan_status \<Rightarrow> ('h, 'g, 'b) loop_state \<Rightarrow> ('h, 'g, 'b) loop_state" where
  "set_status st s = s\<lparr> ls_outcome := (ls_outcome s)\<lparr> eo_status := st \<rparr> \<rparr>"

definition push_execution :: "execution \<Rightarrow> ('h, 'g, 'b) loop_state \<Rightarrow> ('h, 'g, 'b) loop_state" where
  "push_execution e s = s\<lparr> ls_outcome := (ls_outcome s)\<lparr> eo_executions := eo_executions (ls_outcome s) @ [e] \<rparr> \<rparr>"

definition rollback_decision :: policy_decision where
  "rollback_decision = decision_allow ''plan.rollback'' ''declarative plan rollback''"

text \<open>The loop over the executed indices, newest first; \<open>False\<close> is the index panic.\<close>

fun rollback_steps ::
  "('h, 'g, 'b) loop_env \<Rightarrow> plan \<Rightarrow> nat list \<Rightarrow> ('h, 'g, 'b) loop_state \<Rightarrow> bool \<times> ('h, 'g, 'b) loop_state" where
  "rollback_steps env p [] s = (True, publish ''plan.rolled.back'' (JObj []) (set_status RolledBack s))"
| "rollback_steps env p (index # rest) s =
     (if index \<ge> length (pl_steps p) then (False, s)
      else case ps_rollback (pl_steps p ! index) of
        None \<Rightarrow> (True, publish ''plan.needs.manual'' (JObj []) (set_status NeedsManual s))
      | Some rollback \<Rightarrow>
          (case execute_action env rollback rollback_decision (ls_host s) of
             (Inr evidence, h) \<Rightarrow>
               rollback_steps env p rest
                 (record_action env rollback ''allow'' ''plan.rollback'' ''rolled_back'' None
                   (publish ''action.rolled.back'' evidence (s\<lparr> ls_host := h \<rparr>)))
           | (Inl err, h) \<Rightarrow>
               (True, publish ''plan.needs.manual'' (JObj []) (set_status NeedsManual
                 (record_action env rollback ''allow'' ''plan.rollback'' ''failed'' None
                   (publish ''action.rollback.failed'' (JObj [(''error'', JStr err)]) (s\<lparr> ls_host := h \<rparr>)))))))"

definition rollback_executed ::
  "('h, 'g, 'b) loop_env \<Rightarrow> plan \<Rightarrow> ('h, 'g, 'b) loop_state \<Rightarrow> bool \<times> ('h, 'g, 'b) loop_state" where
  "rollback_executed env p s =
     (if ls_executed s = [] then (True, s)
      else rollback_steps env p (rev (ls_executed s))
             (publish ''plan.rolling.back'' (JObj []) (set_status RollingBack s)))"

section \<open>One allowed step\<close>

definition record_failure :: "action \<Rightarrow> string \<Rightarrow> ('h, 'g, 'b) loop_state \<Rightarrow> ('h, 'g, 'b) loop_state" where
  "record_failure a err s =
     publish ''plan.failed'' (JObj [])
       (set_status Failed
         (push_execution \<lparr> ex_action = a, ex_status = ExecFailed, ex_evidence = JObj [(''error'', JStr err)] \<rparr>
           (publish ''action.failed'' (JObj [(''error'', JStr err)]) s)))"

text \<open>What the step did to the loop: go on, stop with the outcome, or panic in the rollback.\<close>

datatype step_flow = GoOn | StopNow | Panic

definition fail_step ::
  "('h, 'g, 'b) loop_env \<Rightarrow> plan \<Rightarrow> action \<Rightarrow> policy_decision \<Rightarrow> string \<Rightarrow>
   ('h, 'g, 'b) loop_state \<Rightarrow> step_flow \<times> ('h, 'g, 'b) loop_state" where
  "fail_step env p a decision err s =
     (let (ok, s') = rollback_executed env p
            (record_action env a ''allow'' (pd_policy_id decision) ''failed'' None (record_failure a err s))
      in (if ok then StopNow else Panic, s'))"

definition execute_allowed_step ::
  "('h, 'g, 'b) loop_env \<Rightarrow> string \<Rightarrow> plan \<Rightarrow> nat \<Rightarrow> action \<Rightarrow> policy_decision \<Rightarrow>
   ('h, 'g, 'b) loop_state \<Rightarrow> step_flow \<times> ('h, 'g, 'b) loop_state" where
  "execute_allowed_step env context_hash p index a decision s =
     (case desired_state_holds env a (ls_host s) of
        Inr True \<Rightarrow>
          (let evidence = JObj [(''already_desired'', JBool True)]
           in (GoOn, push_execution \<lparr> ex_action = a, ex_status = ExecCompleted, ex_evidence = evidence \<rparr>
                 (record_action env a ''allow'' (pd_policy_id decision) ''ok'' (Some evidence)
                   (publish ''action.already.desired'' evidence s))))
      | Inr False \<Rightarrow>
          (case execute_action env a decision (ls_host s) of
             (Inr evidence, h) \<Rightarrow>
               (let s1 = publish ''action.executed'' evidence (s\<lparr> ls_host := h \<rparr>);
                    (validation, s2) = validate_step env context_hash a s1;
                    s3 = record_action env a ''allow'' (pd_policy_id decision) ''ok'' validation s2;
                    s4 = push_execution \<lparr> ex_action = a, ex_status = ExecCompleted, ex_evidence = evidence \<rparr> s3
                in (GoOn, s4\<lparr> ls_executed := ls_executed s4 @ [index] \<rparr>))
           | (Inl err, h) \<Rightarrow> fail_step env p a decision err (s\<lparr> ls_host := h \<rparr>))
      | Inl err \<Rightarrow> fail_step env p a decision err s)"

end
