(* ===== verification/Plan_Loop.thy ===== *)
theory Plan_Loop
  imports Control
begin

text \<open>
  The step loop of \<open>control.rs\<close> (\<open>run_plan\<close> and its two entries): the governor gate, the
  authorization of a step, the three policy branches with budget, autonomy matrix and
  escalation, the loop over the steps, and resuming a paused plan under a consumed grant.
\<close>

section \<open>Pausing and escalating\<close>

definition pause_plan :: "('h, 'g, 'b) loop_env \<Rightarrow> uuid \<Rightarrow> plan \<Rightarrow> nat list \<Rightarrow> pending_plan" where
  "pause_plan env token p executed =
     \<lparr> pp_plan = p\<lparr> pl_status := AwaitingApproval \<rparr>, pp_token = token,
       pp_context_hash = plan_context_hash (le_to_text env) p, pp_executed = executed, pp_dedup_key = None \<rparr>"

text \<open>\<open>None\<close> is the panic of \<open>expect\<close> on an identifier that does not parse.\<close>

definition escalation_permits ::
  "plan \<Rightarrow> capability_registry \<Rightarrow> nat \<Rightarrow> string \<Rightarrow> autonomy_mode \<Rightarrow> risk_class \<Rightarrow> bool option" where
  "escalation_permits p registry index capability autonomy risk =
     (let reversible = ((case ps_rollback (pl_steps p ! index) of
                           None \<Rightarrow> False | Some r \<Rightarrow> as_str (ac_capability r) \<noteq> capability) \<or> risk = Read)
      in case capability_id_new capability of
           Inl _ \<Rightarrow> None
         | Inr c \<Rightarrow>
             (let declared = Option.bind (registry_get registry c)
                               (\<lambda>d. map_option (\<lambda>b. (cd_risk_class d, b)) (cd_blast_radius d));
                  (risk', radius) = (case declared of Some rb \<Rightarrow> rb | None \<Rightarrow> (risk, pl_blast_radius p))
              in Some (decide_escalation
                   \<lparr> ei_evidence_quality = Adequate, ei_confidence = as_f32 (clamp01 (pl_confidence p)),
                     ei_reversible = reversible, ei_blast_radius = radius, ei_risk = risk',
                     ei_criticality = Standard, ei_environment = Production, ei_historical_success = None,
                     ei_autonomy = autonomy, ei_policy = Allow \<rparr> = AutoFix)))"

section \<open>The gates of a step\<close>

fun refusal_name :: "refusal \<Rightarrow> string" where
  "refusal_name Unclassified = ''unclassified''"
| "refusal_name RefusedProtected = ''protected''"
| "refusal_name BudgetExhausted = ''budget_exhausted''"
| "refusal_name Cooldown = ''cooldown''"

definition governed :: "('h, 'g, 'b) loop_env \<Rightarrow> capability_id \<Rightarrow> bool" where
  "governed env c = list_ex (\<lambda>pfx. starts_with pfx (as_str c)) (lp_governed_prefixes (le_ports env))"

definition push_denied :: "capability_id \<Rightarrow> ('h, 'g, 'b) loop_state \<Rightarrow> ('h, 'g, 'b) loop_state" where
  "push_denied c s = s\<lparr> ls_outcome := (ls_outcome s)\<lparr> eo_denied := eo_denied (ls_outcome s) @ [c] \<rparr> \<rparr>"

definition push_requires_approval :: "capability_id \<Rightarrow> ('h, 'g, 'b) loop_state \<Rightarrow> ('h, 'g, 'b) loop_state" where
  "push_requires_approval c s =
     s\<lparr> ls_outcome := (ls_outcome s)\<lparr> eo_requires_approval := eo_requires_approval (ls_outcome s) @ [c] \<rparr> \<rparr>"

text \<open>A denial: recorded in the outcome, as an event and on the ledger.\<close>

definition deny_step ::
  "('h, 'g, 'b) loop_env \<Rightarrow> action \<Rightarrow> string \<Rightarrow> (string \<times> json) list \<Rightarrow>
   ('h, 'g, 'b) loop_state \<Rightarrow> ('h, 'g, 'b) loop_state" where
  "deny_step env a policy_id extra s =
     record_action env a ''deny'' policy_id ''denied'' None
       (publish ''plan.denied'' (JObj ((''capability'', JStr (as_str (ac_capability a))) # extra))
         (push_denied (ac_capability a) s))"

definition adjustment_of :: "plan \<Rightarrow> nat \<Rightarrow> action \<Rightarrow> resource_adjustment" where
  "adjustment_of p index a =
     \<lparr> ra_subject = (case action_target a of None \<Rightarrow> [] | Some t \<Rightarrow> t), ra_capability = as_str (ac_capability a),
       ra_reason = ''plan step '' @ show_nat index @ '' of '' @ quoted (pl_objective p) \<rparr>"

text \<open>The governor reads the clock twice; the two readings are consecutive.\<close>

definition governor_gate ::
  "('h, 'g, 'b) loop_env \<Rightarrow> plan \<Rightarrow> nat \<Rightarrow> action \<Rightarrow> ('h, 'g, 'b) loop_state \<Rightarrow> bool \<times> ('h, 'g, 'b) loop_state" where
  "governor_gate env p index a s =
     (if governed env (ac_capability a)
      then (let t = ls_tick s;
                (decision, g) = lp_governor (le_ports env) (adjustment_of p index a) (le_clock env t) (le_clock env (t + 1)) (ls_gov s);
                s' = s\<lparr> ls_gov := g, ls_tick := t + 2 \<rparr>
            in case decision of
                 Allowed _ \<Rightarrow> (True, s')
               | Refused why \<Rightarrow>
                   (False, deny_step env a ''governor'' [(''governance'', JStr (refusal_name why))] s'))
      else (True, s))"

definition authz_of :: "('h, 'g, 'b) loop_env \<Rightarrow> plan \<Rightarrow> action \<Rightarrow> authorization_request" where
  "authz_of env p a =
     az_requiring_approval
       (case registry_get (le_registry env) (ac_capability a) of None \<Rightarrow> True | Some d \<Rightarrow> cd_requires_approval d)
       (authorization_request_new (step_request env a)
          (governed_risk (ac_capability a) (le_registry env)) (pl_blast_radius p))"

abbreviation step_risk :: "('h, 'g, 'b) loop_env \<Rightarrow> action \<Rightarrow> risk_class" where
  "step_risk env a \<equiv> governed_risk (ac_capability a) (le_registry env)"

section \<open>The policy branches\<close>

text \<open>What a step does to the loop: continue, pause the plan, stop with the outcome, panic.\<close>

datatype loop_flow = Continue | Pause pending_plan | Stop | Crash

fun flow_of :: "step_flow \<Rightarrow> loop_flow" where
  "flow_of GoOn = Continue"
| "flow_of StopNow = Stop"
| "flow_of Panic = Crash"

definition pause_step ::
  "('h, 'g, 'b) loop_env \<Rightarrow> (nat \<Rightarrow> uuid) \<Rightarrow> plan \<Rightarrow> action \<Rightarrow> string \<Rightarrow> ('h, 'g, 'b) loop_state \<Rightarrow>
   loop_flow \<times> ('h, 'g, 'b) loop_state" where
  "pause_step env fresh p a policy_id s =
     (Pause (pause_plan env (fresh (ls_tick s)) p (ls_executed s)),
      record_action env a ''requires_approval'' policy_id ''awaiting_approval'' None s)"

definition approval_branch ::
  "('h, 'g, 'b) loop_env \<Rightarrow> (nat \<Rightarrow> uuid) \<Rightarrow> string \<Rightarrow> plan \<Rightarrow> bool \<Rightarrow> nat \<Rightarrow> action \<Rightarrow> policy_decision \<Rightarrow>
   ('h, 'g, 'b) loop_state \<Rightarrow> loop_flow \<times> ('h, 'g, 'b) loop_state" where
  "approval_branch env fresh hash p resumed index a decision s =
     (if \<not> resumed then pause_step env fresh p a (pd_policy_id decision) s
      else (let granted = decision_allow ''plan.approval'' ''resumed under a consumed single-use operator grant'';
                (flow, s') = execute_allowed_step env hash p index a granted s
            in (flow_of flow, s')))"

definition refund_unless ::
  "('h, 'g, 'b) loop_env \<Rightarrow> bool \<Rightarrow> risk_class \<Rightarrow> blast_radius \<Rightarrow> instant \<Rightarrow>
   ('h, 'g, 'b) loop_state \<Rightarrow> ('h, 'g, 'b) loop_state" where
  "refund_unless env grant_backed risk radius now s =
     (if grant_backed then s else s\<lparr> ls_budget := lp_refund (le_ports env) risk radius now (ls_budget s) \<rparr>)"

definition last_is_no_op :: "execution_outcome \<Rightarrow> bool" where
  "last_is_no_op out =
     (eo_executions out \<noteq> [] \<and> ex_status (last (eo_executions out)) = ExecCompleted
      \<and> json_get ''already_desired'' (ex_evidence (last (eo_executions out))) = Some (JBool True))"

definition reserve_unless ::
  "('h, 'g, 'b) loop_env \<Rightarrow> bool \<Rightarrow> risk_class \<Rightarrow> blast_radius \<Rightarrow> instant \<Rightarrow>
   ('h, 'g, 'b) loop_state \<Rightarrow> bool \<times> ('h, 'g, 'b) loop_state" where
  "reserve_unless env grant_backed risk radius now s =
     (if grant_backed then (True, s)
      else (let (ok, b) = lp_reserve (le_ports env) risk radius now (ls_budget s) in (ok, s\<lparr> ls_budget := b \<rparr>)))"

text \<open>The execution of an allowed step; a no-op gives its reservation back.\<close>

definition run_allowed ::
  "('h, 'g, 'b) loop_env \<Rightarrow> string \<Rightarrow> plan \<Rightarrow> nat \<Rightarrow> action \<Rightarrow> policy_decision \<Rightarrow> bool \<Rightarrow> instant \<Rightarrow>
   ('h, 'g, 'b) loop_state \<Rightarrow> loop_flow \<times> ('h, 'g, 'b) loop_state" where
  "run_allowed env hash p index a decision grant_backed now s =
     (let (flow, s') = execute_allowed_step env hash p index a decision s;
          s'' = (if flow \<noteq> Panic \<and> \<not> grant_backed \<and> last_is_no_op (ls_outcome s')
                 then refund_unless env grant_backed (step_risk env a) (pl_blast_radius p) now s' else s')
      in (flow_of flow, s''))"

definition allow_branch ::
  "('h, 'g, 'b) loop_env \<Rightarrow> (nat \<Rightarrow> uuid) \<Rightarrow> string \<Rightarrow> plan \<Rightarrow> bool \<Rightarrow> nat \<Rightarrow> action \<Rightarrow> policy_decision \<Rightarrow>
   ('h, 'g, 'b) loop_state \<Rightarrow> loop_flow \<times> ('h, 'g, 'b) loop_state" where
  "allow_branch env fresh hash p resumed index a decision s =
     (let risk = step_risk env a; radius = pl_blast_radius p; c = ac_capability a;
          grant_backed = (resumed \<or> pd_policy_id decision = ''plan.approval'');
          now = le_clock env (ls_tick s);
          (ok, s1) = reserve_unless env grant_backed risk radius now (s\<lparr> ls_tick := ls_tick s + 1 \<rparr>)
      in if \<not> ok then pause_step env fresh p a ''budget.exhausted'' (push_requires_approval c s1)
         else if \<not> may_execute_without_approval (le_autonomy env) risk
         then (Continue, deny_step env a ''autonomy.matrix'' [] (refund_unless env grant_backed risk radius now s1))
         else if \<not> escalation_bounded (le_autonomy env)
         then run_allowed env hash p index a decision grant_backed now s1
         else (case escalation_permits p (le_registry env) index (as_str c) (le_autonomy env) risk of
                 None \<Rightarrow> (Crash, s1)
               | Some True \<Rightarrow> run_allowed env hash p index a decision grant_backed now s1
               | Some False \<Rightarrow>
                   pause_step env fresh p a (pd_policy_id decision)
                     (push_requires_approval c (refund_unless env grant_backed risk radius now s1))))"

section \<open>The loop\<close>

definition run_step ::
  "('h, 'g, 'b) loop_env \<Rightarrow> (nat \<Rightarrow> uuid) \<Rightarrow> string \<Rightarrow> plan \<Rightarrow> bool \<Rightarrow> nat \<Rightarrow> plan_step \<Rightarrow>
   ('h, 'g, 'b) loop_state \<Rightarrow> loop_flow \<times> ('h, 'g, 'b) loop_state" where
  "run_step env fresh hash p resumed index st s =
     (if resumed \<and> index \<in> set (ls_executed s) then (Continue, s)
      else let a = ps_action st; (pass, s1) = governor_gate env p index a s
      in if \<not> pass then (Continue, s1)
         else let decision = le_policy env (authz_of env p a)
         in case pd_outcome decision of
              Deny \<Rightarrow> (Continue, deny_step env a (pd_policy_id decision) [] s1)
            | RequireApproval \<Rightarrow> approval_branch env fresh hash p resumed index a decision s1
            | Allow \<Rightarrow> allow_branch env fresh hash p resumed index a decision s1)"

fun run_steps ::
  "('h, 'g, 'b) loop_env \<Rightarrow> (nat \<Rightarrow> uuid) \<Rightarrow> string \<Rightarrow> plan \<Rightarrow> bool \<Rightarrow> nat \<Rightarrow> plan_step list \<Rightarrow>
   ('h, 'g, 'b) loop_state \<Rightarrow> loop_flow \<times> ('h, 'g, 'b) loop_state" where
  "run_steps env fresh hash p resumed index [] s = (Continue, s)"
| "run_steps env fresh hash p resumed index (st # sts) s =
     (let (flow, s') = run_step env fresh hash p resumed index st s
      in if flow = Continue then run_steps env fresh hash p resumed (Suc index) sts s' else (flow, s'))"

definition outcome_start :: "uuid \<Rightarrow> execution_outcome" where
  "outcome_start correlation =
     \<lparr> eo_executions = [], eo_denied = [], eo_requires_approval = [], eo_status = Executing, eo_plan_id = correlation \<rparr>"

definition finish_outcome :: "execution_outcome \<Rightarrow> execution_outcome" where
  "finish_outcome out = out\<lparr> eo_status := (if eo_executions out = [] then Denied else Completed) \<rparr>"

definition start_state ::
  "('h, 'g, 'b) loop_env \<Rightarrow> plan \<Rightarrow> nat list option \<Rightarrow> ('h, 'g, 'b) loop_state \<Rightarrow> ('h, 'g, 'b) loop_state" where
  "start_state env p resume s =
     (publish ''plan.proposed''
        (JObj [(''objective'', JStr (pl_objective p)), (''steps'', JNum (PosInt (length (pl_steps p))))]) s)
     \<lparr> ls_outcome := outcome_start (le_correlation env),
       ls_executed := (case resume of None \<Rightarrow> [] | Some executed \<Rightarrow> executed) \<rparr>"

definition run_plan ::
  "('h, 'g, 'b) loop_env \<Rightarrow> (nat \<Rightarrow> uuid) \<Rightarrow> plan \<Rightarrow> nat list option \<Rightarrow> ('h, 'g, 'b) loop_state \<Rightarrow>
   plan_run \<times> ('h, 'g, 'b) loop_state" where
  "run_plan env fresh p resume s =
     (let (flow, s') = run_steps env fresh (plan_context_hash (le_to_text env) p) p (resume \<noteq> None) 0
                         (pl_steps p) (start_state env p resume s)
      in case flow of
           Continue \<Rightarrow> (Finished (finish_outcome (ls_outcome s')), s'\<lparr> ls_outcome := finish_outcome (ls_outcome s') \<rparr>)
         | Stop \<Rightarrow> (Finished (ls_outcome s'), s')
         | Pause pending \<Rightarrow> (Paused pending, s')
         | Crash \<Rightarrow> (Panicked, s'))"

definition authorize_and_run_with_ports ::
  "('h, 'g, 'b) loop_env \<Rightarrow> (nat \<Rightarrow> uuid) \<Rightarrow> plan \<Rightarrow> ('h, 'g, 'b) loop_state \<Rightarrow>
   run_outcome \<times> ('h, 'g, 'b) loop_state" where
  "authorize_and_run_with_ports env fresh p s =
     (case run_plan env fresh p None s of
        (Finished out, s') \<Rightarrow> (RunFinished out, s')
      | (Paused pending, s') \<Rightarrow> (RunPending pending, s')
      | (Panicked, s') \<Rightarrow> (RunPanicked, s'))"

text \<open>
  Resuming: the grant is consumed first. A resumed run that pauses reaches the
  \<open>unreachable!\<close> of the source, a panic.
\<close>

definition resume_and_run_with_ports ::
  "('h, 'g, 'b) loop_env \<Rightarrow> (nat \<Rightarrow> uuid) \<Rightarrow> pending_plan \<Rightarrow> instant \<Rightarrow> approval_store \<Rightarrow> ('h, 'g, 'b) loop_state \<Rightarrow>
   resume_outcome \<times> approval_store \<times> ('h, 'g, 'b) loop_state" where
  "resume_and_run_with_ports env fresh pending now approvals s =
     (case store_consume (pp_token pending) (pp_context_hash pending) now approvals of
        (None, approvals') \<Rightarrow>
          (ResumeRefused
             (case approvals' (pp_token pending) of
                Some a \<Rightarrow> if ea_context_hash a \<noteq> pp_context_hash pending then Stale else NoGrant
              | None \<Rightarrow> NoGrant), approvals', s)
      | (Some _, approvals') \<Rightarrow>
          (case run_plan env fresh (pp_plan pending) (Some (pp_executed pending)) s of
             (Finished out, s') \<Rightarrow> (ResumeFinished out, approvals', s')
           | (Paused _, s') \<Rightarrow> (ResumePanicked, approvals', s')
           | (Panicked, s') \<Rightarrow> (ResumePanicked, approvals', s')))"

section \<open>Fail-closed ports\<close>

text \<open>\<open>LoopPorts::noop\<close>: governed capabilities are refused, remediation effects unsupported.\<close>

definition no_executor :: "'h executor" where
  "no_executor a h = (Inl (Unsupported (aa_capability a)), h)"

definition noop_ports :: "('h, 'g, 'b) loop_ports" where
  "noop_ports =
     \<lparr> lp_governor = no_governor_evaluate, lp_governed_prefixes = GOVERNED_PREFIXES,
       lp_is_running = (\<lambda>_ _. Inl (Unavailable ''no container controller is wired'')),
       lp_is_frozen = (\<lambda>_ _. Inl (Unavailable ''no cgroup controller is wired'')),
       lp_cluster = unavailable_cluster, lp_remediation = no_executor, lp_kubernetes = no_executor,
       lp_reserve = noop_reserve, lp_refund = noop_refund \<rparr>"

definition authorize_and_run ::
  "('h, 'g, 'b) loop_env \<Rightarrow> (nat \<Rightarrow> uuid) \<Rightarrow> plan \<Rightarrow> ('h, 'g, 'b) loop_state \<Rightarrow>
   run_outcome \<times> ('h, 'g, 'b) loop_state" where
  "authorize_and_run env fresh p s = authorize_and_run_with_ports (env\<lparr> le_ports := noop_ports \<rparr>) fresh p s"

definition resume_and_run ::
  "('h, 'g, 'b) loop_env \<Rightarrow> (nat \<Rightarrow> uuid) \<Rightarrow> pending_plan \<Rightarrow> instant \<Rightarrow> approval_store \<Rightarrow> ('h, 'g, 'b) loop_state \<Rightarrow>
   resume_outcome \<times> approval_store \<times> ('h, 'g, 'b) loop_state" where
  "resume_and_run env fresh pending now approvals s =
     resume_and_run_with_ports (env\<lparr> le_ports := noop_ports \<rparr>) fresh pending now approvals s"

end
