(* ===== verification/Loop_Correct.thy ===== *)
theory Loop_Correct
  imports Plan_Loop
begin

text \<open>
  Correctness of the plan loop. What a step can do to the part of the state that matters (host,
  executions, status, executed indices) is split into two cases, quiet and executing; the
  invariant of the loop and the properties of whole runs follow by induction over the steps.
\<close>

section \<open>The core of a state\<close>

definition core :: "('h, 'g, 'b) loop_state \<Rightarrow> 'h \<times> execution list \<times> plan_status \<times> nat list" where
  "core s = (ls_host s, eo_executions (ls_outcome s), eo_status (ls_outcome s), ls_executed s)"

lemmas update_defs = publish_def record_action_def set_status_def push_execution_def push_denied_def
  push_requires_approval_def deny_step_def refund_unless_def

lemma core_updates [simp]:
  "core (publish t v s) = core s"
  "core (record_action env a vd i out va s) = core s"
  "core (push_denied c s) = core s"
  "core (push_requires_approval c s) = core s"
  "core (deny_step env a i extra s) = core s"
  "core (refund_unless env gb risk radius now s) = core s"
  "core (s\<lparr> ls_budget := b \<rparr>) = core s"
  "core (s\<lparr> ls_tick := n \<rparr>) = core s"
  "core (s\<lparr> ls_gov := g \<rparr>) = core s"
  by (simp_all add: core_def update_defs)

lemma executed_updates [simp]:
  "ls_executed (push_requires_approval c s) = ls_executed s"
  "ls_executed (refund_unless env gb risk radius now s) = ls_executed s"
  by (simp_all add: update_defs)

lemma core_reserve: "reserve_unless env gb risk radius now s = (ok, s') \<Longrightarrow> core s' = core s"
  by (auto simp: reserve_unless_def split: if_splits prod.splits)

lemma core_governor: "governor_gate env p index a s = (pass, s') \<Longrightarrow> core s' = core s"
  by (auto simp: governor_gate_def Let_def split: if_splits prod.splits governance_decision.splits)

section \<open>When a step may run\<close>

definition step_permitted :: "('h, 'g, 'b) loop_env \<Rightarrow> plan \<Rightarrow> bool \<Rightarrow> nat \<Rightarrow> action \<Rightarrow> bool" where
  "step_permitted env p resumed index a \<longleftrightarrow>
     (case pd_outcome (le_policy env (authz_of env p a)) of
        Deny \<Rightarrow> False
      | RequireApproval \<Rightarrow> resumed
      | Allow \<Rightarrow>
          may_execute_without_approval (le_autonomy env) (step_risk env a)
          \<and> (escalation_bounded (le_autonomy env) \<longrightarrow>
               escalation_permits p (le_registry env) index (as_str (ac_capability a))
                 (le_autonomy env) (step_risk env a) = Some True))"

definition governor_accepts :: "('h, 'g, 'b) loop_env \<Rightarrow> plan \<Rightarrow> nat \<Rightarrow> action \<Rightarrow> bool" where
  "governor_accepts env p index a \<longleftrightarrow>
     (governed env (ac_capability a) \<longrightarrow>
        (\<exists>t g. governance_is_allowed
           (fst (lp_governor (le_ports env) (adjustment_of p index a) (le_clock env t) (le_clock env (t + 1)) g))))"

lemma governor_gate_accepts: "governor_gate env p index a s = (True, s') \<Longrightarrow> governor_accepts env p index a"
  unfolding governor_accepts_def governor_gate_def Let_def
  by (auto simp: case_prod_beta split: if_splits governance_decision.splits) (metis governance_is_allowed_simps(1))

text \<open>
  A quiet flow: a pause carries the indices executed so far and on a resumed run comes only from
  the escalation gate; a crash only from an identifier that does not parse.
\<close>

definition quiet_flow :: "('h, 'g, 'b) loop_env \<Rightarrow> plan \<Rightarrow> bool \<Rightarrow> action \<Rightarrow> nat list \<Rightarrow> loop_flow \<Rightarrow> bool" where
  "quiet_flow env p resumed a executed flow \<longleftrightarrow>
     (case flow of
        Continue \<Rightarrow> True
      | Pause pending \<Rightarrow> (resumed \<longrightarrow> escalation_bounded (le_autonomy env))
                        \<and> (\<exists>token. pending = pause_plan env token p executed)
      | Stop \<Rightarrow> False
      | Crash \<Rightarrow> \<not> valid_capability (ac_capability a))"

lemma quiet_flow_simps [simp]:
  "quiet_flow env p resumed a executed Continue"
  "quiet_flow env p resumed a executed (Pause (pause_plan env token p executed)) \<longleftrightarrow>
     (resumed \<longrightarrow> escalation_bounded (le_autonomy env))"
  "\<not> quiet_flow env p resumed a executed Stop"
  "quiet_flow env p resumed a executed Crash \<longleftrightarrow> \<not> valid_capability (ac_capability a)"
  by (auto simp: quiet_flow_def)

inductive quiet_step ::
  "('h, 'g, 'b) loop_env \<Rightarrow> plan \<Rightarrow> bool \<Rightarrow> action \<Rightarrow> loop_flow \<Rightarrow>
   ('h, 'g, 'b) loop_state \<Rightarrow> ('h, 'g, 'b) loop_state \<Rightarrow> bool" where
  "core s' = core s \<Longrightarrow> quiet_flow env p resumed a (ls_executed s) flow \<Longrightarrow> quiet_step env p resumed a flow s s'"

inductive executing_step ::
  "('h, 'g, 'b) loop_env \<Rightarrow> string \<Rightarrow> plan \<Rightarrow> bool \<Rightarrow> nat \<Rightarrow> action \<Rightarrow> loop_flow \<Rightarrow>
   ('h, 'g, 'b) loop_state \<Rightarrow> ('h, 'g, 'b) loop_state \<Rightarrow> bool" where
  "execute_allowed_step env hash p index a decision s0 = (f, s1) \<Longrightarrow> flow = flow_of f \<Longrightarrow>
   core s0 = core s \<Longrightarrow> core s' = core s1 \<Longrightarrow> pd_outcome decision = Allow \<Longrightarrow>
   step_permitted env p resumed index a \<Longrightarrow> governor_accepts env p index a \<Longrightarrow>
   \<not> (resumed \<and> index \<in> set (ls_executed s)) \<Longrightarrow>
   executing_step env hash p resumed index a flow s s'"

inductive_cases quiet_stepE: "quiet_step env p resumed a flow s s'"
inductive_cases executing_stepE: "executing_step env hash p resumed index a flow s s'"

lemma run_allowed_executing:
  assumes "run_allowed env hash p index a decision gb now s0 = (flow, s')"
  shows "\<exists>f s1. execute_allowed_step env hash p index a decision s0 = (f, s1) \<and> flow = flow_of f \<and> core s' = core s1"
  using assms by (auto simp: run_allowed_def Let_def split: prod.splits if_splits)

lemma approval_branch_cases:
  assumes "approval_branch env fresh hash p resumed index a decision s0 = (flow, s')"
  shows "(\<not> resumed \<and> core s' = core s0 \<and> quiet_flow env p resumed a (ls_executed s0) flow) \<or>
         (resumed \<and> (\<exists>d f s1. pd_outcome d = Allow \<and> execute_allowed_step env hash p index a d s0 = (f, s1)
            \<and> flow = flow_of f \<and> core s' = core s1))"
proof (cases resumed)
  case True
  let ?d = "decision_allow ''plan.approval'' ''resumed under a consumed single-use operator grant''"
  obtain f s1 where x: "execute_allowed_step env hash p index a ?d s0 = (f, s1)"
    by (cases "execute_allowed_step env hash p index a ?d s0")
  moreover have "pd_outcome ?d = Allow" by simp
  moreover have "flow = flow_of f" "s' = s1" using assms True x by (simp_all add: approval_branch_def Let_def)
  ultimately show ?thesis using True by blast
qed (use assms in \<open>auto simp: approval_branch_def pause_step_def\<close>)

lemma allow_branch_cases:
  assumes "allow_branch env fresh hash p resumed index a decision s = (flow, s')"
  shows "(core s' = core s \<and> quiet_flow env p resumed a (ls_executed s) flow) \<or>
         (may_execute_without_approval (le_autonomy env) (step_risk env a)
          \<and> (escalation_bounded (le_autonomy env) \<longrightarrow>
               escalation_permits p (le_registry env) index (as_str (ac_capability a))
                 (le_autonomy env) (step_risk env a) = Some True)
          \<and> (\<exists>s0 f s1. core s0 = core s \<and> execute_allowed_step env hash p index a decision s0 = (f, s1)
               \<and> flow = flow_of f \<and> core s' = core s1))"
proof -
  obtain ok s1 where r: "reserve_unless env (resumed \<or> pd_policy_id decision = ''plan.approval'') (step_risk env a)
      (pl_blast_radius p) (le_clock env (ls_tick s)) (s\<lparr> ls_tick := ls_tick s + 1 \<rparr>) = (ok, s1)"
    by (cases "reserve_unless env (resumed \<or> pd_policy_id decision = ''plan.approval'') (step_risk env a)
      (pl_blast_radius p) (le_clock env (ls_tick s)) (s\<lparr> ls_tick := ls_tick s + 1 \<rparr>)")
  have c: "core s1 = core s" using core_reserve [OF r] by simp
  then have ex: "ls_executed s1 = ls_executed s" by (simp add: core_def)
  have ok: "resumed \<longrightarrow> ok" using r by (auto simp: reserve_unless_def split: if_splits)
  have parse: "escalation_permits p (le_registry env) index (as_str (ac_capability a)) (le_autonomy env)
      (step_risk env a) = None \<longrightarrow> \<not> valid_capability (ac_capability a)"
    by (auto simp: escalation_permits_def capability_reparse Let_def split: prod.splits)
  show ?thesis
    using assms c ex ok parse unfolding allow_branch_def Let_def r
    by (auto simp: pause_step_def executed_updates dest: run_allowed_executing
        split: if_splits option.splits bool.splits)
qed

lemma run_step_cases:
  assumes "run_step env fresh hash p resumed index st s = (flow, s')"
  shows "quiet_step env p resumed (ps_action st) flow s s' \<or> executing_step env hash p resumed index (ps_action st) flow s s'"
proof (cases "resumed \<and> index \<in> set (ls_executed s)")
  case True
  with assms show ?thesis by (auto simp: run_step_def intro: quiet_step.intros)
next
  case fresh_index: False
  let ?a = "ps_action st"
  let ?d = "le_policy env (authz_of env p ?a)"
  obtain pass s0 where gate: "governor_gate env p index ?a s = (pass, s0)"
    by (cases "governor_gate env p index ?a s")
  have c: "core s0 = core s" by (rule core_governor [OF gate])
  then have ex: "ls_executed s0 = ls_executed s" by (simp add: core_def)
  show ?thesis
  proof (cases "pass")
    case False
    with assms gate c fresh_index show ?thesis by (auto simp: run_step_def Let_def intro: quiet_step.intros)
  next
    case True
    have acc: "governor_accepts env p index ?a" using governor_gate_accepts gate True by simp
    show ?thesis
    proof (cases "pd_outcome ?d")
      case Allow
      then have run: "allow_branch env fresh hash p resumed index ?a ?d s0 = (flow, s')"
        using assms gate True fresh_index by (auto simp: run_step_def Let_def)
      from allow_branch_cases [OF run] show ?thesis
        using c ex Allow acc fresh_index
        by (auto simp: step_permitted_def intro: quiet_step.intros executing_step.intros)
    next
      case Deny
      then show ?thesis
        using assms gate True fresh_index c by (auto simp: run_step_def Let_def intro: quiet_step.intros)
    next
      case RequireApproval
      then have run: "approval_branch env fresh hash p resumed index ?a ?d s0 = (flow, s')"
        using assms gate True fresh_index by (auto simp: run_step_def Let_def)
      from approval_branch_cases [OF run] show ?thesis
        using c ex RequireApproval acc fresh_index
        by (auto simp: step_permitted_def intro: quiet_step.intros executing_step.intros)
    qed
  qed
qed

section \<open>Rolling back\<close>

lemma rollback_steps_core:
  "rollback_steps env p is s = (ok, s') \<Longrightarrow>
   eo_executions (ls_outcome s') = eo_executions (ls_outcome s) \<and> ls_executed s' = ls_executed s
   \<and> (ok \<longrightarrow> eo_status (ls_outcome s') \<in> {RolledBack, NeedsManual})
   \<and> ((\<forall>i \<in> set is. i < length (pl_steps p)) \<longrightarrow> ok)"
proof (induction env p "is" s rule: rollback_steps.induct)
  case (1 env p s)
  then show ?case by (auto simp: update_defs)
next
  case (2 env p index rest s)
  show ?case
  proof (cases "index \<ge> length (pl_steps p)")
    case True
    with 2 show ?thesis by auto
  next
    case inr: False
    show ?thesis
    proof (cases "ps_rollback (pl_steps p ! index)")
      case None
      with 2 inr show ?thesis by (auto simp: update_defs)
    next
      case (Some rollback)
      obtain r h where x: "execute_action env rollback rollback_decision (ls_host s) = (r, h)"
        by (cases "execute_action env rollback rollback_decision (ls_host s)")
      show ?thesis
      proof (cases r)
        case (Inl e)
        with 2 inr Some x show ?thesis by (auto simp: update_defs)
      next
        case (Inr v)
        have "rollback_steps env p rest (record_action env rollback ''allow'' ''plan.rollback'' ''rolled_back'' None
                   (publish ''action.rolled.back'' v (s\<lparr> ls_host := h \<rparr>))) = (ok, s')"
          using "2.prems" inr Some x Inr by simp
        from "2.IH" [OF inr Some x [symmetric] Inr this] show ?thesis
          by (auto simp: update_defs)
      qed
    qed
  qed
qed

lemma rollback_executed_core:
  "rollback_executed env p s = (ok, s') \<Longrightarrow>
   eo_executions (ls_outcome s') = eo_executions (ls_outcome s) \<and> ls_executed s' = ls_executed s
   \<and> (ok \<longrightarrow> (if ls_executed s = [] then s' = s else eo_status (ls_outcome s') \<in> {RolledBack, NeedsManual}))
   \<and> ((\<forall>i \<in> set (ls_executed s). i < length (pl_steps p)) \<longrightarrow> ok)"
  by (auto simp: rollback_executed_def update_defs split: if_splits dest!: rollback_steps_core)

section \<open>Executing a step\<close>

lemma core_validate: "validate_step env hash a s = (v, s') \<Longrightarrow> core s' = core s"
  by (auto simp: validate_step_def split: option.splits sum.splits)

lemma fail_step_core:
  assumes "fail_step env p a d err s = (f, s')"
  shows "\<exists>e. ex_action e = a \<and> ex_status e = ExecFailed
           \<and> eo_executions (ls_outcome s') = eo_executions (ls_outcome s) @ [e] \<and> ls_executed s' = ls_executed s
           \<and> f \<noteq> GoOn
           \<and> (f = StopNow \<longrightarrow> (if ls_executed s = [] then eo_status (ls_outcome s') = Failed
                               else eo_status (ls_outcome s') \<in> {RolledBack, NeedsManual}))
           \<and> ((\<forall>i \<in> set (ls_executed s). i < length (pl_steps p)) \<longrightarrow> f = StopNow)"
proof -
  let ?s1 = "record_action env a ''allow'' (pd_policy_id d) ''failed'' None (record_failure a err s)"
  obtain ok s2 where rb: "rollback_executed env p ?s1 = (ok, s2)" by (cases "rollback_executed env p ?s1")
  have "f = (if ok then StopNow else Panic)" "s' = s2" using assms rb by (simp_all add: fail_step_def Let_def)
  with rollback_executed_core [OF rb] show ?thesis
    by (auto simp: record_failure_def update_defs split: if_splits)
qed

lemma execute_allowed_cases:
  assumes "execute_allowed_step env hash p index a d s = (f, s')"
  shows "(f = GoOn \<and> (\<exists>e. ex_action e = a \<and> ex_status e = ExecCompleted
            \<and> eo_executions (ls_outcome s') = eo_executions (ls_outcome s) @ [e]
            \<and> eo_status (ls_outcome s') = eo_status (ls_outcome s))
            \<and> (ls_executed s' = ls_executed s \<and> ls_host s' = ls_host s \<or> ls_executed s' = ls_executed s @ [index]))
       \<or> (f \<noteq> GoOn \<and> (\<exists>e. ex_action e = a \<and> ex_status e = ExecFailed
            \<and> eo_executions (ls_outcome s') = eo_executions (ls_outcome s) @ [e])
            \<and> ls_executed s' = ls_executed s
            \<and> (f = StopNow \<longrightarrow> (if ls_executed s = [] then eo_status (ls_outcome s') = Failed
                               else eo_status (ls_outcome s') \<in> {RolledBack, NeedsManual}))
            \<and> ((\<forall>i \<in> set (ls_executed s). i < length (pl_steps p)) \<longrightarrow> f = StopNow))"
proof (cases "desired_state_holds env a (ls_host s)")
  case (Inl err)
  then have "fail_step env p a d err s = (f, s')" using assms by (simp add: execute_allowed_step_def)
  from fail_step_core [OF this] show ?thesis by blast
next
  case (Inr b)
  show ?thesis
  proof (cases b)
    case True
    with assms Inr show ?thesis
      by (auto simp: execute_allowed_step_def Let_def update_defs)
  next
    case False
    obtain r h where x: "execute_action env a d (ls_host s) = (r, h)"
      by (cases "execute_action env a d (ls_host s)")
    show ?thesis
    proof (cases r)
      case (Inl err)
      then have "fail_step env p a d err (s\<lparr> ls_host := h \<rparr>) = (f, s')"
        using assms Inr False x by (simp add: execute_allowed_step_def)
      from fail_step_core [OF this] show ?thesis by auto
    next
      case ev: (Inr evidence)
      obtain v s2 where val: "validate_step env hash a (publish ''action.executed'' evidence (s\<lparr> ls_host := h \<rparr>)) = (v, s2)"
        by (cases "validate_step env hash a (publish ''action.executed'' evidence (s\<lparr> ls_host := h \<rparr>))")
      have "core s2 = core (s\<lparr> ls_host := h \<rparr>)" using core_validate [OF val] by simp
      then have "eo_executions (ls_outcome s2) = eo_executions (ls_outcome s)"
        "eo_status (ls_outcome s2) = eo_status (ls_outcome s)" "ls_executed s2 = ls_executed s"
        by (simp_all add: core_def)
      with assms Inr False x ev val show ?thesis
        by (auto simp: execute_allowed_step_def Let_def update_defs)
    qed
  qed
qed

section \<open>The invariant of the loop\<close>

definition justified :: "('h, 'g, 'b) loop_env \<Rightarrow> plan \<Rightarrow> bool \<Rightarrow> execution \<Rightarrow> bool" where
  "justified env p resumed e \<longleftrightarrow>
     (\<exists>i < length (pl_steps p). ex_action e = ps_action (pl_steps p ! i)
        \<and> step_permitted env p resumed i (ex_action e) \<and> governor_accepts env p i (ex_action e))"

definition loop_inv ::
  "('h, 'g, 'b) loop_env \<Rightarrow> plan \<Rightarrow> bool \<Rightarrow> 'h \<Rightarrow> nat list \<Rightarrow> nat \<Rightarrow> ('h, 'g, 'b) loop_state \<Rightarrow> bool" where
  "loop_inv env p resumed h0 before index s \<longleftrightarrow>
     (\<forall>e \<in> set (eo_executions (ls_outcome s)). ex_status e = ExecCompleted \<and> justified env p resumed e)
     \<and> eo_status (ls_outcome s) = Executing
     \<and> distinct (ls_executed s) \<and> (\<forall>i \<in> set (ls_executed s). i < length (pl_steps p))
     \<and> (\<not> resumed \<longrightarrow> (\<forall>i \<in> set (ls_executed s). i < index))
     \<and> (\<exists>new. ls_executed s = before @ new)
     \<and> (eo_executions (ls_outcome s) = [] \<longrightarrow> ls_host s = h0 \<and> ls_executed s = before)"

definition stopped :: "('h, 'g, 'b) loop_env \<Rightarrow> plan \<Rightarrow> bool \<Rightarrow> nat list \<Rightarrow> ('h, 'g, 'b) loop_state \<Rightarrow> bool" where
  "stopped env p resumed before s \<longleftrightarrow>
     (\<exists>done failed. eo_executions (ls_outcome s) = done @ [failed]
        \<and> (\<forall>e \<in> set done. ex_status e = ExecCompleted) \<and> ex_status failed = ExecFailed
        \<and> (\<forall>e \<in> set (done @ [failed]). justified env p resumed e))
     \<and> (if ls_executed s = [] then eo_status (ls_outcome s) = Failed
        else eo_status (ls_outcome s) \<in> {RolledBack, NeedsManual})
     \<and> distinct (ls_executed s) \<and> (\<exists>new. ls_executed s = before @ new)"

lemma loop_inv_core:
  "core s = core s' \<Longrightarrow> loop_inv env p resumed h0 before index s \<longleftrightarrow> loop_inv env p resumed h0 before index s'"
  by (simp add: loop_inv_def core_def)

lemma loop_inv_later:
  "loop_inv env p resumed h0 before index s \<Longrightarrow> index \<le> index' \<Longrightarrow> loop_inv env p resumed h0 before index' s"
  by (fastforce simp: loop_inv_def)

lemma executing_step_inv:
  assumes inv: "loop_inv env p resumed h0 before index s" and idx: "index < length (pl_steps p)"
    and step: "executing_step env hash p resumed index (ps_action (pl_steps p ! index)) flow s s'"
  shows "flow = Continue \<and> loop_inv env p resumed h0 before (Suc index) s' \<or> flow = Stop \<and> stopped env p resumed before s'"
proof -
  let ?a = "ps_action (pl_steps p ! index)"
  obtain decision s0 f s1 where x: "execute_allowed_step env hash p index ?a decision s0 = (f, s1)"
    and flow: "flow = flow_of f" and c0: "core s0 = core s" and c1: "core s' = core s1"
    and perm: "step_permitted env p resumed index ?a" "governor_accepts env p index ?a"
    and new: "\<not> (resumed \<and> index \<in> set (ls_executed s))"
    using step by (auto elim: executing_stepE)
  have inv0: "loop_inv env p resumed h0 before index s0" using inv loop_inv_core [OF c0] by blast
  have just: "ex_action e = ?a \<Longrightarrow> justified env p resumed e" for e
    using perm idx by (auto simp: justified_def)
  have fresh: "index \<notin> set (ls_executed s0)"
    using inv0 new c0 by (auto simp: loop_inv_def core_def)
  have bounded: "\<forall>i \<in> set (ls_executed s0). i < length (pl_steps p)" using inv0 by (auto simp: loop_inv_def)
  show ?thesis
  proof (cases "f = GoOn")
    case True
    with execute_allowed_cases [OF x] obtain e
      where "ex_action e = ?a" "ex_status e = ExecCompleted"
        and "eo_executions (ls_outcome s1) = eo_executions (ls_outcome s0) @ [e]"
        and "eo_status (ls_outcome s1) = eo_status (ls_outcome s0)"
        and "ls_executed s1 = ls_executed s0 \<and> ls_host s1 = ls_host s0 \<or> ls_executed s1 = ls_executed s0 @ [index]"
      by auto
    then have "loop_inv env p resumed h0 before (Suc index) s1"
      using inv0 just fresh idx by (fastforce simp: loop_inv_def)
    with loop_inv_core [OF c1] flow True show ?thesis by simp
  next
    case False
    with execute_allowed_cases [OF x] bounded obtain e
      where "f = StopNow" "ex_action e = ?a" "ex_status e = ExecFailed"
        and "eo_executions (ls_outcome s1) = eo_executions (ls_outcome s0) @ [e]"
        and "ls_executed s1 = ls_executed s0"
        and "if ls_executed s0 = [] then eo_status (ls_outcome s1) = Failed
             else eo_status (ls_outcome s1) \<in> {RolledBack, NeedsManual}"
      by auto
    then have "stopped env p resumed before s1" "f = StopNow"
      using inv0 just unfolding stopped_def loop_inv_def by fastforce+
    moreover then have "stopped env p resumed before s'"
      using c1 unfolding stopped_def core_def by (simp split: if_splits)
    ultimately show ?thesis using flow by simp
  qed
qed

lemma quiet_step_inv:
  assumes inv: "loop_inv env p resumed h0 before index s" and step: "quiet_step env p resumed a flow s s'"
  shows "flow \<noteq> Stop \<and> loop_inv env p resumed h0 before (Suc index) s'"
  using step
proof (rule quiet_stepE)
  assume c: "core s' = core s" and q: "quiet_flow env p resumed a (ls_executed s) flow"
  have f: "flow \<noteq> Stop" using q by auto
  have "loop_inv env p resumed h0 before index s'" using inv loop_inv_core [OF c] by blast
  with f show ?thesis by (blast intro: loop_inv_later [OF _ le_SucI [OF order_refl]])
qed

lemma run_steps_inv:
  "loop_inv env p resumed h0 before index s \<Longrightarrow> drop index (pl_steps p) = sts \<Longrightarrow>
   run_steps env fresh hash p resumed index sts s = (flow, s') \<Longrightarrow>
   (if flow = Stop then stopped env p resumed before s' else \<exists>j. loop_inv env p resumed h0 before j s')"
proof (induction sts arbitrary: index s)
  case Nil
  then show ?case by auto
next
  case (Cons st sts)
  have idx: "index < length (pl_steps p)" using Cons.prems(2) by (cases "index < length (pl_steps p)") auto
  have "pl_steps p ! index # drop (Suc index) (pl_steps p) = st # sts"
    using Cons_nth_drop_Suc [OF idx] Cons.prems(2) by simp
  then have st: "st = pl_steps p ! index" and rest: "drop (Suc index) (pl_steps p) = sts" by auto
  obtain fl s1 where step: "run_step env fresh hash p resumed index st s = (fl, s1)"
    by (cases "run_step env fresh hash p resumed index st s")
  from run_step_cases [OF step] show ?case
  proof
    assume q: "quiet_step env p resumed (ps_action st) fl s s1"
    from quiet_step_inv [OF Cons.prems(1) q] Cons.IH [OF _ rest] Cons.prems(3) step show ?thesis
      by (auto split: if_splits)
  next
    assume "executing_step env hash p resumed index (ps_action st) fl s s1"
    from executing_step_inv [OF Cons.prems(1) idx this [unfolded st]] Cons.IH [OF _ rest] Cons.prems(3) step
    show ?thesis by (auto split: if_splits)
  qed
qed

section \<open>Whole runs\<close>

abbreviation carried :: "nat list option \<Rightarrow> nat list" where
  "carried resume \<equiv> (case resume of None \<Rightarrow> [] | Some executed \<Rightarrow> executed)"

definition carried_ok :: "plan \<Rightarrow> nat list option \<Rightarrow> bool" where
  "carried_ok p resume \<longleftrightarrow> distinct (carried resume) \<and> (\<forall>i \<in> set (carried resume). i < length (pl_steps p))"

lemma start_state_inv:
  "carried_ok p resume \<Longrightarrow>
   loop_inv env p (resume \<noteq> None) (ls_host s) (carried resume) 0 (start_state env p resume s)"
  by (cases resume) (auto simp: loop_inv_def start_state_def outcome_start_def publish_def carried_ok_def)

definition run_ends :: "('h, 'g, 'b) loop_env \<Rightarrow> plan \<Rightarrow> bool \<Rightarrow> 'h \<Rightarrow> nat list \<Rightarrow> plan_run \<Rightarrow> ('h, 'g, 'b) loop_state \<Rightarrow> bool" where
  "run_ends env p resumed h0 before r s \<longleftrightarrow>
     stopped env p resumed before s \<and> r = Finished (ls_outcome s)
     \<or> (\<exists>j s1. loop_inv env p resumed h0 before j s1 \<and> ls_host s = ls_host s1 \<and> ls_executed s = ls_executed s1
          \<and> eo_executions (ls_outcome s) = eo_executions (ls_outcome s1)
          \<and> (\<forall>out. r = Finished out \<longrightarrow> out = ls_outcome s \<and>
               eo_status out = (if eo_executions out = [] then Denied else Completed)))"

lemma run_plan_ends:
  assumes ok: "carried_ok p resume" and run: "run_plan env fresh p resume s = (r, s')"
  shows "run_ends env p (resume \<noteq> None) (ls_host s) (carried resume) r s'"
proof -
  obtain flow s1 where steps: "run_steps env fresh (plan_context_hash (le_to_text env) p) p (resume \<noteq> None) 0
      (pl_steps p) (start_state env p resume s) = (flow, s1)"
    by (cases "run_steps env fresh (plan_context_hash (le_to_text env) p) p (resume \<noteq> None) 0
      (pl_steps p) (start_state env p resume s)")
  note inv = run_steps_inv [OF start_state_inv [OF ok] _ steps, simplified]
  show ?thesis
  proof (cases flow)
    case Stop
    with inv run steps show ?thesis by (auto simp: run_plan_def run_ends_def)
  next
    case Continue
    with inv obtain j where j: "loop_inv env p (resume \<noteq> None) (ls_host s) (carried resume) j s1" by auto
    from Continue run steps have "r = Finished (finish_outcome (ls_outcome s1))"
      "s' = s1\<lparr> ls_outcome := finish_outcome (ls_outcome s1) \<rparr>" by (simp_all add: run_plan_def)
    then show ?thesis
      using j unfolding run_ends_def by (intro disjI2 exI [of _ j] exI [of _ s1]) (simp add: finish_outcome_def)
  qed (use inv run steps in \<open>auto simp: run_plan_def run_ends_def\<close>)
qed

lemma run_ends_justified:
  "run_ends env p resumed h0 before r s \<Longrightarrow>
   (\<forall>e \<in> set (eo_executions (ls_outcome s)). justified env p resumed e)
   \<and> (eo_executions (ls_outcome s) = [] \<longrightarrow> ls_host s = h0 \<and> ls_executed s = before)"
  by (auto simp: run_ends_def stopped_def loop_inv_def)

section \<open>Undoing\<close>

text \<open>The reference: run the actions one after the other, giving up at the first failure.\<close>

fun undo_all :: "('h, 'g, 'b) loop_env \<Rightarrow> action list \<Rightarrow> 'h \<Rightarrow> 'h option" where
  "undo_all env [] h = Some h"
| "undo_all env (a # as) h =
     (case execute_action env a rollback_decision h of
        (Inr _, h') \<Rightarrow> undo_all env as h' | (Inl _, _) \<Rightarrow> None)"

definition undo_record :: "('h, 'g, 'b) loop_env \<Rightarrow> action \<Rightarrow> action_event_record" where
  "undo_record env a = action_event a (le_correlation env) ''allow'' (Some ''plan.rollback'') ''rolled_back'' None"

lemma rollback_steps_complete:
  "\<forall>i \<in> set is. i < length (pl_steps p) \<Longrightarrow> rollback_steps env p is s = (ok, s') \<Longrightarrow>
   map (\<lambda>i. ps_rollback (pl_steps p ! i)) is = map Some acts \<Longrightarrow> undo_all env acts (ls_host s) = Some h \<Longrightarrow>
   ok \<and> eo_status (ls_outcome s') = RolledBack \<and> ls_host s' = h
   \<and> ls_ledger s' = ls_ledger s @ map (undo_record env) acts"
proof (induction "is" arbitrary: s acts)
  case Nil
  then show ?case by (auto simp: update_defs)
next
  case (Cons i "is")
  from Cons.prems(3) obtain a as where acts: "acts = a # as" and a: "ps_rollback (pl_steps p ! i) = Some a"
    and as: "map (\<lambda>i. ps_rollback (pl_steps p ! i)) is = map Some as" by auto
  from Cons.prems(4) acts obtain v h1 where x: "execute_action env a rollback_decision (ls_host s) = (Inr v, h1)"
    and rest: "undo_all env as h1 = Some h"
    by (auto split: prod.splits sum.splits)
  let ?s1 = "record_action env a ''allow'' ''plan.rollback'' ''rolled_back'' None
               (publish ''action.rolled.back'' v (s\<lparr> ls_host := h1 \<rparr>))"
  have "rollback_steps env p is ?s1 = (ok, s')" using Cons.prems(1,2) a x by simp
  from Cons.IH [OF _ this as] Cons.prems(1) rest show ?case
    by (auto simp: acts undo_record_def update_defs)
qed

lemma rollback_steps_RolledBack:
  "rollback_steps env p is s = (True, s') \<Longrightarrow> eo_status (ls_outcome s') = RolledBack \<Longrightarrow>
   (\<exists>acts h. map (\<lambda>i. ps_rollback (pl_steps p ! i)) is = map Some acts \<and> undo_all env acts (ls_host s) = Some h)"
proof (induction env p "is" s rule: rollback_steps.induct)
  case (1 env p s)
  then show ?case by auto
next
  case (2 env p index rest s)
  from "2.prems" have inr: "\<not> index \<ge> length (pl_steps p)" by auto
  from "2.prems" inr obtain a where a: "ps_rollback (pl_steps p ! index) = Some a"
    by (auto simp: update_defs split: option.splits)
  obtain r h where x: "execute_action env a rollback_decision (ls_host s) = (r, h)"
    by (cases "execute_action env a rollback_decision (ls_host s)")
  from "2.prems" inr a x obtain v where r: "r = Inr v"
    by (cases r) (auto simp: update_defs)
  have "rollback_steps env p rest (record_action env a ''allow'' ''plan.rollback'' ''rolled_back'' None
          (publish ''action.rolled.back'' v (s\<lparr> ls_host := h \<rparr>))) = (True, s')"
    using "2.prems" inr a x r by simp
  from "2.IH" [OF inr a x [symmetric] r this "2.prems"(2)] obtain acts h'
    where "map (\<lambda>i. ps_rollback (pl_steps p ! i)) rest = map Some acts" "undo_all env acts h = Some h'"
    by (auto simp: update_defs)
  then have "map (\<lambda>i. ps_rollback (pl_steps p ! i)) (index # rest) = map Some (a # acts)"
    "undo_all env (a # acts) (ls_host s) = Some h'"
    using a x r by simp_all
  then show ?case by blast
qed

section \<open>How the loop ends\<close>

lemma run_step_flow:
  assumes inv: "loop_inv env p resumed h0 before index s" and idx: "index < length (pl_steps p)"
    and step: "run_step env fresh hash p resumed index (pl_steps p ! index) s = (flow, s')"
  shows "flow = Crash \<longrightarrow> \<not> valid_capability (ac_capability (ps_action (pl_steps p ! index)))"
    and "flow = Pause pending \<longrightarrow> (resumed \<longrightarrow> escalation_bounded (le_autonomy env))
           \<and> (\<exists>token. pending = pause_plan env token p (ls_executed s'))"
proof -
  let ?a = "ps_action (pl_steps p ! index)"
  from run_step_cases [OF step] have "(flow = Crash \<longrightarrow> \<not> valid_capability (ac_capability ?a)) \<and>
    (flow = Pause pending \<longrightarrow> (resumed \<longrightarrow> escalation_bounded (le_autonomy env))
       \<and> (\<exists>token. pending = pause_plan env token p (ls_executed s')))"
  proof
    assume "quiet_step env p resumed ?a flow s s'"
    then have "core s' = core s" "quiet_flow env p resumed ?a (ls_executed s) flow" by (auto elim: quiet_stepE)
    then show ?thesis by (auto simp: core_def quiet_flow_def)
  next
    assume "executing_step env hash p resumed index ?a flow s s'"
    from executing_step_inv [OF inv idx this] show ?thesis by auto
  qed
  then show "flow = Crash \<longrightarrow> \<not> valid_capability (ac_capability ?a)"
    and "flow = Pause pending \<longrightarrow> (resumed \<longrightarrow> escalation_bounded (le_autonomy env))
           \<and> (\<exists>token. pending = pause_plan env token p (ls_executed s'))" by blast+
qed

lemma run_steps_flow:
  "loop_inv env p resumed h0 before index s \<Longrightarrow> drop index (pl_steps p) = sts \<Longrightarrow>
   run_steps env fresh hash p resumed index sts s = (flow, s') \<Longrightarrow>
   (flow = Crash \<longrightarrow> (\<exists>st \<in> set sts. \<not> valid_capability (ac_capability (ps_action st)))) \<and>
   (\<forall>pending. flow = Pause pending \<longrightarrow> (resumed \<longrightarrow> escalation_bounded (le_autonomy env))
      \<and> (\<exists>token. pending = pause_plan env token p (ls_executed s')))"
proof (induction sts arbitrary: index s)
  case Nil
  then show ?case by auto
next
  case (Cons st sts)
  have idx: "index < length (pl_steps p)" using Cons.prems(2) by (cases "index < length (pl_steps p)") auto
  have "pl_steps p ! index # drop (Suc index) (pl_steps p) = st # sts"
    using Cons_nth_drop_Suc [OF idx] Cons.prems(2) by simp
  then have st: "st = pl_steps p ! index" and rest: "drop (Suc index) (pl_steps p) = sts" by auto
  obtain fl s1 where step: "run_step env fresh hash p resumed index st s = (fl, s1)"
    by (cases "run_step env fresh hash p resumed index st s")
  note flow = run_step_flow [OF Cons.prems(1) idx step [unfolded st]]
  show ?case
  proof (cases "fl = Continue")
    case False
    with Cons.prems(3) step flow st show ?thesis by auto
  next
    case True
    have "loop_inv env p resumed h0 before (Suc index) s1"
      using run_step_cases [OF step] quiet_step_inv [OF Cons.prems(1)]
        executing_step_inv [OF Cons.prems(1) idx, folded st] True by blast
    from Cons.IH [OF this rest] Cons.prems(3) step True show ?thesis by auto
  qed
qed

lemma run_plan_flow:
  assumes "carried_ok p resume" "run_plan env fresh p resume s = (r, s')"
  shows "(r = Panicked \<longrightarrow> (\<exists>st \<in> set (pl_steps p). \<not> valid_capability (ac_capability (ps_action st)))) \<and>
         (\<forall>pending. r = Paused pending \<longrightarrow> (resume \<noteq> None \<longrightarrow> escalation_bounded (le_autonomy env))
            \<and> (\<exists>token. pending = pause_plan env token p (ls_executed s')))"
proof -
  obtain flow s1 where steps: "run_steps env fresh (plan_context_hash (le_to_text env) p) p (resume \<noteq> None) 0
      (pl_steps p) (start_state env p resume s) = (flow, s1)"
    by (cases "run_steps env fresh (plan_context_hash (le_to_text env) p) p (resume \<noteq> None) 0
      (pl_steps p) (start_state env p resume s)")
  from run_steps_flow [OF start_state_inv [OF assms(1)] _ steps] assms(2) steps show ?thesis
    by (cases flow) (auto simp: run_plan_def)
qed

lemma run_plan_executed:
  assumes "carried_ok p resume" "run_plan env fresh p resume s = (Paused pending, s')"
  shows "carried_ok p (Some (pp_executed pending)) \<and> pp_executed pending = ls_executed s'
       \<and> (\<exists>new. ls_executed s' = carried resume @ new)"
proof -
  from run_plan_flow [OF assms] obtain token where p: "pending = pause_plan env token p (ls_executed s')" by auto
  from run_plan_ends [OF assms] have "distinct (ls_executed s') \<and> (\<forall>i \<in> set (ls_executed s'). i < length (pl_steps p))
      \<and> (\<exists>new. ls_executed s' = carried resume @ new)"
    by (auto simp: run_ends_def loop_inv_def)
  then show ?thesis by (simp add: p pause_plan_def carried_ok_def)
qed

lemma paused_hash: "plan_context_hash to_text (p\<lparr> pl_status := st \<rparr>) = plan_context_hash to_text p"
  by (simp add: plan_context_hash_def plan_to_value_def)

section \<open>The budget's account\<close>

lemma budget_updates [simp]:
  "ls_budget (publish t v s) = ls_budget s"
  "ls_budget (record_action env a vd i out va s) = ls_budget s"
  "ls_budget (push_denied c s) = ls_budget s"
  "ls_budget (push_requires_approval c s) = ls_budget s"
  "ls_budget (deny_step env a i extra s) = ls_budget s"
  "ls_budget (set_status st s) = ls_budget s"
  "ls_budget (push_execution e s) = ls_budget s"
  "ls_budget (record_failure a err s) = ls_budget s"
  by (simp_all add: update_defs record_failure_def)

lemma rollback_steps_budget: "ls_budget (snd (rollback_steps env p is s)) = ls_budget s"
  by (induction env p "is" s rule: rollback_steps.induct) (auto split: option.splits prod.splits sum.splits)

lemma execute_allowed_budget: "ls_budget (snd (execute_allowed_step env hash p index a d s)) = ls_budget s"
proof -
  have v: "ls_budget (snd (validate_step env hash a s)) = ls_budget s" for s
    by (auto simp: validate_step_def split: option.splits sum.splits)
  have f: "ls_budget (snd (fail_step env p a d err s)) = ls_budget s" for err s
    by (auto simp: fail_step_def rollback_executed_def case_prod_beta rollback_steps_budget)
  show ?thesis
    using v f by (auto simp: execute_allowed_step_def Let_def case_prod_beta split: sum.splits bool.splits prod.splits)
qed

lemma execute_allowed_no_op:
  assumes "execute_allowed_step env hash p index a d s = (GoOn, s')" and "ls_executed s' = ls_executed s"
  shows "last_is_no_op (ls_outcome s')"
proof (cases "desired_state_holds env a (ls_host s)")
  case (Inl e)
  with assms fail_step_core show ?thesis by (fastforce simp: execute_allowed_step_def)
next
  case (Inr b)
  show ?thesis
  proof (cases b)
    case True
    with assms Inr show ?thesis
      by (auto simp: execute_allowed_step_def Let_def update_defs last_is_no_op_def json_get_def)
  next
    case False
    obtain r h where x: "execute_action env a d (ls_host s) = (r, h)"
      by (cases "execute_action env a d (ls_host s)")
    show ?thesis
    proof (cases r)
      case (Inl e)
      with assms Inr False x fail_step_core show ?thesis by (fastforce simp: execute_allowed_step_def)
    next
      case ev: (Inr v)
      obtain w s2 where val: "validate_step env hash a (publish ''action.executed'' v (s\<lparr> ls_host := h \<rparr>)) = (w, s2)"
        by (cases "validate_step env hash a (publish ''action.executed'' v (s\<lparr> ls_host := h \<rparr>))")
      have "ls_executed s2 = ls_executed s" using core_validate [OF val] by (simp add: core_def update_defs)
      with assms Inr False x ev val show ?thesis by (auto simp: execute_allowed_step_def Let_def update_defs)
    qed
  qed
qed

lemma governor_budget: "ls_budget (snd (governor_gate env p index a s)) = ls_budget s"
  by (auto simp: governor_gate_def Let_def case_prod_beta split: governance_decision.splits)

text \<open>On a resumed run nothing is rationed.\<close>

lemma resumed_budget: "ls_budget (snd (run_step env fresh hash p True index st s)) = ls_budget s"
  using governor_budget [of env p index "ps_action st" s]
  by (auto simp: run_step_def approval_branch_def allow_branch_def run_allowed_def reserve_unless_def
      refund_unless_def pause_step_def Let_def case_prod_beta execute_allowed_budget
      split: policy_outcome.splits option.splits bool.splits)

context budget_gate
begin

definition rations :: "('h, 'g, 'b) loop_env \<Rightarrow> bool" where
  "rations env \<longleftrightarrow> lp_reserve (le_ports env) = gate_reserve \<and> lp_refund (le_ports env) = gate_refund"

lemma run_allowed_budget:
  assumes "rations env"
    and res: "reserve_unless env gb (step_risk env a) (pl_blast_radius p) now s0 = (True, s1)"
    and run: "run_allowed env hash p index a d gb now s1 = (flow, s')"
    and "flow = Continue" and "ls_executed s' = ls_executed s0"
  shows "gate_used (ls_budget s') now k = gate_used (ls_budget s0) now k"
proof (cases gb)
  case True
  with res run show ?thesis
    by (auto simp: reserve_unless_def run_allowed_def Let_def case_prod_beta execute_allowed_budget)
next
  case False
  let ?r = "gate_reserve (step_risk env a) (pl_blast_radius p) now (ls_budget s0)"
  obtain f s2 where x: "execute_allowed_step env hash p index a d s1 = (f, s2)"
    by (cases "execute_allowed_step env hash p index a d s1")
  have "f = GoOn" using run x assms(4) by (cases f) (auto simp: run_allowed_def Let_def split: if_splits)
  have s1: "fst ?r" "s1 = s0\<lparr> ls_budget := snd ?r \<rparr>"
    using res False assms(1) by (auto simp: reserve_unless_def rations_def case_prod_beta)
  have "ls_executed s2 = ls_executed s1"
    using run x assms(5) s1 by (auto simp: run_allowed_def Let_def split: if_splits)
  then have no_op: "last_is_no_op (ls_outcome s2)" using execute_allowed_no_op x \<open>f = GoOn\<close> by blast
  have "ls_budget s2 = snd ?r" using execute_allowed_budget [of env hash p index a d s1] x s1 by simp
  then have "ls_budget s' = gate_refund (step_risk env a) (pl_blast_radius p) now (snd ?r)"
    using run x no_op False \<open>f = GoOn\<close> assms(1) by (auto simp: run_allowed_def Let_def refund_unless_def rations_def)
  with refund_returns [OF s1(1)] show ?thesis by simp
qed

lemma allow_branch_budget:
  assumes rat: "rations env" and br: "allow_branch env fresh hash p resumed index a d s = (flow, s')"
    and fl: "flow \<noteq> Stop" "flow \<noteq> Crash" and ex: "ls_executed s' = ls_executed s"
  shows "gate_used (ls_budget s') (le_clock env (ls_tick s)) k = gate_used (ls_budget s) (le_clock env (ls_tick s)) k"
proof -
  let ?gb = "resumed \<or> pd_policy_id d = ''plan.approval''" and ?now = "le_clock env (ls_tick s)"
  let ?s0 = "s\<lparr> ls_tick := ls_tick s + 1 \<rparr>" and ?risk = "step_risk env a" and ?rad = "pl_blast_radius p"
  let ?r = "gate_reserve ?risk ?rad ?now (ls_budget s)"
  obtain ok s1 where r: "reserve_unless env ?gb ?risk ?rad ?now ?s0 = (ok, s1)"
    by (cases "reserve_unless env ?gb ?risk ?rad ?now ?s0")
  have s1: "if ?gb then ok \<and> s1 = ?s0 else ok = fst ?r \<and> s1 = ?s0\<lparr> ls_budget := snd ?r \<rparr>"
    using r rat by (auto simp: reserve_unless_def rations_def case_prod_beta split: if_splits)
  have exhausted: "\<not> ok \<Longrightarrow> gate_used (ls_budget s1) ?now k = gate_used (ls_budget s) ?now k"
    using s1 exhausted_consumes_nothing [of ?risk ?rad ?now "ls_budget s" k] by (auto split: if_splits)
  have refunded: "ok \<Longrightarrow> gate_used (ls_budget (refund_unless env ?gb ?risk ?rad ?now s1)) ?now k
      = gate_used (ls_budget s) ?now k"
    using s1 rat refund_returns [of ?risk ?rad ?now "ls_budget s" k]
    by (auto simp: refund_unless_def rations_def split: if_splits)
  have ran: "run_allowed env hash p index a d ?gb ?now s1 = (flow, s') \<Longrightarrow> ok \<Longrightarrow>
      gate_used (ls_budget s') ?now k = gate_used (ls_budget s) ?now k"
  proof -
    assume ra: "run_allowed env hash p index a d ?gb ?now s1 = (flow, s')" and ok
    obtain f s2 where "flow = flow_of f" using run_allowed_executing [OF ra] by blast
    then have "flow = Continue" using fl by (cases f) auto
    from run_allowed_budget [OF rat r [unfolded \<open>ok\<close> [THEN eqTrueI]] ra this] ex show ?thesis by simp
  qed
  show ?thesis
    using br exhausted refunded ran fl unfolding allow_branch_def Let_def r
    by (auto simp: pause_step_def split: if_splits option.splits bool.splits)
qed

lemma run_step_budget:
  assumes rat: "rations env" and step: "run_step env fresh hash p resumed index st s = (flow, s')"
    and fl: "flow \<noteq> Stop" "flow \<noteq> Crash" and ex: "ls_executed s' = ls_executed s"
    and now: "now = le_clock env (ls_tick (snd (governor_gate env p index (ps_action st) s)))"
  shows "gate_used (ls_budget s') now k = gate_used (ls_budget s) now k"
proof (cases resumed)
  case True
  then show ?thesis using step resumed_budget [of env fresh hash p index st s] by simp
next
  case False
  let ?a = "ps_action st"
  obtain pass s0 where gate: "governor_gate env p index ?a s = (pass, s0)" by (cases "governor_gate env p index ?a s")
  have b: "ls_budget s0 = ls_budget s" using governor_budget [of env p index ?a s] gate by simp
  have e: "ls_executed s0 = ls_executed s" using core_governor [OF gate] by (simp add: core_def)
  have n: "now = le_clock env (ls_tick s0)" using now gate by simp
  have "allow_branch env fresh hash p False index ?a (le_policy env (authz_of env p ?a)) s0 = (flow, s') \<Longrightarrow> ?thesis"
    using allow_branch_budget [OF rat _ fl, of fresh hash p False index ?a "le_policy env (authz_of env p ?a)" s0 s' k]
      ex e b n by simp
  then show ?thesis
    using step gate False b
    by (auto simp: run_step_def approval_branch_def pause_step_def Let_def
        split: if_splits policy_outcome.splits)
qed

end

end
