(* ===== verification/Loop_Properties.thy ===== *)
theory Loop_Properties
  imports Loop_Correct
begin

text \<open>
  The properties of the plan loop, over every policy, registry, governor, budget, executor and
  host: authorization of every execution, the meaning of the final status, complete rollback,
  absence of panics, single execution across a pause, single use of a grant, the budget's account.
\<close>

section \<open>A concrete environment\<close>

definition sample_env ::
  "autonomy_mode \<Rightarrow> (authorization_request \<Rightarrow> policy_decision) \<Rightarrow> capability_registry \<Rightarrow>
   (mock_services, governor, budget_windows) loop_env" where
  "sample_env mode policy registry =
     \<lparr> le_registry = registry, le_policy = policy, le_service = mock_service_controller, le_autonomy = mode,
       le_ports = noop_ports\<lparr> lp_governor := autopilot_evaluate, lp_reserve := reserve budget_limits_default,
                              lp_refund := refund \<rparr>,
       le_clock = (\<lambda>_. 0), le_to_text = (\<lambda>_. []), le_correlation = 7 \<rparr>"

definition sample_state :: "mock_services \<Rightarrow> (mock_services, governor, budget_windows) loop_state" where
  "sample_state h =
     \<lparr> ls_host = h, ls_gov = governor_new autopilot_limits_default, ls_budget = budget_windows_default, ls_tick = 0,
       ls_events = [], ls_ledger = [], ls_outcome = outcome_start 7, ls_executed = [] \<rparr>"

definition unit_action :: "string \<Rightarrow> string \<Rightarrow> action" where
  "unit_action c unit = \<lparr> ac_capability = CapabilityId c, ac_resource = None, ac_arguments = JObj [(''unit'', JStr unit)] \<rparr>"

definition sample_plan :: "plan_step list \<Rightarrow> plan" where
  "sample_plan steps =
     \<lparr> pl_objective = ''demo'', pl_steps = steps, pl_preconditions = [], pl_expected_outcomes = [],
       pl_blast_radius = RadiusHost, pl_confidence = Fin 1, pl_status = Proposed, pl_runbook = None \<rparr>"

definition allow_all :: "authorization_request \<Rightarrow> policy_decision" where
  "allow_all _ = decision_allow ''p'' ''r''"

definition sample_fresh :: "nat \<Rightarrow> uuid" where
  "sample_fresh n = of_nat n"

lemmas loop_eval = sample_env_def sample_state_def unit_action_def sample_plan_def allow_all_def sample_fresh_def
  run_plan_def run_step_def start_state_def outcome_start_def finish_outcome_def governor_gate_def governed_def
  noop_ports_def GOVERNED_PREFIXES_def authz_of_def az_requiring_approval_def authorization_request_new_def
  allow_branch_def approval_branch_def pause_step_def pause_plan_def reserve_unless_def refund_unless_def
  escalation_bounded_def escalation_permits_def run_allowed_def last_is_no_op_def execute_allowed_step_def
  desired_state_holds_def observe_target_def desired_state_def is_service_action_def execute_action_def
  execute_service_def validate_step_def action_target_def is_kubernetes_action_def kubernetes_handles_def
  validation_event_def mock_service_controller_def get_str_def json_get_def
  publish_def record_action_def push_execution_def push_denied_def push_requires_approval_def deny_step_def
  set_status_def fail_step_def record_failure_def rollback_executed_def rollback_decision_def
  governed_risk_def risk_for_def is_mcp_capability_def registry_get_def registry_new_def
  reserve_def check_low_def check_controlled_def check_host_def bump_def budget_windows_default_def
  budget_limits_default_def hour_index_def day_index_def timestamp_def action_event_def Let_def

section \<open>Authorization\<close>

text \<open>
  C1. Every execution a run records is of a step of the plan that the gates let through: policy
  allowed it, the autonomy matrix permits its risk, at L4 and L5 the escalation decision is an
  automatic fix - or policy asked for approval and the run is a resumed one - and the governor
  allowed it if its family is governed. A run that records no execution leaves the host as it was.
\<close>

theorem plan_executes_only_permitted:
  assumes "run_plan env fresh p resume s = (r, s')" and "carried_ok p resume"
  shows "(\<forall>e \<in> set (eo_executions (ls_outcome s')). \<exists>i < length (pl_steps p).
            ex_action e = ps_action (pl_steps p ! i)
          \<and> step_permitted env p (resume \<noteq> None) i (ex_action e) \<and> governor_accepts env p i (ex_action e))
       \<and> (eo_executions (ls_outcome s') = [] \<longrightarrow> ls_host s' = ls_host s)"
  using run_ends_justified [OF run_plan_ends [OF assms(2,1)]] by (simp add: justified_def)

abbreviation restart_plan :: plan where
  "restart_plan \<equiv> sample_plan [\<lparr> ps_action = unit_action HOST_SERVICE_RESTART ''nginx'', ps_rollback = None \<rparr>]"

theorem plan_executes_only_permitted_witness:
  "step_permitted (sample_env L3Assisted allow_all registry_new) restart_plan False 0 (unit_action HOST_SERVICE_RESTART ''nginx'')"
  using plan_executes_only_permitted [of "sample_env L3Assisted allow_all registry_new" sample_fresh restart_plan None
      "sample_state ([], {})", OF prod.collapse [symmetric]]
  by (simp add: loop_eval carried_ok_def cap_ids)

text \<open>What a first run may execute, from the matrix of levels and risks.\<close>

lemma first_run_matrix:
  assumes "run_plan env fresh p None s = (r, s')" and "e \<in> set (eo_executions (ls_outcome s'))"
  shows "pd_outcome (le_policy env (authz_of env p (ex_action e))) = Allow
       \<and> L3Assisted \<le> le_autonomy env \<and> step_risk env (ex_action e) \<notin> {HighRisk, Destructive}
       \<and> (step_risk env (ex_action e) = Controlled \<longrightarrow> L4Autonomous \<le> le_autonomy env)"
proof -
  have cok: "carried_ok p None" by (simp add: carried_ok_def)
  have matrix: "may_execute_without_approval m risk \<Longrightarrow> L3Assisted \<le> m \<and> risk \<notin> {HighRisk, Destructive}
      \<and> (risk = Controlled \<longrightarrow> L4Autonomous \<le> m)" for m risk
    by (cases m) (auto simp: less_eq_autonomy_mode_def)
  from run_ends_justified [OF run_plan_ends [OF cok assms(1)]] assms(2) obtain i
    where "step_permitted env p False i (ex_action e)" by (auto simp: justified_def)
  then have "pd_outcome (le_policy env (authz_of env p (ex_action e))) = Allow \<and>
      may_execute_without_approval (le_autonomy env) (step_risk env (ex_action e))"
    by (simp add: step_permitted_def split: policy_outcome.splits)
  with matrix show ?thesis by blast
qed

lemma observed_run_host:
  assumes "run_plan env fresh p None s = (r, s')" and "le_autonomy env < L3Assisted"
  shows "ls_host s' = ls_host s"
proof -
  have "eo_executions (ls_outcome s') = []"
    using first_run_matrix [OF assms(1)] assms(2) by (metis leD list.set_intros(1) neq_Nil_conv)
  with run_ends_justified [OF run_plan_ends [OF _ assms(1)]] show ?thesis by (simp add: carried_ok_def)
qed

text \<open>
  C2. Without an operator's grant, autonomy bounds everything: a first run executes only steps that
  policy allows outright, only at L3 or above, never a high-risk or destructive step, and a
  controlled one only at L4 or above; below L3 the host is left untouched.
\<close>

theorem first_run_bounds:
  assumes "run_plan env fresh p None s = (r, s')"
  shows "(\<forall>e \<in> set (eo_executions (ls_outcome s')).
            pd_outcome (le_policy env (authz_of env p (ex_action e))) = Allow
          \<and> L3Assisted \<le> le_autonomy env \<and> step_risk env (ex_action e) \<notin> {HighRisk, Destructive}
          \<and> (step_risk env (ex_action e) = Controlled \<longrightarrow> L4Autonomous \<le> le_autonomy env))
       \<and> (le_autonomy env < L3Assisted \<longrightarrow> ls_host s' = ls_host s)"
  using first_run_matrix [OF assms] observed_run_host [OF assms] by blast

theorem first_run_bounds_witness:
  "ls_host (snd (run_plan (sample_env L2Recommend allow_all registry_new) sample_fresh restart_plan None
                  (sample_state ([], {})))) = ([], {})"
  using first_run_bounds [of "sample_env L2Recommend allow_all registry_new" sample_fresh restart_plan
      "sample_state ([], {})", OF prod.collapse [symmetric]]
  by (simp add: sample_env_def sample_state_def less_autonomy_mode_def)

section \<open>Status\<close>

text \<open>
  C8. The status of a finished run tells what happened: denied exactly when nothing was executed,
  completed exactly when something was and no execution failed; otherwise exactly the last
  execution failed (the loop stops there), the status is failed exactly when no step had taken
  effect, and rolled back or needing manual repair when one had.
\<close>

theorem plan_status_faithful:
  assumes "run_plan env fresh p resume s = (Finished out, s')" and "carried_ok p resume"
  shows "(eo_status out = Denied \<longleftrightarrow> eo_executions out = [])
       \<and> (eo_status out = Completed \<longleftrightarrow> eo_executions out \<noteq> [] \<and> (\<forall>e \<in> set (eo_executions out). ex_status e = ExecCompleted))
       \<and> (eo_status out \<notin> {Denied, Completed} \<longrightarrow>
            (\<exists>done failed. eo_executions out = done @ [failed] \<and> ex_status failed = ExecFailed
               \<and> (\<forall>e \<in> set done. ex_status e = ExecCompleted))
          \<and> eo_status out \<in> {Failed, RolledBack, NeedsManual}
          \<and> (eo_status out = Failed \<longleftrightarrow> ls_executed s' = []))"
proof -
  from run_plan_ends [OF assms(2,1)] have out: "out = ls_outcome s'"
    and "stopped env p (resume \<noteq> None) (carried resume) s' \<or>
      (\<forall>e \<in> set (eo_executions out). ex_status e = ExecCompleted)
        \<and> eo_status out = (if eo_executions out = [] then Denied else Completed)"
    by (auto simp: run_ends_def loop_inv_def)
  then show ?thesis
    by (auto simp: stopped_def split: if_splits)
qed

theorem plan_status_faithful_witness:
  "eo_status (finish_outcome (outcome_start 7)) = Denied"
  using plan_status_faithful [of "sample_env L3Assisted allow_all registry_new" sample_fresh "sample_plan []" None
      "sample_state ([], {})" "finish_outcome (outcome_start 7)" "snd (run_plan (sample_env L3Assisted allow_all registry_new)
        sample_fresh (sample_plan []) None (sample_state ([], {})))"]
  by (simp add: loop_eval carried_ok_def)

section \<open>Rollback\<close>

text \<open>
  A rollback runs the declared rollbacks of the executed steps newest first, each once. It
  ends rolled back exactly when every executed step declares one and each of them succeeds in
  that order, and then the host is the result of exactly those actions and the ledger records
  exactly them; otherwise the plan needs manual repair. It never panics on indices of the plan.
\<close>

theorem rollback_newest_first:
  assumes "rollback_executed env p s = (ok, s')" and "ls_executed s \<noteq> []"
    and "\<forall>i \<in> set (ls_executed s). i < length (pl_steps p)"
  shows "ok \<and> eo_status (ls_outcome s') \<in> {RolledBack, NeedsManual}
       \<and> (eo_status (ls_outcome s') = RolledBack \<longleftrightarrow>
           (\<exists>acts h. map (\<lambda>i. ps_rollback (pl_steps p ! i)) (rev (ls_executed s)) = map Some acts
              \<and> undo_all env acts (ls_host s) = Some h \<and> ls_host s' = h
              \<and> ls_ledger s' = ls_ledger s @ map (undo_record env) acts))"
proof -
  let ?s0 = "publish ''plan.rolling.back'' (JObj []) (set_status RollingBack s)"
  have rb: "rollback_steps env p (rev (ls_executed s)) ?s0 = (ok, s')"
    using assms(1,2) by (simp add: rollback_executed_def)
  have s0: "ls_host ?s0 = ls_host s" "ls_ledger ?s0 = ls_ledger s" by (simp_all add: update_defs)
  have bound: "\<forall>i \<in> set (rev (ls_executed s)). i < length (pl_steps p)" using assms(3) by simp
  from rollback_steps_core [OF rb] bound have ok: "ok" "eo_status (ls_outcome s') \<in> {RolledBack, NeedsManual}" by auto
  moreover have "\<exists>acts h. map (\<lambda>i. ps_rollback (pl_steps p ! i)) (rev (ls_executed s)) = map Some acts
              \<and> undo_all env acts (ls_host s) = Some h \<and> ls_host s' = h
              \<and> ls_ledger s' = ls_ledger s @ map (undo_record env) acts"
    if "eo_status (ls_outcome s') = RolledBack"
  proof -
    from rollback_steps_RolledBack [of env p "rev (ls_executed s)" ?s0 s'] rb ok that
    obtain acts h where "map (\<lambda>i. ps_rollback (pl_steps p ! i)) (rev (ls_executed s)) = map Some acts"
      "undo_all env acts (ls_host ?s0) = Some h" by auto
    with rollback_steps_complete [OF bound rb this] s0 show ?thesis by auto
  qed
  moreover have "eo_status (ls_outcome s') = RolledBack"
    if "map (\<lambda>i. ps_rollback (pl_steps p ! i)) (rev (ls_executed s)) = map Some acts"
      "undo_all env acts (ls_host s) = Some h" for acts h
    using rollback_steps_complete [OF bound rb that(1)] that(2) s0 by simp
  ultimately show ?thesis by blast
qed

text \<open>Two services started in order; the loop's state after both, and the undoing of both.\<close>

abbreviation two_starts :: plan where
  "two_starts \<equiv> sample_plan
     [\<lparr> ps_action = unit_action HOST_SERVICE_START ''a'', ps_rollback = Some (unit_action HOST_SERVICE_STOP ''a'') \<rparr>,
      \<lparr> ps_action = unit_action HOST_SERVICE_START ''b'', ps_rollback = Some (unit_action HOST_SERVICE_STOP ''b'') \<rparr>]"

theorem rollback_newest_first_witness:
  "eo_status (ls_outcome (snd (rollback_executed (sample_env L3Assisted allow_all registry_new) two_starts
      ((sample_state ([], {''a'', ''b''}))\<lparr> ls_executed := [0, 1] \<rparr>)))) = RolledBack"
  using rollback_newest_first [of "sample_env L3Assisted allow_all registry_new" two_starts
      "(sample_state ([], {''a'', ''b''}))\<lparr> ls_executed := [0, 1] \<rparr>", OF prod.collapse [symmetric]]
  by (simp add: loop_eval cap_ids)

section \<open>Panics and pauses\<close>

text \<open>
  C21. A first run of a plan whose capability identifiers are well formed never panics. If it
  pauses, the stored plan differs from the proposed one only in its status, has the same context
  hash, and carries exactly the steps that took effect, each of them once.
\<close>

theorem first_run_never_panics:
  assumes "run_plan env fresh p None s = (r, s')"
    and "\<forall>st \<in> set (pl_steps p). valid_capability (ac_capability (ps_action st))"
  shows "r \<noteq> Panicked
       \<and> (\<forall>pending. r = Paused pending \<longrightarrow>
            pp_plan pending = p\<lparr> pl_status := AwaitingApproval \<rparr>
          \<and> pp_context_hash pending = plan_context_hash (le_to_text env) (pp_plan pending)
          \<and> pp_executed pending = ls_executed s' \<and> distinct (pp_executed pending)
          \<and> (\<forall>i \<in> set (pp_executed pending). i < length (pl_steps p)))"
proof -
  have cok: "carried_ok p None" by (simp add: carried_ok_def)
  note flow = run_plan_flow [OF cok assms(1)]
  have "pp_plan pending = p\<lparr> pl_status := AwaitingApproval \<rparr>
          \<and> pp_context_hash pending = plan_context_hash (le_to_text env) (pp_plan pending)
          \<and> pp_executed pending = ls_executed s' \<and> distinct (pp_executed pending)
          \<and> (\<forall>i \<in> set (pp_executed pending). i < length (pl_steps p))" if "r = Paused pending" for pending
  proof -
    from flow that obtain token where pd: "pending = pause_plan env token p (ls_executed s')" by blast
    have "carried_ok p (Some (pp_executed pending))"
      using run_plan_executed [OF cok] assms(1) that by blast
    with pd show ?thesis by (simp add: pause_plan_def paused_hash carried_ok_def)
  qed
  moreover have "r \<noteq> Panicked" using flow assms(2) by blast
  ultimately show ?thesis by blast
qed

theorem first_run_never_panics_witness:
  "fst (run_plan (sample_env L4Autonomous allow_all registry_new) sample_fresh restart_plan None (sample_state ([], {}))) \<noteq> Panicked"
  using first_run_never_panics [of "sample_env L4Autonomous allow_all registry_new" sample_fresh restart_plan
      "sample_state ([], {})", OF prod.collapse [symmetric]]
  by (simp add: sample_plan_def unit_action_def valid_capability_def cap_ids is_dotted_path_def is_segment_def char_class_defs)

text \<open>
  C3. Nothing takes effect twice across a pause: after a run that paused is resumed, the steps
  that took effect are those of the first run followed by new ones, without repetition, whatever
  the grant, the host and the policy did in between.
\<close>

theorem no_step_takes_effect_twice:
  assumes "run_plan env fresh p None s = (Paused pending, s1)"
    and "run_plan env2 fresh2 (pp_plan pending) (Some (pp_executed pending)) s2 = (r, s3)"
  shows "distinct (ls_executed s3) \<and> (\<exists>new. ls_executed s3 = ls_executed s1 @ new)"
proof -
  have cok: "carried_ok p None" by (simp add: carried_ok_def)
  from run_plan_flow [OF cok assms(1)] have plan: "pl_steps (pp_plan pending) = pl_steps p"
    by (auto simp: pause_plan_def)
  from run_plan_executed [OF cok assms(1)] plan
  have "carried_ok (pp_plan pending) (Some (pp_executed pending))" "pp_executed pending = ls_executed s1"
    by (auto simp: carried_ok_def)
  with run_plan_ends [OF _ assms(2)] show ?thesis
    by (auto simp: run_ends_def stopped_def loop_inv_def)
qed

text \<open>Starting is allowed, anything else needs approval: the plan pauses between its two steps.\<close>

definition starts_only :: "authorization_request \<Rightarrow> policy_decision" where
  "starts_only az =
     (if as_str (rq_capability (az_capability_request az)) = HOST_SERVICE_START
      then decision_allow ''p'' ''r'' else decision_require_approval ''p'' ''r'')"

abbreviation start_then_stop :: plan where
  "start_then_stop \<equiv> sample_plan
     [\<lparr> ps_action = unit_action HOST_SERVICE_START ''a'', ps_rollback = None \<rparr>,
      \<lparr> ps_action = unit_action HOST_SERVICE_STOP ''b'', ps_rollback = None \<rparr>]"

abbreviation starts_env :: "(mock_services, governor, budget_windows) loop_env" where
  "starts_env \<equiv> sample_env L3Assisted starts_only registry_new"

theorem no_step_takes_effect_twice_witness:
  "ls_executed (snd (run_plan starts_env sample_fresh start_then_stop None (sample_state ([], {''b''})))) = [0]
   \<and> distinct (ls_executed (snd (run_plan starts_env sample_fresh
       (start_then_stop\<lparr> pl_status := AwaitingApproval \<rparr>) (Some [0]) (sample_state ([], {''b''})))))"
  using no_step_takes_effect_twice [of starts_env sample_fresh start_then_stop "sample_state ([], {''b''})"
      "pause_plan starts_env 1 start_then_stop [0]"
      "snd (run_plan starts_env sample_fresh start_then_stop None (sample_state ([], {''b''})))"
      starts_env sample_fresh "sample_state ([], {''b''})", OF _ prod.collapse [symmetric]]
  by (simp add: loop_eval starts_only_def step_request_def cap_ids)

section \<open>Resuming\<close>

text \<open>
  C4. A grant is used once: a resume that is refused changes neither the store nor anything else; one
  that proceeds found a granted, unexpired approval for exactly this token and context hash, and
  leaves none, so that every later resume of the same plan is refused for want of a grant.
\<close>

theorem resume_single_use:
  assumes "resume_and_run_with_ports env fresh pending now approvals s = (out, approvals', s')"
  shows "(case out of
            ResumeRefused why \<Rightarrow> approvals' = approvals \<and> s' = s
              \<and> \<not> (\<exists>a. approvals (pp_token pending) = Some a
                     \<and> authorizes a (pp_token pending) (pp_context_hash pending) now)
          | _ \<Rightarrow> (\<exists>a. approvals (pp_token pending) = Some a
                    \<and> authorizes a (pp_token pending) (pp_context_hash pending) now)
              \<and> approvals' = approvals(pp_token pending := None)
              \<and> resume_and_run_with_ports env2 fresh2 pending now2 approvals' s2
                  = (ResumeRefused NoGrant, approvals', s2))"
proof -
  have again: "resume_and_run_with_ports env2 fresh2 pending now2 (approvals(pp_token pending := None)) s2
      = (ResumeRefused NoGrant, approvals(pp_token pending := None), s2)"
    by (simp add: resume_and_run_with_ports_def store_consume_def)
  obtain c st where c: "store_consume (pp_token pending) (pp_context_hash pending) now approvals = (c, st)"
    by (cases "store_consume (pp_token pending) (pp_context_hash pending) now approvals")
  show ?thesis
  proof (cases c)
    case None
    from c None have "st = approvals" "\<not> (\<exists>a. approvals (pp_token pending) = Some a
        \<and> authorizes a (pp_token pending) (pp_context_hash pending) now)"
      by (simp_all add: store_consume_None)
    with c None assms show ?thesis by (auto simp: resume_and_run_with_ports_def)
  next
    case (Some a)
    with c have "approvals (pp_token pending) = Some a" "st = approvals(pp_token pending := None)"
      "authorizes a (pp_token pending) (pp_context_hash pending) now"
      by (simp_all add: store_consume_Some)
    with c Some assms again show ?thesis
      by (auto simp: resume_and_run_with_ports_def split: prod.splits plan_run.splits)
  qed
qed

abbreviation sample_pending :: pending_plan where
  "sample_pending \<equiv> pause_plan starts_env 1 start_then_stop [0]"

abbreviation sample_approvals :: approval_store where
  "sample_approvals \<equiv> [1 \<mapsto> approval_grant 1 (plan_context_hash (\<lambda>_. []) start_then_stop) ''root'' 0 10]"

theorem resume_single_use_witness:
  "\<not> (\<exists>a. sample_approvals (pp_token sample_pending) = Some a
        \<and> authorizes a (pp_token sample_pending) (pp_context_hash sample_pending) 20)"
  using resume_single_use [of starts_env sample_fresh sample_pending 20 sample_approvals "sample_state ([], {})"
      "ResumeRefused NoGrant" sample_approvals "sample_state ([], {})"]
  by (simp add: resume_and_run_with_ports_def store_consume_def approval_grant_def authorizes_def pause_plan_def
      sample_env_def)

text \<open>
  Below L4 the claim of the source holds: resuming a plan that a first run paused never panics
  and never pauses again, whatever the policy and the host then say, when the capability
  identifiers are well formed.
\<close>

theorem resume_below_L4_never_panics:
  assumes "run_plan env fresh p None s = (Paused pending, s1)"
    and "\<forall>st \<in> set (pl_steps p). valid_capability (ac_capability (ps_action st))"
    and "le_autonomy env2 < L4Autonomous"
  shows "fst (resume_and_run_with_ports env2 fresh2 pending now approvals s2) \<noteq> ResumePanicked"
proof -
  have cok: "carried_ok p None" by (simp add: carried_ok_def)
  from run_plan_flow [OF cok assms(1)] have plan: "pl_steps (pp_plan pending) = pl_steps p"
    by (auto simp: pause_plan_def)
  have cok2: "carried_ok (pp_plan pending) (Some (pp_executed pending))"
    using run_plan_executed [OF cok assms(1)] plan by (auto simp: carried_ok_def)
  obtain r s3 where run: "run_plan env2 fresh2 (pp_plan pending) (Some (pp_executed pending)) s2 = (r, s3)"
    by (cases "run_plan env2 fresh2 (pp_plan pending) (Some (pp_executed pending)) s2")
  have "\<not> escalation_bounded (le_autonomy env2)"
    using assms(3) by (auto simp: escalation_bounded_def less_autonomy_mode_def)
  with run_plan_flow [OF cok2 run] plan assms(2) have "r \<noteq> Panicked" "\<And>pd. r \<noteq> Paused pd" by auto
  with run show ?thesis
    by (cases r) (auto simp: resume_and_run_with_ports_def split: prod.splits option.splits)
qed

theorem resume_below_L4_never_panics_witness:
  "fst (resume_and_run_with_ports starts_env sample_fresh sample_pending 5 sample_approvals (sample_state ([], {''b''})))
     \<noteq> ResumePanicked"
  using resume_below_L4_never_panics [of starts_env sample_fresh start_then_stop "sample_state ([], {''b''})" sample_pending
      "snd (run_plan starts_env sample_fresh start_then_stop None (sample_state ([], {''b''})))" starts_env
      sample_fresh 5 sample_approvals "sample_state ([], {''b''})"]
  by (simp add: loop_eval starts_only_def step_request_def cap_ids less_autonomy_mode_def
      valid_capability_def is_dotted_path_def is_segment_def char_class_defs)

text \<open>
  At L4 it does not hold: a plan whose one step policy allows but whose action declares no
  rollback is paused by the escalation gate, and resumed under a valid grant at L4 it is paused
  by the same gate again, which the source treats as unreachable: the resume panics, and the
  grant is spent without anything having been executed.
\<close>

theorem resume_at_L4_panics:
  "let env = sample_env L4Autonomous allow_all registry_new; s = sample_state ([], {});
       pending = pause_plan env 1 restart_plan [];
       approvals = [1 \<mapsto> approval_grant 1 (pp_context_hash pending) ''root'' 0 10]
   in fst (run_plan env sample_fresh restart_plan None s) = Paused pending
    \<and> fst (resume_and_run_with_ports env sample_fresh pending 5 approvals s) = ResumePanicked
    \<and> fst (snd (resume_and_run_with_ports env sample_fresh pending 5 approvals s)) 1 = None
    \<and> ls_host (snd (snd (resume_and_run_with_ports env sample_fresh pending 5 approvals s))) = ([], {})"
  by (simp add: loop_eval cap_ids resume_and_run_with_ports_def store_consume_def approval_grant_def authorizes_def
      hm_remove_def capability_id_new_def is_dotted_path_def is_segment_def char_class_defs
      decide_escalation_def safe_to_fix_def paused_hash [unfolded sample_plan_def])

end
