(* ===== verification/Loop_Findings.thy ===== *)
theory Loop_Findings
  imports Loop_Properties
begin

text \<open>
  The budget's account of a step, and runs of the plan loop in which the code does something
  other than its comments say. Each of the latter is a closed evaluation of the model.
\<close>

section \<open>The budget's account\<close>

text \<open>
  A step that takes no effect costs nothing: when a step is refused, denied, paused, or found
  already in its desired state, every budget window holds what it held before, at the instant the
  reservation was made; and a resumed run, being backed by a grant, is never charged at all.
\<close>

theorem unexecuted_step_costs_nothing:
  assumes "lp_reserve (le_ports env) = reserve l" and "lp_refund (le_ports env) = refund"
    and "run_step env fresh hash p resumed index st s = (flow, s')"
    and "flow \<noteq> Stop" and "flow \<noteq> Crash" and "ls_executed s' = ls_executed s"
    and "now = le_clock env (ls_tick (snd (governor_gate env p index (ps_action st) s)))"
  shows "used (ls_budget s') (anchor_of now k) k = used (ls_budget s) (anchor_of now k) k
       \<and> (resumed \<longrightarrow> ls_budget s' = ls_budget s)"
proof -
  have "windows.rations l env" using assms(1,2) by (simp add: windows.rations_def)
  from windows.run_step_budget [OF this assms(3-7)]
  have "used (ls_budget s') (anchor_of now k) k = used (ls_budget s) (anchor_of now k) k" .
  moreover have "resumed \<longrightarrow> ls_budget s' = ls_budget s"
    using resumed_budget [of env fresh hash p index st s] assms(3) by auto
  ultimately show ?thesis by blast
qed

theorem unexecuted_step_costs_nothing_witness:
  "used (ls_budget (snd (run_step (sample_env L2Recommend allow_all registry_new) sample_fresh [] restart_plan False 0
      \<lparr> ps_action = unit_action HOST_SERVICE_RESTART ''nginx'', ps_rollback = None \<rparr> (sample_state ([], {})))))
      (anchor_of 0 HostScopeDay) HostScopeDay = 0"
  using unexecuted_step_costs_nothing [of "sample_env L2Recommend allow_all registry_new" budget_limits_default
      sample_fresh "[]" restart_plan False 0
      "\<lparr> ps_action = unit_action HOST_SERVICE_RESTART ''nginx'', ps_rollback = None \<rparr>" "sample_state ([], {})"
      Continue "snd (run_step (sample_env L2Recommend allow_all registry_new) sample_fresh [] restart_plan False 0
      \<lparr> ps_action = unit_action HOST_SERVICE_RESTART ''nginx'', ps_rollback = None \<rparr> (sample_state ([], {})))" 0 HostScopeDay]
  by (simp add: loop_eval cap_ids used_def)

section \<open>Runs that differ from the documentation\<close>

abbreviation single :: "action \<Rightarrow> plan" where
  "single a \<equiv> sample_plan [\<lparr> ps_action = a, ps_rollback = None \<rparr>]"

abbreviation local_env :: "autonomy_mode \<Rightarrow> capability_registry \<Rightarrow> (mock_services, governor, budget_windows) loop_env" where
  "local_env mode registry \<equiv> sample_env mode (policy_evaluate with_local_remediation) registry"

text \<open>
  The service guardrails do not guard the plan loop: under the local policy a granted plan that
  stops the daemon's own unit stops it, while the executor of the cloud channel, where the
  guardrails are wired, refuses the same action.
\<close>

theorem plan_loop_stops_own_unit:
  "ls_host (snd (run_plan (local_env L3Assisted registry_new) sample_fresh
      (single (unit_action HOST_SERVICE_STOP ''argusd'')) (Some []) (sample_state ([], {''argusd''}))))
     = ([(''stop'', ''argusd'')], {})
   \<and> snd (privileged_execute mock_service_controller (service_guardrails DAEMON_UNIT)
      (sample_action HOST_SERVICE_STOP [(''unit'', JStr ''argusd'')]) ([], {''argusd''})) = ([], {''argusd''})"
proof -
  have a: "ls_host (snd (run_plan (local_env L3Assisted registry_new) sample_fresh
      (single (unit_action HOST_SERVICE_STOP ''argusd'')) (Some []) (sample_state ([], {''argusd''}))))
     = ([(''stop'', ''argusd'')], {})"
    by (simp add: loop_eval policy_evaluate_def locally_permitted_def with_local_remediation_def bootstrap_policy_def
        step_request_def cap_ids)
  have b: "snd (privileged_execute mock_service_controller (service_guardrails DAEMON_UNIT)
      (sample_action HOST_SERVICE_STOP [(''unit'', JStr ''argusd'')]) ([], {''argusd''})) = ([], {''argusd''})"
    by (simp add: privileged_execute_def service_op_of_def get_str_def json_get_def non_blank_def
      trim_def service_guardrails_def guardrail_check_def guardrail_register_def never_target_argusd_def
      DAEMON_UNIT_def char_class_defs cap_ids)
  from a b show ?thesis by blast
qed

definition starts_or_denied :: "authorization_request \<Rightarrow> policy_decision" where
  "starts_or_denied az =
     (if as_str (rq_capability (az_capability_request az)) = HOST_SERVICE_START
      then decision_allow ''p'' ''r'' else decision_deny ''p'' ''r'')"

text \<open>
  A rollback is never shown to policy: when policy denies everything but starting a unit, a plan
  whose first step starts a unit and declares the stop of another as its rollback, and whose
  second step fails, stops that other unit.
\<close>

theorem rollback_bypasses_policy:
  "let stop = unit_action HOST_SERVICE_STOP ''sshd'';
       env = sample_env L3Assisted starts_or_denied registry_new;
       p = sample_plan [\<lparr> ps_action = unit_action HOST_SERVICE_START ''a'', ps_rollback = Some stop \<rparr>,
                        \<lparr> ps_action = \<lparr> ac_capability = CapabilityId HOST_SERVICE_START, ac_resource = None,
                                        ac_arguments = JObj [] \<rparr>, ps_rollback = None \<rparr>]
   in pd_outcome (le_policy env (authz_of env p stop)) = Deny
    \<and> ls_host (snd (run_plan env sample_fresh p None (sample_state ([], {''sshd''}))))
        = ([(''start'', ''a''), (''stop'', ''sshd'')], {''a''})"
  by (simp add: loop_eval starts_or_denied_def step_request_def cap_ids insert_Diff_if)

definition hollow_services :: "mock_services service_controller" where
  "hollow_services = mock_service_controller\<lparr> sc_start := (\<lambda>u h. (Inr (), h)) \<rparr>"

text \<open>
  A step whose re-observation contradicts its desired state still completes the plan: with a
  controller that reports success without starting the unit, the validation fails and the run
  ends completed, its one execution counted as completed, and nothing is rolled back.
\<close>

theorem failed_validation_completes:
  "let env = (sample_env L3Assisted allow_all registry_new)\<lparr> le_service := hollow_services \<rparr>;
       (r, s) = run_plan env sample_fresh (single (unit_action HOST_SERVICE_START ''web'')) None (sample_state ([], {}))
   in eo_status (ls_outcome s) = Completed \<and> r = Finished (ls_outcome s)
    \<and> map ex_status (eo_executions (ls_outcome s)) = [ExecCompleted]
    \<and> VALIDATION_FAILED \<in> fst ` set (ls_events s) \<and> VALIDATION_PASSED \<notin> fst ` set (ls_events s)"
  by (simp add: loop_eval hollow_services_def cap_ids VALIDATION_FAILED_def VALIDATION_PASSED_def)

abbreviation start_descriptor :: capability_descriptor where
  "start_descriptor \<equiv> with_blast_radius RadiusHost
     (descriptor_new (CapabilityId HOST_SERVICE_START) ''argusd'' HOST_SERVICE_START LowRisk (0, 1, 0) JNull JNull Reversible)"

abbreviation start_registry :: capability_registry where
  "start_registry \<equiv> \<lparr> cr_descriptors = [(CapabilityId HOST_SERVICE_START, start_descriptor)], cr_sandbox = None \<rparr>"

text \<open>
  The radius the budget is charged for is the plan's word, not the descriptor's: a plan that
  declares no radius executes an action whose registered radius is the host without charging the
  host window, which the same plan declaring the host does charge.
\<close>

theorem host_budget_trusts_the_plan:
  "let run = (\<lambda>radius. snd (run_plan (local_env L3Assisted start_registry) sample_fresh
                ((single (unit_action HOST_SERVICE_START ''web''))\<lparr> pl_blast_radius := radius \<rparr>) None (sample_state ([], {}))))
   in ls_executed (run RadiusNone) = [0] \<and> used (ls_budget (run RadiusNone)) 0 HostScopeDay = 0
    \<and> ls_executed (run RadiusHost) = [0] \<and> used (ls_budget (run RadiusHost)) 0 HostScopeDay = 1
    \<and> effective_blast_radius start_descriptor = RadiusHost"
  by (simp add: loop_eval policy_evaluate_def locally_permitted_def with_local_remediation_def bootstrap_policy_def
      step_request_def with_blast_radius_def descriptor_new_def effective_blast_radius_def used_def cap_ids)

abbreviation tool_registry :: capability_registry where
  "tool_registry \<equiv> \<lparr> cr_descriptors =
     [(CapabilityId ''mcp.fs.write'', with_blast_radius RadiusHost
        (descriptor_new (CapabilityId ''mcp.fs.write'') ''mcp'' ''write'' Controlled (0, 1, 0) JNull JNull NotReversible))],
     cr_sandbox = None \<rparr>"

abbreviation tool_plan :: plan where
  "tool_plan \<equiv> single \<lparr> ac_capability = CapabilityId ''mcp.fs.write'', ac_resource = None, ac_arguments = JObj [] \<rparr>"

lemmas local_policy_eval = policy_evaluate_def locally_permitted_def with_local_remediation_def bootstrap_policy_def
  step_request_def with_blast_radius_def descriptor_new_def

text \<open>
  A grant does not carry a controlled step: an external tool the operator classified as
  controlled and not approval-gated is paused at L4 by the escalation gate; resumed under the
  grant at L3, the level the daemon resumes at, the autonomy matrix denies it, and the run ends
  denied with nothing executed.
\<close>

theorem granted_controlled_step_denied:
  "fst (run_plan (local_env L4Autonomous tool_registry) sample_fresh tool_plan None (sample_state ([], {})))
     = Paused (pause_plan (local_env L4Autonomous tool_registry) 1 tool_plan [])
   \<and> (case fst (run_plan (local_env L3Assisted tool_registry) sample_fresh tool_plan (Some []) (sample_state ([], {}))) of
        Finished out \<Rightarrow> eo_status out = Denied \<and> eo_executions out = [] \<and> eo_denied out = [CapabilityId ''mcp.fs.write'']
      | _ \<Rightarrow> False)"
proof -
  have a: "fst (run_plan (local_env L4Autonomous tool_registry) sample_fresh tool_plan None (sample_state ([], {})))
     = Paused (pause_plan (local_env L4Autonomous tool_registry) 1 tool_plan [])"
    by (simp add: loop_eval local_policy_eval cap_ids capability_id_new_def is_dotted_path_def is_segment_def
        char_class_defs decide_escalation_def safe_to_fix_def)
  have b: "case fst (run_plan (local_env L3Assisted tool_registry) sample_fresh tool_plan (Some []) (sample_state ([], {}))) of
        Finished out \<Rightarrow> eo_status out = Denied \<and> eo_executions out = [] \<and> eo_denied out = [CapabilityId ''mcp.fs.write'']
      | _ \<Rightarrow> False"
    by (simp add: loop_eval local_policy_eval cap_ids)
  from a b show ?thesis by blast
qed

abbreviation freeze_registry :: capability_registry where
  "freeze_registry \<equiv> \<lparr> cr_descriptors =
     [(CapabilityId HOST_CGROUP_FREEZE, with_blast_radius RadiusHost
        (descriptor_new (CapabilityId HOST_CGROUP_FREEZE) ''argusd'' HOST_CGROUP_FREEZE LowRisk (0, 1, 0) JNull JNull Reversible))],
     cr_sandbox = None \<rparr>"

abbreviation freeze_plan :: plan where
  "freeze_plan \<equiv> single \<lparr> ac_capability = CapabilityId HOST_CGROUP_FREEZE, ac_resource = None,
                            ac_arguments = JObj [(''path'', JStr ''web.slice'')] \<rparr>"

abbreviation classified_state :: "(mock_services, governor, budget_windows) loop_state" where
  "classified_state \<equiv> (sample_state ([], {}))
     \<lparr> ls_gov := classify ''web.slice'' BestEffort (governor_new autopilot_limits_default) \<rparr>"

text \<open>
  A grant can be refused by the pause that asked for it: the governor records its allowance
  before the escalation gate pauses the step, so the resume of a granted freeze within the
  cooldown is refused by the governor although the cgroup was never frozen.
\<close>

theorem granted_freeze_refused_by_cooldown:
  "let (r, s) = run_plan (local_env L4Autonomous freeze_registry) sample_fresh freeze_plan None classified_state
   in r = Paused (pause_plan (local_env L4Autonomous freeze_registry) 3 freeze_plan [])
    \<and> ls_host s = ls_host classified_state
    \<and> (case run_plan (local_env L3Assisted freeze_registry) sample_fresh freeze_plan (Some []) s of
         (Finished out, s') \<Rightarrow> eo_status out = Denied \<and> eo_denied out = [CapabilityId HOST_CGROUP_FREEZE]
           \<and> last (ls_events s') = (''plan.denied'', JObj [(''capability'', JStr HOST_CGROUP_FREEZE),
                                                         (''governance'', JStr ''cooldown'')])
       | _ \<Rightarrow> False)"
  by (simp add: loop_eval local_policy_eval cap_ids capability_id_new_def is_dotted_path_def is_segment_def
      char_class_defs decide_escalation_def safe_to_fix_def classify_def hm_insert_def governor_new_def
      autopilot_limits_default_def autopilot_evaluate_def decide_def in_cooldown_def prune_def record_grant_def
      adjustment_of_def)

end
