(* ===== verification/Graduated_Autonomy.thy ===== *)
theory Graduated_Autonomy
  imports Budget
begin

text \<open>
  Assimilation and graduated autonomy (\<open>argus-daemon\<close>, \<open>autonomy.rs\<close>; the state is
  \<open>argus-domain\<close>, \<open>autonomy.rs\<close>, the configuration \<open>config.rs\<close>): the machine that earns,
  bounds and revokes the daemon's authority. The repository is the persisted state a restart
  reads back; whether a write succeeds is an argument of each operation, since a failed write is
  only logged. The stamp \<open>updated_at\<close> is not read by the machine and is left out.
\<close>

section \<open>Data\<close>

datatype assimilation_phase = Mapping | Shadow | Earned

fun phase_name :: "assimilation_phase \<Rightarrow> string" where
  "phase_name Mapping = ''mapping''"
| "phase_name Shadow = ''shadow''"
| "phase_name Earned = ''earned''"

record autonomy_state =
  as_environment_id :: uuid
  as_phase :: assimilation_phase
  as_earned :: autonomy_mode
  as_shadow_clean_cycles :: u32
  as_rung_clean_cycles :: u32
  as_validated_actions_since_rung :: u32
  as_budget :: budget_windows

definition autonomy_state_fresh :: "uuid \<Rightarrow> autonomy_state" where
  "autonomy_state_fresh environment_id =
     \<lparr> as_environment_id = environment_id, as_phase = Mapping, as_earned = L0Observe, as_shadow_clean_cycles = 0,
       as_rung_clean_cycles = 0, as_validated_actions_since_rung = 0, as_budget = budget_windows_default \<rparr>"

record autonomy_config =
  ac_shadow_min_cycles :: u32
  ac_rung_clean_cycles :: u32
  ac_budgets :: budget_limits

definition clamp_u32 :: "u32 \<Rightarrow> u32 \<Rightarrow> u32 \<Rightarrow> u32" where
  "clamp_u32 lo hi x = min (max x lo) hi"

definition autonomy_config_of_wire :: "u32 option \<Rightarrow> u32 option \<Rightarrow> budget_limits option \<Rightarrow> autonomy_config" where
  "autonomy_config_of_wire shadow rung budgets =
     \<lparr> ac_shadow_min_cycles = clamp_u32 1 1000 (case shadow of None \<Rightarrow> 10 | Some n \<Rightarrow> n),
       ac_rung_clean_cycles = clamp_u32 1 10000 (case rung of None \<Rightarrow> 20 | Some n \<Rightarrow> n),
       ac_budgets = (case budgets of None \<Rightarrow> budget_limits_default | Some b \<Rightarrow> b) \<rparr>"

definition autonomy_config_default :: autonomy_config where
  "autonomy_config_default =
     \<lparr> ac_shadow_min_cycles = 10, ac_rung_clean_cycles = 20, ac_budgets = budget_limits_default \<rparr>"

record cycle_signals =
  cs_ceiling :: autonomy_mode
  cs_provider_ready :: bool
  cs_cloud_paired :: bool
  cs_safe_mode_active :: bool
  cs_open_critical_incidents :: u32
  cs_live_environment :: bool
  cs_failed_validation :: bool

definition clean :: "cycle_signals \<Rightarrow> bool" where
  "clean sg \<longleftrightarrow> cs_provider_ready sg \<and> cs_cloud_paired sg \<and> \<not> cs_safe_mode_active sg
     \<and> cs_open_critical_incidents sg = 0 \<and> \<not> cs_failed_validation sg"

record autonomy_manager =
  am_environment_id :: uuid
  am_config :: autonomy_config
  am_state :: autonomy_state
  am_store :: "autonomy_state option"
  am_traces :: "(string \<times> string \<times> string) list"
  am_events :: "(string \<times> bool \<times> json) list"

section \<open>Operations\<close>

definition persist :: "bool \<Rightarrow> autonomy_manager \<Rightarrow> autonomy_manager" where
  "persist ok m = (if ok then m\<lparr> am_store := Some (am_state m) \<rparr> else m)"

text \<open>
  \<open>load\<close>: a read error, no state and a foreign environment's state all start afresh; a fresh
  start is written back at once.
\<close>

definition load :: "uuid \<Rightarrow> autonomy_config \<Rightarrow> string + autonomy_state option \<Rightarrow> autonomy_state option \<Rightarrow> bool \<Rightarrow> autonomy_manager" where
  "load environment_id config read_result store ok =
     (let found = (case read_result of
                     Inr (Some persisted) \<Rightarrow> if as_environment_id persisted = environment_id then Some persisted else None
                   | Inr None \<Rightarrow> None
                   | Inl _ \<Rightarrow> None);
          m = \<lparr> am_environment_id = environment_id, am_config = config,
                am_state = (case found of Some st \<Rightarrow> st | None \<Rightarrow> autonomy_state_fresh environment_id),
                am_store = store, am_traces = [], am_events = [] \<rparr>
      in if found = None then persist ok m else m)"

definition effective :: "autonomy_manager \<Rightarrow> autonomy_mode \<Rightarrow> autonomy_mode" where
  "effective m level = lower_of level (as_earned (am_state m))"

text \<open>
  Moves the rung and records the change as a ledger trace (evidence, objective, outcome) and as a
  domain event (type, whether it is a warning, payload); a call to the same rung does nothing.
\<close>

definition transition :: "autonomy_mode \<Rightarrow> string \<Rightarrow> autonomy_manager \<Rightarrow> autonomy_manager" where
  "transition to reason m =
     (let st = am_state m; from = as_earned st; promoted = (rank to > rank from);
          outcome = (if promoted then ''promoted'' else ''demoted'')
      in if from = to then m
         else m\<lparr> am_state := st\<lparr> as_earned := to, as_validated_actions_since_rung := 0 \<rparr>,
                 am_traces := am_traces m @
                   [(''autonomy rung: '' @ canonical_name from @ '' -> '' @ canonical_name to @ '' ('' @ reason @ '')'',
                     ''autonomy rung '' @ outcome, outcome)],
                 am_events := am_events m @
                   [(if promoted then ''autonomy.promoted'' else ''autonomy.demoted'', \<not> promoted,
                     JObj [(''from'', JStr (canonical_name from)), (''phase'', JStr (phase_name (as_phase st))),
                           (''reason'', JStr reason), (''to'', JStr (canonical_name to))])] \<rparr>)"

definition with_state :: "(autonomy_state \<Rightarrow> autonomy_state) \<Rightarrow> autonomy_manager \<Rightarrow> autonomy_manager" where
  "with_state f m = m\<lparr> am_state := f (am_state m) \<rparr>"

abbreviation reset_rung :: "autonomy_manager \<Rightarrow> autonomy_manager" where
  "reset_rung \<equiv> with_state (\<lambda>st. st\<lparr> as_rung_clean_cycles := 0 \<rparr>)"

definition revoke :: "cycle_signals \<Rightarrow> autonomy_manager \<Rightarrow> bool \<times> autonomy_manager" where
  "revoke sg m =
     (let earned = as_earned (am_state m)
      in if cs_safe_mode_active sg \<and> rank earned > rank L0Observe
         then (True, reset_rung (transition L0Observe ''safe_mode'' m))
         else if \<not> cs_provider_ready sg \<and> rank earned > rank L0Observe
         then (True, reset_rung (transition (demote_rung earned) ''provider_degraded'' m))
         else (False, m))"

definition shadow_cycle :: "autonomy_manager \<Rightarrow> autonomy_manager" where
  "shadow_cycle m =
     (let n = sat_add (as_shadow_clean_cycles (am_state m)) 1
      in if n \<ge> ac_shadow_min_cycles (am_config m)
         then transition L2Recommend ''shadow_window''
                (with_state (\<lambda>st. st\<lparr> as_phase := Earned, as_shadow_clean_cycles := 0, as_rung_clean_cycles := 0 \<rparr>) m)
         else with_state (\<lambda>st. st\<lparr> as_shadow_clean_cycles := n \<rparr>) m)"

definition earned_cycle :: "autonomy_mode \<Rightarrow> autonomy_manager \<Rightarrow> autonomy_manager" where
  "earned_cycle level m =
     (let n = sat_add (as_rung_clean_cycles (am_state m)) 1;
          m1 = with_state (\<lambda>st. st\<lparr> as_rung_clean_cycles := n \<rparr>) m
      in case next_rung (as_earned (am_state m1)) of
           None \<Rightarrow> m1
         | Some up \<Rightarrow>
             (let needs_validated_work = (rank up > rank L2Recommend)
              in if n \<ge> ac_rung_clean_cycles (am_config m1)
                    \<and> (as_validated_actions_since_rung (am_state m1) \<ge> 1 \<or> \<not> needs_validated_work)
                    \<and> rank up \<le> rank level
                 then transition up ''clean_cycles'' (reset_rung m1) else m1))"

text \<open>The earning half of a tick; the flag says whether the state is to be persisted.\<close>

definition earn :: "cycle_signals \<Rightarrow> autonomy_manager \<Rightarrow> bool \<times> autonomy_manager" where
  "earn sg m =
     (if clean sg
      then (case as_phase (am_state m) of
              Mapping \<Rightarrow>
                if cs_live_environment sg
                then (True, with_state (\<lambda>st. st\<lparr> as_phase := Shadow, as_shadow_clean_cycles := 0 \<rparr>) m) else (False, m)
            | Shadow \<Rightarrow> (True, shadow_cycle m)
            | Earned \<Rightarrow> (True, earned_cycle (cs_ceiling sg) m))
      else (as_shadow_clean_cycles (am_state m) \<noteq> 0 \<or> as_rung_clean_cycles (am_state m) \<noteq> 0,
            with_state (\<lambda>st. st\<lparr> as_shadow_clean_cycles := 0, as_rung_clean_cycles := 0 \<rparr>) m))"

definition on_cycle :: "cycle_signals \<Rightarrow> bool \<Rightarrow> autonomy_manager \<Rightarrow> autonomy_manager" where
  "on_cycle sg ok m =
     (let (changed1, m1) = revoke sg m; (changed2, m2) = earn sg m1
      in if changed1 \<or> changed2 then persist ok m2 else m2)"

definition on_validation_failed :: "bool \<Rightarrow> autonomy_manager \<Rightarrow> autonomy_manager" where
  "on_validation_failed ok m =
     (let earned = as_earned (am_state m)
      in if rank earned > rank L0Observe
         then persist ok (reset_rung (transition (demote_rung earned) ''failed_validation'' m)) else m)"

definition record_validated_executions :: "u32 \<Rightarrow> bool \<Rightarrow> autonomy_manager \<Rightarrow> autonomy_manager" where
  "record_validated_executions count ok m =
     (if count = 0 then m
      else persist ok (with_state (\<lambda>st. st\<lparr> as_validated_actions_since_rung :=
                                             sat_add (as_validated_actions_since_rung st) count \<rparr>) m))"

definition manager_reserve ::
  "bool \<Rightarrow> risk_class \<Rightarrow> blast_radius \<Rightarrow> instant \<Rightarrow> autonomy_manager \<Rightarrow> bool \<times> autonomy_manager" where
  "manager_reserve ok risk scope now m =
     (let (reserved, b) = reserve (ac_budgets (am_config m)) risk scope now (as_budget (am_state m));
          m1 = with_state (\<lambda>st. st\<lparr> as_budget := b \<rparr>) m
      in (reserved, if reserved then persist ok m1 else m1))"

definition manager_refund :: "bool \<Rightarrow> risk_class \<Rightarrow> blast_radius \<Rightarrow> instant \<Rightarrow> autonomy_manager \<Rightarrow> autonomy_manager" where
  "manager_refund ok risk scope now m =
     persist ok (with_state (\<lambda>st. st\<lparr> as_budget := refund risk scope now (as_budget st) \<rparr>) m)"

definition autonomy_view :: "autonomy_manager \<Rightarrow> autonomy_mode \<Rightarrow> instant \<Rightarrow> (string \<times> json) list" where
  "autonomy_view m level now =
     (let st = am_state m;
          (cycles, required) = (case as_phase st of
             Mapping \<Rightarrow> (0, 0)
           | Shadow \<Rightarrow> (as_shadow_clean_cycles st, ac_shadow_min_cycles (am_config m))
           | Earned \<Rightarrow> (as_rung_clean_cycles st, ac_rung_clean_cycles (am_config m)));
          number = (\<lambda>n. JNum (PosInt (unat (n :: u32))));
          budgets = map (\<lambda>(name, left, limit). (name, JObj [(''limit'', number limit), (''remaining'', number left)]))
                      (remaining (as_budget st) (ac_budgets (am_config m)) now)
      in [(''budgets'', JObj (fold (\<lambda>(k, v) b. obj_insert k v b) budgets [])),
          (''ceiling'', JStr (canonical_name level)), (''earned'', JStr (canonical_name (as_earned st))),
          (''effective'', JStr (canonical_name (lower_of level (as_earned st)))),
          (''phase'', JStr (phase_name (as_phase st))),
          (''phase_progress'', JObj [(''cycles'', number cycles), (''required'', number required)])])"

text \<open>The manager is the budget port the plan loop is wired with.\<close>

lemma manager_budget:
  "fst (manager_reserve ok r s t m) = fst (reserve (ac_budgets (am_config m)) r s t (as_budget (am_state m)))"
  "as_budget (am_state (snd (manager_reserve ok r s t m))) = snd (reserve (ac_budgets (am_config m)) r s t (as_budget (am_state m)))"
  "as_budget (am_state (manager_refund ok r s t m)) = refund r s t (as_budget (am_state m))"
  "am_config (snd (manager_reserve ok r s t m)) = am_config m"
  by (simp_all add: manager_reserve_def manager_refund_def with_state_def persist_def case_prod_beta Let_def)

interpretation manager: budget_gate "manager_reserve ok" "manager_refund ok"
    "\<lambda>m t k. used (as_budget (am_state m)) (anchor_of t k) k" "\<lambda>m k. unat (limit_of (ac_budgets (am_config m)) k)"
proof (unfold_locales, goal_cases)
  case (1 r s t m k)
  then show ?case by (simp add: manager_budget windows.exhausted_consumes_nothing)
next
  case (2 r s t m k)
  then show ?case by (simp add: manager_budget windows.refund_returns)
next
  case (3 r s t m k)
  then show ?case by (simp add: manager_budget windows.reserve_within_cap)
next
  case (4 r s k t m)
  then show ?case by (simp add: manager_budget windows.reserve_other)
qed

section \<open>The machine\<close>

text \<open>Every operation, with the outcome of its write; a restart may find the store unreadable.\<close>

datatype autonomy_op =
    Cycle cycle_signals bool
  | ValidationFailure bool
  | Validated u32 bool
  | Reserve risk_class blast_radius instant bool
  | Refund risk_class blast_radius instant bool
  | Restart bool bool

fun autonomy_step :: "autonomy_op \<Rightarrow> autonomy_manager \<Rightarrow> autonomy_manager" where
  "autonomy_step (Cycle sg ok) m = on_cycle sg ok m"
| "autonomy_step (ValidationFailure ok) m = on_validation_failed ok m"
| "autonomy_step (Validated n ok) m = record_validated_executions n ok m"
| "autonomy_step (Reserve risk scope now ok) m = snd (manager_reserve ok risk scope now m)"
| "autonomy_step (Refund risk scope now ok) m = manager_refund ok risk scope now m"
| "autonomy_step (Restart readable ok) m =
     load (am_environment_id m) (am_config m) (if readable then Inr (am_store m) else Inl ''unreadable'') (am_store m) ok"

inductive reachable :: "uuid \<Rightarrow> autonomy_config \<Rightarrow> autonomy_op list \<Rightarrow> autonomy_manager \<Rightarrow> bool" for env cfg where
  start: "reachable env cfg [] (load env cfg (Inr None) None ok)"
| step: "reachable env cfg ops m \<Longrightarrow> reachable env cfg (ops @ [op]) (autonomy_step op m)"

text \<open>How much evidence a state stands for: clean cycles, and validated executions.\<close>

definition cycles_behind :: "autonomy_config \<Rightarrow> autonomy_state \<Rightarrow> nat" where
  "cycles_behind cfg st =
     (case as_phase st of
        Mapping \<Rightarrow> 0
      | Shadow \<Rightarrow> 1 + unat (as_shadow_clean_cycles st)
      | Earned \<Rightarrow> 1 + unat (ac_shadow_min_cycles cfg) +
          (case as_earned st of
             L2Recommend \<Rightarrow> unat (as_rung_clean_cycles st)
           | L3Assisted \<Rightarrow> unat (ac_rung_clean_cycles cfg) + unat (as_rung_clean_cycles st)
           | L4Autonomous \<Rightarrow> 2 * unat (ac_rung_clean_cycles cfg) + unat (as_rung_clean_cycles st)
           | _ \<Rightarrow> 0))"

definition work_behind :: "autonomy_state \<Rightarrow> nat" where
  "work_behind st =
     unat (as_validated_actions_since_rung st) + (case as_earned st of L3Assisted \<Rightarrow> 1 | L4Autonomous \<Rightarrow> 2 | _ \<Rightarrow> 0)"

definition on_ladder :: "autonomy_state \<Rightarrow> bool" where
  "on_ladder st \<longleftrightarrow> as_earned st \<in> {L0Observe, L2Recommend, L3Assisted, L4Autonomous}
     \<and> (as_phase st \<noteq> Earned \<longrightarrow> as_earned st = L0Observe)"

definition clean_cycles :: "autonomy_op list \<Rightarrow> nat" where
  "clean_cycles ops = length (filter (\<lambda>op. case op of Cycle sg _ \<Rightarrow> clean sg | _ \<Rightarrow> False) ops)"

definition validated_work :: "autonomy_op list \<Rightarrow> nat" where
  "validated_work ops = sum_list (map (\<lambda>op. case op of Validated n _ \<Rightarrow> unat n | _ \<Rightarrow> 0) ops)"

definition evidenced :: "autonomy_config \<Rightarrow> nat \<Rightarrow> nat \<Rightarrow> autonomy_state \<Rightarrow> bool" where
  "evidenced cfg cycles work st \<longleftrightarrow> on_ladder st \<and> cycles_behind cfg st \<le> cycles \<and> work_behind st \<le> work"

lemma unat_sat_add_one: "unat (sat_add n 1 :: u32) \<le> Suc (unat n)"
  by (simp add: unat_sat_add)

lemma evidenced_mono: "evidenced cfg c w st \<Longrightarrow> c \<le> c' \<Longrightarrow> w \<le> w' \<Longrightarrow> evidenced cfg c' w' st"
  by (simp add: evidenced_def)

lemma evidenced_fresh: "evidenced cfg c w (autonomy_state_fresh env)"
  by (simp add: evidenced_def on_ladder_def cycles_behind_def work_behind_def autonomy_state_fresh_def)

lemma evidenced_budget [simp]: "evidenced cfg c w (st\<lparr> as_budget := b \<rparr>) = evidenced cfg c w st"
  by (cases "as_phase st"; cases "as_earned st")
    (simp_all add: evidenced_def on_ladder_def cycles_behind_def work_behind_def)

lemmas evidence_defs = evidenced_def on_ladder_def cycles_behind_def work_behind_def

lemma transition_frame [simp]:
  "am_config (transition to reason m) = am_config m" "am_store (transition to reason m) = am_store m"
  "am_environment_id (transition to reason m) = am_environment_id m"
  by (simp_all add: transition_def Let_def)

lemma with_state_frame [simp]:
  "am_config (with_state f m) = am_config m" "am_store (with_state f m) = am_store m"
  "am_environment_id (with_state f m) = am_environment_id m" "am_state (with_state f m) = f (am_state m)"
  by (simp_all add: with_state_def)

lemma state_transition:
  "am_state (transition to reason m) =
     (if as_earned (am_state m) = to then am_state m
      else (am_state m)\<lparr> as_earned := to, as_validated_actions_since_rung := 0 \<rparr>)"
  by (simp add: transition_def Let_def)

text \<open>Moving down and forgetting a streak needs no evidence.\<close>

lemma evidenced_demote:
  assumes "evidenced cfg c w st" "to \<in> {L0Observe, demote_rung (as_earned st)}"
  shows "evidenced cfg c w (st\<lparr> as_earned := to, as_validated_actions_since_rung := 0, as_rung_clean_cycles := 0 \<rparr>)"
  using assms by (cases "as_phase st"; cases "as_earned st") (auto simp: evidence_defs)

lemma evidenced_reset:
  "evidenced cfg c w st \<Longrightarrow> evidenced cfg c w (st\<lparr> as_shadow_clean_cycles := 0, as_rung_clean_cycles := 0 \<rparr>)"
  by (cases "as_phase st"; cases "as_earned st") (auto simp: evidence_defs)

lemma evidenced_shadow:
  assumes ev: "evidenced (am_config m) c w (am_state m)" and ph: "as_phase (am_state m) = Shadow"
  shows "evidenced (am_config m) (Suc c) w (am_state (shadow_cycle m))"
proof -
  let ?n = "sat_add (as_shadow_clean_cycles (am_state m)) 1"
  have n: "unat ?n \<le> Suc (unat (as_shadow_clean_cycles (am_state m)))" by (rule unat_sat_add_one)
  show ?thesis
    using ev ph n unfolding shadow_cycle_def Let_def
    by (auto simp: state_transition evidence_defs word_le_nat_alt)
qed

lemma evidenced_earned:
  assumes ev: "evidenced (am_config m) c w (am_state m)" and ph: "as_phase (am_state m) = Earned"
  shows "evidenced (am_config m) (Suc c) w (am_state (earned_cycle level m))"
proof -
  let ?n = "sat_add (as_rung_clean_cycles (am_state m)) 1"
  have n: "unat ?n \<le> Suc (unat (as_rung_clean_cycles (am_state m)))" by (rule unat_sat_add_one)
  show ?thesis
    using ev ph n unfolding earned_cycle_def Let_def
    by (cases "as_earned (am_state m)") (auto simp: state_transition evidence_defs word_le_nat_alt)
qed

text \<open>What a whole manager carries: its live state and its persisted state are both evidenced.\<close>

definition accounted :: "autonomy_config \<Rightarrow> nat \<Rightarrow> nat \<Rightarrow> autonomy_manager \<Rightarrow> bool" where
  "accounted cfg c w m \<longleftrightarrow> am_config m = cfg \<and> evidenced cfg c w (am_state m)
     \<and> (case am_store m of None \<Rightarrow> True | Some st \<Rightarrow> evidenced cfg c w st)"

lemma accounted_mono: "accounted cfg c w m \<Longrightarrow> c \<le> c' \<Longrightarrow> w \<le> w' \<Longrightarrow> accounted cfg c' w' m"
  by (auto simp: accounted_def intro: evidenced_mono split: option.splits)

lemma accounted_persist: "accounted cfg c w m \<Longrightarrow> accounted cfg c w (persist ok m)"
  by (simp add: accounted_def persist_def)

lemma accounted_state:
  "accounted cfg c w m \<Longrightarrow> am_config m' = am_config m \<Longrightarrow> am_store m' = am_store m \<Longrightarrow> c \<le> c' \<Longrightarrow> w \<le> w' \<Longrightarrow>
   evidenced cfg c' w' (am_state m') \<Longrightarrow> accounted cfg c' w' m'"
  by (auto simp: accounted_def intro: evidenced_mono split: option.splits)

lemma accounted_demote:
  assumes "accounted cfg c w m" "to \<in> {L0Observe, demote_rung (as_earned (am_state m))}"
  shows "accounted cfg c w (reset_rung (transition to reason m))"
proof (rule accounted_state [OF assms(1)])
  have ev: "evidenced cfg c w (am_state m)" using assms(1) by (simp add: accounted_def)
  from evidenced_demote [OF ev assms(2)] have
    "evidenced cfg c w ((am_state m)\<lparr> as_earned := to, as_validated_actions_since_rung := 0, as_rung_clean_cycles := 0 \<rparr>)" .
  moreover have "evidenced cfg c w ((am_state m)\<lparr> as_rung_clean_cycles := 0 \<rparr>)"
    using ev by (cases "as_phase (am_state m)"; cases "as_earned (am_state m)") (auto simp: evidence_defs)
  ultimately show "evidenced cfg c w (am_state (reset_rung (transition to reason m)))"
    by (simp add: state_transition)
qed simp_all

lemma accounted_revoke: "accounted cfg c w m \<Longrightarrow> accounted cfg c w (snd (revoke sg m))"
  by (auto simp: revoke_def Let_def intro!: accounted_demote)

lemma shadow_cycle_frame:
  "am_config (shadow_cycle m) = am_config m" "am_store (shadow_cycle m) = am_store m"
  by (simp_all add: shadow_cycle_def Let_def)

lemma earned_cycle_frame:
  "am_config (earned_cycle level m) = am_config m" "am_store (earned_cycle level m) = am_store m"
  by (simp_all add: earned_cycle_def Let_def split: option.splits)

lemma accounted_earn:
  assumes "accounted cfg c w m"
  shows "accounted cfg (if clean sg then Suc c else c) w (snd (earn sg m))"
proof -
  have ev: "evidenced (am_config m) c w (am_state m)" and cfg: "cfg = am_config m"
    using assms by (simp_all add: accounted_def)
  show ?thesis
  proof (cases "clean sg")
    case False
    have "accounted cfg c w (with_state (\<lambda>st. st\<lparr> as_shadow_clean_cycles := 0, as_rung_clean_cycles := 0 \<rparr>) m)"
      by (rule accounted_state [OF assms]) (use ev cfg in \<open>simp_all add: evidenced_reset\<close>)
    with False show ?thesis by (simp add: earn_def)
  next
    case True
    show ?thesis
    proof (cases "as_phase (am_state m)")
      case Mapping
      have "evidenced (am_config m) (Suc c) w ((am_state m)\<lparr> as_phase := Shadow, as_shadow_clean_cycles := 0 \<rparr>)"
        using ev Mapping by (auto simp: evidence_defs)
      then have "accounted cfg (Suc c) w (with_state (\<lambda>st. st\<lparr> as_phase := Shadow, as_shadow_clean_cycles := 0 \<rparr>) m)"
        by (intro accounted_state [OF assms]) (simp_all add: cfg)
      with True Mapping accounted_mono [OF assms, of "Suc c" w] show ?thesis by (simp add: earn_def)
    next
      case Shadow
      have "accounted cfg (Suc c) w (shadow_cycle m)"
        by (rule accounted_state [OF assms]) (use evidenced_shadow [OF ev Shadow] in \<open>simp_all add: cfg shadow_cycle_frame\<close>)
      with True Shadow show ?thesis by (simp add: earn_def)
    next
      case Earned
      have "accounted cfg (Suc c) w (earned_cycle (cs_ceiling sg) m)"
        by (rule accounted_state [OF assms]) (use evidenced_earned [OF ev Earned] in \<open>simp_all add: cfg earned_cycle_frame\<close>)
      with True Earned show ?thesis by (simp add: earn_def)
    qed
  qed
qed

lemma accounted_on_cycle:
  "accounted cfg c w m \<Longrightarrow> accounted cfg (if clean sg then Suc c else c) w (on_cycle sg ok m)"
  using accounted_earn [OF accounted_revoke, of cfg c w m sg sg]
  by (auto simp: on_cycle_def case_prod_beta Let_def intro: accounted_persist)

lemma accounted_validated:
  "accounted cfg c w m \<Longrightarrow> accounted cfg c (w + unat n) (record_validated_executions n ok m)"
proof -
  assume acc: "accounted cfg c w m"
  let ?add = "\<lambda>st. st\<lparr> as_validated_actions_since_rung := sat_add (as_validated_actions_since_rung st) n \<rparr>"
  have "evidenced cfg c (w + unat n) (?add st)" if "evidenced cfg c w st" for st
    using that by (cases "as_phase st"; cases "as_earned st") (auto simp: evidence_defs unat_sat_add)
  then have "accounted cfg c (w + unat n) (with_state ?add m)"
    by (intro accounted_state [OF acc]) (use acc in \<open>simp_all add: accounted_def\<close>)
  then show "accounted cfg c (w + unat n) (record_validated_executions n ok m)"
    using acc by (simp add: record_validated_executions_def accounted_persist)
qed

text \<open>The weight of one operation, and the invariant along a run.\<close>

lemma weight_snoc:
  "clean_cycles (ops @ [op]) = (case op of Cycle sg _ \<Rightarrow> if clean sg then Suc (clean_cycles ops) else clean_cycles ops
                                         | _ \<Rightarrow> clean_cycles ops)"
  "validated_work (ops @ [op]) = validated_work ops + (case op of Validated n _ \<Rightarrow> unat n | _ \<Rightarrow> 0)"
  by (cases op; simp add: clean_cycles_def validated_work_def)+

lemma accounted_load:
  "(case store of None \<Rightarrow> True | Some st \<Rightarrow> evidenced cfg c w st) \<Longrightarrow>
   accounted cfg c w (load env cfg (if readable then Inr store else Inl e) store ok)"
  by (auto simp: load_def Let_def accounted_def evidenced_fresh persist_def split: option.splits)

lemma accounted_step:
  assumes "accounted cfg (clean_cycles ops) (validated_work ops) m"
  shows "accounted cfg (clean_cycles (ops @ [op])) (validated_work (ops @ [op])) (autonomy_step op m)"
proof (cases op)
  case (Cycle sg ok)
  then show ?thesis using accounted_on_cycle [OF assms, of sg ok] by (simp add: weight_snoc)
next
  case (ValidationFailure ok)
  then show ?thesis
    using assms by (auto simp: weight_snoc on_validation_failed_def Let_def intro!: accounted_persist accounted_demote)
next
  case (Validated n ok)
  then show ?thesis using accounted_validated [OF assms] by (simp add: weight_snoc)
next
  case (Reserve risk scope now ok)
  then show ?thesis using assms
    by (auto simp: weight_snoc manager_reserve_def case_prod_beta Let_def accounted_def persist_def)
next
  case (Refund risk scope now ok)
  then show ?thesis using assms by (auto simp: weight_snoc manager_refund_def accounted_def persist_def)
next
  case (Restart readable ok)
  have cfg: "am_config m = cfg" using assms by (simp add: accounted_def)
  have "case am_store m of None \<Rightarrow> True | Some st \<Rightarrow> evidenced cfg (clean_cycles ops) (validated_work ops) st"
    using assms by (simp add: accounted_def)
  from accounted_load [OF this] show ?thesis using Restart by (simp add: weight_snoc cfg)
qed

lemma reachable_accounted:
  "reachable env cfg ops m \<Longrightarrow> accounted cfg (clean_cycles ops) (validated_work ops) m"
proof (induction rule: reachable.induct)
  case (start ok)
  show ?case using accounted_load [where store = None and readable = True and cfg = cfg] by simp
next
  case (step ops m op)
  show ?case by (rule accounted_step [OF step.IH])
qed

section \<open>Properties\<close>


definition quiet_cycle :: cycle_signals where
  "quiet_cycle = \<lparr> cs_ceiling = L4Autonomous, cs_provider_ready = True, cs_cloud_paired = True, cs_safe_mode_active = False,
                   cs_open_critical_incidents = 0, cs_live_environment = True, cs_failed_validation = False \<rparr>"

definition quick_config :: autonomy_config where
  "quick_config = autonomy_config_of_wire (Some 1) (Some 1) None"

lemmas machine_eval = quiet_cycle_def quick_config_def autonomy_config_of_wire_def clamp_u32_def clean_def on_cycle_def
  revoke_def earn_def shadow_cycle_def earned_cycle_def transition_def with_state_def persist_def load_def
  record_validated_executions_def autonomy_state_fresh_def budget_windows_default_def Let_def sat_add_def effective_def


lemma persist_state [simp]: "am_state (persist ok m) = am_state m"
  by (simp add: persist_def)

lemma earned_revoke:
  "as_earned (am_state (snd (revoke sg m))) =
     (if cs_safe_mode_active sg then L0Observe
      else if cs_provider_ready sg then as_earned (am_state m) else demote_rung (as_earned (am_state m)))"
  by (cases "as_earned (am_state m)") (simp_all add: revoke_def Let_def state_transition)

lemma state_on_cycle: "am_state (on_cycle sg ok m) = am_state (snd (earn sg (snd (revoke sg m))))"
  by (simp add: on_cycle_def case_prod_beta Let_def)

lemma unclean_cycle_rung:
  "\<not> clean sg \<Longrightarrow> as_earned (am_state (on_cycle sg ok m)) = as_earned (am_state (snd (revoke sg m)))"
  by (simp add: state_on_cycle earn_def)

lemma clean_revoke: "clean sg \<Longrightarrow> revoke sg m = (False, m)"
  by (simp add: clean_def revoke_def Let_def)

lemma demote_rung_le: "rank (demote_rung a) \<le> rank a"
  by (cases a) simp_all

lemma shadow_rise:
  "rank (as_earned (am_state m)) < rank (as_earned (am_state (shadow_cycle m))) \<Longrightarrow>
   as_earned (am_state (shadow_cycle m)) = L2Recommend
     \<and> ac_shadow_min_cycles (am_config m) \<le> sat_add (as_shadow_clean_cycles (am_state m)) 1"
  by (simp add: shadow_cycle_def Let_def state_transition split: if_splits)

lemma earned_rise:
  "rank (as_earned (am_state m)) < rank (as_earned (am_state (earned_cycle level m))) \<Longrightarrow>
   next_rung (as_earned (am_state m)) = Some (as_earned (am_state (earned_cycle level m)))
     \<and> ac_rung_clean_cycles (am_config m) \<le> sat_add (as_rung_clean_cycles (am_state m)) 1
     \<and> rank (as_earned (am_state (earned_cycle level m))) \<le> rank level
     \<and> (as_earned (am_state (earned_cycle level m)) = L2Recommend \<or> 1 \<le> as_validated_actions_since_rung (am_state m))"
  by (cases "as_earned (am_state m)") (auto simp: earned_cycle_def Let_def state_transition split: if_splits)

text \<open>
  C10. Revocation precedes earning and promotion is gated: after a brain tick, safe mode has
  dropped the rung to L0 and an unready provider has cost one rung; and the rung rises only on a
  clean tick - either the shadow window completes and the rung becomes L2, or the rung goes up one
  step of the ladder with the streak complete, at most to the ceiling, and above L2 only with
  validated work since the last change. A failed validation costs one rung and never raises it.
\<close>

theorem rung_moves:
  "(cs_safe_mode_active sg \<longrightarrow> as_earned (am_state (on_cycle sg ok m)) = L0Observe)
   \<and> (\<not> cs_safe_mode_active sg \<and> \<not> cs_provider_ready sg \<longrightarrow>
        as_earned (am_state (on_cycle sg ok m)) = demote_rung (as_earned (am_state m)))
   \<and> (rank (as_earned (am_state m)) < rank (as_earned (am_state (on_cycle sg ok m))) \<longrightarrow>
        clean sg \<and>
        (as_phase (am_state m) = Shadow \<and> as_earned (am_state (on_cycle sg ok m)) = L2Recommend
           \<and> ac_shadow_min_cycles (am_config m) \<le> sat_add (as_shadow_clean_cycles (am_state m)) 1
         \<or> as_phase (am_state m) = Earned
           \<and> next_rung (as_earned (am_state m)) = Some (as_earned (am_state (on_cycle sg ok m)))
           \<and> ac_rung_clean_cycles (am_config m) \<le> sat_add (as_rung_clean_cycles (am_state m)) 1
           \<and> rank (as_earned (am_state (on_cycle sg ok m))) \<le> rank (cs_ceiling sg)
           \<and> (as_earned (am_state (on_cycle sg ok m)) = L2Recommend \<or> 1 \<le> as_validated_actions_since_rung (am_state m))))
   \<and> as_earned (am_state (on_validation_failed ok m)) = demote_rung (as_earned (am_state m))"
proof -
  let ?e = "as_earned (am_state m)" and ?e' = "as_earned (am_state (on_cycle sg ok m))"
  have fail: "as_earned (am_state (on_validation_failed ok m)) = demote_rung ?e"
    by (cases ?e) (simp_all add: on_validation_failed_def Let_def state_transition)
  show ?thesis
  proof (cases "clean sg")
    case False
    have "?e' = as_earned (am_state (snd (revoke sg m)))" using False by (rule unclean_cycle_rung)
    with fail show ?thesis using demote_rung_le [of ?e] by (auto simp: earned_revoke)
  next
    case True
    have e': "am_state (on_cycle sg ok m) = am_state (snd (earn sg m))"
      using True by (simp add: state_on_cycle clean_revoke)
    show ?thesis
      using True fail shadow_rise [of m] earned_rise [of m "cs_ceiling sg"]
      by (cases "as_phase (am_state m)") (auto simp: e' earn_def clean_def)
  qed
qed

theorem rung_moves_witness:
  "as_earned (am_state (on_cycle (quiet_cycle\<lparr> cs_safe_mode_active := True \<rparr>) True
     (with_state (\<lambda>st. st\<lparr> as_earned := L4Autonomous, as_phase := Earned \<rparr>) (load 7 quick_config (Inr None) None True)))) = L0Observe"
  using rung_moves [of "quiet_cycle\<lparr> cs_safe_mode_active := True \<rparr>" True
      "with_state (\<lambda>st. st\<lparr> as_earned := L4Autonomous, as_phase := Earned \<rparr>) (load 7 quick_config (Inr None) None True)"]
  by simp

text \<open>
  C34. A demotion whose write fails does not survive a restart: the store still holds the higher
  rung, and the next start reads it back. (The comment on \<open>persist\<close> says a restart re-assimilates.)
\<close>

theorem failed_write_restores_rung:
  assumes "am_store m = Some (am_state m)" "as_environment_id (am_state m) = am_environment_id m"
  shows "am_state (autonomy_step (Restart True ok) (autonomy_step (ValidationFailure False) m)) = am_state m"
  using assms by (simp add: on_validation_failed_def load_def persist_def Let_def)

theorem failed_write_restores_rung_witness:
  "as_earned (am_state (autonomy_step (Restart True True) (autonomy_step (ValidationFailure False)
     (persist True (with_state (\<lambda>st. st\<lparr> as_earned := L4Autonomous, as_phase := Earned \<rparr>)
       (load 7 quick_config (Inr None) None True)))))) = L4Autonomous"
  using failed_write_restores_rung [of "persist True (with_state (\<lambda>st. st\<lparr> as_earned := L4Autonomous, as_phase := Earned \<rparr>)
       (load 7 quick_config (Inr None) None True))" True]
  by (simp add: load_def persist_def Let_def autonomy_state_fresh_def)

end
