(* ===== verification/Descriptors.thy ===== *)
theory Descriptors
  imports Cluster
begin

text \<open>
  The capability surface the daemon publishes and its local dispatch boundary (\<open>argus-daemon\<close>,
  \<open>runtime.rs\<close>): the bootstrap descriptors with their schemas, risks, radii and approval flags, the
  registry \<open>init\<close> builds from them, the late registration of external tools, and
  \<open>authorize_and_execute_with\<close>. The lemmas show that the start-up registration cannot fail, what
  the published surface promises, and that local dispatch never changes the host.
\<close>

section \<open>The bootstrap surface\<close>

definition bootstrap_capabilities :: "capability_id list" where
  "bootstrap_capabilities =
     map CapabilityId
       [HOST_STATUS_READ, ARGUS_HEALTH_READ, ARGUS_CONFIG_READ, ARGUS_PLUGINS_LIST,
        HOST_SERVICE_RESTART, HOST_SERVICE_STOP, HOST_SERVICE_START,
        HOST_PROCESS_SIGNAL, CONTAINER_RESTART, HOST_CGROUP_FREEZE, HOST_CGROUP_THAW,
        HOST_MEMORY_RECLAIM, HOST_JOURNAL_VACUUM,
        K8S_CLUSTER_READ, K8S_NODE_READ, K8S_POD_READ, K8S_DEPLOYMENT_READ,
        K8S_POD_RESTART, K8S_POD_DELETE, K8S_DEPLOYMENT_RESTART, K8S_DEPLOYMENT_ROLLBACK,
        K8S_WORKLOAD_SCALE, K8S_NODE_CORDON, K8S_NODE_UNCORDON, K8S_JOB_CLEANUP]"

definition is_service_capability :: "capability_id \<Rightarrow> bool" where
  "is_service_capability c = (as_str c \<in> {HOST_SERVICE_RESTART, HOST_SERVICE_STOP, HOST_SERVICE_START})"

definition is_remediation_capability :: "capability_id \<Rightarrow> bool" where
  "is_remediation_capability c =
     (as_str c \<in> {HOST_PROCESS_SIGNAL, CONTAINER_RESTART, HOST_CGROUP_FREEZE, HOST_CGROUP_THAW})"

definition is_pressure_capability :: "capability_id \<Rightarrow> bool" where
  "is_pressure_capability c = (as_str c \<in> {HOST_MEMORY_RECLAIM, HOST_JOURNAL_VACUUM})"

definition is_kubernetes_capability :: "capability_id \<Rightarrow> bool" where
  "is_kubernetes_capability c = starts_with ''k8s.'' (as_str c)"

text \<open>A closed object schema with required members and the types of the declared ones.\<close>

definition object_schema :: "string list \<Rightarrow> (string \<times> (string \<times> json) list) list \<Rightarrow> json" where
  "object_schema required properties =
     JObj ([(''additionalProperties'', JBool False),
            (''properties'', JObj (map (\<lambda>(k, s). (k, JObj s)) properties))] @
           (if required = [] then [] else [(''required'', JArr (map JStr required))]) @
           [(''type'', JStr ''object'')])"

abbreviation of_type :: "string \<Rightarrow> (string \<times> json) list" where
  "of_type t \<equiv> [(''type'', JStr t)]"

definition bootstrap_schema :: "capability_id \<Rightarrow> json" where
  "bootstrap_schema c =
     (let s = as_str c
      in if is_service_capability c then object_schema [''unit''] [(''unit'', of_type ''string'')]
         else if s = HOST_PROCESS_SIGNAL
         then object_schema [''pid'', ''signal'']
                [(''pid'', of_type ''integer''),
                 (''signal'', [(''enum'', JArr (map JStr [''term'', ''kill'', ''stop'', ''cont''])), (''type'', JStr ''string'')])]
         else if s = CONTAINER_RESTART then object_schema [''container''] [(''container'', of_type ''string'')]
         else if is_remediation_capability c then object_schema [''path''] [(''path'', of_type ''string'')]
         else if is_pressure_capability c then object_schema [] [(''subject'', of_type ''string'')]
         else if is_kubernetes_capability c
         then (if ends_with ''.read'' s
               then object_schema [] [(''name'', of_type ''string''), (''namespace'', of_type ''string'')]
               else if s = K8S_WORKLOAD_SCALE
               then object_schema [''name'', ''replicas'']
                      [(''name'', of_type ''string''), (''namespace'', of_type ''string''),
                       (''replicas'', [(''minimum'', JNum (PosInt 0)), (''type'', JStr ''integer'')])]
               else object_schema [''name'']
                      [(''name'', of_type ''string''), (''namespace'', of_type ''string''),
                       (''revision'', of_type ''integer'')])
         else JObj [(''additionalProperties'', JBool False), (''type'', JStr ''object'')])"

text \<open>The risk class, reversibility, blast radius and approval flag of each capability.\<close>

definition bootstrap_ratings :: "capability_id \<Rightarrow> risk_class \<times> reversibility \<times> blast_radius \<times> bool" where
  "bootstrap_ratings c =
     (let s = as_str c
      in if is_service_capability c then (LowRisk, Reversible, RadiusHost, True)
         else if s = HOST_PROCESS_SIGNAL then (HighRisk, NotReversible, RadiusHost, True)
         else if s = CONTAINER_RESTART then (Controlled, Reversible, RadiusHost, True)
         else if is_remediation_capability c then (LowRisk, Reversible, RadiusHost, False)
         else if s = HOST_MEMORY_RECLAIM then (Controlled, PartiallyReversible, RadiusHost, True)
         else if s = HOST_JOURNAL_VACUUM then (Controlled, NotReversible, RadiusHost, True)
         else if is_kubernetes_capability c
         then (if s = K8S_POD_DELETE then (HighRisk, NotReversible, RadiusEnvironment, True)
               else if ends_with ''.read'' s then (Read, NotReversible, RadiusNone, False)
               else (Controlled, Reversible, RadiusEnvironment, True))
         else (Read, NotReversible, RadiusNone, False))"

definition bootstrap_descriptor :: "capability_id \<Rightarrow> capability_descriptor" where
  "bootstrap_descriptor c =
     (let (risk, rv, radius, approval) = bootstrap_ratings c
      in requiring_approval_if approval (with_blast_radius radius
           (descriptor_new c ''argusd'' (as_str c) risk (0, 1, 0) (bootstrap_schema c) (JObj []) rv)))"

definition bootstrap_descriptors :: "capability_descriptor list" where
  "bootstrap_descriptors = map bootstrap_descriptor bootstrap_capabilities"

text \<open>
  The registration of \<open>init_inner\<close>: every descriptor is registered with \<open>expect\<close>, so a refused one
  is a panic, \<^const>\<open>None\<close> here.
\<close>

fun register_all :: "capability_descriptor list \<Rightarrow> capability_registry \<Rightarrow> capability_registry option" where
  "register_all [] r = Some r"
| "register_all (d # ds) r = (case registry_register d r of Inl _ \<Rightarrow> None | Inr r' \<Rightarrow> register_all ds r')"

definition init_registry :: "capability_descriptor list \<Rightarrow> capability_registry option" where
  "init_registry extra = register_all (bootstrap_descriptors @ extra) (registry_with_sandbox [])"

definition registry_contains :: "capability_registry \<Rightarrow> capability_id \<Rightarrow> bool" where
  "registry_contains r i = (map_of (cr_descriptors r) i \<noteq> None)"

definition registry_list :: "capability_registry \<Rightarrow> capability_descriptor list" where
  "registry_list r = map snd (cr_descriptors r)"

fun register_mcp_descriptors :: "capability_descriptor list \<Rightarrow> capability_registry \<Rightarrow> nat \<times> capability_registry" where
  "register_mcp_descriptors [] r = (0, r)"
| "register_mcp_descriptors (d # ds) r =
     (if registry_contains r (cd_id d) then register_mcp_descriptors ds r
      else case registry_register d r of
             Inl _ \<Rightarrow> register_mcp_descriptors ds r
           | Inr r' \<Rightarrow> (let (fresh, r'') = register_mcp_descriptors ds r' in (Suc fresh, r'')))"

section \<open>Local dispatch\<close>

datatype dispatch_error = DispatchDenied policy_outcome | InvalidInput capability_id | DispatchExecution execution_error

definition authorize_and_execute_with ::
  "capability_registry \<Rightarrow> (authorization_request \<Rightarrow> policy_decision) \<Rightarrow> 'h executor \<Rightarrow> capability_request \<Rightarrow> 'h \<Rightarrow>
   (dispatch_error + json) \<times> 'h" where
  "authorize_and_execute_with registry policy execute request h =
     (case registry_get registry (rq_capability request) of
        None \<Rightarrow> (Inl (DispatchDenied Deny), h)
      | Some descriptor \<Rightarrow>
          if \<not> input_matches (cd_input_schema descriptor) (rq_arguments request)
          then (Inl (InvalidInput (rq_capability request)), h)
          else (let authz = authorization_request_new request (cd_risk_class descriptor) (effective_blast_radius descriptor);
                    decision = policy authz
                in if \<not> decision_is_allowed decision then (Inl (DispatchDenied (pd_outcome decision)), h)
                   else case authorized_action_new (az_capability_request authz) decision of
                          Inl e \<Rightarrow> (Inl (DispatchExecution e), h)
                        | Inr action \<Rightarrow>
                            (case execute action h of
                               (Inl e, h') \<Rightarrow> (Inl (DispatchExecution e), h')
                             | (Inr result, h') \<Rightarrow> (Inr (er_evidence result), h'))))"

text \<open>\<open>Daemon::authorize_and_execute\<close>: the bootstrap policy and the read-only executor.\<close>

definition authorize_and_execute ::
  "capability_registry \<Rightarrow> 'h capability_provider \<Rightarrow> capability_request \<Rightarrow> 'h \<Rightarrow> (dispatch_error + json) \<times> 'h" where
  "authorize_and_execute registry p request h =
     authorize_and_execute_with registry (policy_evaluate bootstrap_policy) (bootstrap_execute p) request h"

section \<open>Registration at start\<close>

lemma register_allE:
  assumes "registry_wf r" "register_all ds r = Some r'"
  shows "registry_wf r' \<and> cr_sandbox r' = cr_sandbox r
    \<and> registry_get r' = registry_get r ++ map_of (rev (map (\<lambda>d. (cd_id d, d)) ds))"
  using assms
proof (induction ds arbitrary: r)
  case (Cons d ds)
  then obtain r1 where r1: "registry_register d r = Inr r1" and rest: "register_all ds r1 = Some r'"
    by (auto split: sum.splits)
  have "registry_get r1 = (registry_get r)(cd_id d \<mapsto> d)" "cr_sandbox r1 = cr_sandbox r"
    using Cons.prems r1 by (auto simp: registry_get_register registry_register_Inr)
  with Cons.IH [OF registry_wf_register [OF Cons.prems(1) r1] rest] show ?case
    by (simp add: map_add_def fun_eq_iff split: option.splits)
qed simp

lemma register_all_iff:
  "registry_wf r \<Longrightarrow> register_all ds r \<noteq> None \<longleftrightarrow>
   distinct (map cd_id ds) \<and> (\<forall>d \<in> set ds. registry_get r (cd_id d) = None \<and> entry_ok (cr_sandbox r) d)"
proof (induction ds arbitrary: r)
  case (Cons d ds)
  show ?case
  proof (cases "registry_register d r")
    case (Inl e)
    then have "\<not> (registry_get r (cd_id d) = None \<and> entry_ok (cr_sandbox r) d)"
      using registry_register_Inr [of d r "r\<lparr> cr_descriptors := bt_insert (cd_id d) d (cr_descriptors r) \<rparr>"] by auto
    with Inl show ?thesis by auto
  next
    case (Inr r1)
    have wf: "registry_wf r1" by (rule registry_wf_register [OF Cons.prems Inr])
    have facts: "registry_get r1 = (registry_get r)(cd_id d \<mapsto> d)" "cr_sandbox r1 = cr_sandbox r"
      "registry_get r (cd_id d) = None" "entry_ok (cr_sandbox r) d"
      using Cons.prems Inr by (auto simp: registry_get_register registry_register_Inr)
    then have "(\<forall>e \<in> set ds. registry_get r1 (cd_id e) = None) \<longleftrightarrow>
        cd_id d \<notin> cd_id ` set ds \<and> (\<forall>e \<in> set ds. registry_get r (cd_id e) = None)"
      by (auto simp: image_iff split: if_splits)
    with facts Inr Cons.IH [OF wf] show ?thesis by auto
  qed
qed simp

lemma cd_id_bootstrap [simp]: "cd_id (bootstrap_descriptor c) = c"
  by (simp add: bootstrap_descriptor_def case_prod_beta Let_def requiring_approval_if_def with_blast_radius_def descriptor_new_def)

lemma bootstrap_descriptor_simps [simp]:
  "cd_privileged (bootstrap_descriptor c) = False" "cd_privileges (bootstrap_descriptor c) = []"
  "cd_risk_class (bootstrap_descriptor c) = fst (bootstrap_ratings c)"
  "cd_blast_radius (bootstrap_descriptor c) = Some (fst (snd (snd (bootstrap_ratings c))))"
  "cd_requires_approval (bootstrap_descriptor c) = snd (snd (snd (bootstrap_ratings c)))"
  "cd_reversibility (bootstrap_descriptor c) = fst (snd (bootstrap_ratings c))"
  "cd_input_schema (bootstrap_descriptor c) = bootstrap_schema c"
  "cd_timeout_seconds (bootstrap_descriptor c) = None"
  by (simp_all add: bootstrap_descriptor_def case_prod_beta Let_def requiring_approval_if_def with_blast_radius_def descriptor_new_def)

lemma bootstrap_distinct: "distinct bootstrap_capabilities"
  unfolding bootstrap_capabilities_def cap_ids by simp

lemma bootstrap_ids: "map cd_id bootstrap_descriptors = bootstrap_capabilities"
  by (simp add: bootstrap_descriptors_def comp_def)

lemma bootstrap_entries: "d \<in> set bootstrap_descriptors \<Longrightarrow> \<not> cd_privileged d \<and> cd_privileges d = []"
  by (auto simp: bootstrap_descriptors_def)

lemma map_of_descriptors:
  "map_of (map (\<lambda>d. (cd_id d, d)) (map bootstrap_descriptor cs)) c =
     (if c \<in> set cs then Some (bootstrap_descriptor c) else None)"
  by (induction cs) simp_all

abbreviation by_id :: "capability_descriptor list \<Rightarrow> (capability_id \<times> capability_descriptor) list" where
  "by_id ds \<equiv> map (\<lambda>d. (cd_id d, d)) ds"

lemma startup_iff:
  "init_registry extra \<noteq> None \<longleftrightarrow>
     distinct (map cd_id (bootstrap_descriptors @ extra)) \<and> (\<forall>d \<in> set (bootstrap_descriptors @ extra). entry_ok (Some []) d)"
proof -
  have "registry_get (registry_with_sandbox []) = Map.empty" "cr_sandbox (registry_with_sandbox []) = Some []"
    by (simp_all add: registry_with_sandbox_def registry_get_def fun_eq_iff)
  then show ?thesis unfolding init_registry_def register_all_iff [OF registry_wf_new(2)] by simp
qed

lemma startup_get:
  assumes "init_registry extra = Some r"
  shows "registry_wf r \<and> registry_get r c =
    (if c \<in> set bootstrap_capabilities then Some (bootstrap_descriptor c) else map_of (by_id extra) c)"
proof -
  let ?ds = "bootstrap_descriptors @ extra"
  have "distinct (map fst (by_id ?ds))" using startup_iff [of extra] assms by (simp add: comp_def)
  then have "map_of (rev (by_id ?ds)) = map_of (by_id ?ds)" by (rule map_of_rev_distinct)
  moreover have "registry_get (registry_with_sandbox []) = Map.empty"
    by (simp add: registry_with_sandbox_def registry_get_def fun_eq_iff)
  ultimately have "registry_wf r \<and> registry_get r = map_of (by_id ?ds)"
    using register_allE [OF registry_wf_new(2) assms [unfolded init_registry_def]] by simp
  moreover have "map_of (by_id bootstrap_descriptors) c =
      (if c \<in> set bootstrap_capabilities then Some (bootstrap_descriptor c) else None)"
    unfolding bootstrap_descriptors_def by (rule map_of_descriptors)
  ultimately show ?thesis by (simp add: map_add_def)
qed

text \<open>
  C20. The daemon starts with exactly the published surface: registering the bootstrap descriptors
  never fails, and start-up as a whole panics exactly when an extra descriptor repeats an
  identifier, clashes with a bootstrap one, or asks for operating-system privileges, which the
  empty sandbox does not grant; otherwise the registry returns for every identifier the bootstrap
  descriptor or the extra one, and nothing else.
\<close>

theorem startup_registry:
  "(init_registry extra \<noteq> None \<longleftrightarrow>
      distinct (map cd_id extra) \<and> (\<forall>d \<in> set extra. cd_id d \<notin> set bootstrap_capabilities \<and> \<not> cd_privileged d \<and> cd_privileges d = []))
   \<and> (init_registry extra = Some r \<longrightarrow> registry_wf r \<and>
        registry_get r c = (if c \<in> set bootstrap_capabilities then Some (bootstrap_descriptor c)
                            else map_of (map (\<lambda>d. (cd_id d, d)) extra) c))"
proof -
  have ok: "entry_ok (Some []) d \<longleftrightarrow> \<not> cd_privileged d \<and> cd_privileges d = []" for d
    by (auto simp: entry_ok_def is_satisfied_by_iff)
  have "init_registry extra \<noteq> None \<longleftrightarrow> distinct (map cd_id extra) \<and>
      (\<forall>d \<in> set extra. cd_id d \<notin> set bootstrap_capabilities \<and> \<not> cd_privileged d \<and> cd_privileges d = [])"
    unfolding startup_iff map_append bootstrap_ids distinct_append by (auto simp: ok bootstrap_entries bootstrap_distinct)
  with startup_get [of extra r c] show ?thesis by blast
qed

text \<open>An extra descriptor of an external tool.\<close>

abbreviation tool_descriptor :: capability_descriptor where
  "tool_descriptor \<equiv> descriptor_new (CapabilityId ''mcp.fs.read'') ''mcp'' ''read'' HighRisk (0, 1, 0) JNull JNull NotReversible"

theorem startup_registry_witness:
  "\<exists>r. init_registry [tool_descriptor] = Some r \<and> registry_wf r
     \<and> registry_get r (CapabilityId ''mcp.fs.read'') = Some tool_descriptor
     \<and> registry_get r (CapabilityId HOST_STATUS_READ) = Some (bootstrap_descriptor (CapabilityId HOST_STATUS_READ))"
proof -
  have fresh: "CapabilityId ''mcp.fs.read'' \<notin> set bootstrap_capabilities" "CapabilityId HOST_STATUS_READ \<in> set bootstrap_capabilities"
    by (simp_all add: bootstrap_capabilities_def cap_ids)
  have "init_registry [tool_descriptor] \<noteq> None"
    using startup_registry [of "[tool_descriptor]"] fresh by (simp add: descriptor_new_def)
  then obtain r where r: "init_registry [tool_descriptor] = Some r" by auto
  show ?thesis
    using startup_registry [of "[tool_descriptor]" r "CapabilityId ''mcp.fs.read''"]
      startup_registry [of "[tool_descriptor]" r "CapabilityId HOST_STATUS_READ"] r fresh
    by (intro exI [of _ r]) (simp add: descriptor_new_def)
qed

section \<open>What the surface promises\<close>

definition surface_request :: "capability_id \<Rightarrow> principal \<Rightarrow> json \<Rightarrow> uuid \<Rightarrow> authorization_request" where
  "surface_request c pr input correlation =
     (let d = bootstrap_descriptor c
      in az_requiring_approval (cd_requires_approval d)
           (authorization_request_new
              \<lparr> rq_capability = c, rq_principal = pr, rq_resource = None, rq_arguments = input, rq_correlation = correlation \<rparr>
              (cd_risk_class d) (effective_blast_radius d)))"

lemmas surface_defs = is_service_capability_def is_remediation_capability_def is_pressure_capability_def
  is_kubernetes_capability_def changes_the_host_def effective_blast_radius_def

lemma surface_ratings:
  "list_all (\<lambda>c. changes_the_host (bootstrap_descriptor c) \<longrightarrow>
       (cd_requires_approval (bootstrap_descriptor c) \<or> as_str c \<in> {HOST_CGROUP_FREEZE, HOST_CGROUP_THAW})
     \<and> (cd_reversibility (bootstrap_descriptor c) \<noteq> Reversible \<longrightarrow>
          cd_risk_class (bootstrap_descriptor c) \<in> {Controlled, HighRisk, Destructive})) bootstrap_capabilities"
  by (simp add: bootstrap_capabilities_def bootstrap_ratings_def surface_defs cap_ids ends_with_def Let_def)

lemma surface_approvals:
  "list_all (\<lambda>c. locally_permitted bootstrap_policy c = (c \<in> CapabilityId ` {HOST_STATUS_READ, ARGUS_HEALTH_READ, ARGUS_CONFIG_READ, ARGUS_PLUGINS_LIST} \<or> is_service_capability c)
     \<and> (locally_permitted bootstrap_policy c \<longrightarrow> cd_requires_approval (bootstrap_descriptor c) = is_service_capability c)) bootstrap_capabilities"
  by (simp add: bootstrap_capabilities_def bootstrap_ratings_def locally_permitted_def bootstrap_policy_def surface_defs cap_ids ends_with_def Let_def)

text \<open>
  What the published surface promises: a bootstrap capability that changes the host or the
  cluster needs an operator's approval for each invocation, the freezer pair (which the governor
  gates) excepted; an irreversible one is never rated below controlled; and under the policy of
  the cloud channel the reads of the daemon are allowed, the three service operations need an
  approval, and every other one is denied.
\<close>

theorem surface_promises:
  assumes "c \<in> set bootstrap_capabilities"
  shows "(changes_the_host (bootstrap_descriptor c) \<longrightarrow>
            cd_requires_approval (bootstrap_descriptor c) \<or> as_str c \<in> {HOST_CGROUP_FREEZE, HOST_CGROUP_THAW})
    \<and> (changes_the_host (bootstrap_descriptor c) \<and> cd_reversibility (bootstrap_descriptor c) \<noteq> Reversible \<longrightarrow>
            cd_risk_class (bootstrap_descriptor c) \<in> {Controlled, HighRisk, Destructive})
    \<and> pd_outcome (policy_evaluate bootstrap_policy (surface_request c pr input correlation)) =
        (if as_str c \<in> {HOST_STATUS_READ, ARGUS_HEALTH_READ, ARGUS_CONFIG_READ, ARGUS_PLUGINS_LIST} then Allow
         else if is_service_capability c then RequireApproval else Deny)"
proof -
  have r: "changes_the_host (bootstrap_descriptor c) \<longrightarrow>
       (cd_requires_approval (bootstrap_descriptor c) \<or> as_str c \<in> {HOST_CGROUP_FREEZE, HOST_CGROUP_THAW})
     \<and> (cd_reversibility (bootstrap_descriptor c) \<noteq> Reversible \<longrightarrow>
          cd_risk_class (bootstrap_descriptor c) \<in> {Controlled, HighRisk, Destructive})"
    using surface_ratings assms unfolding list_all_iff by blast
  have p: "locally_permitted bootstrap_policy c =
       (as_str c \<in> {HOST_STATUS_READ, ARGUS_HEALTH_READ, ARGUS_CONFIG_READ, ARGUS_PLUGINS_LIST} \<or> is_service_capability c)"
    "locally_permitted bootstrap_policy c \<Longrightarrow> cd_requires_approval (bootstrap_descriptor c) = is_service_capability c"
    using surface_approvals assms unfolding list_all_iff by (cases c; auto)+
  have "as_str c \<in> {HOST_STATUS_READ, ARGUS_HEALTH_READ, ARGUS_CONFIG_READ, ARGUS_PLUGINS_LIST} \<Longrightarrow> \<not> is_service_capability c"
    by (auto simp: is_service_capability_def cap_ids)
  moreover have "rq_capability (az_capability_request (surface_request c pr input correlation)) = c"
    "az_requires_approval (surface_request c pr input correlation) = cd_requires_approval (bootstrap_descriptor c)"
    by (simp_all add: surface_request_def Let_def az_requiring_approval_def authorization_request_new_def)
  ultimately show ?thesis using r p policy_outcome_iff [of bootstrap_policy "surface_request c pr input correlation"] by auto
qed

theorem surface_promises_witness:
  "cd_requires_approval (bootstrap_descriptor (CapabilityId HOST_JOURNAL_VACUUM))
   \<and> pd_outcome (policy_evaluate bootstrap_policy (surface_request (CapabilityId HOST_JOURNAL_VACUUM) principal_cloud JNull 0)) = Deny"
proof -
  have "CapabilityId HOST_JOURNAL_VACUUM \<in> set bootstrap_capabilities" by (simp add: bootstrap_capabilities_def)
  from surface_promises [OF this, of principal_cloud JNull 0] show ?thesis
    by (simp add: bootstrap_ratings_def surface_defs cap_ids Let_def)
qed

section \<open>Dispatch\<close>

lemma bootstrap_execute_reads: "snd (bootstrap_execute p a h) = h"
  by (simp add: bootstrap_execute_def Let_def)

lemma bootstrap_execute_Inr:
  "fst (bootstrap_execute p a h) = Inr r \<Longrightarrow>
   as_str (aa_capability a) \<in> {HOST_STATUS_READ, ARGUS_HEALTH_READ, ARGUS_CONFIG_READ, ARGUS_PLUGINS_LIST}"
  by (auto simp: bootstrap_execute_def Let_def split: if_splits)

text \<open>
  The dispatch boundary is ordered and closed: a request reaches the executor exactly when its
  capability is registered, its arguments match the descriptor's schema and policy allows it with
  the descriptor's own risk and radius; otherwise the reported error is the first of these that
  fails, in that order, and the host is untouched. The daemon's own dispatch, whatever is
  registered, never changes the host.
\<close>

theorem dispatch_ordered:
  "(case registry_get registry (rq_capability request) of
      None \<Rightarrow> authorize_and_execute_with registry policy execute request h = (Inl (DispatchDenied Deny), h)
    | Some d \<Rightarrow>
        (let decision = policy (authorization_request_new request (cd_risk_class d) (effective_blast_radius d))
         in authorize_and_execute_with registry policy execute request h =
              (if \<not> input_matches (cd_input_schema d) (rq_arguments request)
               then (Inl (InvalidInput (rq_capability request)), h)
               else if pd_outcome decision \<noteq> Allow then (Inl (DispatchDenied (pd_outcome decision)), h)
               else map_prod (map_sum DispatchExecution er_evidence) id
                      (execute \<lparr> aa_request = request, aa_decision = decision \<rparr> h))))
   \<and> snd (authorize_and_execute registry p request h) = h"
proof -
  have first: "case registry_get registry (rq_capability request) of
      None \<Rightarrow> authorize_and_execute_with registry policy execute request h = (Inl (DispatchDenied Deny), h)
    | Some d \<Rightarrow>
        (let decision = policy (authorization_request_new request (cd_risk_class d) (effective_blast_radius d))
         in authorize_and_execute_with registry policy execute request h =
              (if \<not> input_matches (cd_input_schema d) (rq_arguments request)
               then (Inl (InvalidInput (rq_capability request)), h)
               else if pd_outcome decision \<noteq> Allow then (Inl (DispatchDenied (pd_outcome decision)), h)
               else map_prod (map_sum DispatchExecution er_evidence) id
                      (execute \<lparr> aa_request = request, aa_decision = decision \<rparr> h)))"
    by (auto simp: authorize_and_execute_with_def authorized_action_new_def authorization_request_new_def Let_def
        split: option.splits prod.splits sum.splits)
  have "snd (authorize_and_execute registry p request h) = h"
    by (auto dest: arg_cong [where f = snd] simp: bootstrap_execute_reads
        authorize_and_execute_def authorize_and_execute_with_def Let_def split: option.splits sum.splits prod.splits)
  with first show ?thesis by blast
qed

text \<open>
  The schema of the cluster reads makes \<open>name\<close> optional, and the executor refuses a read without
  one: an accepted input of the published surface that can never succeed.
\<close>

theorem cluster_read_needs_name:
  "input_matches (bootstrap_schema (CapabilityId K8S_NODE_READ)) (JObj [])
   \<and> kubernetes_execute x (sample_action K8S_NODE_READ []) h =
       (Inl (ExecutionFailed (''the request does not name a '' @ quoted ''name'')), h)"
  by (simp add: bootstrap_schema_def surface_defs object_schema_def input_matches_object type_ok_def required_ok_def
      additional_ok_def schema_properties_def matches_kind_def kubernetes_execute_def namespace_name_def get_str_def
      cap_ids ends_with_def Let_def)

end
