(* ===== verification/Cloud_Command.thy ===== *)
theory Cloud_Command
  imports Descriptors Control
begin

text \<open>
  Cloud-issued commands (\<open>argus-daemon\<close>, \<open>cloud.rs\<close>; the command record is \<open>argus-domain\<close>,
  \<open>cloud.rs\<close>, the limiter \<open>privileged.rs\<close>): the seven-check ladder of \<open>handle_command_invoke\<close> from
  idempotency to execution, refusals, re-reports, and the settlement of commands a crash left
  unfinished. The repository's reads and writes can fail, and the code ignores a failed write; how
  they go for one delivery, when the clock was read and what the limiter did are the fields of
  \<open>delivery\<close>. Times of rows are kept; the random identifier of a decision record is not, so the
  decisions are a list.
\<close>

section \<open>Commands\<close>

datatype cloud_command_status = CmdReceived | CmdRefused | CmdExecuting | CmdAcknowledged | CmdFailed

definition is_terminal :: "cloud_command_status \<Rightarrow> bool" where
  "is_terminal st = (st \<in> {CmdRefused, CmdAcknowledged, CmdFailed})"

datatype refusal_reason = UnknownCapability | InvalidInputReason | ExecutionDisabled | PolicyDenied | ApprovalRequired

fun describe :: "refusal_reason \<Rightarrow> string" where
  "describe UnknownCapability = ''the capability is not published by this installation''"
| "describe InvalidInputReason = ''the input does not match the capability'' @ [CHR 0x27] @ ''s declared schema''"
| "describe ExecutionDisabled = ''cloud-issued privileged execution is disabled locally''"
| "describe PolicyDenied = ''local policy denied the invocation''"
| "describe ApprovalRequired = ''local approval is required and has not been granted''"

record cloud_command =
  cm_command_id :: uuid
  cm_environment_id :: uuid
  cm_capability_id :: capability_id
  cm_input :: json
  cm_correlation_id :: "string option"
  cm_status :: cloud_command_status
  cm_refusal_reason :: "refusal_reason option"
  cm_result :: "json option"
  cm_received_at :: instant
  cm_completed_at :: "instant option"
  cm_attempt_count :: u32

definition command_received ::
  "uuid \<Rightarrow> uuid \<Rightarrow> capability_id \<Rightarrow> json \<Rightarrow> string option \<Rightarrow> instant \<Rightarrow> cloud_command" where
  "command_received command_id environment_id capability input correlation now =
     \<lparr> cm_command_id = command_id, cm_environment_id = environment_id, cm_capability_id = capability, cm_input = input,
       cm_correlation_id = correlation, cm_status = CmdReceived, cm_refusal_reason = None, cm_result = None,
       cm_received_at = now, cm_completed_at = None, cm_attempt_count = 1 \<rparr>"

definition command_refuse :: "refusal_reason \<Rightarrow> instant \<Rightarrow> cloud_command \<Rightarrow> cloud_command" where
  "command_refuse reason now c =
     c\<lparr> cm_status := CmdRefused, cm_refusal_reason := Some reason, cm_completed_at := Some now \<rparr>"

datatype decision_outcome = Permitted | OutcomeDenied | OutcomeRequireApproval

record execution_decision =
  ed_command_id :: uuid
  ed_outcome :: decision_outcome
  ed_risk_class :: risk_class
  ed_blast_radius :: blast_radius
  ed_policy_id :: string
  ed_reason :: string

datatype command_result_status = ResAcknowledged | ResFailed | ResRefused

record command_result =
  rs_command_id :: uuid
  rs_status :: command_result_status
  rs_result :: "(string \<times> json) list option"
  rs_reason :: "string option"

record command_invoke =
  ci_command_id :: uuid
  ci_capability_id :: string
  ci_input :: "(string \<times> json) list"
  ci_correlation_id :: "string option"

section \<open>The limiter\<close>

datatype privileged_error = QueueBudgetExpired | TimedOut

text \<open>
  What the semaphore and the timer, which are the runtime's, did with one invocation: it ran to
  its end; it was abandoned, with or without its effect; or it never left the queue.
\<close>

datatype limiter_verdict = Ran | Abandoned bool | StayedQueued

definition limiter_run :: "limiter_verdict \<Rightarrow> ('h \<Rightarrow> 'a \<times> 'h) \<Rightarrow> 'h \<Rightarrow> (privileged_error + 'a) \<times> 'h" where
  "limiter_run v operation h =
     (case v of
        Ran \<Rightarrow> (let (value, h') = operation h in (Inr value, h'))
      | Abandoned took_effect \<Rightarrow> (Inl TimedOut, if took_effect then snd (operation h) else h)
      | StayedQueued \<Rightarrow> (Inl QueueBudgetExpired, h))"

section \<open>The handler\<close>

record 'h command_deps =
  dp_environment_id :: uuid
  dp_surface :: "capability_descriptor list"
  dp_privileged_execution :: bool
  dp_policy :: "authorization_request \<Rightarrow> policy_decision"
  dp_executor :: "'h executor"

record delivery =
  dv_readable :: bool
  dv_decision_written :: bool
  dv_row_written :: bool
  dv_settled :: bool
  dv_audited :: bool
  dv_limiter :: limiter_verdict
  dv_approval_time :: instant
  dv_received_time :: instant
  dv_completed_time :: instant

record 'h command_state =
  cl_commands :: "uuid \<rightharpoonup> cloud_command"
  cl_decisions :: "execution_decision list"
  cl_audit :: "(string \<times> bool \<times> json) list"
  cl_sent :: "(command_result \<times> uuid option) list"
  cl_approvals :: approval_store
  cl_host :: 'h

definition put_command :: "bool \<Rightarrow> cloud_command \<Rightarrow> 'h command_state \<Rightarrow> 'h command_state" where
  "put_command ok c s = (if ok then s\<lparr> cl_commands := (cl_commands s)(cm_command_id c \<mapsto> c) \<rparr> else s)"

definition send_command_result ::
  "uuid \<Rightarrow> command_result_status \<Rightarrow> json option \<Rightarrow> string option \<Rightarrow> uuid option \<Rightarrow> 'h command_state \<Rightarrow> 'h command_state" where
  "send_command_result command_id status result reason correlation s =
     s\<lparr> cl_sent := cl_sent s @
          [(\<lparr> rs_command_id = command_id, rs_status = status, rs_result = Option.bind result as_object, rs_reason = reason \<rparr>,
            correlation)] \<rparr>"

fun decision_outcome_of :: "policy_outcome \<Rightarrow> decision_outcome" where
  "decision_outcome_of Allow = Permitted"
| "decision_outcome_of Deny = OutcomeDenied"
| "decision_outcome_of RequireApproval = OutcomeRequireApproval"

definition record_execution_decision ::
  "delivery \<Rightarrow> uuid \<Rightarrow> capability_descriptor \<Rightarrow> policy_decision \<Rightarrow> 'h command_state \<Rightarrow> 'h command_state" where
  "record_execution_decision dv command_id d decision s =
     (if dv_decision_written dv
      then s\<lparr> cl_decisions := cl_decisions s @
             [\<lparr> ed_command_id = command_id, ed_outcome = decision_outcome_of (pd_outcome decision), ed_risk_class = cd_risk_class d,
                ed_blast_radius = effective_blast_radius d, ed_policy_id = pd_policy_id decision, ed_reason = pd_reason decision \<rparr>] \<rparr>
      else s)"

text \<open>The audit entry: the capability, whether it is a warning, and the payload; \<open>show_uuid\<close> prints an identifier.\<close>

definition record_command_audit ::
  "(uuid \<Rightarrow> string) \<Rightarrow> delivery \<Rightarrow> uuid \<Rightarrow> string \<Rightarrow> string \<Rightarrow> string option \<Rightarrow> json option \<Rightarrow> 'h command_state \<Rightarrow> 'h command_state" where
  "record_command_audit show_uuid dv command_id capability outcome detail evidence s =
     (if dv_audited dv
      then s\<lparr> cl_audit := cl_audit s @
             [(capability, outcome \<noteq> ''acknowledged'',
               JObj [(''command_id'', JStr (show_uuid command_id)),
                     (''detail'', case detail of None \<Rightarrow> JNull | Some t \<Rightarrow> JStr t),
                     (''evidence'', case evidence of None \<Rightarrow> JNull | Some v \<Rightarrow> v), (''outcome'', JStr outcome)])] \<rparr>
      else s)"

definition refuse_command ::
  "(uuid \<Rightarrow> string) \<Rightarrow> 'h command_deps \<Rightarrow> delivery \<Rightarrow> command_invoke \<Rightarrow> uuid option \<Rightarrow> refusal_reason \<Rightarrow> 'h command_state \<Rightarrow> 'h command_state" where
  "refuse_command show_uuid deps dv payload correlation reason s =
     (case capability_id_new (ci_capability_id payload) of
        Inl _ \<Rightarrow> send_command_result (ci_command_id payload) ResRefused None (Some (describe UnknownCapability)) correlation s
      | Inr capability \<Rightarrow>
          (let command = command_refuse reason (dv_completed_time dv)
                 (command_received (ci_command_id payload) (dp_environment_id deps) capability (JObj (ci_input payload))
                    (ci_correlation_id payload) (dv_received_time dv))
           in send_command_result (ci_command_id payload) ResRefused None (Some (describe reason)) correlation
                (record_command_audit show_uuid dv (ci_command_id payload) (ci_capability_id payload) ''refused''
                   (Some (describe reason)) None (put_command (dv_settled dv) command s))))"

definition report_stored_result :: "cloud_command \<Rightarrow> uuid option \<Rightarrow> 'h command_state \<Rightarrow> 'h command_state" where
  "report_stored_result c correlation s =
     (let reason = map_option describe (cm_refusal_reason c);
          report = (\<lambda>status. send_command_result (cm_command_id c) status (cm_result c) reason correlation s)
      in case cm_status c of
           CmdAcknowledged \<Rightarrow> report ResAcknowledged
         | CmdRefused \<Rightarrow> report ResRefused
         | CmdFailed \<Rightarrow> report ResFailed
         | _ \<Rightarrow> s)"

definition surface_find :: "capability_descriptor list \<Rightarrow> string \<Rightarrow> capability_descriptor option" where
  "surface_find surface capability = find (\<lambda>d. as_str (cd_id d) = capability) surface"

definition command_authorization :: "command_invoke \<Rightarrow> capability_descriptor \<Rightarrow> authorization_request" where
  "command_authorization payload d =
     az_requiring_approval (cd_requires_approval d)
       (authorization_request_new
          \<lparr> rq_capability = cd_id d, rq_principal = principal_cloud, rq_resource = None,
            rq_arguments = JObj (ci_input payload), rq_correlation = ci_command_id payload \<rparr>
          (cd_risk_class d) (effective_blast_radius d))"

text \<open>Check 6: an approval is consumed where policy asks for one.\<close>

definition resolve_approval ::
  "delivery \<Rightarrow> uuid \<Rightarrow> capability_descriptor \<Rightarrow> policy_decision \<Rightarrow> 'h command_state \<Rightarrow> policy_decision option \<times> 'h command_state" where
  "resolve_approval dv command_id d decision s =
     (if pd_outcome decision = RequireApproval
      then (case store_consume command_id [] (dv_approval_time dv) (cl_approvals s) of
              (None, _) \<Rightarrow> (None, record_execution_decision dv command_id d decision s)
            | (Some _, approvals) \<Rightarrow>
                (Some (decision_allow (pd_policy_id decision) (pd_reason decision @ '' (approved locally)'')),
                 s\<lparr> cl_approvals := approvals \<rparr>))
      else (Some decision, s))"

text \<open>
  Checks 5 and 6, and the construction of the authorized action: the result is the action to run,
  or nothing when the command has been refused.
\<close>

definition authorize_command ::
  "(uuid \<Rightarrow> string) \<Rightarrow> 'h command_deps \<Rightarrow> delivery \<Rightarrow> command_invoke \<Rightarrow> uuid option \<Rightarrow> capability_descriptor \<Rightarrow> 'h command_state \<Rightarrow>
   authorized_action option \<times> 'h command_state" where
  "authorize_command show_uuid deps dv payload correlation d s =
     (let command_id = ci_command_id payload;
          refuse = (\<lambda>reason s. (None, refuse_command show_uuid deps dv payload correlation reason s));
          authorization = command_authorization payload d; decision = dp_policy deps authorization
      in if pd_outcome decision = Deny
         then refuse PolicyDenied (record_execution_decision dv command_id d decision s)
         else (case resolve_approval dv command_id d decision s of
                 (None, s1) \<Rightarrow> refuse ApprovalRequired s1
               | (Some final, s1) \<Rightarrow>
                   (let s2 = record_execution_decision dv command_id d final s1
                    in case authorized_action_new (az_capability_request authorization) final of
                         Inl _ \<Rightarrow> refuse PolicyDenied s2
                       | Inr action \<Rightarrow> (Some action, s2))))"

text \<open>Checks 1 to 4 before them: the stored command, the surface, the schema, the kill switch.\<close>

definition admit_command ::
  "(uuid \<Rightarrow> string) \<Rightarrow> 'h command_deps \<Rightarrow> delivery \<Rightarrow> command_invoke \<Rightarrow> uuid option \<Rightarrow> 'h command_state \<Rightarrow>
   (capability_descriptor \<times> authorized_action) option \<times> 'h command_state" where
  "admit_command show_uuid deps dv payload correlation s =
     (let refuse = (\<lambda>reason. (None, refuse_command show_uuid deps dv payload correlation reason s));
          stored = (if dv_readable dv then cl_commands s (ci_command_id payload) else None)
      in case stored of
           Some existing \<Rightarrow>
             (None, if is_terminal (cm_status existing) then report_stored_result existing correlation s else s)
         | None \<Rightarrow>
             (case surface_find (dp_surface deps) (ci_capability_id payload) of
                None \<Rightarrow> refuse UnknownCapability
              | Some d \<Rightarrow>
                  if \<not> input_matches (cd_input_schema d) (JObj (ci_input payload)) then refuse InvalidInputReason
                  else if changes_the_host d \<and> \<not> dp_privileged_execution deps then refuse ExecutionDisabled
                  else (let (action, s1) = authorize_command show_uuid deps dv payload correlation d s
                        in (map_option (Pair d) action, s1))))"

text \<open>Check 7 in its three parts: the row that marks the start, the operation, the settlement.\<close>

definition executing_row :: "'h command_deps \<Rightarrow> delivery \<Rightarrow> command_invoke \<Rightarrow> capability_descriptor \<Rightarrow> cloud_command" where
  "executing_row deps dv payload d =
     (command_received (ci_command_id payload) (dp_environment_id deps) (cd_id d) (JObj (ci_input payload))
        (ci_correlation_id payload) (dv_received_time dv))\<lparr> cm_status := CmdExecuting \<rparr>"

definition start_command ::
  "'h command_deps \<Rightarrow> delivery \<Rightarrow> command_invoke \<Rightarrow> capability_descriptor \<Rightarrow> 'h command_state \<Rightarrow> 'h command_state" where
  "start_command deps dv payload d s = put_command (dv_row_written dv) (executing_row deps dv payload d) s"

definition perform_command ::
  "'h command_deps \<Rightarrow> delivery \<Rightarrow> authorized_action \<Rightarrow> 'h command_state \<Rightarrow>
   (privileged_error + (execution_error + execution_result)) \<times> 'h command_state" where
  "perform_command deps dv action s =
     (let (outcome, h) = limiter_run (dv_limiter dv) (dp_executor deps action) (cl_host s) in (outcome, s\<lparr> cl_host := h \<rparr>))"

fun settled_outcome ::
  "privileged_error + (execution_error + execution_result) \<Rightarrow>
   command_result_status \<times> json option \<times> string option" where
  "settled_outcome (Inr (Inr execution)) = (ResAcknowledged, Some (er_evidence execution), None)"
| "settled_outcome (Inr (Inl e)) = (ResFailed, None, Some (show_execution_error e))"
| "settled_outcome (Inl TimedOut) =
     (ResFailed, None, Some ''the operation exceeded its timeout and its outcome is unknown; verify it manually'')"
| "settled_outcome (Inl QueueBudgetExpired) =
     (ResFailed, None, Some ''the operation waited past its queue budget and never ran'')"

fun settled_status :: "command_result_status \<Rightarrow> cloud_command_status" where
  "settled_status ResAcknowledged = CmdAcknowledged"
| "settled_status ResRefused = CmdRefused"
| "settled_status ResFailed = CmdFailed"

fun outcome_name :: "command_result_status \<Rightarrow> string" where
  "outcome_name ResAcknowledged = ''acknowledged''"
| "outcome_name ResRefused = ''refused''"
| "outcome_name ResFailed = ''failed''"

definition settle_command ::
  "(uuid \<Rightarrow> string) \<Rightarrow> 'h command_deps \<Rightarrow> delivery \<Rightarrow> command_invoke \<Rightarrow> uuid option \<Rightarrow>
   capability_descriptor \<Rightarrow> privileged_error + (execution_error + execution_result) \<Rightarrow> 'h command_state \<Rightarrow> 'h command_state" where
  "settle_command show_uuid deps dv payload correlation d outcome s =
     (let (status, result, reason) = settled_outcome outcome;
          command = (executing_row deps dv payload d)
            \<lparr> cm_status := settled_status status, cm_result := result, cm_completed_at := Some (dv_completed_time dv) \<rparr>
      in send_command_result (ci_command_id payload) status result reason correlation
           (record_command_audit show_uuid dv (ci_command_id payload) (as_str (cd_id d)) (outcome_name status) reason result
              (put_command (dv_settled dv) command s)))"

definition handle_command_invoke ::
  "(uuid \<Rightarrow> string) \<Rightarrow> 'h command_deps \<Rightarrow> delivery \<Rightarrow> command_invoke option \<Rightarrow> uuid option \<Rightarrow>
   'h command_state \<Rightarrow> 'h command_state" where
  "handle_command_invoke show_uuid deps dv parsed correlation s =
     (case parsed of
        None \<Rightarrow> s
      | Some payload \<Rightarrow>
          (case admit_command show_uuid deps dv payload correlation s of
             (None, s1) \<Rightarrow> s1
           | (Some (d, action), s1) \<Rightarrow>
               (let (outcome, s2) = perform_command deps dv action (start_command deps dv payload d s1)
                in settle_command show_uuid deps dv payload correlation d outcome s2)))"

section \<open>Settlement after a restart\<close>

definition interrupted_reason :: "cloud_command_status \<Rightarrow> string" where
  "interrupted_reason st =
     (if st = CmdExecuting
      then ''the daemon restarted while this operation was executing; its outcome is unknown and must be verified manually''
      else ''the daemon restarted before this operation was executed'')"

text \<open>\<open>written\<close> says for which commands the settling write succeeds.\<close>

fun resolve_rows :: "(uuid \<Rightarrow> bool) \<Rightarrow> instant \<Rightarrow> cloud_command list \<Rightarrow> 'h command_state \<Rightarrow> 'h command_state" where
  "resolve_rows written now [] s = s"
| "resolve_rows written now (c # cs) s =
     resolve_rows written now cs
       (send_command_result (cm_command_id c) ResFailed None (Some (interrupted_reason (cm_status c))) None
          (put_command (written (cm_command_id c)) (c\<lparr> cm_status := CmdFailed, cm_completed_at := Some now \<rparr>) s))"

text \<open>
  The rows the repository lists: \<open>order\<close> enumerates the stored identifiers, as the table scan does;
  a failed listing (\<^const>\<open>None\<close>) settles nothing.
\<close>

definition unfinished :: "uuid list \<Rightarrow> 'h command_state \<Rightarrow> cloud_command list" where
  "unfinished order s =
     filter (\<lambda>c. \<not> is_terminal (cm_status c)) (filter_map (cl_commands s) order)"

definition resolve_interrupted_commands ::
  "uuid list option \<Rightarrow> (uuid \<Rightarrow> bool) \<Rightarrow> instant \<Rightarrow> 'h command_state \<Rightarrow> 'h command_state" where
  "resolve_interrupted_commands listing written now s =
     (case listing of None \<Rightarrow> s | Some order \<Rightarrow> resolve_rows written now (unfinished order s) s)"

section \<open>Idempotency\<close>

text \<open>
  What an idempotent consumer rests on: a log of keys that only grows, and an effect that fires
  only on a key the log does not hold and leaves it there.
\<close>

locale idempotent_log =
  fixes step :: "'op \<Rightarrow> 's \<Rightarrow> 's" and fires :: "'op \<Rightarrow> 's \<Rightarrow> 'k option" and logged :: "'s \<Rightarrow> 'k set" and durable :: "'op \<Rightarrow> bool"
  assumes log_grows: "logged s \<subseteq> logged (step op s)"
    and fires_fresh: "durable op \<Longrightarrow> fires op s = Some k \<Longrightarrow> k \<notin> logged s \<and> k \<in> logged (step op s)"
begin

fun fired :: "'op list \<Rightarrow> 's \<Rightarrow> 'k list" where
  "fired [] s = []"
| "fired (op # ops) s = (case fires op s of None \<Rightarrow> [] | Some k \<Rightarrow> [k]) @ fired ops (step op s)"

lemma fired_once: "list_all durable ops \<Longrightarrow> distinct (fired ops s) \<and> set (fired ops s) \<inter> logged s = {}"
proof (induction ops arbitrary: s)
  case (Cons op ops)
  have ih: "distinct (fired ops (step op s))" "set (fired ops (step op s)) \<inter> logged (step op s) = {}"
    using Cons by auto
  show ?case
  proof (cases "fires op s")
    case None
    then show ?thesis using ih log_grows [of s op] by auto
  next
    case (Some k)
    then show ?thesis using ih log_grows [of s op] fires_fresh [OF _ Some] Cons.prems by auto
  qed
qed simp

end

section \<open>What an admission is\<close>

definition approved :: "policy_decision \<Rightarrow> uuid \<Rightarrow> instant \<Rightarrow> approval_store \<Rightarrow> bool" where
  "approved decision command_id now approvals =
     (case pd_outcome decision of
        Allow \<Rightarrow> True | Deny \<Rightarrow> False
      | RequireApproval \<Rightarrow> fst (store_consume command_id [] now approvals) \<noteq> None)"

definition admissible :: "'h command_deps \<Rightarrow> delivery \<Rightarrow> command_invoke \<Rightarrow> capability_descriptor \<Rightarrow> 'h command_state \<Rightarrow> bool" where
  "admissible deps dv payload d s \<longleftrightarrow>
     (dv_readable dv \<longrightarrow> cl_commands s (ci_command_id payload) = None)
     \<and> surface_find (dp_surface deps) (ci_capability_id payload) = Some d
     \<and> input_matches (cd_input_schema d) (JObj (ci_input payload))
     \<and> (changes_the_host d \<longrightarrow> dp_privileged_execution deps)
     \<and> approved (dp_policy deps (command_authorization payload d)) (ci_command_id payload) (dv_approval_time dv) (cl_approvals s)"

lemma frame_simps [simp]:
  "cl_host (put_command ok c s) = cl_host s" "cl_host (send_command_result i st r why co s) = cl_host s"
  "cl_host (record_execution_decision dv i d p s) = cl_host s" "cl_host (record_command_audit su dv i ca out det ev s) = cl_host s"
  "cl_commands (send_command_result i st r why co s) = cl_commands s"
  "cl_commands (record_execution_decision dv i d p s) = cl_commands s"
  "cl_commands (record_command_audit su dv i ca out det ev s) = cl_commands s"
  "cl_commands (put_command ok c s) = (if ok then (cl_commands s)(cm_command_id c \<mapsto> c) else cl_commands s)"
  "cl_sent (put_command ok c s) = cl_sent s" "cl_sent (record_execution_decision dv i d p s) = cl_sent s"
  "cl_sent (record_command_audit su dv i ca out det ev s) = cl_sent s"
  "cl_approvals (send_command_result i st r why co s) = cl_approvals s" "cl_approvals (put_command ok c s) = cl_approvals s"
  "cl_approvals (record_execution_decision dv i d p s) = cl_approvals s"
  "cl_approvals (record_command_audit su dv i ca out det ev s) = cl_approvals s"
  by (simp_all add: put_command_def send_command_result_def record_execution_decision_def record_command_audit_def)

lemma row_ids [simp]:
  "cm_command_id (command_received i e c v co t) = i" "cm_command_id (command_refuse r t cmd) = cm_command_id cmd"
  "cm_command_id (executing_row deps dv payload d) = ci_command_id payload"
  by (simp_all add: command_received_def command_refuse_def executing_row_def)

lemma refuse_frame [simp]:
  "cl_host (refuse_command su deps dv payload co r s) = cl_host s"
  "cl_approvals (refuse_command su deps dv payload co r s) = cl_approvals s"
  "dom (cl_commands (refuse_command su deps dv payload co r s)) =
     dom (cl_commands s) \<union> (if is_ok (capability_id_new (ci_capability_id payload)) \<and> dv_settled dv then {ci_command_id payload} else {})"
  by (auto simp: refuse_command_def Let_def split: sum.splits)

lemma report_frame [simp]:
  "cl_host (report_stored_result c co s) = cl_host s" "cl_commands (report_stored_result c co s) = cl_commands s"
  "cl_approvals (report_stored_result c co s) = cl_approvals s"
  by (simp_all add: report_stored_result_def Let_def split: cloud_command_status.splits)

text \<open>The ladder, read backwards from its outcome.\<close>

lemma resolve_approval_some:
  "resolve_approval dv i d decision s = (Some final, s1) \<Longrightarrow> pd_outcome decision \<noteq> Deny \<Longrightarrow>
   approved decision i (dv_approval_time dv) (cl_approvals s) \<and> pd_outcome final = Allow
   \<and> cl_host s1 = cl_host s \<and> cl_commands s1 = cl_commands s \<and> cl_sent s1 = cl_sent s"
  by (cases "pd_outcome decision")
    (auto simp: resolve_approval_def approved_def split: if_splits prod.splits option.splits)

lemma resolve_approval_none:
  "resolve_approval dv i d decision s = (None, s1) \<Longrightarrow>
   \<not> approved decision i (dv_approval_time dv) (cl_approvals s)
   \<and> cl_host s1 = cl_host s \<and> cl_commands s1 = cl_commands s \<and> cl_sent s1 = cl_sent s"
  by (auto simp: resolve_approval_def approved_def split: if_splits prod.splits option.splits)

lemma authorize_some:
  assumes "authorize_command su deps dv payload co d s = (Some a, s1)"
  shows "approved (dp_policy deps (command_authorization payload d)) (ci_command_id payload) (dv_approval_time dv) (cl_approvals s)
    \<and> cl_host s1 = cl_host s \<and> cl_commands s1 = cl_commands s \<and> cl_sent s1 = cl_sent s
    \<and> aa_request a = az_capability_request (command_authorization payload d) \<and> pd_outcome (aa_decision a) = Allow"
  using assms resolve_approval_some [of dv "ci_command_id payload" d "dp_policy deps (command_authorization payload d)" s]
  by (auto simp: authorize_command_def authorized_action_new_def Let_def split: if_splits option.splits prod.splits sum.splits)

lemma authorize_none:
  assumes "authorize_command su deps dv payload co d s = (None, s1)"
  shows "\<not> approved (dp_policy deps (command_authorization payload d)) (ci_command_id payload) (dv_approval_time dv) (cl_approvals s)
    \<and> (\<exists>r s0. s1 = refuse_command su deps dv payload co r s0 \<and> cl_host s0 = cl_host s \<and> cl_commands s0 = cl_commands s \<and> cl_sent s0 = cl_sent s)"
proof (cases "pd_outcome (dp_policy deps (command_authorization payload d)) = Deny")
  case True
  with assms show ?thesis
    by (auto simp: authorize_command_def approved_def Let_def intro!: exI [of _ PolicyDenied] exI)
next
  case False
  obtain final s0 where r: "resolve_approval dv (ci_command_id payload) d (dp_policy deps (command_authorization payload d)) s = (final, s0)"
    by (cases "resolve_approval dv (ci_command_id payload) d (dp_policy deps (command_authorization payload d)) s")
  show ?thesis
  proof (cases final)
    case None
    with assms False r resolve_approval_none [of dv "ci_command_id payload" d "dp_policy deps (command_authorization payload d)" s s0]
    show ?thesis by (auto simp: authorize_command_def Let_def intro!: exI [of _ ApprovalRequired] exI [of _ s0])
  next
    case (Some f)
    with assms False r resolve_approval_some [of dv "ci_command_id payload" d "dp_policy deps (command_authorization payload d)" s f s0]
    show ?thesis by (auto simp: authorize_command_def authorized_action_new_def Let_def)
  qed
qed

lemma admit_some:
  assumes "admit_command su deps dv payload co s = (Some (d, a), s1)"
  shows "admissible deps dv payload d s \<and> cl_host s1 = cl_host s \<and> cl_commands s1 = cl_commands s \<and> cl_sent s1 = cl_sent s
    \<and> aa_request a = az_capability_request (command_authorization payload d) \<and> pd_outcome (aa_decision a) = Allow"
  using assms authorize_some [of su deps dv payload co d s a s1]
  by (auto simp: admit_command_def Let_def admissible_def split: option.splits if_splits prod.splits)

text \<open>A delivery that is not admitted is suppressed, answered from the stored row, or refused.\<close>

lemma admit_none:
  assumes "admit_command su deps dv payload co s = (None, s1)"
  shows "\<not> admissible deps dv payload d s \<and>
    ((\<exists>c. dv_readable dv \<and> cl_commands s (ci_command_id payload) = Some c \<and>
          s1 = (if is_terminal (cm_status c) then report_stored_result c co s else s)) \<or>
     (\<not> (dv_readable dv \<and> cl_commands s (ci_command_id payload) \<noteq> None) \<and>
      (\<exists>r s0. s1 = refuse_command su deps dv payload co r s0 \<and> cl_host s0 = cl_host s \<and> cl_commands s0 = cl_commands s \<and> cl_sent s0 = cl_sent s)))"
proof (cases "dv_readable dv \<and> cl_commands s (ci_command_id payload) \<noteq> None")
  case True
  with assms show ?thesis by (auto simp: admit_command_def admissible_def Let_def)
next
  case fresh: False
  show ?thesis
  proof (cases "surface_find (dp_surface deps) (ci_capability_id payload)")
    case None
    with fresh assms show ?thesis
      by (auto simp: admit_command_def admissible_def Let_def split: if_splits)
  next
    case (Some e)
    with fresh assms authorize_none [of su deps dv payload co e s s1] show ?thesis
      by (auto simp: admit_command_def admissible_def Let_def split: if_splits prod.splits)
  qed
qed

lemma admit_noneE:
  assumes "admit_command su deps dv payload co s = (None, s1)"
  obtains (stored) c where "dv_readable dv" "cl_commands s (ci_command_id payload) = Some c"
      "s1 = (if is_terminal (cm_status c) then report_stored_result c co s else s)"
  | (refusal) r s0 where "\<not> (dv_readable dv \<and> cl_commands s (ci_command_id payload) \<noteq> None)"
      "s1 = refuse_command su deps dv payload co r s0" "cl_host s0 = cl_host s" "cl_commands s0 = cl_commands s" "cl_sent s0 = cl_sent s"
  using admit_none [OF assms] by blast

lemma admit_none_frame:
  "admit_command su deps dv payload co s = (None, s1) \<Longrightarrow>
   cl_host s1 = cl_host s \<and> dom (cl_commands s) \<subseteq> dom (cl_commands s1)"
  by (erule admit_noneE) (simp_all split: if_splits)

section \<open>The command machine\<close>

text \<open>
  What can happen to the channel: a delivery handled to its end; a delivery during which the
  process dies, after the row of the start or after the operation; the settlement at the start of
  a session; and a local change of the approvals. A crash loses the approvals, which are in memory.
\<close>

datatype command_op =
    Deliver delivery "command_invoke option" "uuid option"
  | CrashStarted delivery command_invoke "uuid option"
  | CrashPerformed delivery command_invoke "uuid option"
  | Settle "uuid list option" "uuid \<Rightarrow> bool" instant
  | SetApprovals approval_store

fun command_step :: "(uuid \<Rightarrow> string) \<Rightarrow> 'h command_deps \<Rightarrow> command_op \<Rightarrow> 'h command_state \<Rightarrow> 'h command_state" where
  "command_step su deps (Deliver dv parsed co) s = handle_command_invoke su deps dv parsed co s"
| "command_step su deps (CrashStarted dv payload co) s =
     (case admit_command su deps dv payload co s of
        (None, s1) \<Rightarrow> s1 | (Some (d, a), s1) \<Rightarrow> start_command deps dv payload d s1)\<lparr> cl_approvals := Map.empty \<rparr>"
| "command_step su deps (CrashPerformed dv payload co) s =
     (case admit_command su deps dv payload co s of
        (None, s1) \<Rightarrow> s1
      | (Some (d, a), s1) \<Rightarrow> snd (perform_command deps dv a (start_command deps dv payload d s1)))\<lparr> cl_approvals := Map.empty \<rparr>"
| "command_step su deps (Settle listing written now) s = resolve_interrupted_commands listing written now s"
| "command_step su deps (SetApprovals approvals) s = s\<lparr> cl_approvals := approvals \<rparr>"

text \<open>The command whose operation reaches the executor, if one does.\<close>

definition runs :: "'h command_deps \<Rightarrow> delivery \<Rightarrow> command_invoke \<Rightarrow> 'h command_state \<Rightarrow> uuid option" where
  "runs deps dv payload s =
     (if dv_limiter dv \<noteq> StayedQueued \<and> (\<exists>d \<in> set (dp_surface deps). admissible deps dv payload d s)
      then Some (ci_command_id payload) else None)"

fun command_runs :: "'h command_deps \<Rightarrow> command_op \<Rightarrow> 'h command_state \<Rightarrow> uuid option" where
  "command_runs deps (Deliver dv parsed co) s = Option.bind parsed (\<lambda>payload. runs deps dv payload s)"
| "command_runs deps (CrashPerformed dv payload co) s = runs deps dv payload s"
| "command_runs deps _ s = None"

text \<open>The store answered the read and took the row of the start.\<close>

fun durable_op :: "command_op \<Rightarrow> bool" where
  "durable_op (Deliver dv _ _) = (dv_readable dv \<and> dv_row_written dv)"
| "durable_op (CrashPerformed dv _ _) = (dv_readable dv \<and> dv_row_written dv)"
| "durable_op _ = True"

lemma admissible_in_surface: "admissible deps dv payload d s \<Longrightarrow> d \<in> set (dp_surface deps)"
  by (auto simp: admissible_def surface_find_def dest: find_SomeD)

lemma runs_iff:
  "runs deps dv payload s = Some i \<longleftrightarrow>
     i = ci_command_id payload \<and> dv_limiter dv \<noteq> StayedQueued \<and>
     (\<exists>d a s1. admit_command su deps dv payload co s = (Some (d, a), s1))"
proof (cases "admit_command su deps dv payload co s")
  case (Pair r s1)
  show ?thesis
  proof (cases r)
    case None
    with Pair admit_none [of su deps dv payload co s s1] show ?thesis by (auto simp: runs_def)
  next
    case (Some x)
    obtain d a where "x = (d, a)" by (cases x)
    with Pair Some admit_some [of su deps dv payload co s d a s1] admissible_in_surface [of deps dv payload d s]
    show ?thesis by (auto simp: runs_def)
  qed
qed

lemma perform_frame [simp]:
  "cl_commands (snd (perform_command deps dv a s)) = cl_commands s"
  "cl_sent (snd (perform_command deps dv a s)) = cl_sent s"
  "dv_limiter dv = StayedQueued \<Longrightarrow> cl_host (snd (perform_command deps dv a s)) = cl_host s"
  by (simp_all add: perform_command_def limiter_run_def case_prod_beta Let_def)

lemma start_frame [simp]:
  "cl_host (start_command deps dv payload d s) = cl_host s" "cl_sent (start_command deps dv payload d s) = cl_sent s"
  "dom (cl_commands (start_command deps dv payload d s)) =
     dom (cl_commands s) \<union> (if dv_row_written dv then {ci_command_id payload} else {})"
  by (simp_all add: start_command_def)

lemma settle_frame [simp]:
  "cl_host (settle_command su deps dv payload co d out s) = cl_host s"
  "dom (cl_commands (settle_command su deps dv payload co d out s)) =
     dom (cl_commands s) \<union> (if dv_settled dv then {ci_command_id payload} else {})"
  "length (cl_sent (settle_command su deps dv payload co d out s)) = Suc (length (cl_sent s))"
  by (auto simp: settle_command_def case_prod_beta Let_def) (simp add: send_command_result_def)

lemma resolve_rows_frame:
  "cl_host (resolve_rows written now cs s) = cl_host s"
  "dom (cl_commands s) \<subseteq> dom (cl_commands (resolve_rows written now cs s))"
proof (induction cs arbitrary: s)
  case (Cons c cs)
  {
    case 1
    show ?case by (simp add: Cons.IH)
  next
    case 2
    let ?s = "send_command_result (cm_command_id c) ResFailed None (Some (interrupted_reason (cm_status c))) None
          (put_command (written (cm_command_id c)) (c\<lparr> cm_status := CmdFailed, cm_completed_at := Some now \<rparr>) s)"
    have "dom (cl_commands s) \<subseteq> dom (cl_commands ?s)" by auto
    also have "\<dots> \<subseteq> dom (cl_commands (resolve_rows written now cs ?s))" by (rule Cons.IH(2))
    finally show ?case by simp
  }
qed simp_all

text \<open>Rows are never lost, and without a run the host is untouched.\<close>

lemma handle_cases:
  assumes "admit_command su deps dv payload co s = (r, s1)"
  shows "handle_command_invoke su deps dv (Some payload) co s =
    (case r of None \<Rightarrow> s1
     | Some (d, a) \<Rightarrow> settle_command su deps dv payload co d (fst (perform_command deps dv a (start_command deps dv payload d s1)))
                        (snd (perform_command deps dv a (start_command deps dv payload d s1))))"
  using assms by (auto simp: handle_command_invoke_def case_prod_beta Let_def split: option.splits)

lemma admit_caseE:
  obtains (refused) s1 where "admit_command su deps dv payload co s = (None, s1)"
  | (admitted) d a s1 where "admit_command su deps dv payload co s = (Some (d, a), s1)"
  by (cases "admit_command su deps dv payload co s"; cases "fst (admit_command su deps dv payload co s)") auto

lemma step_rows: "dom (cl_commands s) \<subseteq> dom (cl_commands (command_step su deps op s))"
proof (cases op)
  case (Deliver dv parsed co)
  show ?thesis
  proof (cases parsed)
    case None
    then show ?thesis by (simp add: Deliver handle_command_invoke_def)
  next
    case (Some payload)
    show ?thesis
      by (cases rule: admit_caseE [of su deps dv payload co s])
        (auto simp: Deliver Some handle_cases dest: admit_none_frame admit_some)
  qed
next
  case (CrashStarted dv payload co)
  show ?thesis
    by (cases rule: admit_caseE [of su deps dv payload co s]) (auto simp: CrashStarted dest: admit_none_frame admit_some)
next
  case (CrashPerformed dv payload co)
  show ?thesis
    by (cases rule: admit_caseE [of su deps dv payload co s]) (auto simp: CrashPerformed dest: admit_none_frame admit_some)
next
  case (Settle listing written now)
  then show ?thesis
    using resolve_rows_frame(2) [of s] by (simp add: resolve_interrupted_commands_def split: option.split)
qed simp

text \<open>Every change of the host is one call of the executor on an admitted command.\<close>

definition admitted_call ::
  "'h command_deps \<Rightarrow> delivery \<Rightarrow> command_invoke \<Rightarrow> capability_descriptor \<Rightarrow> authorized_action \<Rightarrow> 'h command_state \<Rightarrow> bool" where
  "admitted_call deps dv payload d a s \<longleftrightarrow>
     admissible deps dv payload d s \<and> dv_limiter dv \<noteq> StayedQueued \<and> aa_capability a = cd_id d
     \<and> aa_arguments a = JObj (ci_input payload) \<and> pd_outcome (aa_decision a) = Allow"

lemma limiter_effect:
  "snd (limiter_run v operation h) \<noteq> h \<Longrightarrow> v \<noteq> StayedQueued \<and> snd (limiter_run v operation h) = snd (operation h)"
  by (cases v) (auto simp: limiter_run_def case_prod_beta Let_def split: if_splits)

lemma perform_effect:
  assumes "admit_command su deps dv payload co s = (Some (d, a), s1)"
    and "cl_host (snd (perform_command deps dv a (start_command deps dv payload d s1))) \<noteq> cl_host s"
  shows "admitted_call deps dv payload d a s
    \<and> cl_host (snd (perform_command deps dv a (start_command deps dv payload d s1))) = snd (dp_executor deps a (cl_host s))"
proof -
  note ad = admit_some [OF assms(1)]
  have "cl_host (snd (perform_command deps dv a (start_command deps dv payload d s1))) = snd (limiter_run (dv_limiter dv) (dp_executor deps a) (cl_host s))"
    using ad by (simp add: perform_command_def case_prod_beta Let_def)
  with assms(2) ad limiter_effect [of "dv_limiter dv" "dp_executor deps a" "cl_host s"] show ?thesis
    by (simp add: admitted_call_def aa_capability_def command_authorization_def az_requiring_approval_def authorization_request_new_def)
qed

lemma handle_effect:
  assumes "cl_host (handle_command_invoke su deps dv (Some payload) co s) \<noteq> cl_host s"
  shows "\<exists>d a. admitted_call deps dv payload d a s
    \<and> cl_host (handle_command_invoke su deps dv (Some payload) co s) = snd (dp_executor deps a (cl_host s))"
proof (cases rule: admit_caseE [of su deps dv payload co s])
  case (refused s1)
  with assms admit_none_frame [OF refused] show ?thesis by (simp add: handle_cases)
next
  case (admitted d a s1)
  with assms perform_effect [OF admitted] show ?thesis
    by (intro exI [of _ d] exI [of _ a]) (simp add: handle_cases [OF admitted])
qed

lemma step_effect:
  assumes "cl_host (command_step su deps op s) \<noteq> cl_host s"
  shows "\<exists>dv payload d a. admitted_call deps dv payload d a s \<and> command_runs deps op s = Some (ci_command_id payload)
    \<and> cl_host (command_step su deps op s) = snd (dp_executor deps a (cl_host s))"
proof -
  have run: "admitted_call deps dv payload d a s \<Longrightarrow> runs deps dv payload s = Some (ci_command_id payload)" for dv payload d a
    by (auto simp: admitted_call_def runs_def dest: admissible_in_surface)
  show ?thesis
  proof (cases op)
    case (Deliver dv parsed co)
    then obtain payload where p: "parsed = Some payload"
      using assms by (cases parsed) (auto simp: handle_command_invoke_def)
    show ?thesis using handle_effect [of su deps dv payload co s] assms run unfolding Deliver p by fastforce
  next
    case (CrashStarted dv payload co)
    show ?thesis
      using assms by (cases rule: admit_caseE [of su deps dv payload co s])
        (auto simp: CrashStarted dest: admit_none_frame admit_some)
  next
    case (CrashPerformed dv payload co)
    show ?thesis
    proof (cases rule: admit_caseE [of su deps dv payload co s])
      case (refused s1)
      with assms show ?thesis by (auto simp: CrashPerformed dest: admit_none_frame)
    next
      case (admitted d a s1)
      with assms perform_effect [OF admitted] run [of dv payload d a] show ?thesis
        by (intro exI [of _ dv] exI [of _ payload] exI [of _ d] exI [of _ a]) (simp add: CrashPerformed)
    qed
  next
    case (Settle listing written now)
    with assms show ?thesis by (simp add: resolve_interrupted_commands_def resolve_rows_frame split: option.splits)
  qed (use assms in simp)
qed

lemma step_host: "command_runs deps op s = None \<Longrightarrow> cl_host (command_step su deps op s) = cl_host s"
  using step_effect [of su deps op s] by auto

lemma runs_fresh:
  assumes "runs deps dv payload s = Some i" "dv_readable dv"
  shows "i = ci_command_id payload \<and> i \<notin> dom (cl_commands s)"
  using assms by (auto simp: runs_def admissible_def split: if_splits)

lemma step_logs:
  assumes "durable_op op" "command_runs deps op s = Some i"
  shows "i \<notin> dom (cl_commands s) \<and> i \<in> dom (cl_commands (command_step su deps op s))"
proof (cases op)
  case (Deliver dv parsed co)
  with assms obtain payload where p: "parsed = Some payload" "runs deps dv payload s = Some i"
    by (auto simp: bind_eq_Some_conv)
  from runs_iff [THEN iffD1, OF p(2), of su co] obtain d a s1
    where a: "admit_command su deps dv payload co s = (Some (d, a), s1)" by blast
  show ?thesis
    using runs_fresh [OF p(2)] assms(1) by (auto simp: Deliver p handle_cases [OF a])
next
  case (CrashPerformed dv payload co)
  with assms have r: "runs deps dv payload s = Some i" by simp
  from runs_iff [THEN iffD1, OF r, of su co] obtain d a s1
    where a: "admit_command su deps dv payload co s = (Some (d, a), s1)" by blast
  show ?thesis using runs_fresh [OF r] assms(1) by (auto simp: CrashPerformed a)
qed (use assms in simp_all)

interpretation commands: idempotent_log "command_step su deps" "command_runs deps" "\<lambda>s. dom (cl_commands s)" durable_op
  by unfold_locales (use step_rows step_logs in blast)+

section \<open>Properties\<close>

text \<open>The commands whose operation was run, in order, along a history of the channel.\<close>

fun performed :: "(uuid \<Rightarrow> string) \<Rightarrow> 'h command_deps \<Rightarrow> command_op list \<Rightarrow> 'h command_state \<Rightarrow> uuid list" where
  "performed su deps [] s = []"
| "performed su deps (op # ops) s =
     (case command_runs deps op s of None \<Rightarrow> [] | Some i \<Rightarrow> [i]) @ performed su deps ops (command_step su deps op s)"

lemma performed_fired: "performed su deps ops s = commands.fired su deps ops s"
  by (induction ops arbitrary: s) simp_all

lemma quiet_history: "performed su deps ops s = [] \<Longrightarrow> cl_host (fold (command_step su deps) ops s) = cl_host s"
  by (induction ops arbitrary: s) (auto simp: step_host split: option.splits)

text \<open>
  C5. A cloud command takes effect at most once: along any history of deliveries, re-deliveries,
  crashes in the middle of a command, settlements and local approvals in which the repository
  answers the read and takes the row that marks the start, no command is run twice and none is run
  whose row was already there; and a history that runs no command leaves the host as it was.
\<close>

theorem command_runs_at_most_once:
  assumes "list_all durable_op ops"
  shows "distinct (performed su deps ops s) \<and> set (performed su deps ops s) \<inter> dom (cl_commands s) = {}
    \<and> (performed su deps ops s = [] \<longrightarrow> cl_host (fold (command_step su deps) ops s) = cl_host s)"
  using commands.fired_once [OF assms, of su deps s] quiet_history [of su deps ops s] by (simp add: performed_fired)

text \<open>A channel for concrete runs: one published service operation, on the recording controller.\<close>

definition sample_deps :: "mock_services command_deps" where
  "sample_deps =
     \<lparr> dp_environment_id = 7, dp_surface = [bootstrap_descriptor (CapabilityId HOST_SERVICE_RESTART)],
       dp_privileged_execution = True, dp_policy = policy_evaluate bootstrap_policy,
       dp_executor = privileged_execute mock_service_controller (service_guardrails DAEMON_UNIT) \<rparr>"

definition sample_delivery :: delivery where
  "sample_delivery =
     \<lparr> dv_readable = True, dv_decision_written = True, dv_row_written = True, dv_settled = True, dv_audited = True,
       dv_limiter = Ran, dv_approval_time = 0, dv_received_time = 0, dv_completed_time = 0 \<rparr>"

definition sample_invoke :: command_invoke where
  "sample_invoke = \<lparr> ci_command_id = 3, ci_capability_id = HOST_SERVICE_RESTART, ci_input = [(''unit'', JStr ''web'')], ci_correlation_id = None \<rparr>"

definition granted_channel :: "mock_services command_state" where
  "granted_channel =
     \<lparr> cl_commands = Map.empty, cl_decisions = [], cl_audit = [], cl_sent = [],
       cl_approvals = [3 \<mapsto> approval_grant 3 [] ''root'' 0 9], cl_host = ([], {}) \<rparr>"

lemma sample_schema: "input_matches (bootstrap_schema (CapabilityId HOST_SERVICE_RESTART)) (JObj [(''unit'', JStr ''web'')])"
proof -
  have "input_matches (JObj (of_type ''string'')) (JStr ''web'')"
    by (subst input_matches.simps) (simp add: type_ok_def matches_kind_def)
  then show ?thesis
    by (simp add: bootstrap_schema_def surface_defs object_schema_def input_matches_object type_ok_def required_ok_def
        additional_ok_def schema_properties_def matches_kind_def cap_ids Let_def)
qed

lemma sample_admissible:
  "admissible sample_deps sample_delivery sample_invoke (bootstrap_descriptor (CapabilityId HOST_SERVICE_RESTART)) granted_channel"
proof -
  have "pd_outcome (dp_policy sample_deps (command_authorization sample_invoke (bootstrap_descriptor (CapabilityId HOST_SERVICE_RESTART)))) = RequireApproval"
    by (simp add: sample_deps_def policy_outcome_iff command_authorization_def az_requiring_approval_def authorization_request_new_def
        locally_permitted_def bootstrap_policy_def bootstrap_ratings_def is_service_capability_def)
  then show ?thesis
    by (simp add: admissible_def approved_def surface_find_def
        sample_deps_def sample_delivery_def sample_invoke_def granted_channel_def store_consume_def authorizes_def approval_grant_def sample_schema)
qed

lemma sample_runs: "runs sample_deps sample_delivery sample_invoke granted_channel = Some 3"
  using sample_admissible admissible_in_surface [OF sample_admissible]
  by (auto simp: runs_def sample_delivery_def sample_invoke_def)

theorem command_runs_at_most_once_witness:
  "performed (\<lambda>_. []) sample_deps (replicate 2 (Deliver sample_delivery (Some sample_invoke) None)) granted_channel = [3]"
proof -
  let ?op = "Deliver sample_delivery (Some sample_invoke) None"
  have d: "list_all durable_op [?op, ?op]" by (simp add: sample_delivery_def)
  have "command_runs sample_deps ?op granted_channel = Some 3" by (simp add: sample_runs)
  moreover have "command_runs sample_deps ?op (command_step (\<lambda>_. []) sample_deps ?op granted_channel) \<in> {None, Some 3}"
    by (simp add: runs_def sample_invoke_def)
  ultimately show ?thesis
    using command_runs_at_most_once [OF d, of "\<lambda>_. []" sample_deps granted_channel]
    by (auto simp: numeral_2_eq_2)
qed

text \<open>
  C6. The ladder guards every effect: handling a delivery changes the host only if the command is
  not stored (when the store answers), its capability is published, its input matches the
  published schema, a host-changing capability is enabled locally, and policy allows it or asks
  for an approval the operator has granted for this very command and that has not expired; and the
  effect is that of the executor on the published capability, the given input and an allowing
  decision. In every other case the host is untouched.
\<close>

theorem command_ladder:
  assumes "cl_host (handle_command_invoke su deps dv (Some payload) co s) \<noteq> cl_host s"
  shows "\<exists>d a. admissible deps dv payload d s \<and> dv_limiter dv \<noteq> StayedQueued
    \<and> aa_capability a = cd_id d \<and> aa_arguments a = JObj (ci_input payload) \<and> pd_outcome (aa_decision a) = Allow
    \<and> cl_host (handle_command_invoke su deps dv (Some payload) co s) = snd (dp_executor deps a (cl_host s))"
  using handle_effect [OF assms] unfolding admitted_call_def by blast

text \<open>The handled sample: the unit is restarted once and the command acknowledged.\<close>

lemma sample_handled_from:
  assumes "admissible sample_deps dv sample_invoke (bootstrap_descriptor (CapabilityId HOST_SERVICE_RESTART)) s" "dv_limiter dv = Ran"
  shows "cl_host (handle_command_invoke su sample_deps dv (Some sample_invoke) co s) =
    (fst (cl_host s) @ [(''restart'', ''web'')], insert ''web'' (snd (cl_host s)))"
proof -
  obtain a s1 where ad: "admit_command su sample_deps dv sample_invoke co s
      = (Some (bootstrap_descriptor (CapabilityId HOST_SERVICE_RESTART), a), s1)"
  proof (cases rule: admit_caseE [of su sample_deps dv sample_invoke co s])
    case (refused s1)
    then show ?thesis using admit_none [OF refused] assms by blast
  next
    case (admitted d a s1)
    then show ?thesis using that admit_some [OF admitted] assms by (simp add: admissible_def)
  qed
  note facts = admit_some [OF ad]
  have "aa_capability a = CapabilityId HOST_SERVICE_RESTART" "aa_arguments a = JObj [(''unit'', JStr ''web'')]"
    using facts by (simp_all add: aa_capability_def command_authorization_def az_requiring_approval_def
        authorization_request_new_def sample_invoke_def)
  then have "snd (dp_executor sample_deps a h) = (fst h @ [(''restart'', ''web'')], insert ''web'' (snd h))" for h
    by (simp add: privileged_execute_def service_op_of_def get_str_def json_get_def non_blank_def trim_def sample_deps_def
        service_guardrails_def guardrail_check_def guardrail_register_def never_target_argusd_def valid_service_unit_def
        is_valid_unit_name_def DAEMON_UNIT_def mock_service_controller_def char_class_defs cap_ids ends_with_def)
  then show ?thesis
    using facts assms(2) unfolding handle_cases [OF ad]
    by (simp add: perform_command_def limiter_run_def case_prod_beta Let_def)
qed

lemma sample_handled:
  "cl_host (handle_command_invoke su sample_deps sample_delivery (Some sample_invoke) co granted_channel) = ([(''restart'', ''web'')], {''web''})"
  using sample_handled_from [OF sample_admissible] by (simp add: sample_delivery_def granted_channel_def)

theorem command_ladder_witness:
  "\<exists>d. admissible sample_deps sample_delivery sample_invoke d granted_channel"
  using command_ladder [of "\<lambda>_. []" sample_deps sample_delivery sample_invoke None granted_channel]
    sample_handled [of "\<lambda>_. []" None]
  by (auto simp: granted_channel_def)

text \<open>The surface as published at start: the registered descriptors.\<close>

lemma startup_surface:
  assumes "init_registry extra = Some r" "d \<in> set (registry_list r)"
  shows "cd_id d \<in> set bootstrap_capabilities \<Longrightarrow> d = bootstrap_descriptor (cd_id d)"
proof -
  assume boot: "cd_id d \<in> set bootstrap_capabilities"
  have wf: "registry_wf r" and get: "registry_get r c = (if c \<in> set bootstrap_capabilities then Some (bootstrap_descriptor c)
                            else map_of (map (\<lambda>d. (cd_id d, d)) extra) c)" for c
    using startup_get [OF assms(1)] by auto
  from assms(2) obtain i where "(i, d) \<in> set (cr_descriptors r)" by (auto simp: registry_list_def)
  with wf have "registry_get r i = Some d" by (simp add: registry_wf_def registry_get_def bt_wf_mem_iff)
  with wf have "cd_id d = i" by (simp add: registry_wf_def)
  with \<open>registry_get r i = Some d\<close> get boot show ?thesis by simp
qed

lemma bootstrap_service_changes: "is_service_capability c \<Longrightarrow> changes_the_host (bootstrap_descriptor c)"
  by (simp add: changes_the_host_def effective_blast_radius_def bootstrap_ratings_def)

lemma reads_route:
  "c \<in> pe_allowed bootstrap_policy \<Longrightarrow> \<not> is_service_capability c \<Longrightarrow>
   \<not> privileged_handles c \<and> \<not> remediation_handles c \<and> \<not> kubernetes_handles c"
  unfolding bootstrap_policy_def is_service_capability_def
  by (simp, elim disjE)
    (simp_all add: privileged_handles_def service_op_of_def remediation_handles_def kubernetes_handles_def
      is_mcp_capability_def cap_ids)

text \<open>
  C7. The kill switch holds: with privileged execution disabled locally, under the channel's policy
  and executor and the surface published at start - external tools included - no delivery, crash,
  settlement or approval ever changes the host, whatever the cloud sends.
\<close>

theorem kill_switch:
  assumes "init_registry extra = Some r" "dp_surface deps = registry_list r" "\<not> dp_privileged_execution deps"
    and "dp_policy deps = policy_evaluate bootstrap_policy" "dp_executor deps = composite_execute (cloud_executor p sc)"
  shows "cl_host (fold (command_step su deps) ops s) = cl_host s"
proof -
  have harmless: "snd (dp_executor deps a h) = h" if call: "admitted_call deps dv payload d a s'" for dv payload d a s' h
  proof -
    have ad: "admissible deps dv payload d s'" and cap: "aa_capability a = cd_id d"
      using call by (simp_all add: admitted_call_def)
    have "pd_outcome (policy_evaluate bootstrap_policy (command_authorization payload d)) \<noteq> Deny"
      using ad assms(4) by (auto simp: admissible_def approved_def)
    then have "locally_permitted bootstrap_policy (cd_id d)"
      using policy_outcome_iff(3) [of bootstrap_policy "command_authorization payload d"]
      by (simp add: command_authorization_def az_requiring_approval_def authorization_request_new_def)
    then have seven: "cd_id d \<in> pe_allowed bootstrap_policy" by (simp add: bootstrap_permits)
    then have "cd_id d \<in> set bootstrap_capabilities"
      by (auto simp: bootstrap_policy_def bootstrap_capabilities_def)
    with assms(1,2) admissible_in_surface [OF ad] have "d = bootstrap_descriptor (cd_id d)"
      by (intro startup_surface [of extra r d]) simp_all
    moreover have "\<not> changes_the_host d" using ad assms(3) by (simp add: admissible_def)
    ultimately have "\<not> is_service_capability (cd_id d)"
      by (metis bootstrap_service_changes)
    with seven have "\<not> privileged_handles (cd_id d) \<and> \<not> remediation_handles (cd_id d) \<and> \<not> kubernetes_handles (cd_id d)"
      by (rule reads_route)
    with cap show ?thesis
      by (simp add: assms(5) composite_execute_def cloud_executor_def bootstrap_execute_reads Let_def)
  qed
  have "cl_host (command_step su deps op s) = cl_host s" for op s
    using step_effect [of su deps op s] harmless by fastforce
  then show ?thesis by (induction ops arbitrary: s) simp_all
qed

lemma startup_plain: "init_registry [] = Some (the (init_registry []))"
  using startup_iff [of "[]"] bootstrap_distinct bootstrap_ids bootstrap_entries
  by (auto simp: entry_ok_def is_satisfied_by_iff)

definition sample_provider :: "mock_services capability_provider" where
  "sample_provider = \<lparr> cp_host_status = \<lambda>_. JNull, cp_health = \<lambda>_. JNull, cp_config = \<lambda>_. JNull, cp_plugins = \<lambda>_. JArr [] \<rparr>"

definition disabled_deps :: "mock_services command_deps" where
  "disabled_deps =
     sample_deps\<lparr> dp_surface := registry_list (the (init_registry [])), dp_privileged_execution := False,
                  dp_executor := composite_execute (cloud_executor sample_provider mock_service_controller) \<rparr>"

theorem kill_switch_witness:
  "cl_host (fold (command_step (\<lambda>_. []) disabled_deps) [Deliver sample_delivery (Some sample_invoke) None] granted_channel) = ([], {})"
  using kill_switch [OF startup_plain, of disabled_deps sample_provider mock_service_controller "\<lambda>_. []"
      "[Deliver sample_delivery (Some sample_invoke) None]" granted_channel]
  by (simp add: disabled_deps_def sample_deps_def granted_channel_def)

section \<open>Answers\<close>

lemma sent_refuse: "\<exists>x. cl_sent (refuse_command su deps dv payload co r s) = cl_sent s @ [x] \<and> rs_command_id (fst x) = ci_command_id payload"
  by (auto simp: refuse_command_def send_command_result_def record_command_audit_def put_command_def Let_def split: sum.splits)

lemma sent_report:
  "is_terminal (cm_status c) \<Longrightarrow>
   \<exists>x. cl_sent (report_stored_result c co s) = cl_sent s @ [x] \<and> rs_command_id (fst x) = cm_command_id c"
  by (auto simp: report_stored_result_def send_command_result_def is_terminal_def Let_def split: cloud_command_status.splits)

lemma sent_settle:
  "\<exists>x. cl_sent (settle_command su deps dv payload co d out s) = cl_sent s @ [x] \<and> rs_command_id (fst x) = ci_command_id payload"
  by (simp add: settle_command_def case_prod_beta Let_def) (simp add: send_command_result_def)

text \<open>Every row is filed under its own command.\<close>

definition filed :: "'h command_state \<Rightarrow> bool" where
  "filed s \<longleftrightarrow> (\<forall>i c. cl_commands s i = Some c \<longrightarrow> cm_command_id c = i)"

lemma filed_cong: "cl_commands s' = cl_commands s \<Longrightarrow> filed s' = filed s"
  by (simp add: filed_def)

lemma filed_put: "filed s \<Longrightarrow> filed (put_command ok c s)"
  by (simp add: filed_def)

lemma filed_simps [simp]:
  "filed (send_command_result i st r why co s) = filed s" "filed (record_execution_decision dv i d p s) = filed s"
  "filed (record_command_audit su dv i ca out det ev s) = filed s" "filed (report_stored_result c co s) = filed s"
  "filed (s\<lparr> cl_approvals := ap \<rparr>) = filed s" "filed (snd (perform_command deps dv a s)) = filed s"
  by (rule filed_cong; simp)+

lemma filed_refuse: "filed s \<Longrightarrow> filed (refuse_command su deps dv payload co r s)"
  by (auto simp: refuse_command_def filed_put Let_def split: sum.splits)

lemma filed_admit: "filed s \<Longrightarrow> filed (snd (admit_command su deps dv payload co s))"
proof (cases rule: admit_caseE [of su deps dv payload co s])
  case (refused s1)
  assume f: "filed s"
  from refused show ?thesis
  proof (cases rule: admit_noneE)
    case (refusal r s0)
    then have "filed s0" using f filed_cong by blast
    with refusal refused show ?thesis by (simp add: filed_refuse)
  qed (simp add: f refused)
next
  case (admitted d a s1)
  assume "filed s"
  then show ?thesis using admit_some [OF admitted] admitted by (simp add: filed_def)
qed

lemma filed_resolve: "filed s \<Longrightarrow> filed (resolve_rows written now cs s)"
  by (induction cs arbitrary: s) (simp_all add: filed_put)

lemma filed_step: "filed s \<Longrightarrow> filed (command_step su deps op s)"
proof -
  assume f: "filed s"
  have ad: "filed (snd (admit_command su deps dv payload co s))" for dv payload co by (rule filed_admit [OF f])
  show ?thesis
  proof (cases op)
    case (Deliver dv parsed co)
    show ?thesis
    proof (cases parsed)
      case (Some payload)
      show ?thesis
        using ad [of dv payload co]
        by (cases rule: admit_caseE [of su deps dv payload co s])
          (auto simp: Deliver Some handle_cases settle_command_def start_command_def case_prod_beta Let_def intro!: filed_put)
    qed (simp add: Deliver handle_command_invoke_def f)
  next
    case (CrashStarted dv payload co)
    show ?thesis
      using ad [of dv payload co] by (cases rule: admit_caseE [of su deps dv payload co s])
        (auto simp: CrashStarted start_command_def intro!: filed_put)
  next
    case (CrashPerformed dv payload co)
    show ?thesis
      using ad [of dv payload co] by (cases rule: admit_caseE [of su deps dv payload co s])
        (auto simp: CrashPerformed start_command_def intro!: filed_put)
  next
    case (Settle listing written now)
    then show ?thesis using f by (simp add: resolve_interrupted_commands_def filed_resolve split: option.split)
  qed (simp add: f)
qed

lemma filed_run: "filed s \<Longrightarrow> filed (fold (command_step su deps) ops s)"
  by (induction ops arbitrary: s) (simp_all add: filed_step)

text \<open>
  C11. Every delivery is answered: on a channel reached from an empty store, handling a well-formed
  command sends exactly one result, and it names that command - except the re-delivery of a
  command still in flight, which is suppressed, changes nothing and will be answered by the first
  delivery or by the settlement.
\<close>

theorem delivery_answered:
  assumes "cl_commands s0 = Map.empty" and "s = fold (command_step su deps) ops s0"
  shows "if dv_readable dv \<and> (\<exists>c. cl_commands s (ci_command_id payload) = Some c \<and> \<not> is_terminal (cm_status c))
         then handle_command_invoke su deps dv (Some payload) co s = s
         else \<exists>x. cl_sent (handle_command_invoke su deps dv (Some payload) co s) = cl_sent s @ [x]
                   \<and> rs_command_id (fst x) = ci_command_id payload"
proof -
  have "filed s" unfolding assms(2) by (rule filed_run) (simp add: filed_def assms(1))
  then have ids: "cl_commands s i = Some c \<Longrightarrow> cm_command_id c = i" for i c by (simp add: filed_def)
  show ?thesis
  proof (cases rule: admit_caseE [of su deps dv payload co s])
    case (admitted d a s1)
    from admit_some [OF admitted] have "\<not> (dv_readable dv \<and> cl_commands s (ci_command_id payload) \<noteq> None)" "cl_sent s1 = cl_sent s"
      by (auto simp: admissible_def)
    then show ?thesis
      using sent_settle [of su deps dv payload co d "fst (perform_command deps dv a (start_command deps dv payload d s1))"
          "snd (perform_command deps dv a (start_command deps dv payload d s1))"]
      unfolding handle_cases [OF admitted] by auto
  next
    case (refused s1)
    then show ?thesis
    proof (cases rule: admit_noneE)
      case (stored c)
      then show ?thesis using sent_report [of c co s] ids [OF stored(2)] by (simp add: handle_cases [OF refused])
    next
      case (refusal r s2)
      then show ?thesis
        using sent_refuse [of su deps dv payload co r s2] unfolding handle_cases [OF refused] by auto
    qed
  qed
qed

theorem delivery_answered_witness:
  "\<exists>x. cl_sent (handle_command_invoke (\<lambda>_. []) sample_deps sample_delivery (Some sample_invoke) None granted_channel) = [x]
     \<and> rs_command_id (fst x) = 3"
  using delivery_answered [of granted_channel granted_channel "\<lambda>_. []" sample_deps "[]" sample_delivery sample_invoke None]
  by (simp add: granted_channel_def sample_invoke_def)

section \<open>Settlement\<close>

definition interrupted_answer :: "cloud_command \<Rightarrow> command_result \<times> uuid option" where
  "interrupted_answer c =
     (\<lparr> rs_command_id = cm_command_id c, rs_status = ResFailed, rs_result = None, rs_reason = Some (interrupted_reason (cm_status c)) \<rparr>, None)"

lemma resolve_rows_sent: "cl_sent (resolve_rows written now cs s) = cl_sent s @ map interrupted_answer cs"
  by (induction cs arbitrary: s) (simp_all add: send_command_result_def put_command_def interrupted_answer_def)

lemma resolve_rows_rows:
  "\<forall>i. written i \<Longrightarrow> distinct (map cm_command_id cs) \<Longrightarrow>
   cl_commands (resolve_rows written now cs s) i =
     (case find (\<lambda>c. cm_command_id c = i) cs of
        None \<Rightarrow> cl_commands s i | Some c \<Rightarrow> Some (c\<lparr> cm_status := CmdFailed, cm_completed_at := Some now \<rparr>))"
proof (induction cs arbitrary: s)
  case (Cons c cs)
  have "find (\<lambda>x. cm_command_id x = cm_command_id c) cs = None"
    using Cons.prems by (simp add: find_None_iff) (metis image_eqI)
  with Cons show ?case by (auto split: option.split)
qed simp

text \<open>
  C12. The settlement leaves nothing open: at the start of a session, whatever deliveries and crashes
  came before, when the repository lists its rows and takes the writes, every command a crash left
  unfinished is reported failed exactly once - with the outcome unknown if it was executing -
  every finished row is kept as it was, no unfinished row remains, and nothing is run.
\<close>

theorem settlement_complete:
  assumes "cl_commands s0 = Map.empty" and "s = fold (command_step su deps) ops s0"
    and "distinct order" "dom (cl_commands s) \<subseteq> set order" "\<forall>i. written i"
    and "s' = resolve_interrupted_commands (Some order) written now s"
  shows "cl_sent s' = cl_sent s @ map interrupted_answer (unfinished order s) \<and> unfinished order s' = []
    \<and> cl_host s' = cl_host s
    \<and> (\<forall>i c. cl_commands s i = Some c \<and> is_terminal (cm_status c) \<longrightarrow> cl_commands s' i = Some c)"
proof -
  have f: "filed s" unfolding assms(2) by (rule filed_run) (simp add: filed_def assms(1))
  let ?open = "unfinished order s"
  have s': "s' = resolve_rows written now ?open s" by (simp add: assms(6) resolve_interrupted_commands_def)
  have ids: "map cm_command_id (filter_map (cl_commands s) xs) = filter (\<lambda>i. cl_commands s i \<noteq> None) xs" for xs
    using f by (induction xs) (auto simp: filed_def List.map_filter_simps)
  have "distinct (map cm_command_id (filter_map (cl_commands s) order))" unfolding ids using assms(3) by simp
  then have dist: "distinct (map cm_command_id ?open)"
    unfolding unfinished_def by (simp add: distinct_map_filter)
  have mem: "c \<in> set ?open \<longleftrightarrow> cl_commands s (cm_command_id c) = Some c \<and> \<not> is_terminal (cm_status c)" for c
  proof -
    have "(\<exists>i \<in> set order. cl_commands s i = Some c) \<longleftrightarrow> cl_commands s (cm_command_id c) = Some c"
      using f assms(4) unfolding filed_def by (metis domI subsetD)
    then show ?thesis by (simp add: unfinished_def mem_filter_map)
  qed
  note rows = resolve_rows_rows [OF assms(5) dist, of now s]
  have kept: "cl_commands s i = Some c \<Longrightarrow> is_terminal (cm_status c) \<Longrightarrow> cl_commands s' i = Some c" for i c
  proof -
    assume c: "cl_commands s i = Some c" "is_terminal (cm_status c)"
    then have "find (\<lambda>c. cm_command_id c = i) ?open = None" by (auto simp: find_None_iff mem)
    with c show ?thesis by (simp add: s' rows)
  qed
  have "is_terminal (cm_status c)" if "cl_commands s' i = Some c" for i c
  proof (cases "find (\<lambda>c. cm_command_id c = i) ?open")
    case None
    with that have c: "cl_commands s i = Some c" by (simp add: s' rows)
    with f have "cm_command_id c = i" by (simp add: filed_def)
    with None c mem [of c] show ?thesis by (auto simp: find_None_iff)
  next
    case (Some x)
    with that show ?thesis by (auto simp: s' rows is_terminal_def)
  qed
  then have "unfinished order s' = []" by (auto simp: unfinished_def filter_empty_conv mem_filter_map)
  with kept show ?thesis by (simp add: s' resolve_rows_sent resolve_rows_frame)
qed

theorem settlement_complete_witness:
  "unfinished [3] (resolve_interrupted_commands (Some [3]) (\<lambda>_. True) 5
     (fold (command_step (\<lambda>_. []) sample_deps) [CrashPerformed sample_delivery sample_invoke None] granted_channel)) = []"
proof -
  let ?s = "fold (command_step (\<lambda>_. []) sample_deps) [CrashPerformed sample_delivery sample_invoke None] granted_channel"
  have "dom (cl_commands ?s) \<subseteq> {3}"
  proof (cases rule: admit_caseE [of "\<lambda>_. []" sample_deps sample_delivery sample_invoke None granted_channel])
    case (refused s1)
    with admit_none [OF refused] sample_admissible show ?thesis by blast
  next
    case (admitted d a s1)
    with admit_some [OF admitted] show ?thesis
      by (simp add: sample_delivery_def sample_invoke_def granted_channel_def)
  qed
  then show ?thesis
    using settlement_complete [of granted_channel ?s "\<lambda>_. []" sample_deps "[CrashPerformed sample_delivery sample_invoke None]"
        "[3]" "\<lambda>_. True" _ 5, OF _ refl _ _ _ refl]
    by (simp add: granted_channel_def)
qed

section \<open>Where the code departs from its contract\<close>

text \<open>
  The idempotency check is skipped when the store cannot be read: a re-delivery of a command
  that already ran, its approval renewed, restarts the unit a second time.
\<close>

theorem unreadable_store_runs_twice:
  "let s1 = handle_command_invoke su sample_deps sample_delivery (Some sample_invoke) co granted_channel;
       s2 = handle_command_invoke su sample_deps (sample_delivery\<lparr> dv_readable := False \<rparr>) (Some sample_invoke) co
              (s1\<lparr> cl_approvals := cl_approvals granted_channel \<rparr>)
   in cl_host s1 = ([(''restart'', ''web'')], {''web''}) \<and> cl_commands s1 3 \<noteq> None
      \<and> cl_host s2 = ([(''restart'', ''web''), (''restart'', ''web'')], {''web''})"
proof -
  let ?s1 = "handle_command_invoke su sample_deps sample_delivery (Some sample_invoke) co granted_channel"
  let ?g = "?s1\<lparr> cl_approvals := cl_approvals granted_channel \<rparr>"
  have "admissible sample_deps (sample_delivery\<lparr> dv_readable := False \<rparr>) sample_invoke (bootstrap_descriptor (CapabilityId HOST_SERVICE_RESTART)) ?g"
    using sample_admissible by (simp add: admissible_def)
  from sample_handled_from [OF this, of su co] have "cl_host (handle_command_invoke su sample_deps
      (sample_delivery\<lparr> dv_readable := False \<rparr>) (Some sample_invoke) co ?g) = ([(''restart'', ''web''), (''restart'', ''web'')], {''web''})"
    using sample_handled [of su co] by (simp add: sample_delivery_def)
  moreover have "cl_commands ?s1 3 \<noteq> None"
    using step_logs [of "Deliver sample_delivery (Some sample_invoke) co" sample_deps granted_channel 3 su] sample_runs
    by (auto simp: sample_delivery_def)
  ultimately show ?thesis using sample_handled [of su co] by (simp add: Let_def)
qed

text \<open>
  A re-report of a failed command drops its reason: only a refusal's reason is stored, so the
  re-delivery of a command that timed out is answered failed without the warning to verify it.
\<close>

theorem stored_failure_loses_reason:
  assumes "cl_commands s (ci_command_id payload) = Some c" "cm_status c = CmdFailed" "cm_refusal_reason c = None" "dv_readable dv"
  shows "rs_reason (fst (last (cl_sent (handle_command_invoke su deps dv (Some payload) co s)))) = None"
  using assms by (simp add: handle_command_invoke_def admit_command_def is_terminal_def report_stored_result_def
      send_command_result_def Let_def)

end
