(* ===== verification/Self_Observability.thy ===== *)
theory Self_Observability
  imports Json
begin

text \<open>
  Self-observability (\<open>argus-observability\<close>, \<open>selfobs.rs\<close>): the bounded counters the daemon keeps
  about itself and the degradation rule that reads them. The counters are 64-bit atomics, so they
  wrap; the wall clock (milliseconds since the epoch) and the uptime are arguments.
\<close>

section \<open>Counters\<close>

record self_observability =
  so_sensors_degraded :: u64
  so_events_lagging :: u64
  so_provider_degraded :: u64
  so_executor_errors :: u64
  so_failed_validations :: u64
  so_policy_denials :: u64
  so_autonomous_actions :: u64
  so_autonomous_successes :: u64
  so_remediation_attempts :: u64
  so_remediation_successes :: u64
  so_false_positives :: u64
  so_last_processed_event_ms :: u64
  so_last_decision_at :: u64
  so_peak_backlog :: u64
  so_backlog :: u64

definition selfobs_new :: self_observability where
  "selfobs_new =
     \<lparr> so_sensors_degraded = 0, so_events_lagging = 0, so_provider_degraded = 0, so_executor_errors = 0,
       so_failed_validations = 0, so_policy_denials = 0, so_autonomous_actions = 0, so_autonomous_successes = 0,
       so_remediation_attempts = 0, so_remediation_successes = 0, so_false_positives = 0,
       so_last_processed_event_ms = 0, so_last_decision_at = 0, so_peak_backlog = 0, so_backlog = 0 \<rparr>"

definition record_sensor_degraded :: "self_observability \<Rightarrow> self_observability" where
  "record_sensor_degraded s = s\<lparr> so_sensors_degraded := so_sensors_degraded s + 1 \<rparr>"

definition record_provider_degraded :: "self_observability \<Rightarrow> self_observability" where
  "record_provider_degraded s = s\<lparr> so_provider_degraded := so_provider_degraded s + 1 \<rparr>"

definition record_executor_error :: "self_observability \<Rightarrow> self_observability" where
  "record_executor_error s = s\<lparr> so_executor_errors := so_executor_errors s + 1 \<rparr>"

definition record_failed_validation :: "self_observability \<Rightarrow> self_observability" where
  "record_failed_validation s = s\<lparr> so_failed_validations := so_failed_validations s + 1 \<rparr>"

definition record_policy_denial :: "self_observability \<Rightarrow> self_observability" where
  "record_policy_denial s = s\<lparr> so_policy_denials := so_policy_denials s + 1 \<rparr>"

definition record_false_positive :: "self_observability \<Rightarrow> self_observability" where
  "record_false_positive s = s\<lparr> so_false_positives := so_false_positives s + 1 \<rparr>"

definition record_autonomous_action :: "bool \<Rightarrow> self_observability \<Rightarrow> self_observability" where
  "record_autonomous_action success s =
     (let s1 = s\<lparr> so_autonomous_actions := so_autonomous_actions s + 1 \<rparr>
      in if success then s1\<lparr> so_autonomous_successes := so_autonomous_successes s1 + 1 \<rparr> else s1)"

definition record_remediation :: "bool \<Rightarrow> self_observability \<Rightarrow> self_observability" where
  "record_remediation success s =
     (let s1 = s\<lparr> so_remediation_attempts := so_remediation_attempts s + 1 \<rparr>
      in if success then s1\<lparr> so_remediation_successes := so_remediation_successes s1 + 1 \<rparr> else s1)"

definition record_event_processed :: "u64 \<Rightarrow> self_observability \<Rightarrow> self_observability" where
  "record_event_processed now s = s\<lparr> so_last_processed_event_ms := now \<rparr>"

definition record_decision_completed :: "u64 \<Rightarrow> self_observability \<Rightarrow> self_observability" where
  "record_decision_completed now s = s\<lparr> so_last_decision_at := now \<rparr>"

text \<open>The watermark 0 means that nothing has been recorded yet.\<close>

definition lag_since :: "u64 \<Rightarrow> u64 \<Rightarrow> u64 option" where
  "lag_since now ms = (if ms = 0 then None else Some (sat_sub now ms))"

definition decision_lag_ms :: "u64 \<Rightarrow> self_observability \<Rightarrow> u64 option" where
  "decision_lag_ms now s = lag_since now (so_last_decision_at s)"

text \<open>The backlog is read and added to as a signed number, and stored back clamped at zero.\<close>

definition backload_apply :: "64 word \<Rightarrow> self_observability \<Rightarrow> u64 \<times> self_observability" where
  "backload_apply delta s =
     (let sum = so_backlog s + delta; next = (if sint sum < 0 then 0 else sum)
      in (next, s\<lparr> so_backlog := next \<rparr>))"

definition record_backlog_delta :: "64 word \<Rightarrow> self_observability \<Rightarrow> self_observability" where
  "record_backlog_delta delta s =
     (let (current, s1) = backload_apply delta s
      in if so_peak_backlog s1 < current then s1\<lparr> so_peak_backlog := current \<rparr> else s1)"

section \<open>The snapshot and the degradation rule\<close>

datatype safe_mode = SafeNone | StaleInputs | ExecutionSuspended

record self_health =
  sh_uptime_seconds :: u64
  sh_sensors_degraded :: u64
  sh_events_lagging :: u64
  sh_provider_degraded :: u64
  sh_executor_errors :: u64
  sh_failed_validations :: u64
  sh_policy_denials :: u64
  sh_autonomous_actions :: u64
  sh_autonomous_successes :: u64
  sh_remediation_attempts :: u64
  sh_remediation_successes :: u64
  sh_false_positives :: u64
  sh_peak_backlog :: u64
  sh_backlog :: u64
  sh_event_lag_ms :: "u64 option"

record degradation_thresholds =
  dt_max_event_lag :: duration
  dt_max_executor_errors :: u64
  dt_max_failed_validations :: u64

definition thresholds_default :: degradation_thresholds where
  "thresholds_default =
     \<lparr> dt_max_event_lag = seconds 300, dt_max_executor_errors = 5, dt_max_failed_validations = 3 \<rparr>"

definition snapshot :: "u64 \<Rightarrow> u64 \<Rightarrow> self_observability \<Rightarrow> self_health" where
  "snapshot uptime now s =
     \<lparr> sh_uptime_seconds = uptime, sh_sensors_degraded = so_sensors_degraded s, sh_events_lagging = so_events_lagging s,
       sh_provider_degraded = so_provider_degraded s, sh_executor_errors = so_executor_errors s,
       sh_failed_validations = so_failed_validations s, sh_policy_denials = so_policy_denials s,
       sh_autonomous_actions = so_autonomous_actions s, sh_autonomous_successes = so_autonomous_successes s,
       sh_remediation_attempts = so_remediation_attempts s, sh_remediation_successes = so_remediation_successes s,
       sh_false_positives = so_false_positives s, sh_peak_backlog = so_peak_backlog s, sh_backlog = so_backlog s,
       sh_event_lag_ms = lag_since now (so_last_processed_event_ms s) \<rparr>"

definition lag_exceeds :: "duration \<Rightarrow> u64 option \<Rightarrow> bool" where
  "lag_exceeds bound lag = (case lag of None \<Rightarrow> False | Some ms \<Rightarrow> bound < int (unat ms) * 1000000)"

text \<open>
  The rule as the sentinel and the brain apply it to a snapshot (\<open>sentinel.rs\<close>), and as the
  counters apply it to themselves.
\<close>

definition safe_mode_from :: "self_health \<Rightarrow> degradation_thresholds \<Rightarrow> safe_mode" where
  "safe_mode_from health t =
     (if dt_max_executor_errors t < sh_executor_errors health \<or> dt_max_failed_validations t < sh_failed_validations health
      then ExecutionSuspended
      else if lag_exceeds (dt_max_event_lag t) (sh_event_lag_ms health) then StaleInputs
      else SafeNone)"

definition selfobs_safe_mode :: "u64 \<Rightarrow> u64 \<Rightarrow> degradation_thresholds \<Rightarrow> self_observability \<Rightarrow> safe_mode" where
  "selfobs_safe_mode uptime now t s =
     (let snap = snapshot uptime now s
      in if dt_max_executor_errors t < sh_executor_errors snap \<or> dt_max_failed_validations t < sh_failed_validations snap
         then ExecutionSuspended
         else if lag_exceeds (dt_max_event_lag t) (sh_event_lag_ms snap) then StaleInputs
         else SafeNone)"

text \<open>The success ratios: the two counters are converted to \<open>f64\<close> and divided.\<close>

definition rate :: "u64 \<Rightarrow> u64 \<Rightarrow> rat option" where
  "rate attempts successes =
     (if attempts = 0 then None
      else Some (to_f64 (to_f64 (of_nat (unat successes)) / to_f64 (of_nat (unat attempts)))))"

definition autonomous_success_rate :: "self_observability \<Rightarrow> rat option" where
  "autonomous_success_rate s = rate (so_autonomous_actions s) (so_autonomous_successes s)"

definition remediation_success_rate :: "self_observability \<Rightarrow> rat option" where
  "remediation_success_rate s = rate (so_remediation_attempts s) (so_remediation_successes s)"

definition false_positive_ratio :: "self_observability \<Rightarrow> rat option" where
  "false_positive_ratio s = rate (so_autonomous_actions s) (so_false_positives s)"

lemmas record_defs = record_sensor_degraded_def record_provider_degraded_def record_executor_error_def
  record_failed_validation_def record_policy_denial_def record_false_positive_def record_autonomous_action_def
  record_remediation_def record_event_processed_def record_decision_completed_def record_backlog_delta_def
  backload_apply_def

section \<open>Histories\<close>

datatype obs_op =
    SensorDegraded
  | ProviderDegraded
  | ExecutorError
  | FailedValidationOp
  | PolicyDenial
  | FalsePositive
  | AutonomousAction bool
  | Remediation bool
  | EventProcessed u64
  | DecisionCompleted u64
  | BacklogDelta "64 word"

fun obs_step :: "obs_op \<Rightarrow> self_observability \<Rightarrow> self_observability" where
  "obs_step SensorDegraded = record_sensor_degraded"
| "obs_step ProviderDegraded = record_provider_degraded"
| "obs_step ExecutorError = record_executor_error"
| "obs_step FailedValidationOp = record_failed_validation"
| "obs_step PolicyDenial = record_policy_denial"
| "obs_step FalsePositive = record_false_positive"
| "obs_step (AutonomousAction ok) = record_autonomous_action ok"
| "obs_step (Remediation ok) = record_remediation ok"
| "obs_step (EventProcessed now) = record_event_processed now"
| "obs_step (DecisionCompleted now) = record_decision_completed now"
| "obs_step (BacklogDelta d) = record_backlog_delta d"

abbreviation obs_run :: "obs_op list \<Rightarrow> self_observability \<Rightarrow> self_observability" where
  "obs_run ops s \<equiv> fold obs_step ops s"

text \<open>Every counter only grows, and the successes never pass the attempts.\<close>

lemma unat_inc: "unat (x :: u64) + 1 < 2 ^ 64 \<Longrightarrow> unat (x + 1) = Suc (unat x)"
  by (simp add: unat_word_ariths)

lemma executor_errors_run:
  "unat (so_executor_errors s) + length ops < 2 ^ 64 \<Longrightarrow>
   unat (so_executor_errors (obs_run ops s)) = unat (so_executor_errors s) + count_list ops ExecutorError"
proof (induction ops arbitrary: s)
  case Nil
  then show ?case by simp
next
  case (Cons op ops)
  have "unat (so_executor_errors (obs_step op s)) = unat (so_executor_errors s) + (if op = ExecutorError then 1 else 0)"
    using Cons.prems by (cases op) (simp_all add: record_defs Let_def unat_inc)
  with Cons show ?case by simp
qed

lemma failed_validations_run:
  "unat (so_failed_validations s) + length ops < 2 ^ 64 \<Longrightarrow>
   unat (so_failed_validations (obs_run ops s)) = unat (so_failed_validations s) + count_list ops FailedValidationOp"
proof (induction ops arbitrary: s)
  case Nil
  then show ?case by simp
next
  case (Cons op ops)
  have "unat (so_failed_validations (obs_step op s)) =
      unat (so_failed_validations s) + (if op = FailedValidationOp then 1 else 0)"
    using Cons.prems by (cases op) (simp_all add: record_defs Let_def unat_inc)
  with Cons show ?case by simp
qed

lemma safe_mode_from_snapshot [simp]:
  "safe_mode_from (snapshot uptime now s) t = selfobs_safe_mode uptime now t s"
  by (simp add: safe_mode_from_def selfobs_safe_mode_def)

lemma suspended_iff:
  "selfobs_safe_mode uptime now t s = ExecutionSuspended \<longleftrightarrow>
     dt_max_executor_errors t < so_executor_errors s \<or> dt_max_failed_validations t < so_failed_validations s"
  by (simp add: selfobs_safe_mode_def snapshot_def Let_def)

lemma stale_iff:
  "selfobs_safe_mode uptime now t s = StaleInputs \<longleftrightarrow>
     \<not> dt_max_executor_errors t < so_executor_errors s \<and> \<not> dt_max_failed_validations t < so_failed_validations s
     \<and> so_last_processed_event_ms s \<noteq> 0
     \<and> dt_max_event_lag t < int (unat now - unat (so_last_processed_event_ms s)) * 1000000"
  by (simp add: selfobs_safe_mode_def snapshot_def Let_def lag_since_def lag_exceeds_def unat_sat_sub)

definition obs_wf :: "self_observability \<Rightarrow> bool" where
  "obs_wf s \<longleftrightarrow> so_autonomous_successes s \<le> so_autonomous_actions s
     \<and> so_remediation_successes s \<le> so_remediation_attempts s
     \<and> so_backlog s \<le> so_peak_backlog s \<and> 0 \<le> sint (so_backlog s)"

abbreviation headroom :: "nat \<Rightarrow> nat \<Rightarrow> self_observability \<Rightarrow> bool" where
  "headroom cap n s \<equiv> unat (so_autonomous_actions s) + n < cap \<and> unat (so_remediation_attempts s) + n < cap"

lemma obs_wf_step:
  assumes "obs_wf s" "headroom (2 ^ 64) 1 s"
  shows "obs_wf (obs_step op s)"
proof -
  have succ: "x \<le> y \<Longrightarrow> unat (y :: u64) + 1 < 2 ^ 64 \<Longrightarrow> x + 1 \<le> y + 1 \<and> x \<le> y + 1" for x y :: u64
    by (simp add: word_le_nat_alt unat_word_ariths)
  show ?thesis
    using assms succ by (cases op) (auto simp: obs_wf_def record_defs Let_def not_less)
qed

lemma headroom_step: "cap \<le> 2 ^ 64 \<Longrightarrow> headroom cap (Suc n) s \<Longrightarrow> headroom cap n (obs_step op s)"
  by (cases op) (auto simp: record_defs Let_def unat_inc)

lemma obs_wf_run:
  "obs_wf s \<Longrightarrow> cap \<le> 2 ^ 64 \<Longrightarrow> headroom cap (length ops) s \<Longrightarrow>
   obs_wf (obs_run ops s) \<and> headroom cap 0 (obs_run ops s)"
proof (induction ops arbitrary: s)
  case Nil
  then show ?case by simp
next
  case (Cons op ops)
  have "obs_wf (obs_step op s)" using Cons.prems by (intro obs_wf_step) auto
  moreover have "headroom cap (length ops) (obs_step op s)" using Cons.prems by (intro headroom_step) simp_all
  ultimately show ?case using Cons.IH Cons.prems(2) by simp
qed

lemma rate_unit:
  assumes "b \<le> a" "unat a < 2 ^ 53"
  shows "pred_option (\<lambda>r. 0 \<le> r \<and> r \<le> 1) (rate a b)"
proof -
  have "unat b \<le> unat a" using assms(1) by (simp add: word_le_nat_alt)
  then have exact: "to_f64 (of_nat (unat b)) = of_nat (unat b)" "to_f64 (of_nat (unat a)) = of_nat (unat a)"
    using assms(2) round_float_of_nat [of "unat b" 52 1022] round_float_of_nat [of "unat a" 52 1022] by simp_all
  have unit: "n \<le> m \<Longrightarrow> 0 \<le> (of_nat n / of_nat m :: rat) \<and> of_nat n / of_nat m \<le> (1 :: rat)" for n m :: nat
    by (cases m) (simp_all add: divide_le_eq_1)
  have "0 \<le> (of_nat (unat b) / of_nat (unat a) :: rat) \<and> of_nat (unat b) / of_nat (unat a) \<le> (1 :: rat)"
    using \<open>unat b \<le> unat a\<close> by (rule unit)
  then show ?thesis unfolding rate_def exact by (simp add: round_float_unit)
qed

text \<open>
  The counters account for every history: from a fresh start, the error counters are the numbers
  of errors and failed validations recorded, the ratios are within the unit interval, the backlog
  never passes its peak, and the safe mode follows: execution is suspended exactly when one of
  the two numbers has passed its threshold, whatever else was recorded.
\<close>

theorem counters_account_for_history:
  assumes "length ops < 2 ^ 53" "s = obs_run ops selfobs_new"
  shows "unat (so_executor_errors s) = count_list ops ExecutorError
    \<and> unat (so_failed_validations s) = count_list ops FailedValidationOp
    \<and> so_backlog s \<le> so_peak_backlog s
    \<and> pred_option (\<lambda>r. 0 \<le> r \<and> r \<le> 1) (autonomous_success_rate s)
    \<and> pred_option (\<lambda>r. 0 \<le> r \<and> r \<le> 1) (remediation_success_rate s)
    \<and> (selfobs_safe_mode uptime now t s = ExecutionSuspended \<longleftrightarrow>
         unat (dt_max_executor_errors t) < count_list ops ExecutorError
         \<or> unat (dt_max_failed_validations t) < count_list ops FailedValidationOp)"
proof -
  have errors: "unat (so_executor_errors s) = count_list ops ExecutorError"
    "unat (so_failed_validations s) = count_list ops FailedValidationOp"
    using assms executor_errors_run [of selfobs_new ops] failed_validations_run [of selfobs_new ops]
    by (simp_all add: selfobs_new_def)
  have "obs_wf selfobs_new" by (simp add: obs_wf_def selfobs_new_def)
  then have wf: "obs_wf s" and small: "headroom (2 ^ 53) 0 s"
    unfolding assms(2) using assms(1) obs_wf_run [of selfobs_new "2 ^ 53" ops] by (simp_all add: selfobs_new_def)
  show ?thesis
    using errors wf small
    by (simp add: rate_unit suspended_iff word_less_nat_alt obs_wf_def autonomous_success_rate_def remediation_success_rate_def)
qed

theorem counters_account_for_history_witness:
  "selfobs_safe_mode 0 0 thresholds_default
     (obs_run [ExecutorError, ExecutorError, ExecutorError, ExecutorError, ExecutorError, ExecutorError, Remediation True] selfobs_new) = ExecutionSuspended"
  using counters_account_for_history
    [of "[ExecutorError, ExecutorError, ExecutorError, ExecutorError, ExecutorError, ExecutorError, Remediation True]" _ 0 0 thresholds_default, OF _ refl]
  by (simp add: thresholds_default_def)

text \<open>
  The suspension is permanent: the threshold is documented as a number of consecutive executor
  errors, but no operation ever lowers the counter, so a daemon that has once passed it stays
  suspended for the rest of its life, however many remediations succeed.
\<close>

theorem suspension_is_permanent:
  assumes "selfobs_safe_mode uptime now t s = ExecutionSuspended"
    and "unat (so_executor_errors s) + length ops < 2 ^ 64" "unat (so_failed_validations s) + length ops < 2 ^ 64"
  shows "selfobs_safe_mode uptime' now' t (obs_run ops s) = ExecutionSuspended"
  using assms executor_errors_run [of s ops] failed_validations_run [of s ops]
  by (auto simp: suspended_iff word_less_nat_alt)

end
