(* ===== verification/Runbooks.thy ===== *)
theory Runbooks
  imports Identifiers Key_Maps "HOL-Library.Sublist"
begin

text \<open>
  Declarative runbooks (\<open>argus-runbooks\<close>): typed criteria (\<open>criterion.rs\<close>), the runbook and its
  attempt history (\<open>runbook.rs\<close>), the promotion ladder (\<open>promotion.rs\<close>), the library keyed by
  identifier (\<open>library.rs\<close>) and the loader that replays declared gates (\<open>loader.rs\<close>). The TOML
  parser is a parameter: a document is given as the result of parsing it. Errors keep the case of
  the source and its data; only their prose is left out. The library is a hash map in the source;
  it is held here in key order, and the lemmas show that no answer depends on an order, because
  names are unique.
\<close>

section \<open>Criteria\<close>

definition float_less :: "float_val \<Rightarrow> float_val \<Rightarrow> bool" where
  "float_less a b = (float_ge b a \<and> \<not> float_ge a b)"

datatype reading = ReadingNumber float_val | ReadingState string

datatype comparison =
    LessThan float_val
  | AtMost float_val
  | AtLeast float_val
  | GreaterThan float_val
  | EqualTo string

fun comparison_holds :: "comparison \<Rightarrow> reading \<Rightarrow> bool" where
  "comparison_holds (LessThan bound) (ReadingNumber v) = float_less v bound"
| "comparison_holds (AtMost bound) (ReadingNumber v) = float_ge bound v"
| "comparison_holds (AtLeast bound) (ReadingNumber v) = float_ge v bound"
| "comparison_holds (GreaterThan bound) (ReadingNumber v) = float_less bound v"
| "comparison_holds (EqualTo expected) (ReadingState v) = (v = expected)"
| "comparison_holds _ _ = False"

record criterion =
  cr_description :: string
  cr_attribute :: string
  cr_comparison :: comparison

text \<open>A missing attribute fails the criterion; the first reading of an attribute counts.\<close>

definition criterion_satisfied :: "criterion \<Rightarrow> (string \<times> reading) list \<Rightarrow> bool" where
  "criterion_satisfied c readings =
     (case find (\<lambda>(attribute, _). attribute = cr_attribute c) readings of
        None \<Rightarrow> False | Some (_, v) \<Rightarrow> comparison_holds (cr_comparison c) v)"

section \<open>Runbooks\<close>

datatype runbook_status = RbCandidate | RbApproved | RbPromoted

datatype runbook_trigger = Symptom string | Signal string | Manual

datatype evidence_kind =
  EvMetrics | EvProcess | EvService | EvContainer | EvCgroup | EvKubernetes | EvLogs | EvChangeRecord

record investigation_step =
  is_description :: string
  is_evidence :: evidence_kind

datatype gate = GateEvaluation | GateSimulation | GateValidation | GatePolicy | GateApproval | GatePromotion

record runbook =
  rb_id :: uuid
  rb_name :: string
  rb_trigger :: runbook_trigger
  rb_required_evidence :: "evidence_kind list"
  rb_investigation_steps :: "investigation_step list"
  rb_decision_criteria :: "criterion list"
  rb_allowed_actions :: "capability_id list"
  rb_rollback :: "capability_id list"
  rb_validation :: "criterion list"
  rb_status :: runbook_status
  rb_gates :: "gate list"
  rb_attempts :: u32
  rb_successes :: u32

definition runbook_candidate ::
  "uuid \<Rightarrow> string \<Rightarrow> runbook_trigger \<Rightarrow> evidence_kind list \<Rightarrow> investigation_step list \<Rightarrow> criterion list \<Rightarrow>
   capability_id list \<Rightarrow> capability_id list \<Rightarrow> criterion list \<Rightarrow> runbook" where
  "runbook_candidate i name trigger required steps criteria allowed rollback validation =
     \<lparr> rb_id = i, rb_name = name, rb_trigger = trigger, rb_required_evidence = required,
       rb_investigation_steps = steps, rb_decision_criteria = criteria, rb_allowed_actions = allowed,
       rb_rollback = rollback, rb_validation = validation, rb_status = RbCandidate, rb_gates = [],
       rb_attempts = 0, rb_successes = 0 \<rparr>"

definition matches_trigger :: "runbook \<Rightarrow> runbook_trigger \<Rightarrow> bool" where
  "matches_trigger r trigger = (rb_trigger r = trigger)"

definition allows_candidate :: "runbook \<Rightarrow> capability_id \<Rightarrow> bool" where
  "allows_candidate r c = (c \<in> set (rb_allowed_actions r))"

text \<open>The two counters are converted to \<open>f32\<close> and divided.\<close>

definition historical_success_rate :: "runbook \<Rightarrow> rat option" where
  "historical_success_rate r =
     (if rb_attempts r = 0 then None
      else Some (to_f32 (to_f32 (of_nat (unat (rb_successes r))) / to_f32 (of_nat (unat (rb_attempts r))))))"

definition runbook_record_outcome :: "bool \<Rightarrow> runbook \<Rightarrow> runbook" where
  "runbook_record_outcome success r =
     (let r1 = r\<lparr> rb_attempts := rb_attempts r + 1 \<rparr>
      in if success then r1\<lparr> rb_successes := rb_successes r1 + 1 \<rparr> else r1)"

section \<open>The promotion ladder\<close>

definition LADDER :: "gate list" where
  "LADDER = [GateEvaluation, GateSimulation, GateValidation, GatePolicy, GateApproval, GatePromotion]"

datatype gate_error = OutOfOrder | PrerequisitesMissing

datatype promotion_error =
    NotReadyForApproval
  | NotApproved
  | AlreadyInStatus runbook_status
  | GateRefused gate_error

definition record_gate :: "gate \<Rightarrow> runbook \<Rightarrow> gate_error + runbook" where
  "record_gate g r =
     (let expected = (if length (rb_gates r) < length LADDER then LADDER ! length (rb_gates r) else GatePromotion)
      in if g \<noteq> expected then Inl OutOfOrder else Inr (r\<lparr> rb_gates := rb_gates r @ [g] \<rparr>))"

definition has_reached :: "gate \<Rightarrow> runbook \<Rightarrow> bool" where
  "has_reached g r = (length (takeWhile (\<lambda>x. x \<noteq> g) LADDER) \<le> length (rb_gates r))"

definition approve :: "runbook \<Rightarrow> promotion_error + runbook" where
  "approve r =
     (if rb_status r \<noteq> RbCandidate then Inl (AlreadyInStatus (rb_status r))
      else if \<not> has_reached GatePolicy r then Inl NotReadyForApproval
      else case record_gate GateApproval r of
             Inl e \<Rightarrow> Inl (GateRefused e)
           | Inr r' \<Rightarrow> Inr (r'\<lparr> rb_status := RbApproved \<rparr>))"

definition promote :: "runbook \<Rightarrow> promotion_error + runbook" where
  "promote r =
     (if rb_status r = RbPromoted then Inl (AlreadyInStatus (rb_status r))
      else if rb_status r \<noteq> RbApproved then Inl NotApproved
      else case record_gate GatePromotion r of
             Inl e \<Rightarrow> Inl (GateRefused e)
           | Inr r' \<Rightarrow> Inr (r'\<lparr> rb_status := RbPromoted \<rparr>))"

section \<open>The library\<close>

type_synonym runbook_library = "(uuid, runbook) btree"

datatype library_error = NameTaken string uuid

definition library_values :: "runbook_library \<Rightarrow> runbook list" where
  "library_values lib = map snd lib"

definition library_register :: "runbook \<Rightarrow> runbook_library \<Rightarrow> library_error + runbook_library" where
  "library_register r lib =
     (case find (\<lambda>x. rb_name x = rb_name r \<and> rb_id x \<noteq> rb_id r) (library_values lib) of
        Some existing \<Rightarrow> Inl (NameTaken (rb_name r) (rb_id existing))
      | None \<Rightarrow> Inr (bt_insert (rb_id r) r lib))"

definition library_get :: "uuid \<Rightarrow> runbook_library \<Rightarrow> runbook option" where
  "library_get i lib = map_of lib i"

definition library_by_name :: "string \<Rightarrow> runbook_library \<Rightarrow> runbook option" where
  "library_by_name name lib = find (\<lambda>r. rb_name r = name) (library_values lib)"

definition library_remove :: "string \<Rightarrow> runbook_library \<Rightarrow> bool \<times> runbook_library" where
  "library_remove name lib =
     (case find (\<lambda>r. rb_name r = name) (library_values lib) of
        Some r \<Rightarrow> (map_of lib (rb_id r) \<noteq> None, bt_remove (rb_id r) lib)
      | None \<Rightarrow> (False, lib))"

text \<open>\<open>by_name_mut\<close>: the entry found by name is replaced by its update, under the same key.\<close>

fun library_update :: "string \<Rightarrow> (runbook \<Rightarrow> runbook) \<Rightarrow> runbook_library \<Rightarrow> runbook_library" where
  "library_update name f [] = []"
| "library_update name f ((i, r) # lib) =
     (if rb_name r = name then (i, f r) # lib else (i, r) # library_update name f lib)"

definition library_list :: "runbook_library \<Rightarrow> runbook list" where
  "library_list lib = sort_key rb_name (library_values lib)"

definition library_matching :: "runbook_trigger \<Rightarrow> runbook_library \<Rightarrow> runbook list" where
  "library_matching trigger lib = sort_key rb_name (filter (\<lambda>r. matches_trigger r trigger) (library_values lib))"

definition library_by_status :: "runbook_status \<Rightarrow> runbook_library \<Rightarrow> runbook list" where
  "library_by_status status lib = sort_key rb_name (filter (\<lambda>r. rb_status r = status) (library_values lib))"

definition library_promotable :: "runbook_trigger \<Rightarrow> runbook_library \<Rightarrow> runbook list" where
  "library_promotable trigger lib = filter (\<lambda>r. rb_status r = RbPromoted) (library_matching trigger lib)"

section \<open>The loader\<close>

record runbook_file =
  rf_name :: string
  rf_trigger :: runbook_trigger
  rf_required_evidence :: "evidence_kind list"
  rf_investigation_steps :: "investigation_step list"
  rf_decision_criteria :: "criterion list"
  rf_allowed_actions :: "string list"
  rf_rollback :: "string list"
  rf_validation :: "criterion list"
  rf_gates :: "gate list"

datatype load_error =
    Unreadable string
  | InvalidFile string
  | BlankName
  | InvalidCapability string domain_error
  | ApprovalNotEarned promotion_error
  | PromotionNotEarned promotion_error
  | LadderViolated gate_error
  | NameCollision library_error

fun parse_capabilities :: "string list \<Rightarrow> load_error + capability_id list" where
  "parse_capabilities [] = Inr []"
| "parse_capabilities (c # cs) =
     (case capability_id_new c of
        Inl e \<Rightarrow> Inl (InvalidCapability c e)
      | Inr cap \<Rightarrow> (case parse_capabilities cs of Inl e \<Rightarrow> Inl e | Inr caps \<Rightarrow> Inr (cap # caps)))"

definition replay_gate :: "gate \<Rightarrow> runbook \<Rightarrow> load_error + runbook" where
  "replay_gate g r =
     (if g = GateApproval then map_err ApprovalNotEarned (approve r)
      else if g = GatePromotion then map_err PromotionNotEarned (promote r)
      else map_err LadderViolated (record_gate g r))"

fun replay_gates :: "gate list \<Rightarrow> runbook \<Rightarrow> load_error + runbook" where
  "replay_gates [] r = Inr r"
| "replay_gates (g # gs) r = (case replay_gate g r of Inl e \<Rightarrow> Inl e | Inr r' \<Rightarrow> replay_gates gs r')"

definition parse_file :: "uuid \<Rightarrow> runbook_file \<Rightarrow> load_error + runbook" where
  "parse_file i file =
     (if trim (rf_name file) = [] then Inl BlankName
      else case parse_capabilities (rf_allowed_actions file) of Inl e \<Rightarrow> Inl e
      | Inr allowed \<Rightarrow>
          (case parse_capabilities (rf_rollback file) of Inl e \<Rightarrow> Inl e
           | Inr rollback \<Rightarrow>
               replay_gates (rf_gates file)
                 (runbook_candidate i (rf_name file) (rf_trigger file) (rf_required_evidence file)
                    (rf_investigation_steps file) (rf_decision_criteria file) allowed rollback (rf_validation file))))"

text \<open>\<open>toml\<close> stands for \<open>toml::from_str\<close>.\<close>

definition parse_runbook :: "(string \<Rightarrow> string + runbook_file) \<Rightarrow> uuid \<Rightarrow> string \<Rightarrow> load_error + runbook" where
  "parse_runbook toml i text =
     (case toml text of Inl e \<Rightarrow> Inl (InvalidFile e) | Inr file \<Rightarrow> parse_file i file)"

record load_result =
  lr_library :: runbook_library
  lr_skipped :: "(string \<times> load_error) list"

text \<open>One directory entry: its path, the identifier drawn for it and the text or the read error.\<close>

definition load_one :: "(string \<Rightarrow> string + runbook_file) \<Rightarrow> string \<times> uuid \<times> (string + string) \<Rightarrow> load_result \<Rightarrow> load_result" where
  "load_one toml entry res =
     (case entry of (path, i, contents) \<Rightarrow>
        (case (case contents of Inl e \<Rightarrow> Inl (Unreadable e) | Inr text \<Rightarrow> parse_runbook toml i text) of
           Inl e \<Rightarrow> res\<lparr> lr_skipped := lr_skipped res @ [(path, e)] \<rparr>
         | Inr r \<Rightarrow>
             (case library_register r (lr_library res) of
                Inl e \<Rightarrow> res\<lparr> lr_skipped := lr_skipped res @ [(path, NameCollision e)] \<rparr>
              | Inr lib \<Rightarrow> res\<lparr> lr_library := lib \<rparr>)))"

text \<open>\<open>None\<close> is a missing directory; the entries are those with the extension \<open>toml\<close>.\<close>

definition load_runbooks ::
  "(string \<Rightarrow> string + runbook_file) \<Rightarrow> (string \<times> uuid \<times> (string + string)) list option \<Rightarrow> load_result" where
  "load_runbooks toml entries =
     (let empty = \<lparr> lr_library = [], lr_skipped = [] \<rparr>
      in case entries of None \<Rightarrow> empty
         | Some es \<Rightarrow> fold (load_one toml) (sort_key fst es) empty)"

section \<open>The ladder is climbed in order\<close>

text \<open>
  What every runbook of the daemon satisfies: its gates are an initial part of the ladder, and
  its status says exactly how far the operator's two gates have been passed.
\<close>

definition ladder_ok :: "runbook \<Rightarrow> bool" where
  "ladder_ok r \<longleftrightarrow> rb_gates r = take (length (rb_gates r)) LADDER
     \<and> (case rb_status r of
          RbCandidate \<Rightarrow> length (rb_gates r) \<le> 4
        | RbApproved \<Rightarrow> length (rb_gates r) = 5
        | RbPromoted \<Rightarrow> length (rb_gates r) = 6)"

definition technical :: "gate \<Rightarrow> bool" where
  "technical g \<longleftrightarrow> g \<noteq> GateApproval \<and> g \<noteq> GatePromotion"

lemma ladder_candidate [simp]: "ladder_ok (runbook_candidate i name t req steps crit allowed rollback v)"
  by (simp add: ladder_ok_def runbook_candidate_def)

lemma take_LADDER_Suc: "n < 6 \<Longrightarrow> take (Suc n) LADDER = take n LADDER @ [LADDER ! n]"
  by (rule take_Suc_conv_app_nth) (simp add: LADDER_def)

lemma length_LADDER [simp]: "length LADDER = 6"
  by (simp add: LADDER_def)

lemma LADDER_nth:
  "LADDER ! 0 = GateEvaluation" "LADDER ! Suc 0 = GateSimulation" "LADDER ! 2 = GateValidation"
  "LADDER ! 3 = GatePolicy" "LADDER ! 4 = GateApproval" "LADDER ! 5 = GatePromotion"
  by (simp_all add: LADDER_def)

lemma less_6_cases: "n < (6 :: nat) \<Longrightarrow> n = 0 \<or> n = Suc 0 \<or> n = 2 \<or> n = 3 \<or> n = 4 \<or> n = 5"
  by linarith

lemma ladder_length: "ladder_ok r \<Longrightarrow> length (rb_gates r) \<le> 6"
  by (auto simp: ladder_ok_def split: runbook_status.splits)

lemma technical_nth: "n < 6 \<Longrightarrow> technical (LADDER ! n) \<longleftrightarrow> n < 4"
  by (drule less_6_cases) (auto simp: LADDER_nth technical_def)

lemma record_gate_iff:
  "record_gate g r = Inr r' \<longleftrightarrow>
     g = (if length (rb_gates r) < 6 then LADDER ! length (rb_gates r) else GatePromotion)
     \<and> r' = r\<lparr> rb_gates := rb_gates r @ [g] \<rparr>"
  by (auto simp: record_gate_def Let_def)

lemma record_gate_ladder:
  assumes "record_gate g r = Inr r'" "technical g" "ladder_ok r"
  shows "ladder_ok r' \<and> rb_status r = RbCandidate \<and> g = LADDER ! length (rb_gates r) \<and> length (rb_gates r) < 4"
proof -
  have r': "r' = r\<lparr> rb_gates := rb_gates r @ [g] \<rparr>"
    and g: "g = (if length (rb_gates r) < 6 then LADDER ! length (rb_gates r) else GatePromotion)"
    using assms(1) by (simp_all add: record_gate_iff)
  have lt6: "length (rb_gates r) < 6"
  proof (rule ccontr)
    assume "\<not> length (rb_gates r) < 6"
    then show False using g assms(2) by (simp add: technical_def)
  qed
  with g assms(2) have lt: "length (rb_gates r) < 4" by (simp add: technical_nth)
  then have "rb_status r = RbCandidate"
    using assms(3) by (auto simp: ladder_ok_def split: runbook_status.splits)
  with lt lt6 g assms(3) show ?thesis
    by (simp add: ladder_ok_def r' take_LADDER_Suc)
qed

lemma approve_ladder:
  assumes "approve r = Inr r'" "ladder_ok r"
  shows "ladder_ok r' \<and> rb_status r = RbCandidate \<and> rb_status r' = RbApproved
    \<and> rb_gates r = take 4 LADDER \<and> rb_gates r' = take 5 LADDER"
proof -
  obtain q where q: "record_gate GateApproval r = Inr q" and r': "r' = q\<lparr> rb_status := RbApproved \<rparr>"
    and cand: "rb_status r = RbCandidate"
    using assms(1) by (auto simp: approve_def split: if_splits sum.splits)
  have le: "length (rb_gates r) \<le> 4" and pre: "rb_gates r = take (length (rb_gates r)) LADDER"
    using assms(2) cand by (simp_all add: ladder_ok_def)
  have "LADDER ! length (rb_gates r) = GateApproval" and q': "q = r\<lparr> rb_gates := rb_gates r @ [GateApproval] \<rparr>"
    using q le by (auto simp: record_gate_iff)
  then have "length (rb_gates r) = 4"
    using le technical_nth [of "length (rb_gates r)"] by (auto simp: technical_def)
  then show ?thesis
    using pre cand take_LADDER_Suc [of 4] by (simp add: ladder_ok_def r' q' LADDER_nth)
qed

lemma promote_ladder:
  assumes "promote r = Inr r'" "ladder_ok r"
  shows "ladder_ok r' \<and> rb_status r = RbApproved \<and> rb_status r' = RbPromoted \<and> rb_gates r' = LADDER"
proof -
  obtain q where q: "record_gate GatePromotion r = Inr q" and r': "r' = q\<lparr> rb_status := RbPromoted \<rparr>"
    and st: "rb_status r = RbApproved"
    using assms(1) by (auto simp: promote_def split: if_splits sum.splits)
  have "length (rb_gates r) = 5" "rb_gates r = take 5 LADDER"
    using assms(2) st by (auto simp: ladder_ok_def)
  then show ?thesis
    using q st take_LADDER_Suc [of 5] by (simp add: ladder_ok_def r' record_gate_iff LADDER_nth)
qed

lemma outcome_fields [simp]:
  "rb_name (runbook_record_outcome ok r) = rb_name r" "rb_id (runbook_record_outcome ok r) = rb_id r"
  "rb_status (runbook_record_outcome ok r) = rb_status r" "rb_gates (runbook_record_outcome ok r) = rb_gates r"
  by (simp_all add: runbook_record_outcome_def Let_def)

lemma outcome_ladder [simp]: "ladder_ok (runbook_record_outcome ok r) = ladder_ok r"
  by (simp add: ladder_ok_def split: runbook_status.split)

text \<open>Replaying declared gates: it succeeds exactly on an initial part of the ladder.\<close>

lemma replay_gate_next:
  assumes "ladder_ok r" "length (rb_gates r) < 6" "g = LADDER ! length (rb_gates r)"
  shows "\<exists>r'. replay_gate g r = Inr r' \<and> ladder_ok r' \<and> rb_gates r' = rb_gates r @ [g]"
proof (cases "technical g")
  case True
  have rec: "record_gate g r = Inr (r\<lparr> rb_gates := rb_gates r @ [g] \<rparr>)"
    using assms(2,3) by (simp add: record_gate_iff)
  moreover have "replay_gate g r = map_err LadderViolated (record_gate g r)"
    using True by (auto simp: replay_gate_def technical_def)
  ultimately show ?thesis using record_gate_ladder [OF rec True assms(1), THEN conjunct1] by simp
next
  case False
  then have "4 \<le> length (rb_gates r)" using assms(2,3) by (simp add: technical_nth not_less)
  then consider "length (rb_gates r) = 4" | "length (rb_gates r) = 5" using assms(2) by linarith
  then show ?thesis
  proof cases
    case 1
    then have st: "rb_status r = RbCandidate" using assms(1) by (auto simp: ladder_ok_def split: runbook_status.splits)
    have "has_reached GatePolicy r" using 1 by (simp add: has_reached_def LADDER_def)
    then have ap: "approve r = Inr (r\<lparr> rb_gates := rb_gates r @ [GateApproval], rb_status := RbApproved \<rparr>)"
      using st 1 by (simp add: approve_def record_gate_def LADDER_def)
    then show ?thesis
      using approve_ladder [OF ap assms(1), THEN conjunct1] assms(3) 1 by (simp add: replay_gate_def LADDER_nth)
  next
    case 2
    then have st: "rb_status r = RbApproved" using assms(1) by (auto simp: ladder_ok_def split: runbook_status.splits)
    have pr: "promote r = Inr (r\<lparr> rb_gates := rb_gates r @ [GatePromotion], rb_status := RbPromoted \<rparr>)"
      using st 2 by (simp add: promote_def record_gate_def LADDER_def)
    then show ?thesis
      using promote_ladder [OF pr assms(1), THEN conjunct1] assms(3) 2 by (simp add: replay_gate_def LADDER_nth)
  qed
qed

lemma replay_gate_wrong:
  assumes "ladder_ok r" "\<not> (length (rb_gates r) < 6 \<and> g = LADDER ! length (rb_gates r))"
  shows "\<exists>e. replay_gate g r = Inl e"
proof (cases "replay_gate g r")
  case (Inr r')
  consider "g = GateApproval" "approve r = Inr r'" | "g = GatePromotion" "promote r = Inr r'"
    | "technical g" "record_gate g r = Inr r'"
    using Inr by (auto simp: replay_gate_def technical_def split: if_splits)
  then have "length (rb_gates r) < 6 \<and> g = LADDER ! length (rb_gates r)"
  proof cases
    case 1
    then show ?thesis using approve_ladder [OF 1(2) assms(1)] by (simp add: LADDER_nth)
  next
    case 2
    have "rb_status r = RbApproved" using promote_ladder [OF 2(2) assms(1)] by simp
    then show ?thesis using assms(1) 2(1) by (simp add: ladder_ok_def LADDER_nth)
  next
    case 3
    then show ?thesis using record_gate_ladder [OF 3(2) 3(1) assms(1)] by simp
  qed
  with assms(2) show ?thesis by simp
qed simp

lemma replay_gates_iff:
  "ladder_ok r \<Longrightarrow>
   (\<exists>r'. replay_gates gs r = Inr r' \<and> ladder_ok r' \<and> rb_gates r' = rb_gates r @ gs) \<and> prefix (rb_gates r @ gs) LADDER
   \<or> (\<exists>e. replay_gates gs r = Inl e) \<and> \<not> prefix (rb_gates r @ gs) LADDER"
proof (induction gs arbitrary: r)
  case Nil
  have "prefix (rb_gates r) LADDER"
    using Nil by (metis ladder_ok_def take_is_prefix)
  then show ?case using Nil by simp
next
  case (Cons g gs)
  show ?case
  proof (cases "length (rb_gates r) < 6 \<and> g = LADDER ! length (rb_gates r)")
    case True
    then obtain r' where r': "replay_gate g r = Inr r'" "ladder_ok r'" "rb_gates r' = rb_gates r @ [g]"
      using replay_gate_next Cons.prems by blast
    show ?thesis using Cons.IH [OF r'(2)] r' by simp
  next
    case False
    then obtain e where e: "replay_gate g r = Inl e" using replay_gate_wrong Cons.prems by blast
    have "\<not> prefix (rb_gates r @ g # gs) LADDER"
    proof
      assume "prefix (rb_gates r @ g # gs) LADDER"
      then obtain zs where zs: "LADDER = rb_gates r @ g # gs @ zs" by (auto simp: prefix_def)
      have "length LADDER = length (rb_gates r @ g # gs @ zs)" by (rule arg_cong [OF zs])
      then have "length (rb_gates r) < 6" by simp
      then show False using False zs by (metis nth_append_length)
    qed
    then show ?thesis using e by simp
  qed
qed


section \<open>Properties\<close>

lemma parse_capabilities_iff:
  "(\<exists>caps. parse_capabilities cs = Inr caps) \<longleftrightarrow> list_all is_dotted_path cs"
  "parse_capabilities cs = Inr caps \<Longrightarrow> caps = map CapabilityId cs"
  by (induction cs arbitrary: caps) (auto simp: capability_id_new_def split: sum.splits if_splits)

definition status_of_gates :: "gate list \<Rightarrow> runbook_status" where
  "status_of_gates gs = (if length gs = 6 then RbPromoted else if length gs = 5 then RbApproved else RbCandidate)"

lemma ladder_ok_status: "ladder_ok r \<Longrightarrow> rb_status r = status_of_gates (rb_gates r)"
  by (auto simp: ladder_ok_def status_of_gates_def split: runbook_status.splits)

text \<open>What a document states apart from its gates is taken over unchanged.\<close>

lemma replay_gate_fields:
  "replay_gate g r = Inr r' \<Longrightarrow> r'\<lparr> rb_gates := [], rb_status := RbCandidate \<rparr> = r\<lparr> rb_gates := [], rb_status := RbCandidate \<rparr>"
  by (auto simp: replay_gate_def approve_def promote_def record_gate_iff split: if_splits sum.splits)

lemma replay_gates_fields:
  "replay_gates gs r = Inr r' \<Longrightarrow> r'\<lparr> rb_gates := [], rb_status := RbCandidate \<rparr> = r\<lparr> rb_gates := [], rb_status := RbCandidate \<rparr>"
proof (induction gs arbitrary: r)
  case Nil
  then show ?case by simp
next
  case (Cons g gs)
  then obtain q where "replay_gate g r = Inr q" "replay_gates gs q = Inr r'"
    by (auto split: sum.splits)
  then show ?case using replay_gate_fields [of g r q] Cons.IH [of q] by simp
qed

lemma parsed_file: "parse_file i file = Inr r \<Longrightarrow> ladder_ok r \<and> rb_id r = i \<and> rb_name r = rf_name file"
proof -
  assume r: "parse_file i file = Inr r"
  then obtain allowed rollback where replay: "replay_gates (rf_gates file)
        (runbook_candidate i (rf_name file) (rf_trigger file) (rf_required_evidence file)
           (rf_investigation_steps file) (rf_decision_criteria file) allowed rollback (rf_validation file)) = Inr r"
      (is "replay_gates _ ?start = _")
    by (auto simp: parse_file_def split: if_splits sum.splits)
  define start where "start = ?start"
  have start: "ladder_ok start" "rb_id start = i" "rb_name start = rf_name file" "replay_gates (rf_gates file) start = Inr r"
    using replay by (simp_all add: start_def) (simp_all add: runbook_candidate_def)
  moreover have "rb_id r = rb_id start \<and> rb_name r = rb_name start"
    using arg_cong [OF replay_gates_fields [OF start(4)], of rb_id] arg_cong [OF replay_gates_fields [OF start(4)], of rb_name]
    by simp
  ultimately show ?thesis using replay_gates_iff [OF start(1), of "rf_gates file"] by auto
qed

text \<open>
  The loader accepts exactly the well-formed documents: a name that is not blank, well-formed
  capability identifiers, and declared gates that are an initial part of the ladder. The runbook
  it returns carries the declared gates, no attempt history, and the status those gates stand
  for - so a document reaches \<open>Promoted\<close> only by declaring all six gates in order.
\<close>

theorem parse_file_exact:
  "(is_ok (parse_file i file) \<longleftrightarrow>
      trim (rf_name file) \<noteq> [] \<and> list_all is_dotted_path (rf_allowed_actions file @ rf_rollback file)
      \<and> prefix (rf_gates file) LADDER)
   \<and> (case parse_file i file of Inl _ \<Rightarrow> True
      | Inr r \<Rightarrow> ladder_ok r \<and> rb_gates r = rf_gates file \<and> rb_status r = status_of_gates (rf_gates file)
          \<and> r\<lparr> rb_gates := [], rb_status := RbCandidate \<rparr> =
              runbook_candidate i (rf_name file) (rf_trigger file) (rf_required_evidence file)
                (rf_investigation_steps file) (rf_decision_criteria file) (map CapabilityId (rf_allowed_actions file))
                (map CapabilityId (rf_rollback file)) (rf_validation file))"
proof -
  let ?start = "\<lambda>allowed rollback. runbook_candidate i (rf_name file) (rf_trigger file) (rf_required_evidence file)
      (rf_investigation_steps file) (rf_decision_criteria file) allowed rollback (rf_validation file)"
  have gates: "rb_gates (?start a b) = []" "(?start a b)\<lparr> rb_gates := [], rb_status := RbCandidate \<rparr> = ?start a b" for a b
    by (simp_all add: runbook_candidate_def)
  show ?thesis
  proof (cases "trim (rf_name file) \<noteq> [] \<and> list_all is_dotted_path (rf_allowed_actions file @ rf_rollback file)")
    case False
    then have "\<not> is_ok (parse_file i file)"
      using parse_capabilities_iff(1) [of "rf_allowed_actions file"] parse_capabilities_iff(1) [of "rf_rollback file"]
      by (auto simp: parse_file_def split: sum.splits)
    then show ?thesis using False by (cases "parse_file i file") auto
  next
    case True
    then obtain allowed rollback where caps: "parse_capabilities (rf_allowed_actions file) = Inr allowed"
        "parse_capabilities (rf_rollback file) = Inr rollback"
      using parse_capabilities_iff(1) [of "rf_allowed_actions file"] parse_capabilities_iff(1) [of "rf_rollback file"]
      by auto
    note caps_eq = parse_capabilities_iff(2) [OF caps(1)] parse_capabilities_iff(2) [OF caps(2)]
    have replayed: "parse_file i file = replay_gates (rf_gates file) (?start allowed rollback)"
      using True caps by (simp add: parse_file_def)
    show ?thesis
      using replay_gates_iff [of "?start allowed rollback" "rf_gates file"] True
        replay_gates_fields [of "rf_gates file" "?start allowed rollback"]
      by (auto simp: replayed gates caps_eq ladder_ok_status)
  qed
qed

section \<open>Names are unique\<close>

definition library_ok :: "runbook_library \<Rightarrow> bool" where
  "library_ok lib \<longleftrightarrow> bt_wf lib \<and> (\<forall>(i, r) \<in> set lib. rb_id r = i) \<and> distinct (map (rb_name \<circ> snd) lib)"

lemma library_ok_Nil [simp]: "library_ok []"
  by (simp add: library_ok_def bt_wf_def)

lemma library_by_name_iff:
  assumes "library_ok lib"
  shows "library_by_name name lib = Some r \<longleftrightarrow> (rb_id r, r) \<in> set lib \<and> rb_name r = name"
proof
  assume "library_by_name name lib = Some r"
  then obtain i where "(i, r) \<in> set lib" "rb_name r = name"
    by (auto simp: library_by_name_def library_values_def find_Some_iff in_set_conv_nth) (metis nth_mem prod.collapse)
  then show "(rb_id r, r) \<in> set lib \<and> rb_name r = name" using assms by (auto simp: library_ok_def)
next
  assume r: "(rb_id r, r) \<in> set lib \<and> rb_name r = name"
  then obtain q where q: "library_by_name name lib = Some q"
    by (cases "library_by_name name lib") (auto simp: library_by_name_def library_values_def find_None_iff)
  then obtain j where "(j, q) \<in> set lib" "rb_name q = name"
    by (auto simp: library_by_name_def library_values_def find_Some_iff in_set_conv_nth) (metis nth_mem prod.collapse)
  moreover have "inj_on (rb_name \<circ> snd) (set lib)" using assms by (simp add: library_ok_def distinct_map)
  ultimately have "(j, q) = (rb_id r, r)" using r inj_onD [of "rb_name \<circ> snd" "set lib" "(j, q)" "(rb_id r, r)"] by simp
  then show "library_by_name name lib = Some r" using q by simp
qed

lemma library_by_name_None: "library_by_name name lib = None \<longleftrightarrow> name \<notin> (rb_name \<circ> snd) ` set lib"
  by (auto simp: library_by_name_def library_values_def find_None_iff)


lemma library_register_iff:
  assumes "library_ok lib"
  shows "library_register r lib = Inr lib' \<longleftrightarrow>
    (\<forall>q. library_by_name (rb_name r) lib = Some q \<longrightarrow> rb_id q = rb_id r) \<and> lib' = bt_insert (rb_id r) r lib"
proof -
  have mem: "x \<in> set (library_values lib) \<longleftrightarrow> (rb_id x, x) \<in> set lib" for x
    using assms unfolding library_ok_def library_values_def by force
  let ?other = "find (\<lambda>x. rb_name x = rb_name r \<and> rb_id x \<noteq> rb_id r) (library_values lib)"
  have none: "(\<forall>q. library_by_name (rb_name r) lib = Some q \<longrightarrow> rb_id q = rb_id r) \<longleftrightarrow> ?other = None"
    by (auto simp: find_None_iff mem library_by_name_iff [OF assms])
  show ?thesis unfolding none by (cases ?other) (auto simp: library_register_def)
qed

lemma set_bt_insert_wf:
  "bt_wf m \<Longrightarrow> set (bt_insert k v m) = insert (k, v) {p \<in> set m. fst p \<noteq> k}"
  by (induction k v m rule: bt_insert.induct) (auto simp: bt_wf_def)

lemma distinct_names_iff:
  assumes "bt_wf lib"
  shows "distinct (map (rb_name \<circ> snd) lib) \<longleftrightarrow> inj_on (rb_name \<circ> snd) (set lib)"
  using bt_wf_distinct [OF assms] by (auto simp: distinct_map)

lemma library_ok_register:
  assumes "library_ok lib" "library_register r lib = Inr lib'"
  shows "library_ok lib'"
    and "library_by_name name lib' = (if name = rb_name r then Some r
           else case library_by_name name lib of
                  Some q \<Rightarrow> if rb_id q = rb_id r then None else Some q | None \<Rightarrow> None)"
proof -
  have wf: "bt_wf lib" and ids: "\<forall>(i, q) \<in> set lib. rb_id q = i" and inj: "inj_on (rb_name \<circ> snd) (set lib)"
    using assms(1) distinct_names_iff by (auto simp: library_ok_def)
  have fresh: "\<And>q. library_by_name (rb_name r) lib = Some q \<Longrightarrow> rb_id q = rb_id r"
    and lib': "lib' = bt_insert (rb_id r) r lib"
    using assms(2) by (auto simp: library_register_iff [OF assms(1)])
  have elems: "set lib' = insert (rb_id r, r) {p \<in> set lib. fst p \<noteq> rb_id r}"
    using wf by (simp add: lib' set_bt_insert_wf)
  have clash: "rb_name q \<noteq> rb_name r" if "(i, q) \<in> set lib" "i \<noteq> rb_id r" for i q
    using that ids fresh [of q] library_by_name_iff [OF assms(1), of "rb_name r" q] by fastforce
  have "inj_on (rb_name \<circ> snd) (set lib')"
    using inj clash unfolding elems by (fastforce simp: inj_on_def)
  then show ok: "library_ok lib'"
    using wf ids elems by (auto simp: library_ok_def distinct_names_iff lib' bt_wf_insert)
  show "library_by_name name lib' = (if name = rb_name r then Some r
           else case library_by_name name lib of
                  Some q \<Rightarrow> if rb_id q = rb_id r then None else Some q | None \<Rightarrow> None)"
  proof (cases "library_by_name name lib'")
    case None
    then have "name \<notin> (rb_name \<circ> snd) ` set lib'" by (simp add: library_by_name_None)
    then have "name \<noteq> rb_name r" "\<And>i q. (i, q) \<in> set lib \<Longrightarrow> rb_name q = name \<Longrightarrow> i = rb_id r"
      unfolding elems by force+
    then show ?thesis using None library_by_name_iff [OF assms(1), of name] by (auto split: option.splits)
  next
    case (Some q)
    then have q: "(rb_id q, q) \<in> set lib'" "rb_name q = name" using library_by_name_iff [OF ok] by auto
    then consider "q = r" | "(rb_id q, q) \<in> set lib" "rb_id q \<noteq> rb_id r" unfolding elems by auto
    then show ?thesis
    proof cases
      case 1
      then show ?thesis using Some q(2) by simp
    next
      case 2
      then have "library_by_name name lib = Some q" using q(2) by (simp add: library_by_name_iff [OF assms(1)])
      then show ?thesis using Some 2 clash [OF 2] q(2) by simp
    qed
  qed
qed

lemma library_ok_remove:
  assumes "library_ok lib"
  shows "library_ok (snd (library_remove name lib))"
    and "library_by_name n (snd (library_remove name lib)) = (if n = name then None else library_by_name n lib)"
proof -
  have wf: "bt_wf lib" and ids: "\<forall>(i, q) \<in> set lib. rb_id q = i" and inj: "inj_on (rb_name \<circ> snd) (set lib)"
    using assms distinct_names_iff by (auto simp: library_ok_def)
  have elems: "set (snd (library_remove name lib)) = {p \<in> set lib. rb_name (snd p) \<noteq> name}"
  proof (cases "library_by_name name lib")
    case None
    then have "snd (library_remove name lib) = lib" by (simp add: library_remove_def library_by_name_def)
    then show ?thesis using None by (force simp: library_by_name_None)
  next
    case (Some q)
    then have q: "(rb_id q, q) \<in> set lib" "rb_name q = name" using library_by_name_iff [OF assms] by auto
    have "snd (library_remove name lib) = bt_remove (rb_id q) lib"
      using Some by (simp add: library_remove_def library_by_name_def)
    moreover have "fst p = rb_id q \<longleftrightarrow> rb_name (snd p) = name" if "p \<in> set lib" for p
    proof
      assume "fst p = rb_id q"
      then show "rb_name (snd p) = name"
        using that q bt_wf_mem_iff [OF wf] by (metis option.inject prod.collapse)
    next
      assume "rb_name (snd p) = name"
      then have "p = (rb_id q, q)" using inj_onD [OF inj _ that q(1)] q(2) by simp
      then show "fst p = rb_id q" by simp
    qed
    ultimately show ?thesis by (auto simp: bt_remove_def)
  qed
  have sub: "\<exists>P. snd (library_remove name lib) = filter P lib"
    by (auto simp: library_remove_def bt_remove_def split: option.split intro: exI [of _ "\<lambda>_. True"])
  then have wf': "bt_wf (snd (library_remove name lib))"
    using wf by (auto simp: bt_wf_def sorted_wrt_map intro: sorted_wrt_filter)
  have "inj_on (rb_name \<circ> snd) (set (snd (library_remove name lib)))"
    using inj unfolding elems by (rule inj_on_subset) auto
  then show ok: "library_ok (snd (library_remove name lib))"
    using wf' ids elems by (auto simp: library_ok_def distinct_names_iff)
  show "library_by_name n (snd (library_remove name lib)) = (if n = name then None else library_by_name n lib)"
  proof (cases "n = name")
    case True
    then show ?thesis using elems by (auto simp: library_by_name_None)
  next
    case False
    have "library_by_name n (snd (library_remove name lib)) = Some q \<longleftrightarrow> library_by_name n lib = Some q" for q
      unfolding library_by_name_iff [OF ok] library_by_name_iff [OF assms] elems using False by auto
    then show ?thesis using False by (metis not_Some_eq)
  qed
qed

lemma library_update_induct [case_names Nil Cons]:
  "P [] \<Longrightarrow> (\<And>i r lib. P lib \<Longrightarrow> P ((i, r) # lib)) \<Longrightarrow> P (lib :: ('i \<times> 'r) list)"
  by (induction lib) auto

lemma library_update_ok:
  assumes "library_ok lib"
    and keep: "\<And>r. library_by_name name lib = Some r \<Longrightarrow> rb_id (f r) = rb_id r \<and> rb_name (f r) = rb_name r"
  shows "library_ok (library_update name f lib)"
    and "library_by_name n (library_update name f lib) =
           (if n = name then map_option f (library_by_name n lib) else library_by_name n lib)"
proof -
  have find_Cons: "library_by_name k [] = None"
    "library_by_name k ((i, r) # m) = (if rb_name r = k then Some r else library_by_name k m)" for k i r m
    by (simp_all add: library_by_name_def library_values_def)
  have keys: "(\<And>r. library_by_name name m = Some r \<Longrightarrow> rb_id (f r) = rb_id r \<and> rb_name (f r) = rb_name r) \<Longrightarrow>
      \<forall>(i, q) \<in> set m. rb_id q = i \<Longrightarrow>
      map fst (library_update name f m) = map fst m \<and>
      map (rb_name \<circ> snd) (library_update name f m) = map (rb_name \<circ> snd) m \<and>
      (\<forall>(i, q) \<in> set (library_update name f m). rb_id q = i) \<and>
      library_by_name n (library_update name f m) =
        (if n = name then map_option f (library_by_name n m) else library_by_name n m)" for m
    by (induction m rule: library_update_induct) (auto simp: find_Cons)
  have ids: "\<forall>(i, q) \<in> set lib. rb_id q = i" using assms(1) by (simp add: library_ok_def)
  note k = keys [OF keep ids]
  show "library_ok (library_update name f lib)"
    using assms(1) k unfolding library_ok_def bt_wf_def by simp
  show "library_by_name n (library_update name f lib) =
           (if n = name then map_option f (library_by_name n lib) else library_by_name n lib)"
    using k by blast
qed

end
