(* ===== verification/Impact.thy ===== *)
theory Impact
  imports Policy
begin

text \<open>
  Pre-action impact simulation (\<open>argus-risk\<close>, \<open>impact.rs\<close>): a pure estimate from the declared
  ratings of a capability. The runbook manager reads its rollback feasibility.
\<close>

datatype rollback_feasibility = Feasible | PartialRollback | Infeasible

record simulation_input =
  si_capability :: capability_id
  si_subject :: resource_id
  si_risk :: risk_class
  si_reversibility :: reversibility
  si_blast_radius :: blast_radius
  si_dependents :: "resource_id list"
  si_declared_recovery_time_seconds :: "u64 option"
  si_declared_rollback :: "capability_id option"
  si_alternative :: "capability_id option"

record impact_estimate =
  im_capability :: capability_id
  im_subject :: resource_id
  im_blast_radius :: blast_radius
  im_affected_dependencies :: "resource_id list"
  im_resource_impact :: "rat option"
  im_recovery_time_seconds :: "u64 option"
  im_service_impact :: string
  im_rollback :: rollback_feasibility
  im_alternative :: "capability_id option"

definition rollback_feasibility_of :: "reversibility \<Rightarrow> capability_id option \<Rightarrow> rollback_feasibility" where
  "rollback_feasibility_of rv declared =
     (if declared = None
      then (case rv of Reversible \<Rightarrow> Feasible | PartiallyReversible \<Rightarrow> PartialRollback | NotReversible \<Rightarrow> Infeasible)
      else (case rv of Reversible \<Rightarrow> Feasible | PartiallyReversible \<Rightarrow> PartialRollback | NotReversible \<Rightarrow> Infeasible))"

fun service_impact_base :: "risk_class \<Rightarrow> reversibility \<Rightarrow> string" where
  "service_impact_base Read _ = ''read-only; no service interruption''"
| "service_impact_base LowRisk Reversible = ''brief interruption; fully reversible''"
| "service_impact_base LowRisk _ = ''brief interruption; rollback may be partial''"
| "service_impact_base Controlled Reversible = ''controlled interruption; reversible''"
| "service_impact_base Controlled _ = ''controlled interruption; rollback may be partial''"
| "service_impact_base HighRisk _ = ''high-risk action; expect service interruption''"
| "service_impact_base Destructive _ = ''destructive action; state will not be automatically restored''"

fun scope_suffix :: "blast_radius \<Rightarrow> string" where
  "scope_suffix RadiusNone = []"
| "scope_suffix RadiusHost = ''; scope: this host''"
| "scope_suffix RadiusEnvironment = ''; scope: this environment''"
| "scope_suffix RadiusFleet = ''; scope: the fleet''"

fun disturbance :: "risk_class \<Rightarrow> rat" where
  "disturbance Read = 0"
| "disturbance LowRisk = to_f64 (1 / 10)"
| "disturbance Controlled = 1 / 4"
| "disturbance HighRisk = 1 / 2"
| "disturbance Destructive = 1"

definition simulate_impact :: "simulation_input \<Rightarrow> impact_estimate" where
  "simulate_impact i =
     \<lparr> im_capability = si_capability i, im_subject = si_subject i, im_blast_radius = si_blast_radius i,
       im_affected_dependencies = si_dependents i, im_resource_impact = Some (disturbance (si_risk i)),
       im_recovery_time_seconds = (if si_risk i = Read then Some 0 else si_declared_recovery_time_seconds i),
       im_service_impact =
         service_impact_base (si_risk i) (si_reversibility i)
         @ (if si_dependents i = [] then []
            else ''; '' @ show_nat (length (si_dependents i)) @ '' dependent(s) will be affected'')
         @ scope_suffix (si_blast_radius i),
       im_rollback = rollback_feasibility_of (si_reversibility i) (si_declared_rollback i),
       im_alternative = si_alternative i \<rparr>"

text \<open>
  The declared rollback plays no part in the estimate: feasibility is documented as needing one,
  but only the reversibility class decides it.
\<close>

theorem feasibility_ignores_declared_rollback:
  "im_rollback (simulate_impact i) = im_rollback (simulate_impact (i\<lparr> si_declared_rollback := r \<rparr>))
   \<and> (im_rollback (simulate_impact i) = Infeasible \<longleftrightarrow> si_reversibility i = NotReversible)"
  by (cases "si_reversibility i") (simp_all add: simulate_impact_def rollback_feasibility_of_def)

end
