(* ===== verification/Memory.thy ===== *)
theory Memory
  imports Identifiers "HOL-Library.AList"
begin

text \<open>
  The memory layers (\<open>argus-memory\<close>): the bounded working memory, the operational memory of current
  values, episodes and their similarity, semantic facts and relationships, and procedure records.
  A hash map whose values are listed is an association list with one entry per key; the source
  sorts what it lists, and entries it leaves tied appear here in the order of the list. The
  single-precision scores are rounded as the source rounds them.
\<close>

definition is_fresh :: "instant \<Rightarrow> instant \<Rightarrow> duration \<Rightarrow> bool" where
  "is_fresh when now max_age \<longleftrightarrow> now - when \<le> max_age"

section \<open>Working memory\<close>

record working_item =
  wi_text :: string
  wi_recorded_at :: instant

record working_memory =
  wm_items :: "working_item list"
  wm_capacity :: nat

definition DEFAULT_CAPACITY :: nat where
  "DEFAULT_CAPACITY = 64"

definition working_new :: "nat \<Rightarrow> working_memory" where
  "working_new capacity = \<lparr> wm_items = [], wm_capacity = max capacity 1 \<rparr>"

definition working_push :: "string \<Rightarrow> instant \<Rightarrow> working_memory \<Rightarrow> working_memory" where
  "working_push text now m =
     (let items = (if length (wm_items m) = wm_capacity m then tl (wm_items m) else wm_items m)
      in m\<lparr> wm_items := items @ [\<lparr> wi_text = text, wi_recorded_at = now \<rparr>] \<rparr>)"

definition working_clear :: "working_memory \<Rightarrow> working_memory" where
  "working_clear m = m\<lparr> wm_items := [] \<rparr>"

section \<open>Operational memory\<close>

record current_value =
  cv_subject :: resource_id
  cv_attribute :: string
  cv_value :: float_val
  cv_observed_at :: instant

type_synonym operational_memory = "((resource_id \<times> string) \<times> current_value) list"

definition operational_record :: "current_value \<Rightarrow> operational_memory \<Rightarrow> operational_memory" where
  "operational_record c m =
     (let key = (cv_subject c, cv_attribute c)
      in case map_of m key of
           Some existing \<Rightarrow> if cv_observed_at c \<le> cv_observed_at existing then m else AList.update key c m
         | None \<Rightarrow> AList.update key c m)"

definition operational_current :: "operational_memory \<Rightarrow> resource_id \<Rightarrow> string \<Rightarrow> current_value option" where
  "operational_current m subject attribute = map_of m (subject, attribute)"

definition current_within ::
  "operational_memory \<Rightarrow> resource_id \<Rightarrow> string \<Rightarrow> instant \<Rightarrow> duration \<Rightarrow> current_value option" where
  "current_within m subject attribute now max_age =
     Option.bind (operational_current m subject attribute)
       (\<lambda>c. if now - cv_observed_at c \<le> max_age then Some c else None)"

definition attributes_for :: "operational_memory \<Rightarrow> resource_id \<Rightarrow> current_value list" where
  "attributes_for m subject = sort_key cv_attribute (filter (\<lambda>c. cv_subject c = subject) (map snd m))"

section \<open>Episodes\<close>

datatype episode_outcome = EpResolved | EpRecurred | EpUnresolved

record episode =
  ep_id :: uuid
  ep_subject :: resource_id
  ep_symptom :: string
  ep_resource_class :: string
  ep_root_cause :: "string option"
  ep_remediation :: "string option"
  ep_outcome :: episode_outcome
  ep_change_proximity :: "duration option"
  ep_started_at :: instant
  ep_resolved_at :: "instant option"

type_synonym episodic_memory = "(uuid \<times> episode) list"

definition episodic_record :: "episode \<Rightarrow> episodic_memory \<Rightarrow> episodic_memory" where
  "episodic_record e m = AList.update (ep_id e) e m"

definition episodes_for :: "episodic_memory \<Rightarrow> resource_id \<Rightarrow> episode list" where
  "episodes_for m subject = sort_key ep_started_at (filter (\<lambda>e. ep_subject e = subject) (map snd m))"

definition episodes_all :: "episodic_memory \<Rightarrow> episode list" where
  "episodes_all m = sort_key ep_started_at (map snd m)"

definition set_outcome ::
  "uuid \<Rightarrow> episode_outcome \<Rightarrow> instant option \<Rightarrow> episodic_memory \<Rightarrow> episodic_memory option" where
  "set_outcome i outcome resolved_at m =
     map_option (\<lambda>e. AList.update i (e\<lparr> ep_outcome := outcome, ep_resolved_at := resolved_at \<rparr>) m) (map_of m i)"

section \<open>Similar incidents\<close>

record incident_signature =
  sg_subject_kind :: string
  sg_symptom :: string
  sg_resource_class :: string
  sg_change_proximity :: "duration option"

record scored_episode =
  se_episode :: episode
  se_score :: rat
  se_matched_fields :: "string list"

definition SUBJECT_KIND_WEIGHT :: rat where "SUBJECT_KIND_WEIGHT = to_f32 (25 / 100)"
definition SYMPTOM_WEIGHT :: rat where "SYMPTOM_WEIGHT = to_f32 (40 / 100)"
definition RESOURCE_CLASS_WEIGHT :: rat where "RESOURCE_CLASS_WEIGHT = to_f32 (20 / 100)"
definition CHANGE_PROXIMITY_WEIGHT :: rat where "CHANGE_PROXIMITY_WEIGHT = to_f32 (15 / 100)"

text \<open>\<open>Duration::num_seconds\<close> truncates towards zero.\<close>

definition num_seconds :: "duration \<Rightarrow> int" where
  "num_seconds d = (if 0 \<le> d then d div seconds 1 else - ((- d) div seconds 1))"

definition PROXIMITY_CLOSE :: duration where "PROXIMITY_CLOSE = seconds 3600"
definition PROXIMITY_RELATED :: duration where "PROXIMITY_RELATED = seconds 86400"

definition add_score :: "bool \<Rightarrow> rat \<Rightarrow> string \<Rightarrow> rat \<times> string list \<Rightarrow> rat \<times> string list" where
  "add_score hit weight field acc =
     (if hit then (to_f32 (fst acc + weight), snd acc @ [field]) else acc)"

definition proximity_score :: "duration option \<Rightarrow> duration option \<Rightarrow> rat \<times> string list \<Rightarrow> rat \<times> string list" where
  "proximity_score a b acc =
     (case (a, b) of
        (Some x, Some y) \<Rightarrow>
          (let delta = \<bar>num_seconds x - num_seconds y\<bar>
           in if delta \<le> num_seconds PROXIMITY_CLOSE
              then add_score True CHANGE_PROXIMITY_WEIGHT ''change_proximity'' acc
              else if delta \<le> num_seconds PROXIMITY_RELATED
              then add_score True (to_f32 (CHANGE_PROXIMITY_WEIGHT / 2)) ''change_proximity~'' acc
              else acc)
      | _ \<Rightarrow> acc)"

definition similarity_score :: "incident_signature \<Rightarrow> episode \<Rightarrow> rat \<times> string list" where
  "similarity_score sg e =
     (let kind = (ep_resource_class e = sg_subject_kind sg
                  \<or> hd (split_on (CHR '':'') (resource_str (ep_subject e))) = sg_subject_kind sg);
          acc1 = add_score kind SUBJECT_KIND_WEIGHT ''subject_kind'' (0, []);
          acc2 = add_score (ep_symptom e = sg_symptom sg) SYMPTOM_WEIGHT ''symptom'' acc1;
          acc3 = add_score (ep_resource_class e = sg_resource_class sg) RESOURCE_CLASS_WEIGHT ''resource_class'' acc2;
          (score, matched) = proximity_score (sg_change_proximity sg) (ep_change_proximity e) acc3
      in (min score 1, matched))"

definition score_episode :: "incident_signature \<Rightarrow> episode \<Rightarrow> scored_episode" where
  "score_episode sg e =
     (let (score, matched) = similarity_score sg e
      in \<lparr> se_episode = e, se_score = score, se_matched_fields = matched \<rparr>)"

text \<open>Best score first, then oldest first.\<close>

definition similar_incidents :: "episodic_memory \<Rightarrow> incident_signature \<Rightarrow> rat \<Rightarrow> scored_episode list" where
  "similar_incidents m sg min_score =
     sort_key (\<lambda>s. - se_score s)
       (sort_key (\<lambda>s. ep_started_at (se_episode s))
         (filter (\<lambda>s. min_score \<le> se_score s) (map (score_episode sg) (episodes_all m))))"

section \<open>Semantic memory\<close>

record fact =
  fa_subject :: resource_id
  fa_attribute :: string
  fa_value :: string
  fa_source :: string
  fa_learned_at :: instant

datatype relationship_kind = DependsOn | RunsOn | Manages

definition is_impact_relevant :: "relationship_kind \<Rightarrow> bool" where
  "is_impact_relevant k \<longleftrightarrow> k = DependsOn"

record relationship =
  rs_from :: resource_id
  rs_kind :: relationship_kind
  rs_to :: resource_id
  rs_learned_at :: instant

record semantic_memory =
  sm_facts :: "((resource_id \<times> string) \<times> fact) list"
  sm_relationships :: "relationship list"

definition add_fact :: "fact \<Rightarrow> semantic_memory \<Rightarrow> semantic_memory" where
  "add_fact f m = m\<lparr> sm_facts := AList.update (fa_subject f, fa_attribute f) f (sm_facts m) \<rparr>"

definition fact_of :: "semantic_memory \<Rightarrow> resource_id \<Rightarrow> string \<Rightarrow> fact option" where
  "fact_of m subject attribute = map_of (sm_facts m) (subject, attribute)"

definition facts_about :: "semantic_memory \<Rightarrow> resource_id \<Rightarrow> fact list" where
  "facts_about m subject = sort_key fa_attribute (filter (\<lambda>f. fa_subject f = subject) (map snd (sm_facts m)))"

text \<open>The triple is the identity: inserting it again keeps the entry that is there.\<close>

definition same_triple :: "relationship \<Rightarrow> relationship \<Rightarrow> bool" where
  "same_triple a b \<longleftrightarrow> rs_from a = rs_from b \<and> rs_kind a = rs_kind b \<and> rs_to a = rs_to b"

definition add_relationship ::
  "resource_id \<Rightarrow> relationship_kind \<Rightarrow> resource_id \<Rightarrow> instant \<Rightarrow> semantic_memory \<Rightarrow> semantic_memory" where
  "add_relationship from kind to learned_at m =
     (let r = \<lparr> rs_from = from, rs_kind = kind, rs_to = to, rs_learned_at = learned_at \<rparr>
      in if list_ex (same_triple r) (sm_relationships m) then m
         else m\<lparr> sm_relationships := sm_relationships m @ [r] \<rparr>)"

definition dependencies_of :: "semantic_memory \<Rightarrow> resource_id \<Rightarrow> resource_id list" where
  "dependencies_of m subject =
     sort_key resource_str (map rs_to (filter (\<lambda>r. rs_kind r = DependsOn \<and> rs_from r = subject) (sm_relationships m)))"

definition dependents_of :: "semantic_memory \<Rightarrow> resource_id \<Rightarrow> resource_id list" where
  "dependents_of m subject =
     sort_key resource_str (map rs_from (filter (\<lambda>r. rs_kind r = DependsOn \<and> rs_to r = subject) (sm_relationships m)))"

definition relationships :: "semantic_memory \<Rightarrow> relationship list" where
  "relationships m =
     sort_key (\<lambda>r. resource_str (rs_from r)) (sort_key (\<lambda>r. resource_str (rs_to r)) (sm_relationships m))"

section \<open>Procedural memory\<close>

datatype procedure_status = ProcCandidate | ProcApproved | ProcPromoted

fun procedure_status_rank :: "procedure_status \<Rightarrow> nat" where
  "procedure_status_rank ProcCandidate = 0"
| "procedure_status_rank ProcApproved = 1"
| "procedure_status_rank ProcPromoted = 2"

record procedure_record =
  pd_id :: uuid
  pd_trigger :: string
  pd_name :: string
  pd_status :: procedure_status
  pd_attempts :: u32
  pd_successes :: u32
  pd_first_seen :: instant
  pd_last_seen :: instant

definition procedure_new :: "uuid \<Rightarrow> string \<Rightarrow> string \<Rightarrow> procedure_status \<Rightarrow> instant \<Rightarrow> procedure_record" where
  "procedure_new i trigger name status now =
     \<lparr> pd_id = i, pd_trigger = trigger, pd_name = name, pd_status = status, pd_attempts = 0, pd_successes = 0,
       pd_first_seen = now, pd_last_seen = now \<rparr>"

definition success_rate :: "procedure_record \<Rightarrow> rat option" where
  "success_rate p =
     (if pd_attempts p = 0 then None
      else Some (to_f32 (to_f32 (of_nat (unat (pd_successes p))) / to_f32 (of_nat (unat (pd_attempts p))))))"

definition procedure_outcome :: "bool \<Rightarrow> instant \<Rightarrow> procedure_record \<Rightarrow> procedure_record" where
  "procedure_outcome success now p =
     (let p1 = p\<lparr> pd_attempts := pd_attempts p + 1 \<rparr>;
          p2 = (if success then p1\<lparr> pd_successes := pd_successes p1 + 1 \<rparr> else p1)
      in p2\<lparr> pd_last_seen := now \<rparr>)"

type_synonym procedural_memory = "(uuid \<times> procedure_record) list"

definition procedural_register :: "procedure_record \<Rightarrow> procedural_memory \<Rightarrow> procedural_memory" where
  "procedural_register p m = AList.update (pd_id p) p m"

definition procedural_set_status :: "uuid \<Rightarrow> procedure_status \<Rightarrow> procedural_memory \<Rightarrow> procedural_memory option" where
  "procedural_set_status i status m =
     Option.bind (map_of m i) (\<lambda>p.
       if procedure_status_rank status < procedure_status_rank (pd_status p) then None
       else Some (AList.update i (p\<lparr> pd_status := status \<rparr>) m))"

definition procedural_record_outcome :: "uuid \<Rightarrow> bool \<Rightarrow> instant \<Rightarrow> procedural_memory \<Rightarrow> procedural_memory option" where
  "procedural_record_outcome i success now m =
     map_option (\<lambda>p. AList.update i (procedure_outcome success now p) m) (map_of m i)"

definition procedures_for :: "procedural_memory \<Rightarrow> string \<Rightarrow> procedure_record list" where
  "procedures_for m trigger = sort_key pd_name (filter (\<lambda>p. pd_trigger p = trigger) (map snd m))"

section \<open>What the layers remember\<close>

lemma working_pushes:
  "wm_items (fold (\<lambda>(text, now). working_push text now) xs (working_new c))
     = map (\<lambda>(text, now). \<lparr> wi_text = text, wi_recorded_at = now \<rparr>) (drop (length xs - max c 1) xs)
   \<and> wm_capacity (fold (\<lambda>(text, now). working_push text now) xs (working_new c)) = max c 1"
proof (induction xs rule: rev_induct)
  case Nil
  show ?case by (simp add: working_new_def)
next
  case (snoc x xs)
  obtain tx now where x: "x = (tx, now)" by (cases x)
  let ?cap = "max c 1" and ?n = "length xs"
  show ?case
  proof (cases "?cap \<le> ?n")
    case True
    then have "Suc ?n - ?cap = Suc (?n - ?cap)" by (rule Suc_diff_le)
    moreover have "tl (drop (?n - ?cap) xs) = drop (Suc (?n - ?cap)) xs" by (simp add: drop_Suc tl_drop)
    ultimately show ?thesis
      using snoc True by (simp add: x working_push_def Let_def map_tl [symmetric])
  next
    case False
    then show ?thesis using snoc by (auto simp: x working_push_def Let_def)
  qed
qed

text \<open>The newest of a list of observations, the earliest recorded among equally old ones.\<close>

definition newest_in :: "current_value list \<Rightarrow> current_value \<Rightarrow> bool" where
  "newest_in obs v \<longleftrightarrow> (\<exists>pre post. obs = pre @ v # post
     \<and> (\<forall>x \<in> set pre. cv_observed_at x < cv_observed_at v) \<and> (\<forall>x \<in> set post. cv_observed_at x \<le> cv_observed_at v))"

lemma newest_in_snoc:
  assumes "newest_in obs v"
  shows "if cv_observed_at c \<le> cv_observed_at v then newest_in (obs @ [c]) v else newest_in (obs @ [c]) c"
proof -
  from assms obtain pre post where ob: "obs = pre @ v # post" "\<forall>x \<in> set pre. cv_observed_at x < cv_observed_at v"
    "\<forall>x \<in> set post. cv_observed_at x \<le> cv_observed_at v" by (auto simp: newest_in_def)
  show ?thesis
  proof (cases "cv_observed_at c \<le> cv_observed_at v")
    case True
    with ob have "newest_in (obs @ [c]) v"
      unfolding newest_in_def by (intro exI [of _ pre] exI [of _ "post @ [c]"]) simp
    with True show ?thesis by simp
  next
    case False
    with ob have "newest_in (obs @ [c]) c"
      unfolding newest_in_def by (intro exI [of _ obs] exI [of _ "[]"]) auto
    with False show ?thesis by simp
  qed
qed

lemma newest_in_unique: "newest_in obs v \<Longrightarrow> newest_in obs w \<Longrightarrow> v = w"
  unfolding newest_in_def by (force simp: append_eq_append_conv2 append_eq_Cons_conv Cons_eq_append_conv)

abbreviation about :: "resource_id \<Rightarrow> string \<Rightarrow> current_value list \<Rightarrow> current_value list" where
  "about s a obs \<equiv> filter (\<lambda>c. cv_subject c = s \<and> cv_attribute c = a) obs"

lemma operational_current_record:
  "operational_current (operational_record c m) s a =
     (if cv_subject c = s \<and> cv_attribute c = a
      then (case operational_current m s a of
              Some existing \<Rightarrow> Some (if cv_observed_at c \<le> cv_observed_at existing then existing else c)
            | None \<Rightarrow> Some c)
      else operational_current m s a)"
  by (auto simp: operational_current_def operational_record_def Let_def update_conv' split: option.split)

lemma operational_history:
  "case operational_current (fold operational_record obs []) s a of
     None \<Rightarrow> about s a obs = [] | Some v \<Rightarrow> newest_in (about s a obs) v"
proof (induction obs rule: rev_induct)
  case Nil
  show ?case by (simp add: operational_current_def)
next
  case (snoc c obs)
  show ?case
  proof (cases "operational_current (fold operational_record obs []) s a")
    case None
    moreover have "newest_in [c] c" unfolding newest_in_def by (intro exI [of _ "[]"]) simp
    ultimately show ?thesis using snoc by (simp add: operational_current_record)
  next
    case (Some v)
    with snoc have "newest_in (about s a obs) v" by simp
    from newest_in_snoc [OF this, of c] Some snoc show ?thesis
      by (auto simp: operational_current_record)
  qed
qed

text \<open>
  Memory keeps the latest. The working memory holds exactly the most recent entries up to its
  capacity, in order. The operational memory equals its reference over the complete history: the
  current value of an attribute is the newest observation of it, the first recorded one among equally
  old ones, however the observations arrive; there is none exactly when nothing was observed.
\<close>

theorem memory_keeps_latest:
  "wm_items (fold (\<lambda>(text, now). working_push text now) xs (working_new c))
     = map (\<lambda>(text, now). \<lparr> wi_text = text, wi_recorded_at = now \<rparr>) (drop (length xs - max c 1) xs)
   \<and> (operational_current (fold operational_record obs []) s a = Some v \<longleftrightarrow>
        (\<exists>pre post. filter (\<lambda>c. cv_subject c = s \<and> cv_attribute c = a) obs = pre @ v # post
           \<and> {cv_observed_at x |x. x \<in> set pre} \<subseteq> {..< cv_observed_at v}
           \<and> {cv_observed_at x |x. x \<in> set post} \<subseteq> {.. cv_observed_at v}))
   \<and> (operational_current (fold operational_record obs []) s a = None \<longleftrightarrow>
        filter (\<lambda>c. cv_subject c = s \<and> cv_attribute c = a) obs = [])"
proof -
  have split: "(\<exists>pre post. about s a obs = pre @ v # post
           \<and> {cv_observed_at x |x. x \<in> set pre} \<subseteq> {..< cv_observed_at v}
           \<and> {cv_observed_at x |x. x \<in> set post} \<subseteq> {.. cv_observed_at v}) \<longleftrightarrow> newest_in (about s a obs) v"
    unfolding newest_in_def by (intro iff_exI) auto
  have "newest_in [] w \<longleftrightarrow> False" for w by (simp add: newest_in_def)
  with operational_history [where obs = obs and s = s and a = a] newest_in_unique [of "about s a obs"]
  have "(operational_current (fold operational_record obs []) s a = Some v \<longleftrightarrow> newest_in (about s a obs) v)
      \<and> (operational_current (fold operational_record obs []) s a = None \<longleftrightarrow> about s a obs = [])"
    by (auto split: option.splits)
  then show ?thesis using working_pushes [of xs c] split by blast
qed

text \<open>A search returns exactly the episodes that reach the score, the best first and the oldest first among equals.\<close>

lemma similar_incidents_exact:
  "set (similar_incidents m sg t) = {s. t \<le> se_score s \<and> (\<exists>e \<in> snd ` set m. s = score_episode sg e)}"
  "sorted (map (\<lambda>s. - se_score s) (similar_incidents m sg t))"
  "sorted (map (\<lambda>s. ep_started_at (se_episode s)) (filter (\<lambda>s. se_score s = q) (similar_incidents m sg t)))"
proof -
  show "set (similar_incidents m sg t) = {s. t \<le> se_score s \<and> (\<exists>e \<in> snd ` set m. s = score_episode sg e)}"
    by (auto simp: similar_incidents_def episodes_all_def)
  show "sorted (map (\<lambda>s. - se_score s) (similar_incidents m sg t))"
    by (simp add: similar_incidents_def)
  let ?base = "sort_key (\<lambda>s. ep_started_at (se_episode s))
      (filter (\<lambda>s. t \<le> se_score s) (map (score_episode sg) (episodes_all m)))"
  have "filter (\<lambda>s. se_score s = q) (similar_incidents m sg t) = filter (\<lambda>s. se_score s = q) ?base"
    using sort_key_stable [of "\<lambda>s. - se_score s" "- q" ?base] by (simp add: similar_incidents_def)
  then show "sorted (map (\<lambda>s. ep_started_at (se_episode s)) (filter (\<lambda>s. se_score s = q) (similar_incidents m sg t)))"
    by (simp add: sorted_filter)
qed

text \<open>A procedure never records more successes than attempts, as long as the 32-bit counter does not wrap.\<close>

lemma procedure_outcome_counts:
  assumes "pd_successes p \<le> pd_attempts p" "pd_attempts p < - 1"
  shows "pd_successes (procedure_outcome b now p) \<le> pd_attempts (procedure_outcome b now p)"
proof -
  have "unat (pd_attempts p + 1) = Suc (unat (pd_attempts p))" using assms(2) by (rule unat_plus_one_less)
  moreover have "pd_successes p < - 1" using assms by simp
  then have "unat (pd_successes p + 1) = Suc (unat (pd_successes p))" by (rule unat_plus_one_less)
  ultimately show ?thesis using assms(1) by (auto simp: procedure_outcome_def word_le_nat_alt Let_def)
qed

end
