(* ===== verification/Runbook_Manager.thy ===== *)
theory Runbook_Manager
  imports Runbooks Impact Memory
begin

text \<open>
  The promotion ladder's caller in the daemon (\<open>argus-daemon\<close>, \<open>runbooks.rs\<close>): deliveries from the cloud, the evidence behind the technical
  gates, the operator's decisions and the attributed outcomes. The manager keeps the library, the
  delivery records by name and the persisted rows; whether a write succeeds is an argument of
  each operation. A persisted row that does not decode is a row without a record. The source
  serializes the operations with one mutex, so each is one step here. Reasons keep the case and
  the data of the source's prose.
\<close>

section \<open>Evidence\<close>

datatype evidence_error =
    NoEpisodes
  | ManualTrigger
  | NoCorroboration string string
  | NotSimulated capability_id
  | DestructiveAction capability_id
  | InfeasibleRollback capability_id
  | NotClassified capability_id
  | DeniedByPolicy capability_id string string

definition corroborates :: "string \<Rightarrow> string \<Rightarrow> episode \<Rightarrow> bool" where
  "corroborates signature procedure_signature e =
     (ep_outcome e = EpResolved \<and> ep_remediation e \<noteq> None
      \<and> (to_lowercase (trim (ep_symptom e)) = signature
         \<or> (case ep_remediation e of None \<Rightarrow> False
            | Some remediation \<Rightarrow> eq_ignore_ascii_case (trim remediation) procedure_signature)))"

definition evaluation_evidence :: "runbook \<Rightarrow> episode list \<Rightarrow> evidence_error + unit" where
  "evaluation_evidence r episodes =
     (if episodes = [] then Inl NoEpisodes
      else let name = to_lowercase (trim (rb_name r));
               check = (\<lambda>signature.
                 if filter (corroborates signature (''procedure: '' @ name)) episodes = []
                 then Inl (NoCorroboration signature name) else Inr ())
      in case rb_trigger r of
           Symptom symptom \<Rightarrow> check (to_lowercase (trim symptom))
         | Signal signal \<Rightarrow> check (to_lowercase (trim signal))
         | Manual \<Rightarrow> Inl ManualTrigger)"

definition host_local :: resource_id where
  "host_local = ResourceId ''host:local''"

definition simulation_input_of :: "runbook \<Rightarrow> capability_descriptor \<Rightarrow> simulation_input" where
  "simulation_input_of r d =
     \<lparr> si_capability = cd_id d, si_subject = host_local, si_risk = cd_risk_class d,
       si_reversibility = cd_reversibility d, si_blast_radius = effective_blast_radius d, si_dependents = [],
       si_declared_recovery_time_seconds = None,
       si_declared_rollback = (case rb_rollback r of [] \<Rightarrow> None | c # _ \<Rightarrow> Some c), si_alternative = None \<rparr>"

definition simulate_action :: "runbook \<Rightarrow> capability_descriptor list \<Rightarrow> capability_id \<Rightarrow> evidence_error + unit" where
  "simulate_action r descriptors a =
     (case find (\<lambda>d. cd_id d = a) descriptors of
        None \<Rightarrow> Inl (NotSimulated a)
      | Some d \<Rightarrow>
          if cd_risk_class d = Destructive then Inl (DestructiveAction a)
          else if im_rollback (simulate_impact (simulation_input_of r d)) = Infeasible then Inl (InfeasibleRollback a)
          else Inr ())"

fun check_each :: "('a \<Rightarrow> 'e + unit) \<Rightarrow> 'a list \<Rightarrow> 'e + unit" where
  "check_each f [] = Inr ()"
| "check_each f (x # xs) = (case f x of Inl e \<Rightarrow> Inl e | Inr _ \<Rightarrow> check_each f xs)"

definition simulation_evidence :: "runbook \<Rightarrow> capability_descriptor list \<Rightarrow> evidence_error + unit" where
  "simulation_evidence r descriptors = check_each (simulate_action r descriptors) (rb_allowed_actions r)"

definition classify_action ::
  "(authorization_request \<Rightarrow> policy_decision) \<Rightarrow> uuid \<Rightarrow> capability_descriptor list \<Rightarrow> capability_id \<Rightarrow> evidence_error + unit" where
  "classify_action policy correlation descriptors a =
     (case find (\<lambda>d. cd_id d = a) descriptors of
        None \<Rightarrow> Inl (NotClassified a)
      | Some d \<Rightarrow>
          (let decision = policy (authorization_request_new
                 \<lparr> rq_capability = a, rq_principal = \<lparr> pr_uid = None, pr_gid = None \<rparr>, rq_resource = Some host_local,
                   rq_arguments = JNull, rq_correlation = correlation \<rparr>
                 (cd_risk_class d) (effective_blast_radius d))
           in if pd_outcome decision = Deny then Inl (DeniedByPolicy a (pd_policy_id decision) (pd_reason decision))
              else Inr ()))"

definition policy_compatible ::
  "runbook \<Rightarrow> capability_descriptor list \<Rightarrow> (authorization_request \<Rightarrow> policy_decision) \<Rightarrow> uuid \<Rightarrow> evidence_error + unit" where
  "policy_compatible r descriptors policy correlation =
     check_each (classify_action policy correlation descriptors) (rb_allowed_actions r)"

section \<open>The manager\<close>

record delivered_runbook =
  dr_runbook :: runbook
  dr_configuration_id :: uuid
  dr_version_id :: uuid
  dr_version_number :: int
  dr_delivered_at :: instant

record runbook_manager =
  rm_library :: runbook_library
  rm_delivered :: "string \<rightharpoonup> delivered_runbook"
  rm_store :: "(string, delivered_runbook option) btree"
  rm_audit :: "(string \<times> json) list"

definition manager_new :: "runbook_library \<Rightarrow> (string, delivered_runbook option) btree \<Rightarrow> runbook_manager" where
  "manager_new lib store = \<lparr> rm_library = lib, rm_delivered = Map.empty, rm_store = store, rm_audit = [] \<rparr>"

definition put_runbook :: "delivered_runbook \<Rightarrow> runbook_manager \<Rightarrow> runbook_manager" where
  "put_runbook rec m = m\<lparr> rm_store := bt_insert (rb_name (dr_runbook rec)) (Some rec) (rm_store m) \<rparr>"

text \<open>\<open>list_runbooks\<close>: one row that does not decode fails the whole listing.\<close>

definition list_runbooks :: "(string, delivered_runbook option) btree \<Rightarrow> delivered_runbook list option" where
  "list_runbooks store =
     (if None \<in> set (map snd store) then None
      else Some (sort_key (\<lambda>rec. rb_name (dr_runbook rec)) (filter_map snd store)))"

definition load_delivery :: "delivered_runbook \<Rightarrow> runbook_manager \<Rightarrow> runbook_manager" where
  "load_delivery rec m =
     (let name = rb_name (dr_runbook rec); lib = snd (library_remove name (rm_library m))
      in case library_register (dr_runbook rec) lib of
           Inl _ \<Rightarrow> m\<lparr> rm_library := lib \<rparr>
         | Inr lib' \<Rightarrow> m\<lparr> rm_library := lib', rm_delivered := (rm_delivered m)(name \<mapsto> rec) \<rparr>)"

definition manager_load ::
  "runbook_library \<Rightarrow> (string, delivered_runbook option) btree \<Rightarrow> runbook_manager" where
  "manager_load lib store =
     (case list_runbooks store of
        None \<Rightarrow> manager_new lib store
      | Some deliveries \<Rightarrow> fold load_delivery deliveries (manager_new lib store))"

definition persist_delivered :: "bool \<Rightarrow> string \<Rightarrow> runbook_manager \<Rightarrow> runbook_manager" where
  "persist_delivered ok name m =
     (case library_by_name name (rm_library m) of
        None \<Rightarrow> m
      | Some r \<Rightarrow>
          (case rm_delivered m name of
             None \<Rightarrow> m
           | Some rec \<Rightarrow>
               (let rec' = rec\<lparr> dr_runbook := r \<rparr>; m' = m\<lparr> rm_delivered := (rm_delivered m)(name \<mapsto> rec') \<rparr>
                in if ok then put_runbook rec' m' else m')))"

subsection \<open>Delivery\<close>

definition MAX_RUNBOOK_TOML_BYTES :: nat where
  "MAX_RUNBOOK_TOML_BYTES = 64 * 1024"

datatype delivery_error =
    TooLarge nat
  | DeliveryParse load_error
  | DeclaresGates
  | NotPersisted
  | DeliveryRefused library_error

record delivery_report =
  rp_name :: string
  rp_recorded :: "gate list"
  rp_withheld :: "(gate \<times> (evidence_error + gate_error)) list"

fun review_gates ::
  "(gate \<times> (evidence_error + unit)) list \<Rightarrow> runbook \<Rightarrow> gate list \<times> (gate \<times> (evidence_error + gate_error)) list \<times> runbook" where
  "review_gates [] r = ([], [], r)"
| "review_gates ((g, evidence) # rest) r =
     (case evidence of
        Inl reason \<Rightarrow> (let (recorded, withheld, r') = review_gates rest r in (recorded, (g, Inl reason) # withheld, r'))
      | Inr _ \<Rightarrow>
          (case record_gate g r of
             Inr r1 \<Rightarrow> (let (recorded, withheld, r') = review_gates rest r1 in (g # recorded, withheld, r'))
           | Inl e \<Rightarrow> (let (recorded, withheld, r') = review_gates rest r in (recorded, (g, Inr e) # withheld, r'))))"

text \<open>Both pieces of evidence are computed from the runbook as delivered, before a gate is recorded.\<close>

definition delivery_review ::
  "episode list \<Rightarrow> capability_descriptor list \<Rightarrow> runbook \<Rightarrow> gate list \<times> (gate \<times> (evidence_error + gate_error)) list \<times> runbook" where
  "delivery_review episodes descriptors r =
     review_gates [(GateEvaluation, evaluation_evidence r episodes), (GateSimulation, simulation_evidence r descriptors)] r"

record delivery_input =
  di_text :: string
  di_fresh :: uuid
  di_configuration_id :: uuid
  di_version_id :: uuid
  di_version_number :: int
  di_now :: instant
  di_written :: bool

definition deliver ::
  "(string \<Rightarrow> string + runbook_file) \<Rightarrow> delivery_input \<Rightarrow> episode list \<Rightarrow> capability_descriptor list \<Rightarrow>
   runbook_manager \<Rightarrow> (delivery_error + delivery_report) \<times> runbook_manager" where
  "deliver toml d episodes descriptors m =
     (if MAX_RUNBOOK_TOML_BYTES < length (utf8 (di_text d)) then (Inl (TooLarge (length (utf8 (di_text d)))), m)
      else case parse_runbook toml (di_fresh d) (di_text d) of
        Inl e \<Rightarrow> (Inl (DeliveryParse e), m)
      | Inr parsed \<Rightarrow>
          if rb_gates parsed \<noteq> [] then (Inl DeclaresGates, m)
          else let (recorded, withheld, r) = delivery_review episodes descriptors parsed;
                   rec = \<lparr> dr_runbook = r, dr_configuration_id = di_configuration_id d, dr_version_id = di_version_id d,
                           dr_version_number = di_version_number d, dr_delivered_at = di_now d \<rparr>
          in if \<not> di_written d then (Inl NotPersisted, m)
             else let m1 = put_runbook rec m; lib = snd (library_remove (rb_name r) (rm_library m1))
             in case library_register r lib of
                  Inl e \<Rightarrow> (Inl (DeliveryRefused e), m1\<lparr> rm_library := lib \<rparr>)
                | Inr lib' \<Rightarrow>
                    (Inr \<lparr> rp_name = rb_name r, rp_recorded = recorded, rp_withheld = withheld \<rparr>,
                     m1\<lparr> rm_library := lib', rm_delivered := (rm_delivered m1)(rb_name r \<mapsto> rec) \<rparr>))"

subsection \<open>Decisions\<close>

datatype ladder_decision = Approve | Promote

fun decision_parse :: "string \<Rightarrow> ladder_decision option" where
  "decision_parse raw = (if raw = ''approve'' then Some Approve else if raw = ''promote'' then Some Promote else None)"

datatype decide_error = FileOwned | NoRunbook string | LadderRefused promotion_error

definition decision_name :: "ladder_decision \<Rightarrow> string" where
  "decision_name d = (case d of Approve \<Rightarrow> ''approve'' | Promote \<Rightarrow> ''promote'')"

text \<open>\<open>show_error\<close> is the prose of a ladder error, which the audit record quotes.\<close>

definition audit_decision ::
  "bool \<Rightarrow> string \<Rightarrow> ladder_decision \<Rightarrow> string \<Rightarrow> string \<Rightarrow> string option \<Rightarrow> runbook_manager \<Rightarrow> runbook_manager" where
  "audit_decision ok name d decided_by status refusal m =
     (if ok
      then m\<lparr> rm_audit := rm_audit m @
             [(name, JObj [(''decision'', JStr (decision_name d)), (''decided_by'', JStr decided_by),
                           (''status'', JStr status),
                           (''refusal'', case refusal of None \<Rightarrow> JNull | Some why \<Rightarrow> JStr why)])] \<rparr>
      else m)"

definition apply_decision :: "ladder_decision \<Rightarrow> runbook \<Rightarrow> promotion_error + runbook" where
  "apply_decision d r = (case d of Approve \<Rightarrow> approve r | Promote \<Rightarrow> promote r)"

definition decided_status :: "ladder_decision \<Rightarrow> string" where
  "decided_status d = (case d of Approve \<Rightarrow> ''approved'' | Promote \<Rightarrow> ''promoted'')"

definition manager_decide ::
  "(promotion_error \<Rightarrow> string) \<Rightarrow> bool \<Rightarrow> bool \<Rightarrow> string \<Rightarrow> ladder_decision \<Rightarrow> string \<Rightarrow> runbook_manager \<Rightarrow>
   (decide_error + string) \<times> runbook_manager" where
  "manager_decide show_error audited written name d decided_by m =
     (if rm_delivered m name = None then (Inl FileOwned, m)
      else case library_by_name name (rm_library m) of
        None \<Rightarrow> (Inl (NoRunbook name), m)
      | Some r \<Rightarrow>
          (case apply_decision d r of
             Inr r' \<Rightarrow>
               (Inr (decided_status d),
                persist_delivered written name
                  (audit_decision audited name d decided_by (decided_status d) None
                    (m\<lparr> rm_library := library_update name (\<lambda>_. r') (rm_library m) \<rparr>)))
           | Inl e \<Rightarrow>
               (Inl (LadderRefused e),
                audit_decision audited name d decided_by ''refused'' (Some (show_error e)) m)))"

subsection \<open>Attributed outcomes\<close>

definition manager_record_outcome :: "bool \<Rightarrow> string \<Rightarrow> bool \<Rightarrow> runbook_manager \<Rightarrow> runbook_manager" where
  "manager_record_outcome written name success m =
     (case library_by_name name (rm_library m) of
        None \<Rightarrow> m
      | Some _ \<Rightarrow>
          persist_delivered written name
            (m\<lparr> rm_library := library_update name (runbook_record_outcome success) (rm_library m) \<rparr>))"

definition record_earned_gate :: "bool \<Rightarrow> string \<Rightarrow> gate \<Rightarrow> runbook_manager \<Rightarrow> runbook_manager" where
  "record_earned_gate written name g m =
     (case library_by_name name (rm_library m) of
        None \<Rightarrow> m
      | Some r \<Rightarrow>
          (case record_gate g r of
             Inl _ \<Rightarrow> m
           | Inr r' \<Rightarrow>
               persist_delivered written name
                 (m\<lparr> rm_library := library_update name (\<lambda>_. r') (rm_library m) \<rparr>)))"

definition on_attributed_plan_validated ::
  "bool \<Rightarrow> string \<Rightarrow> capability_descriptor list \<Rightarrow> (authorization_request \<Rightarrow> policy_decision) \<Rightarrow> uuid \<Rightarrow>
   runbook_manager \<Rightarrow> runbook_manager" where
  "on_attributed_plan_validated written name descriptors policy correlation m =
     (let m1 = record_earned_gate written name GateValidation (manager_record_outcome written name True m)
      in case library_by_name name (rm_library m1) of
           None \<Rightarrow> m1
         | Some r \<Rightarrow>
             if has_reached GateValidation r \<and> policy_compatible r descriptors policy correlation = Inr ()
             then record_earned_gate written name GatePolicy m1 else m1)"

definition note_procedure_outcome :: "bool \<Rightarrow> string \<Rightarrow> bool \<Rightarrow> runbook_manager \<Rightarrow> runbook_manager" where
  "note_procedure_outcome written name success m = manager_record_outcome written name success m"


section \<open>The invariant\<close>

abbreviation rb_at :: "runbook_manager \<Rightarrow> string \<Rightarrow> runbook option" where
  "rb_at m n \<equiv> library_by_name n (rm_library m)"

definition manager_ok :: "runbook_manager \<Rightarrow> bool" where
  "manager_ok m \<longleftrightarrow> library_ok (rm_library m)
     \<and> (\<forall>n r. rb_at m n = Some r \<longrightarrow> ladder_ok r)
     \<and> (\<forall>n rec. rm_delivered m n = Some rec \<longrightarrow> rb_at m n = Some (dr_runbook rec))"

lemma persist_delivered_simps [simp]:
  "rm_library (persist_delivered ok name m) = rm_library m"
  "rm_delivered (persist_delivered ok name m) n =
     (if n = name then (case rb_at m name of None \<Rightarrow> rm_delivered m n
                        | Some r \<Rightarrow> map_option (\<lambda>rec. rec\<lparr> dr_runbook := r \<rparr>) (rm_delivered m n))
      else rm_delivered m n)"
  by (auto simp: persist_delivered_def put_runbook_def Let_def split: option.splits)

lemma audit_decision_simps [simp]:
  "rm_library (audit_decision ok name d by_whom status refusal m) = rm_library m"
  "rm_delivered (audit_decision ok name d by_whom status refusal m) = rm_delivered m"
  by (simp_all add: audit_decision_def)

text \<open>
  The shape shared by the decisions and the attributed outcomes: one runbook is replaced by a
  successor with the same identity, and its delivery record follows.
\<close>

lemma successor_ok:
  assumes "manager_ok m" "rb_at m name = Some r" "ladder_ok (f r)" "rb_id (f r) = rb_id r" "rb_name (f r) = rb_name r"
    and m1: "rm_library m1 = library_update name f (rm_library m)" "rm_delivered m1 = rm_delivered m"
  shows "manager_ok (persist_delivered wr name m1)"
    and "rb_at (persist_delivered wr name m1) n = (if n = name then Some (f r) else rb_at m n)"
proof -
  have ok: "library_ok (rm_library m)" using assms(1) by (simp add: manager_ok_def)
  have keep: "\<And>q. rb_at m name = Some q \<Longrightarrow> rb_id (f q) = rb_id q \<and> rb_name (f q) = rb_name q"
    using assms(2,4,5) by simp
  have wf: "library_ok (rm_library m1)"
    unfolding m1(1) by (rule library_update_ok(1) [OF ok]) (use keep in blast)
  have at_succ: "rb_at m1 k = (if k = name then Some (f r) else rb_at m k)" for k
    unfolding m1(1) using library_update_ok(2) [OF ok, of name f k] keep assms(2) by simp
  then show "rb_at (persist_delivered wr name m1) n = (if n = name then Some (f r) else rb_at m n)" by simp
  show "manager_ok (persist_delivered wr name m1)"
    using assms(1,3) wf unfolding manager_ok_def persist_delivered_simps at_succ m1(2)
    by (auto split: if_splits)
qed

lemma gate_fields: "record_gate g r = Inr r' \<Longrightarrow> rb_id r' = rb_id r \<and> rb_name r' = rb_name r \<and> rb_status r' = rb_status r"
  by (auto simp: record_gate_iff)

lemma apply_decision_fields:
  "apply_decision d r = Inr r' \<Longrightarrow> rb_id r' = rb_id r \<and> rb_name r' = rb_name r"
  by (auto simp: apply_decision_def approve_def promote_def record_gate_iff
      split: ladder_decision.splits if_splits sum.splits)

lemma apply_decision_ladder: "apply_decision d r = Inr r' \<Longrightarrow> ladder_ok r \<Longrightarrow> ladder_ok r'"
  using approve_ladder promote_ladder by (auto simp: apply_decision_def split: ladder_decision.splits)

lemma decide_cases:
  obtains (refused) e m' where "manager_decide sh au wr name d by_whom m = (Inl e, m')"
      "rm_library m' = rm_library m" "rm_delivered m' = rm_delivered m"
  | (decided) r r' where "rm_delivered m name \<noteq> None" "rb_at m name = Some r" "apply_decision d r = Inr r'"
      "manager_decide sh au wr name d by_whom m =
         (Inr (decided_status d),
          persist_delivered wr name (audit_decision au name d by_whom (decided_status d) None
            (m\<lparr> rm_library := library_update name (\<lambda>_. r') (rm_library m) \<rparr>)))"
proof (cases "rm_delivered m name = None \<or> rb_at m name = None")
  case True
  show ?thesis
  proof (cases "rm_delivered m name = None")
    case True
    then show ?thesis by (intro refused) (auto simp: manager_decide_def)
  next
    case False
    with \<open>rm_delivered m name = None \<or> rb_at m name = None\<close> have "rb_at m name = None" by blast
    with False show ?thesis by (intro refused [of "NoRunbook name" m]) (auto simp: manager_decide_def)
  qed
next
  case False
  then obtain r where r: "rb_at m name = Some r" by auto
  show ?thesis
  proof (cases "apply_decision d r")
    case (Inl e)
    then show ?thesis using False r
      by (intro refused [of "LadderRefused e" "audit_decision au name d by_whom ''refused'' (Some (sh e)) m"])
         (auto simp: manager_decide_def)
  next
    case (Inr r')
    then show ?thesis using False r by (intro decided [of r r']) (auto simp: manager_decide_def)
  qed
qed

lemma decide_ok:
  assumes "manager_ok m"
  shows "manager_ok (snd (manager_decide sh au wr name d by_whom m))"
proof (cases rule: decide_cases [of sh au wr name d by_whom m])
  case (refused e m')
  then show ?thesis using assms by (simp add: manager_ok_def)
next
  case (decided r r')
  have "ladder_ok r'" using assms decided(2) apply_decision_ladder [OF decided(3)] by (auto simp: manager_ok_def)
  then show ?thesis
    using successor_ok(1) [of m name r "\<lambda>_. r'"] apply_decision_fields [OF decided(3)] decided(2) assms
    by (simp add: decided(4))
qed


lemma outcome_ok:
  assumes "manager_ok m"
  shows "manager_ok (manager_record_outcome wr name ok m)"
    and "rb_at (manager_record_outcome wr name ok m) n =
           (if n = name then map_option (runbook_record_outcome ok) (rb_at m n) else rb_at m n)"
proof (atomize (full), cases "rb_at m name")
  case (Some r)
  then have "ladder_ok r" using assms by (auto simp: manager_ok_def)
  then show "manager_ok (manager_record_outcome wr name ok m) \<and>
      rb_at (manager_record_outcome wr name ok m) n =
        (if n = name then map_option (runbook_record_outcome ok) (rb_at m n) else rb_at m n)"
    using successor_ok [of m name r "runbook_record_outcome ok"
        "m\<lparr> rm_library := library_update name (runbook_record_outcome ok) (rm_library m) \<rparr>"] assms Some
    by (simp add: manager_record_outcome_def)
qed (simp add: assms manager_record_outcome_def)

text \<open>A gate recorded for an attributed run is one of the two technical gates of the hook.\<close>

lemma earned_gate_ok:
  assumes "manager_ok m" "technical g"
  shows "manager_ok (record_earned_gate wr name g m)"
    and "rb_at (record_earned_gate wr name g m) n =
           (if n = name then map_option (\<lambda>r. case record_gate g r of Inl _ \<Rightarrow> r | Inr r' \<Rightarrow> r') (rb_at m n) else rb_at m n)"
proof (atomize (full), cases "rb_at m name")
  case (Some r)
  then have lad: "ladder_ok r" using assms by (auto simp: manager_ok_def)
  show "manager_ok (record_earned_gate wr name g m) \<and>
      rb_at (record_earned_gate wr name g m) n =
        (if n = name then map_option (\<lambda>r. case record_gate g r of Inl _ \<Rightarrow> r | Inr r' \<Rightarrow> r') (rb_at m n) else rb_at m n)"
  proof (cases "record_gate g r")
    case (Inl e)
    then show ?thesis using Some assms by (simp add: record_earned_gate_def)
  next
    case (Inr r')
    then show ?thesis
      using successor_ok [of m name r "\<lambda>_. r'" "m\<lparr> rm_library := library_update name (\<lambda>_. r') (rm_library m) \<rparr>"]
        record_gate_ladder [OF Inr assms(2) lad] gate_fields [OF Inr] assms Some
      by (simp add: record_earned_gate_def)
  qed
qed (simp add: assms record_earned_gate_def)

lemma validated_ok:
  assumes "manager_ok m"
  shows "manager_ok (on_attributed_plan_validated wr name ds pol co m)"
    and "n \<noteq> name \<Longrightarrow> rb_at (on_attributed_plan_validated wr name ds pol co m) n = rb_at m n"
  using assms
  by (auto simp: on_attributed_plan_validated_def Let_def technical_def earned_gate_ok outcome_ok split: option.splits)

subsection \<open>Delivery\<close>

lemma review_result:
  "review_gates es r = (recorded, withheld, r') \<Longrightarrow> r' = r\<lparr> rb_gates := rb_gates r @ recorded \<rparr>"
proof (induction es r arbitrary: recorded withheld r' rule: review_gates.induct)
  case (2 g evidence rest r)
  show ?case
  proof (cases "\<exists>r1. evidence = Inr () \<and> record_gate g r = Inr r1")
    case True
    then obtain r1 where r1: "evidence = Inr ()" "record_gate g r = Inr r1" by blast
    obtain a b c where abc: "review_gates rest r1 = (a, b, c)" by (rule prod_cases3)
    have step: "r1 = r\<lparr> rb_gates := rb_gates r @ [g] \<rparr>" using r1(2) by (simp add: record_gate_iff)
    have "recorded = g # a \<and> r' = c" using "2.prems" r1 abc by simp
    then show ?thesis using "2.IH"(3) [OF r1 abc] by (simp add: step)
  next
    case False
    obtain a b c where abc: "review_gates rest r = (a, b, c)" by (rule prod_cases3)
    have "c = r\<lparr> rb_gates := rb_gates r @ a \<rparr>"
    proof (cases evidence)
      case (Inl e)
      then show ?thesis using "2.IH"(1) abc by blast
    next
      case (Inr u)
      with False obtain e where "record_gate g r = Inl e" by (cases "record_gate g r") auto
      with Inr show ?thesis using "2.IH"(2) abc by blast
    qed
    moreover have "recorded = a \<and> r' = c"
      using "2.prems" False abc by (cases evidence; cases "record_gate g r") auto
    ultimately show ?thesis by simp
  qed
qed simp

text \<open>What the review of a gateless candidate records: evaluation first, simulation only after it.\<close>

lemma delivery_review_gates:
  assumes "rb_gates r = []" "delivery_review eps ds r = (recorded, withheld, r')"
  shows "recorded =
    (if evaluation_evidence r eps \<noteq> Inr () then []
     else if simulation_evidence r ds \<noteq> Inr () then [GateEvaluation] else [GateEvaluation, GateSimulation])"
  using assms
  by (cases "evaluation_evidence r eps"; cases "simulation_evidence r ds")
     (auto simp: delivery_review_def record_gate_def LADDER_def)

lemma delivery_review_ladder:
  assumes "ladder_ok r" "rb_gates r = []" "delivery_review eps ds r = (recorded, withheld, r')"
  shows "ladder_ok r' \<and> rb_status r' = RbCandidate \<and> rb_gates r' = recorded \<and> length recorded \<le> 2"
proof -
  have st: "rb_status r = RbCandidate" using assms(1,2) by (auto simp: ladder_ok_def split: runbook_status.splits)
  have f: "rb_status r' = rb_status r" "rb_gates r' = recorded"
    using review_result [OF assms(3) [unfolded delivery_review_def]] assms(2) by simp_all
  show ?thesis
    using f st delivery_review_gates [OF assms(2,3)] by (simp add: ladder_ok_def LADDER_def split: if_splits)
qed

lemma deliver_cases:
  obtains (refused) e where "deliver toml d eps ds m = (Inl e, m)"
  | (delivered) parsed recorded withheld r m' where
      "parse_runbook toml (di_fresh d) (di_text d) = Inr parsed" "rb_gates parsed = []" "di_written d"
      "length (utf8 (di_text d)) \<le> MAX_RUNBOOK_TOML_BYTES"
      "delivery_review eps ds parsed = (recorded, withheld, r)"
      "m' = (let m1 = put_runbook \<lparr> dr_runbook = r, dr_configuration_id = di_configuration_id d,
                        dr_version_id = di_version_id d, dr_version_number = di_version_number d, dr_delivered_at = di_now d \<rparr> m
             in m1\<lparr> rm_library := bt_insert (rb_id r) r (snd (library_remove (rb_name r) (rm_library m))),
                    rm_delivered := (rm_delivered m1)(rb_name r \<mapsto>
                      \<lparr> dr_runbook = r, dr_configuration_id = di_configuration_id d, dr_version_id = di_version_id d,
                        dr_version_number = di_version_number d, dr_delivered_at = di_now d \<rparr>) \<rparr>)"
      "library_ok (rm_library m) \<Longrightarrow> deliver toml d eps ds m =
         (Inr \<lparr> rp_name = rb_name r, rp_recorded = recorded, rp_withheld = withheld \<rparr>, m')"
proof (cases "MAX_RUNBOOK_TOML_BYTES < length (utf8 (di_text d))")
  case True
  then show ?thesis by (intro refused) (simp add: deliver_def)
next
  case small: False
  show ?thesis
  proof (cases "parse_runbook toml (di_fresh d) (di_text d)")
    case (Inl e)
    then show ?thesis using small by (intro refused) (simp add: deliver_def)
  next
    case (Inr parsed)
    show ?thesis
    proof (cases "rb_gates parsed \<noteq> [] \<or> \<not> di_written d")
      case True
      then show ?thesis
        using small Inr by (intro refused [of "if rb_gates parsed \<noteq> [] then DeclaresGates else NotPersisted"])
          (auto simp: deliver_def split: prod.splits)
    next
      case False
      obtain recorded withheld r where rev: "delivery_review eps ds parsed = (recorded, withheld, r)"
        by (cases "delivery_review eps ds parsed") auto
      have reg: "library_register r (snd (library_remove (rb_name r) (rm_library m))) =
          Inr (bt_insert (rb_id r) r (snd (library_remove (rb_name r) (rm_library m))))" if "library_ok (rm_library m)"
        using library_ok_remove [OF that] by (simp add: library_register_iff)
      show ?thesis
        using small Inr False rev reg
        by (intro delivered [of parsed recorded withheld r]) (auto simp: deliver_def put_runbook_def Let_def)
    qed
  qed
qed


lemma deliver_ok:
  assumes "manager_ok m" "di_fresh d \<notin> set (map fst (rm_library m))"
  shows "manager_ok (snd (deliver toml d eps ds m))"
    and "deliver toml d eps ds m = (Inr report, m') \<Longrightarrow>
      \<exists>r. rb_at m' (rp_name report) = Some r \<and> ladder_ok r \<and> rb_status r = RbCandidate
        \<and> rb_gates r = rp_recorded report \<and> length (rb_gates r) \<le> 2
        \<and> (\<forall>n. n \<noteq> rp_name report \<longrightarrow> rb_at m' n = rb_at m n \<and> rm_delivered m' n = rm_delivered m n)"
proof (atomize (full), cases rule: deliver_cases [of toml d eps ds m])
  case (refused e)
  then show "manager_ok (snd (deliver toml d eps ds m)) \<and> (deliver toml d eps ds m = (Inr report, m') \<longrightarrow>
      (\<exists>r. rb_at m' (rp_name report) = Some r \<and> ladder_ok r \<and> rb_status r = RbCandidate
        \<and> rb_gates r = rp_recorded report \<and> length (rb_gates r) \<le> 2
        \<and> (\<forall>n. n \<noteq> rp_name report \<longrightarrow> rb_at m' n = rb_at m n \<and> rm_delivered m' n = rm_delivered m n)))"
    using assms(1) by simp
next
  case (delivered parsed recorded withheld r m2)
  have lib: "library_ok (rm_library m)" using assms(1) by (simp add: manager_ok_def)
  obtain doc where "toml (di_text d) = Inr doc" "parse_file (di_fresh d) doc = Inr parsed"
    using delivered(1) by (auto simp: parse_runbook_def split: sum.splits)
  then have parsed: "ladder_ok parsed" "rb_id parsed = di_fresh d"
    using parsed_file [of "di_fresh d" doc parsed] by simp_all
  have r: "ladder_ok r" "rb_status r = RbCandidate" "rb_gates r = recorded" "length recorded \<le> 2"
    using delivery_review_ladder [OF parsed(1) delivered(2,5)] by simp_all
  have rid: "rb_id r = di_fresh d"
    using review_result [OF delivered(5) [unfolded delivery_review_def]] parsed(2) by simp
  let ?rest = "snd (library_remove (rb_name r) (rm_library m))"
  have rest: "library_ok ?rest" "\<And>n. library_by_name n ?rest = (if n = rb_name r then None else rb_at m n)"
    using library_ok_remove [OF lib] by auto
  have reg: "library_register r ?rest = Inr (bt_insert (rb_id r) r ?rest)"
    using rest by (simp add: library_register_iff)
  have notfresh: "rb_id q \<noteq> rb_id r" if "rb_at m n = Some q" for n q
    using that assms(2) library_by_name_iff [OF lib] rid by force
  have lib2: "rm_library m2 = bt_insert (rb_id r) r ?rest" by (simp add: delivered(6) Let_def)
  have at2: "rb_at m2 n = (if n = rb_name r then Some r else rb_at m n)" for n
    unfolding lib2 library_ok_register(2) [OF rest(1) reg] rest(2)
    using notfresh by (auto split: option.splits)
  have del2: "rm_delivered m2 n = rm_delivered m n" if "n \<noteq> rb_name r" for n
    using that by (simp add: delivered(6) Let_def put_runbook_def)
  have del2r: "\<exists>rec. rm_delivered m2 (rb_name r) = Some rec \<and> dr_runbook rec = r"
    by (simp add: delivered(6) Let_def)
  have "library_ok (rm_library m2)" unfolding lib2 by (rule library_ok_register(1) [OF rest(1) reg])
  then have "manager_ok m2"
    using assms(1) r(1) del2 del2r unfolding manager_ok_def at2 by (auto split: if_splits)
  then show "manager_ok (snd (deliver toml d eps ds m)) \<and> (deliver toml d eps ds m = (Inr report, m') \<longrightarrow>
      (\<exists>r. rb_at m' (rp_name report) = Some r \<and> ladder_ok r \<and> rb_status r = RbCandidate
        \<and> rb_gates r = rp_recorded report \<and> length (rb_gates r) \<le> 2
        \<and> (\<forall>n. n \<noteq> rp_name report \<longrightarrow> rb_at m' n = rb_at m n \<and> rm_delivered m' n = rm_delivered m n)))"
    using delivered(7) [OF lib] r at2 del2 by auto
qed


section \<open>The life of a runbook\<close>

text \<open>
  The histories of a manager in a running daemon: deliveries (with an identifier not in use),
  operator decisions, and the outcomes of procedure plans. A procedure plan is only ever built from
  a promoted runbook (\<open>promoted_runbook\<close> of \<open>brain.rs\<close>), carries its name, and reports when it ends,
  possibly much later because it may wait for an approval; the set holds the names of the plans built so far.
\<close>

inductive lifecycle ::
  "(string \<Rightarrow> string + runbook_file) \<Rightarrow> (promotion_error \<Rightarrow> string) \<Rightarrow> runbook_manager \<Rightarrow> runbook_manager \<Rightarrow> string set \<Rightarrow> bool"
  for toml sh m0 where
  life_start: "lifecycle toml sh m0 m0 {}"
| life_deliver: "lifecycle toml sh m0 m names \<Longrightarrow> di_fresh d \<notin> set (map fst (rm_library m)) \<Longrightarrow>
    lifecycle toml sh m0 (snd (deliver toml d eps ds m)) names"
| life_decide: "lifecycle toml sh m0 m names \<Longrightarrow>
    lifecycle toml sh m0 (snd (manager_decide sh au wr n d by_whom m)) names"
| life_propose: "lifecycle toml sh m0 m names \<Longrightarrow> rb_at m n = Some r \<Longrightarrow> rb_status r = RbPromoted \<Longrightarrow>
    lifecycle toml sh m0 m (insert n names)"
| life_completed: "lifecycle toml sh m0 m names \<Longrightarrow> n \<in> names \<Longrightarrow>
    lifecycle toml sh m0 (on_attributed_plan_validated wr n ds pol co m) names"
| life_failed: "lifecycle toml sh m0 m names \<Longrightarrow> n \<in> names \<Longrightarrow>
    lifecycle toml sh m0 (note_procedure_outcome wr n False m) names"

lemma lifecycle_ok: "lifecycle toml sh m0 m names \<Longrightarrow> manager_ok m0 \<Longrightarrow> manager_ok m"
  by (induction rule: lifecycle.induct)
     (simp_all add: deliver_ok decide_ok validated_ok outcome_ok note_procedure_outcome_def)

section \<open>A sample delivery\<close>

definition sample_file :: runbook_file where
  "sample_file =
     \<lparr> rf_name = ''restart-failed'', rf_trigger = Symptom ''host-health'', rf_required_evidence = [EvService],
       rf_investigation_steps = [], rf_decision_criteria = [], rf_allowed_actions = [''host.service.restart''],
       rf_rollback = [], rf_validation = [], rf_gates = [] \<rparr>"

definition sample_episode :: episode where
  "sample_episode =
     \<lparr> ep_id = 1, ep_subject = host_local, ep_symptom = ''host-health'', ep_resource_class = ''host'', ep_root_cause = None,
       ep_remediation = Some ''restore the host service'', ep_outcome = EpResolved, ep_change_proximity = None,
       ep_started_at = 0, ep_resolved_at = Some 0 \<rparr>"

definition sample_descriptor :: capability_descriptor where
  "sample_descriptor =
     descriptor_new (CapabilityId ''host.service.restart'') ''argusd'' ''host.service.restart'' LowRisk (0, 1, 0) (JObj []) (JObj [])
       Reversible"

definition sample_delivery_input :: delivery_input where
  "sample_delivery_input =
     \<lparr> di_text = ''document'', di_fresh = 7, di_configuration_id = 1, di_version_id = 2, di_version_number = 1,
       di_now = 0, di_written = True \<rparr>"

definition sample_managed :: runbook_manager where
  "sample_managed =
     snd (deliver (\<lambda>_. Inr sample_file) sample_delivery_input [sample_episode] [sample_descriptor] (manager_new [] []))"

definition sample_approved :: runbook_manager where
  "sample_approved = snd (manager_decide (\<lambda>_. []) True True ''restart-failed'' Approve ''operator'' sample_managed)"

lemmas sample_defs = sample_file_def sample_episode_def sample_descriptor_def sample_delivery_input_def

lemma sample_parsed:
  "parse_runbook (\<lambda>_. Inr sample_file) 7 text =
     Inr (runbook_candidate 7 ''restart-failed'' (Symptom ''host-health'') [EvService] [] []
            [CapabilityId ''host.service.restart''] [] [])"
  by (simp add: parse_runbook_def parse_file_def sample_file_def trim_def char_class_defs capability_id_new_def
      is_dotted_path_def is_segment_def)

lemma sample_evidence:
  fixes r defines "r \<equiv> runbook_candidate 7 ''restart-failed'' (Symptom ''host-health'') [EvService] [] []
            [CapabilityId ''host.service.restart''] [] []"
  shows "evaluation_evidence r [sample_episode] = Inr ()" "simulation_evidence r [sample_descriptor] = Inr ()"
  by (simp_all add: Let_def r_def runbook_candidate_def evaluation_evidence_def corroborates_def sample_episode_def trim_def
      to_lowercase_def lowercase_char_def char_class_defs simulation_evidence_def simulate_action_def
      sample_descriptor_def descriptor_new_def simulate_impact_def simulation_input_of_def rollback_feasibility_of_def)

lemma sample_managed_gates:
  "\<exists>r. rb_at sample_managed ''restart-failed'' = Some r \<and> rb_status r = RbCandidate
     \<and> rb_gates r = [GateEvaluation, GateSimulation] \<and> rm_delivered sample_managed ''restart-failed'' \<noteq> None"
  by (simp add: sample_managed_def deliver_def sample_delivery_input_def sample_parsed MAX_RUNBOOK_TOML_BYTES_def
      utf8_def utf8_char_def delivery_review_def sample_evidence)
     (simp add: Let_def runbook_candidate_def record_gate_def LADDER_def put_runbook_def manager_new_def library_remove_def
      library_register_def library_by_name_def library_values_def)

lemma refused_decision:
  assumes "rb_at m n = Some r" "apply_decision d r = Inl e"
  shows "rm_library (snd (manager_decide sh au wr n d by_whom m)) = rm_library m"
    "rm_delivered (snd (manager_decide sh au wr n d by_whom m)) = rm_delivered m"
  using assms by (simp_all add: manager_decide_def)

lemma sample_approved_gates:
  obtains r where "rb_at sample_approved ''restart-failed'' = Some r" "rb_status r = RbCandidate"
    "rb_gates r = [GateEvaluation, GateSimulation]" "rm_delivered sample_approved ''restart-failed'' \<noteq> None"
proof -
  obtain r where r: "rb_at sample_managed ''restart-failed'' = Some r" "rb_status r = RbCandidate"
      "rb_gates r = [GateEvaluation, GateSimulation]" "rm_delivered sample_managed ''restart-failed'' \<noteq> None"
    using sample_managed_gates by blast
  have "apply_decision Approve r = Inl NotReadyForApproval"
    using r(2,3) by (simp add: apply_decision_def approve_def has_reached_def LADDER_def)
  note same = refused_decision [OF r(1) this]
  show thesis using r by (intro that [of r]) (simp_all add: sample_approved_def same)
qed

lemma manager_new_ok: "manager_ok (manager_new [] store)"
  by (simp add: manager_ok_def manager_new_def library_by_name_def library_values_def)

lemma sample_lifecycle: "lifecycle (\<lambda>_. Inr sample_file) (\<lambda>_. []) (manager_new [] []) sample_approved {}"
  unfolding sample_approved_def sample_managed_def
  by (intro life_decide life_deliver life_start) (simp add: manager_new_def)



subsection \<open>Delivery is data\<close>

lemma evidence_ignores_gates:
  "evaluation_evidence (r\<lparr> rb_gates := gs \<rparr>) eps = evaluation_evidence r eps"
  "simulation_evidence (r\<lparr> rb_gates := gs \<rparr>) ds = simulation_evidence r ds"
proof -
  show "evaluation_evidence (r\<lparr> rb_gates := gs \<rparr>) eps = evaluation_evidence r eps"
    by (simp add: evaluation_evidence_def)
  have "simulation_input_of (r\<lparr> rb_gates := gs \<rparr>) d = simulation_input_of r d" for d
    by (simp add: simulation_input_of_def)
  then have "simulate_action (r\<lparr> rb_gates := gs \<rparr>) ds = simulate_action r ds"
    by (intro ext) (simp add: simulate_action_def split: option.split)
  then show "simulation_evidence (r\<lparr> rb_gates := gs \<rparr>) ds = simulation_evidence r ds"
    by (simp add: simulation_evidence_def)
qed



subsection \<open>Delivered runbooks stay candidates\<close>

lemma decision_needs_gates:
  "ladder_ok r \<Longrightarrow> length (rb_gates r) \<le> 2 \<Longrightarrow> \<exists>e. apply_decision d r = Inl e"
  using ladder_ok_status [of r]
  by (cases d) (simp_all add: apply_decision_def approve_def promote_def has_reached_def LADDER_def status_of_gates_def)

definition stuck :: "string \<Rightarrow> runbook_manager \<Rightarrow> bool" where
  "stuck n m \<longleftrightarrow> (\<forall>r. rb_at m n = Some r \<longrightarrow>
     rb_status r \<noteq> RbPromoted \<and> (rm_delivered m n \<noteq> None \<longrightarrow> length (rb_gates r) \<le> 2))"

lemma decide_stuck:
  assumes "manager_ok m" "stuck n m"
  shows "stuck n (snd (manager_decide sh au wr name d by_whom m))"
proof (cases rule: decide_cases [of sh au wr name d by_whom m])
  case (refused e m')
  then show ?thesis using assms by (simp add: stuck_def)
next
  case (decided r r')
  have lad: "ladder_ok r" using assms(1) decided(2) by (auto simp: manager_ok_def)
  have ne: "n \<noteq> name"
    using decided(1-3) assms(2) decision_needs_gates [OF lad, of d] by (auto simp: stuck_def)
  let ?m1 = "audit_decision au name d by_whom (decided_status d) None
     (m\<lparr> rm_library := library_update name (\<lambda>_. r') (rm_library m) \<rparr>)"
  have "rb_at (persist_delivered wr name ?m1) n = rb_at m n"
    using successor_ok(2) [where m = m and name = name and r = r and f = "\<lambda>_. r'" and ?m1.0 = ?m1 and wr = wr and n = n] assms(1) decided(2)
      apply_decision_ladder [OF decided(3) lad] apply_decision_fields [OF decided(3)] ne by simp
  then show ?thesis using assms(2) ne by (simp add: decided(4) stuck_def)
qed

lemma record_outcome_delivered: "n \<noteq> name \<Longrightarrow> rm_delivered (manager_record_outcome wr name ok m) n = rm_delivered m n"
  "n \<noteq> name \<Longrightarrow> rm_delivered (record_earned_gate wr name g m) n = rm_delivered m n"
  by (auto simp: manager_record_outcome_def record_earned_gate_def split: option.splits sum.splits)

lemma lifecycle_stuck:
  assumes "lifecycle toml sh m0 m names" "manager_ok m0" "rm_delivered m0 n = None" "stuck n m0"
  shows "n \<notin> names \<and> stuck n m"
  using assms
proof (induction rule: lifecycle.induct)
  case (life_deliver m names d eps ds)
  have ok: "manager_ok m" by (rule lifecycle_ok [OF life_deliver.hyps(1) life_deliver.prems(1)])
  obtain res m' where dlv: "deliver toml d eps ds m = (res, m')" by (cases "deliver toml d eps ds m")
  show ?case
  proof (cases res)
    case (Inl e)
    then have "m' = m"
      using dlv ok by (cases rule: deliver_cases [of toml d eps ds m]) (auto simp: manager_ok_def)
    then show ?thesis using life_deliver dlv by simp
  next
    case (Inr report)
    then obtain r where r: "rb_at m' (rp_name report) = Some r" "rb_status r = RbCandidate" "length (rb_gates r) \<le> 2"
        "\<And>k. k \<noteq> rp_name report \<Longrightarrow> rb_at m' k = rb_at m k \<and> rm_delivered m' k = rm_delivered m k"
      using deliver_ok(2) [OF ok life_deliver.hyps(2), of toml eps ds report m'] dlv by blast
    have "n \<notin> names \<and> stuck n m" using life_deliver.IH life_deliver.prems by blast
    then show ?thesis
      using r(1-3) r(4) [of n] dlv by (cases "n = rp_name report") (simp_all add: stuck_def)
  qed
next
  case (life_decide m names au wr n' d by_whom)
  then show ?case using decide_stuck [OF lifecycle_ok [OF life_decide.hyps(1) life_decide.prems(1)]] by simp
next
  case (life_propose m names n' r)
  then have s: "n \<notin> names" "stuck n m" by simp_all
  then have "n \<noteq> n'" using life_propose.hyps(2,3) unfolding stuck_def by metis
  with s show ?case by simp
next
  case (life_completed m names n' wr ds pol co)
  then have "manager_ok m" "n \<noteq> n'" "stuck n m" using lifecycle_ok [OF life_completed.hyps(1)] by auto
  then show ?case
    using life_completed validated_ok(2) [where m = m and n = n and name = n' and wr = wr and ds = ds and pol = pol and co = co]
    by (simp add: stuck_def on_attributed_plan_validated_def Let_def record_outcome_delivered split: option.splits)
next
  case (life_failed m names n' wr)
  then have "manager_ok m" "n \<noteq> n'" "stuck n m" using lifecycle_ok [OF life_failed.hyps(1)] by auto
  then show ?case
    using life_failed outcome_ok(2) [where m = m and wr = wr and name = n' and ok = False and n = n]
    by (simp add: stuck_def note_procedure_outcome_def record_outcome_delivered)
qed (auto simp: stuck_def)

text \<open>
  A delivered runbook can never be promoted: its validation gate is recorded only by the outcome of
  a procedure plan built from it, and procedure plans are built only from promoted runbooks. So a
  runbook that was not promoted when the daemon started - in particular every runbook delivered since -
  stays a candidate with at most the evaluation and simulation gates once it is delivered, whatever the
  operator decides.
\<close>

theorem delivered_never_promoted:
  assumes "manager_ok m0" "rm_delivered m0 n = None" "\<forall>r. rb_at m0 n = Some r \<longrightarrow> rb_status r \<noteq> RbPromoted"
    and "lifecycle toml sh m0 m names" "rb_at m n = Some r"
  shows "rb_status r \<noteq> RbPromoted \<and> (rm_delivered m n \<noteq> None \<longrightarrow> rb_status r = RbCandidate \<and> length (rb_gates r) \<le> 2)"
proof -
  have s: "stuck n m" using lifecycle_stuck [OF assms(4,1,2)] assms(2,3) by (simp add: stuck_def)
  have "ladder_ok r" using lifecycle_ok [OF assms(4,1)] assms(5) by (auto simp: manager_ok_def)
  then show ?thesis using s assms(5) ladder_ok_status [of r] by (auto simp: stuck_def status_of_gates_def)
qed

theorem delivered_never_promoted_witness:
  "\<exists>r. rb_at sample_approved ''restart-failed'' = Some r \<and> rm_delivered sample_approved ''restart-failed'' \<noteq> None
     \<and> rb_status r = RbCandidate"
proof -
  obtain r where r: "rb_at sample_approved ''restart-failed'' = Some r" "rm_delivered sample_approved ''restart-failed'' \<noteq> None"
    by (rule sample_approved_gates)
  have "rm_delivered (manager_new [] []) ''restart-failed'' = None"
    "\<forall>r. rb_at (manager_new [] []) ''restart-failed'' = Some r \<longrightarrow> rb_status r \<noteq> RbPromoted"
    by (simp_all add: manager_new_def library_by_name_def library_values_def)
  then show ?thesis
    using delivered_never_promoted [OF manager_new_ok _ _ sample_lifecycle r(1)] r by simp
qed

text \<open>
  One persisted row that does not decode loses every delivery at the next start: the listing fails
  as a whole, and the library holds the runbooks of the directory only.
\<close>

theorem corrupt_row_loses_deliveries:
  "(k, None) \<in> set store \<Longrightarrow> manager_load lib store = manager_new lib store \<and> rm_delivered (manager_load lib store) = Map.empty"
  by (auto simp: manager_load_def list_runbooks_def manager_new_def image_iff)

end
