(* ===== verification/Decision.thy ===== *)
theory Decision
  imports Runbooks Reasoning "HOL-Library.Multiset"
begin

text \<open>
  The decision layer (\<open>argus-ai-core\<close>, \<open>decision/\<close>): the bounded, redacted evidence context
  (\<open>context.rs\<close>), the typed questions and answers (\<open>types.rs\<close>), their validation
  (\<open>validate.rs\<close>), the fail-closed gateway (\<open>gateway.rs\<close>), provenance (\<open>provenance.rs\<close>) and the
  host-health skill up to its proposed plan (\<open>host_health.rs\<close>). The decision engine is a
  parameter, a function from requests to results; \<open>to_text\<close> stands for \<open>serde_json::to_string\<close>,
  which cannot fail on these documents. Validation errors keep the case and the identifiers of
  the source, not its prose.
\<close>

section \<open>The evidence context\<close>

definition MAX_CONTEXT_ENTRIES :: nat where
  "MAX_CONTEXT_ENTRIES = 64"

definition SENSITIVE_MARKERS :: "string list" where
  "SENSITIVE_MARKERS = [''password'', ''secret'', ''token'', ''api_key'', ''credential'']"

definition SECRET_VALUE_PREFIXES :: "string list" where
  "SECRET_VALUE_PREFIXES = [''sk-'', ''ghp_'', ''AKIA'', ''-----BEGIN'']"

definition REDACTED :: string where
  "REDACTED = ''[REDACTED]''"

definition is_sensitive_attribute :: "string \<Rightarrow> bool" where
  "is_sensitive_attribute attribute =
     (let lower = map ascii_lower attribute in list_ex (\<lambda>marker. contains_str marker lower) SENSITIVE_MARKERS)"

definition looks_secret :: "string \<Rightarrow> bool" where
  "looks_secret text = list_ex (\<lambda>p. contains_str p text) SECRET_VALUE_PREFIXES"

fun redact_value :: "json \<Rightarrow> json" where
  "redact_value (JStr text) = (if looks_secret text then JStr REDACTED else JStr text)"
| "redact_value (JArr items) = JArr (map redact_value items)"
| "redact_value (JObj m) = JObj (map (\<lambda>(key, v). (key, redact_value v)) m)"
| "redact_value JNull = JNull"
| "redact_value (JBool b) = JBool b"
| "redact_value (JNum n) = JNum n"

record evidence_entry =
  ee_subject :: string
  ee_attribute :: string
  ee_value :: json

record context_builder =
  cb_entries :: "evidence_entry list"
  cb_seen :: "(string \<times> string \<times> json) list"
  cb_allowlist :: "string list option"
  cb_dropped :: nat

definition context_new :: context_builder where
  "context_new = \<lparr> cb_entries = [], cb_seen = [], cb_allowlist = None, cb_dropped = 0 \<rparr>"

definition context_allowlisted :: "string list \<Rightarrow> context_builder" where
  "context_allowlisted names = \<lparr> cb_entries = [], cb_seen = [], cb_allowlist = Some names, cb_dropped = 0 \<rparr>"

definition masked_value :: "string \<Rightarrow> json \<Rightarrow> json" where
  "masked_value attribute v = (if is_sensitive_attribute attribute then JStr REDACTED else redact_value v)"

definition evidence :: "string \<Rightarrow> string \<Rightarrow> json \<Rightarrow> context_builder \<Rightarrow> context_builder" where
  "evidence subject attribute v b =
     (if (case cb_allowlist b of None \<Rightarrow> False | Some names \<Rightarrow> attribute \<notin> set names)
      then b\<lparr> cb_dropped := cb_dropped b + 1 \<rparr>
      else if (subject, attribute, v) \<in> set (cb_seen b) then b
      else b\<lparr> cb_seen := cb_seen b @ [(subject, attribute, v)],
              cb_entries := cb_entries b @
                [\<lparr> ee_subject = subject, ee_attribute = attribute, ee_value = masked_value attribute v \<rparr>] \<rparr>)"

definition entry_json :: "evidence_entry \<Rightarrow> json" where
  "entry_json e = JObj [(''subject'', JStr (ee_subject e)), (''attribute'', JStr (ee_attribute e)), (''value'', ee_value e)]"

definition into_state :: "context_builder \<Rightarrow> json" where
  "into_state b =
     (let entries = (if MAX_CONTEXT_ENTRIES < length (cb_entries b)
                     then drop (length (cb_entries b) - MAX_CONTEXT_ENTRIES) (cb_entries b) else cb_entries b)
      in JObj [(''evidence'', JArr (map entry_json entries))])"

definition canonical_key :: "(json \<Rightarrow> string) \<Rightarrow> context_builder \<Rightarrow> string" where
  "canonical_key to_text b =
     to_text (JArr (map JStr (sort (map (to_text \<circ> entry_json) (cb_entries b)))))"

section \<open>Questions and answers\<close>

record noul_criteria =
  nc_yes :: "string option"
  nc_no :: "string option"

datatype decision_question =
    QChoice string "(string, string option) btree"
  | QScore string "string list"
  | QNoul string noul_criteria

fun question_kind :: "decision_question \<Rightarrow> string" where
  "question_kind (QChoice _ _) = ''choice''"
| "question_kind (QScore _ _) = ''score''"
| "question_kind (QNoul _ _) = ''noul''"

datatype decision_answer =
    AChoice string float_val "(string, float_val) btree"
  | AScore float_val float_val "(string, float_val) btree" "(string, string) btree"
  | ANoul float_val

fun answer_kind :: "decision_answer \<Rightarrow> string" where
  "answer_kind (AChoice _ _ _) = ''choice''"
| "answer_kind (AScore _ _ _ _) = ''score''"
| "answer_kind (ANoul _) = ''noul''"

fun answer_confidence :: "decision_answer \<Rightarrow> float_val" where
  "answer_confidence (AChoice _ c _) = c"
| "answer_confidence (AScore _ c _ _) = c"
| "answer_confidence (ANoul n) = n"

record decision_request =
  dq_model :: "string option"
  dq_state :: json
  dq_questions :: "(string, decision_question) btree"

record token_usage =
  tu_prompt_tokens :: "u64 option"
  tu_completion_tokens :: "u64 option"
  tu_total_tokens :: "u64 option"

record decision_response =
  ds_model :: "string option"
  ds_answers :: "(string, decision_answer) btree"
  ds_usage :: "token_usage option"

datatype validation_failure =
    CriteriaCount nat
  | LevelCount nat
  | MissingAnswer string
  | KindMismatch string
  | UnknownChoice string string
  | ScoreOutOfRange string
  | NoulOutOfRange string
  | ConfidenceOutside string
  | ProbabilityOutside string string

datatype decision_error =
    DecisionUnavailable string
  | DecisionInvalid string
  | DecisionValidation validation_failure

section \<open>Validation\<close>

definition MIN_CRITERIA :: nat where "MIN_CRITERIA = 2"
definition MAX_CRITERIA :: nat where "MAX_CRITERIA = 50"

fun validate_question :: "decision_question \<Rightarrow> decision_error + unit" where
  "validate_question (QChoice _ criteria) =
     (if MIN_CRITERIA \<le> length criteria \<and> length criteria \<le> MAX_CRITERIA then Inr ()
      else Inl (DecisionValidation (CriteriaCount (length criteria))))"
| "validate_question (QScore _ levels) =
     (if MIN_CRITERIA \<le> length levels \<and> length levels \<le> MAX_CRITERIA then Inr ()
      else Inl (DecisionValidation (LevelCount (length levels))))"
| "validate_question (QNoul _ _) = Inr ()"

text \<open>\<open>(lo..=hi).contains(x)\<close>: false on NaN.\<close>

definition in_range :: "rat \<Rightarrow> rat \<Rightarrow> float_val \<Rightarrow> bool" where
  "in_range lo hi x = (float_ge x (Fin lo) \<and> float_ge (Fin hi) x)"

definition validate_confidence :: "float_val \<Rightarrow> string \<Rightarrow> decision_error + unit" where
  "validate_confidence c i = (if in_range 0 1 c then Inr () else Inl (DecisionValidation (ConfidenceOutside i)))"

fun validate_distribution :: "(string, float_val) btree \<Rightarrow> string \<Rightarrow> decision_error + unit" where
  "validate_distribution [] i = Inr ()"
| "validate_distribution ((label, p) # rest) i =
     (if in_range 0 1 p then validate_distribution rest i else Inl (DecisionValidation (ProbabilityOutside label i)))"

abbreviation and_then :: "'e + unit \<Rightarrow> 'e + 'a \<Rightarrow> 'e + 'a" where
  "and_then a b \<equiv> (case a of Inl e \<Rightarrow> Inl e | Inr _ \<Rightarrow> b)"

text \<open>The match on a question and an answer of the same kind.\<close>

fun validate_answer :: "string \<Rightarrow> decision_question \<Rightarrow> decision_answer \<Rightarrow> decision_error + unit" where
  "validate_answer i (QChoice _ criteria) (AChoice choice c ps) =
     (if map_of criteria choice = None then Inl (DecisionValidation (UnknownChoice choice i))
      else and_then (validate_confidence c i) (validate_distribution ps i))"
| "validate_answer i (QScore _ levels) (AScore score c ps _) =
     (if float_less score (Fin 0) \<or> float_less (Fin (of_nat (length levels) - 1)) score
      then Inl (DecisionValidation (ScoreOutOfRange i))
      else and_then (validate_confidence c i) (validate_distribution ps i))"
| "validate_answer i (QNoul _ _) (ANoul noul) =
     (if in_range (to_f64 (1 / 100)) (to_f64 (99 / 100)) noul then Inr ()
      else Inl (DecisionValidation (NoulOutOfRange i)))"
| "validate_answer i _ _ = Inl (DecisionValidation (KindMismatch i))"

fun validate_answers ::
  "(string, decision_question) btree \<Rightarrow> (string, decision_answer) btree \<Rightarrow> decision_error + unit" where
  "validate_answers [] answers = Inr ()"
| "validate_answers ((i, question) # rest) answers =
     (case map_of answers i of
        None \<Rightarrow> Inl (DecisionValidation (MissingAnswer i))
      | Some answer \<Rightarrow>
          if answer_kind answer \<noteq> question_kind question then Inl (DecisionValidation (KindMismatch i))
          else and_then (validate_answer i question answer) (validate_answers rest answers))"

definition validate_response :: "decision_request \<Rightarrow> decision_response \<Rightarrow> decision_error + unit" where
  "validate_response request response = validate_answers (dq_questions request) (ds_answers response)"

section \<open>The gateway\<close>

datatype no_decision_reason = LowConfidence | EngineUnavailable

datatype gateway_outcome = Decided decision_response | NoDecision no_decision_reason

text \<open>\<open>f64::min\<close>: NaN is ignored when the other side is a number.\<close>

fun float_min :: "float_val \<Rightarrow> float_val \<Rightarrow> float_val" where
  "float_min NaN b = b"
| "float_min a NaN = a"
| "float_min a b = (if float_ge b a then a else b)"

definition aggregate_confidence :: "decision_response \<Rightarrow> float_val" where
  "aggregate_confidence response = foldl float_min (Fin 1) (map (answer_confidence \<circ> snd) (ds_answers response))"

type_synonym decision_provider = "decision_request \<Rightarrow> decision_error + decision_response"

definition decide_outcome_with :: "decision_provider \<Rightarrow> decision_request \<Rightarrow> float_val \<Rightarrow> decision_error + gateway_outcome" where
  "decide_outcome_with provider request threshold =
     (case provider request of
        Inl (DecisionUnavailable _) \<Rightarrow> Inr (NoDecision EngineUnavailable)
      | Inl e \<Rightarrow> Inl e
      | Inr response \<Rightarrow>
          and_then (validate_response request response)
            (if float_less (aggregate_confidence response) threshold then Inr (NoDecision LowConfidence)
             else Inr (Decided response)))"

definition propose_plan :: "decision_response \<Rightarrow> float_val \<Rightarrow> string \<Rightarrow> plan_step list \<Rightarrow> plan option" where
  "propose_plan response threshold objective steps =
     (let confidence = aggregate_confidence response
      in if float_less confidence threshold then None
         else Some \<lparr> pl_objective = objective, pl_steps = steps, pl_preconditions = [], pl_expected_outcomes = [],
                     pl_blast_radius = RadiusHost, pl_confidence = confidence, pl_status = Proposed, pl_runbook = None \<rparr>)"

section \<open>Provenance\<close>

record decision_provenance =
  dp_model_id :: string
  dp_model_version :: string
  dp_calibration_set :: string
  dp_context_hash :: string

definition provenance_from_response :: "(json \<Rightarrow> string) \<Rightarrow> decision_response \<Rightarrow> json \<Rightarrow> decision_provenance" where
  "provenance_from_response to_text response state =
     \<lparr> dp_model_id = (case ds_model response of Some m \<Rightarrow> m | None \<Rightarrow> ''unknown''), dp_model_version = ''unknown'',
       dp_calibration_set = ''unknown'', dp_context_hash = fnv1a_hex (to_text state) \<rparr>"

section \<open>The host-health skill\<close>

definition host_health_questions :: "(string, decision_question) btree" where
  "host_health_questions =
     [(''degraded'',
         QNoul ''Is the host service degraded, failing, or unhealthy?''
           \<lparr> nc_yes = Some ''down, failing, or restart-looping'', nc_no = Some ''healthy'' \<rparr>),
      (''remediation'',
         QChoice ''Which remediation fits?''
           [(''noop'', Some ''do nothing''), (''restart'', Some ''restart the service'')])]"

definition host_health_request :: "context_builder \<Rightarrow> decision_request" where
  "host_health_request b = \<lparr> dq_model = None, dq_state = into_state b, dq_questions = host_health_questions \<rparr>"

text \<open>The distinct usable units of the evidence: trimmed, not blank, sorted.\<close>

definition evidence_units :: "json list \<Rightarrow> string list" where
  "evidence_units entries =
     remdups_adj (sort (filter (\<lambda>unit. unit \<noteq> [])
       (map trim (filter_map (\<lambda>entry. if get_str ''attribute'' entry = Some ''unit'' then get_str ''value'' entry else None)
         entries))))"

definition unit_from_evidence :: "json \<Rightarrow> string option" where
  "unit_from_evidence state =
     Option.bind (json_get ''evidence'' state) (\<lambda>ev. Option.bind (as_array ev) (\<lambda>entries.
       case evidence_units entries of
         [unit] \<Rightarrow> if unit \<noteq> REDACTED then Some unit else None
       | _ \<Rightarrow> None))"

definition remediation_action :: "decision_response \<Rightarrow> json \<Rightarrow> action option" where
  "remediation_action response state =
     (case map_of (ds_answers response) ''remediation'' of
        Some (AChoice choice _ _) \<Rightarrow>
          if choice = ''restart''
          then map_option (\<lambda>unit. \<lparr> ac_capability = CapabilityId HOST_SERVICE_RESTART, ac_resource = None,
                                     ac_arguments = JObj [(''unit'', JStr unit)] \<rparr>) (unit_from_evidence state)
          else None
      | _ \<Rightarrow> None)"

definition rollback_for :: "action \<Rightarrow> action option" where
  "rollback_for a =
     (let inverse = (if as_str (ac_capability a) = HOST_SERVICE_STOP then Some HOST_SERVICE_START
                     else if as_str (ac_capability a) = HOST_SERVICE_START then Some HOST_SERVICE_STOP else None)
      in map_option (\<lambda>c. a\<lparr> ac_capability := CapabilityId c \<rparr>) inverse)"

section \<open>Deduplication\<close>

text \<open>
  The daemon's \<open>DedupPort\<close> (\<open>InMemoryDedup\<close> of \<open>runtime.rs\<close>): a set that is cleared when it is
  full. No code panics while it holds the lock, so the poisoned case does not arise.
\<close>

record in_memory_dedup =
  dd_seen :: "string set"
  dd_max_keys :: nat

definition dedup_with_capacity :: "nat \<Rightarrow> in_memory_dedup" where
  "dedup_with_capacity n = \<lparr> dd_seen = {}, dd_max_keys = max n 1 \<rparr>"

definition DEFAULT_MAX_KEYS :: nat where
  "DEFAULT_MAX_KEYS = 1024"

definition dedup_new :: in_memory_dedup where
  "dedup_new = dedup_with_capacity DEFAULT_MAX_KEYS"

definition claim :: "string \<Rightarrow> in_memory_dedup \<Rightarrow> bool \<times> in_memory_dedup" where
  "claim key d =
     (if key \<in> dd_seen d then (False, d)
      else (True, d\<lparr> dd_seen := insert key (if dd_max_keys d \<le> card (dd_seen d) then {} else dd_seen d) \<rparr>))"

definition release :: "string \<Rightarrow> in_memory_dedup \<Rightarrow> in_memory_dedup" where
  "release key d = d\<lparr> dd_seen := dd_seen d - {key} \<rparr>"

section \<open>From evidence to a plan\<close>

datatype evidence_decision = EvidencePlan plan decision_provenance string | Deduplicated string | EvidenceNothing

definition plan_from_evidence ::
  "(json \<Rightarrow> string) \<Rightarrow> decision_provider \<Rightarrow> context_builder \<Rightarrow> float_val \<Rightarrow> in_memory_dedup \<Rightarrow>
   (decision_error + evidence_decision) \<times> in_memory_dedup" where
  "plan_from_evidence to_text provider b threshold d =
     (let key = canonical_key to_text b; (fresh, d1) = claim key d
      in if \<not> fresh then (Inr (Deduplicated key), d1)
         else let request = host_health_request b; state = dq_state request
         in case decide_outcome_with provider request threshold of
              Inl e \<Rightarrow> (Inl e, d1)
            | Inr (NoDecision _) \<Rightarrow> (Inr EvidenceNothing, release key d1)
            | Inr (Decided response) \<Rightarrow>
                (case remediation_action response state of
                   None \<Rightarrow> (Inr EvidenceNothing, release key d1)
                 | Some a \<Rightarrow>
                     (case propose_plan response threshold ''restore the host service''
                             [\<lparr> ps_action = a, ps_rollback = rollback_for a \<rparr>] of
                        None \<Rightarrow> (Inr EvidenceNothing, release key d1)
                      | Some p \<Rightarrow> (Inr (EvidencePlan p (provenance_from_response to_text response state) key), d1))))"


section \<open>The deduplication contract\<close>

text \<open>What the reasoning paths rely on: a claim is exclusive until the key is released or forgotten.\<close>

locale dedup_port =
  fixes claim_key :: "'k \<Rightarrow> 'd \<Rightarrow> bool \<times> 'd"
    and release_key :: "'k \<Rightarrow> 'd \<Rightarrow> 'd"
    and holds :: "'d \<Rightarrow> 'k \<Rightarrow> bool"
  assumes claim_held: "holds d k \<Longrightarrow> claim_key k d = (False, d)"
    and claim_free: "\<not> holds d k \<Longrightarrow> fst (claim_key k d) \<and> holds (snd (claim_key k d)) k"
    and holds_release: "holds (release_key k d) j \<longleftrightarrow> holds d j \<and> j \<noteq> k"
begin

lemma claim_iff: "fst (claim_key k d) \<longleftrightarrow> \<not> holds d k"
  using claim_held claim_free by (metis fst_conv)

lemma claim_holds: "holds (snd (claim_key k d)) k"
  using claim_held claim_free by (metis snd_conv)

lemma claim_exclusive: "\<not> fst (claim_key k (snd (claim_key k d)))"
  by (simp add: claim_iff claim_holds)

lemma claim_after_release: "fst (claim_key k (release_key k d))"
  by (simp add: claim_iff holds_release)

lemma claim_other_release: "k \<noteq> j \<Longrightarrow> \<not> fst (claim_key k (release_key j (snd (claim_key k d))))"
  by (simp add: claim_iff holds_release claim_holds)

end

interpretation seen: dedup_port claim release "\<lambda>d k. k \<in> dd_seen d"
  by unfold_locales (auto simp: claim_def release_def)

definition dedup_ok :: "in_memory_dedup \<Rightarrow> bool" where
  "dedup_ok d \<longleftrightarrow> finite (dd_seen d) \<and> 1 \<le> dd_max_keys d \<and> card (dd_seen d) \<le> dd_max_keys d"

lemma dedup_ok_steps:
  "dedup_ok (dedup_with_capacity n)" "dedup_ok d \<Longrightarrow> dedup_ok (snd (claim k d))" "dedup_ok d \<Longrightarrow> dedup_ok (release k d)"
  by (auto simp: dedup_ok_def dedup_with_capacity_def claim_def release_def intro: order_trans [OF card_Diff1_le])

section \<open>Redaction and canonical keys\<close>

lemma redacted_not_secret: "\<not> looks_secret REDACTED"
  by (simp add: looks_secret_def REDACTED_def SECRET_VALUE_PREFIXES_def)

lemma redact_value_strings: "s \<in> set (json_strings (redact_value v)) \<Longrightarrow> \<not> looks_secret s"
  by (induction v rule: redact_value.induct) (auto simp: redacted_not_secret split: if_splits)

definition entry_clean :: "evidence_entry \<Rightarrow> bool" where
  "entry_clean e \<longleftrightarrow> (is_sensitive_attribute (ee_attribute e) \<longrightarrow> ee_value e = JStr REDACTED)
     \<and> (\<forall>s \<in> set (json_strings (ee_value e)). \<not> looks_secret s)"

definition entry_of :: "string \<times> string \<times> json \<Rightarrow> evidence_entry" where
  "entry_of x = (case x of (s, a, v) \<Rightarrow> \<lparr> ee_subject = s, ee_attribute = a, ee_value = masked_value a v \<rparr>)"

lemma entry_of_clean: "entry_clean (entry_of x)"
  by (cases x) (auto simp: entry_clean_def entry_of_def masked_value_def redacted_not_secret dest: redact_value_strings)

abbreviation add_all :: "(string \<times> string \<times> json) list \<Rightarrow> context_builder \<Rightarrow> context_builder" where
  "add_all xs b \<equiv> fold (\<lambda>(s, a, v). evidence s a v) xs b"

definition allowed_attribute :: "context_builder \<Rightarrow> string \<times> string \<times> json \<Rightarrow> bool" where
  "allowed_attribute b x = (case cb_allowlist b of None \<Rightarrow> True | Some names \<Rightarrow> fst (snd x) \<in> set names)"

definition builder_ok :: "context_builder \<Rightarrow> bool" where
  "builder_ok b \<longleftrightarrow> cb_entries b = map entry_of (cb_seen b) \<and> distinct (cb_seen b)"

lemma evidence_simps:
  "builder_ok b \<Longrightarrow> builder_ok (evidence s a v b)"
  "cb_allowlist (evidence s a v b) = cb_allowlist b"
  "set (cb_seen (evidence s a v b)) = set (cb_seen b) \<union> {x \<in> {(s, a, v)}. allowed_attribute b x}"
  by (auto simp: builder_ok_def evidence_def entry_of_def allowed_attribute_def split: option.splits)

lemma add_all_simps:
  "builder_ok b \<Longrightarrow> builder_ok (add_all xs b)"
  "cb_allowlist (add_all xs b) = cb_allowlist b"
  "set (cb_seen (add_all xs b)) = set (cb_seen b) \<union> {x \<in> set xs. allowed_attribute b x}"
  by (induction xs arbitrary: b) (auto simp: evidence_simps allowed_attribute_def)

lemma builder_new_ok: "builder_ok context_new" "builder_ok (context_allowlisted names)"
  by (simp_all add: builder_ok_def context_new_def context_allowlisted_def)

text \<open>
  Secrets do not leave the process: whatever evidence is added to a fresh builder, the state sent
  to the engine has at most 64 entries, the newest ones, all from allowed attributes; an entry with a
  sensitive attribute carries the placeholder, and no string value at any depth looks like a secret.
\<close>

theorem context_redacted_and_bounded:
  "\<exists>entries. into_state (add_all xs (context_allowlisted names)) = JObj [(''evidence'', JArr (map entry_json entries))]
     \<and> length entries \<le> MAX_CONTEXT_ENTRIES
     \<and> entries = rev (take MAX_CONTEXT_ENTRIES (rev (cb_entries (add_all xs (context_allowlisted names)))))
     \<and> list_all (\<lambda>e. entry_clean e \<and> ee_attribute e \<in> set names) entries"
proof -
  let ?b = "add_all xs (context_allowlisted names)"
  have ok: "cb_entries ?b = map entry_of (cb_seen ?b)" using add_all_simps(1) builder_new_ok(2) by (simp add: builder_ok_def)
  have attrs: "x \<in> set (cb_seen ?b) \<Longrightarrow> fst (snd x) \<in> set names" for x
    unfolding add_all_simps(3) by (auto simp: allowed_attribute_def context_allowlisted_def)
  define entries where "entries = rev (take MAX_CONTEXT_ENTRIES (rev (cb_entries ?b)))"
  have "into_state ?b = JObj [(''evidence'', JArr (map entry_json entries))]"
    by (simp add: into_state_def entries_def rev_take MAX_CONTEXT_ENTRIES_def)
  moreover have "set entries \<subseteq> entry_of ` set (cb_seen ?b)"
    unfolding entries_def using ok by (auto dest: in_set_takeD)
  then have "\<forall>e \<in> set entries. entry_clean e \<and> ee_attribute e \<in> set names"
    using entry_of_clean attrs by (fastforce simp: entry_of_def)
  ultimately show ?thesis
    by (intro exI [of _ entries]) (simp add: list_all_iff entries_def)
qed

text \<open>
  The observation key does not depend on how the evidence was assembled: two sequences of
  evidence with the same items, in any order and however often repeated, give the same key.
\<close>

theorem canonical_key_order_independent:
  assumes "set xs = set ys"
  shows "canonical_key to_text (add_all xs context_new) = canonical_key to_text (add_all ys context_new)"
proof -
  have ok: "builder_ok (add_all zs context_new)" for zs by (rule add_all_simps(1) [OF builder_new_ok(1)])
  have "set (cb_seen (add_all xs context_new)) = set (cb_seen (add_all ys context_new))"
    by (simp add: add_all_simps(3) assms)
  then have "mset (cb_seen (add_all xs context_new)) = mset (cb_seen (add_all ys context_new))"
    using ok by (simp add: builder_ok_def set_eq_iff_mset_eq_distinct)
  then have "mset (cb_entries (add_all xs context_new)) = mset (cb_entries (add_all ys context_new))"
    using ok by (simp add: builder_ok_def)
  then have "mset (map (to_text \<circ> entry_json) (cb_entries (add_all xs context_new))) =
      mset (map (to_text \<circ> entry_json) (cb_entries (add_all ys context_new)))"
    by (simp only: mset_map)
  then have "sort (map (to_text \<circ> entry_json) (cb_entries (add_all xs context_new))) =
      sort (map (to_text \<circ> entry_json) (cb_entries (add_all ys context_new)))"
    by (simp only: sorted_list_of_multiset_mset [symmetric])
  then show ?thesis by (simp only: canonical_key_def)
qed

theorem canonical_key_order_independent_witness:
  "canonical_key (concat \<circ> json_strings)
     (add_all [(''host'', ''unit'', JStr ''nginx''), (''host'', ''state'', JStr ''failed'')] context_new) =
   canonical_key (concat \<circ> json_strings)
     (add_all [(''host'', ''state'', JStr ''failed''), (''host'', ''unit'', JStr ''nginx'')] context_new)"
  by (rule canonical_key_order_independent) auto

section \<open>The gateway fails closed\<close>

text \<open>When an answer is acceptable for a question.\<close>

definition unit_distribution :: "(string, float_val) btree \<Rightarrow> bool" where
  "unit_distribution ps = list_all (\<lambda>(_, p). in_range 0 1 p) ps"

fun acceptable :: "decision_question \<Rightarrow> decision_answer \<Rightarrow> bool" where
  "acceptable (QChoice _ criteria) (AChoice choice c ps) =
     (choice \<in> fst ` set criteria \<and> in_range 0 1 c \<and> unit_distribution ps)"
| "acceptable (QScore _ levels) (AScore score c ps _) =
     (\<not> float_less score (Fin 0) \<and> \<not> float_less (Fin (of_nat (length levels) - 1)) score \<and> in_range 0 1 c \<and> unit_distribution ps)"
| "acceptable (QNoul _ _) (ANoul noul) = in_range (to_f64 (1 / 100)) (to_f64 (99 / 100)) noul"
| "acceptable _ _ = False"

lemma validate_distribution_ok: "is_ok (validate_distribution ps i) \<longleftrightarrow> unit_distribution ps"
  by (induction ps i rule: validate_distribution.induct) (auto simp: unit_distribution_def)

lemma validate_confidence_ok: "is_ok (validate_confidence c i) \<longleftrightarrow> in_range 0 1 c"
  by (simp add: validate_confidence_def)

lemma and_then_ok: "is_ok (and_then a b) \<longleftrightarrow> is_ok a \<and> is_ok b"
  by (cases a) auto

lemma validate_answer_ok:
  "is_ok (validate_answer i q a) \<longleftrightarrow> acceptable q a"
  by (cases "(i, q, a)" rule: validate_answer.cases)
     (auto simp: and_then_ok validate_distribution_ok validate_confidence_ok map_of_eq_None_iff image_iff)

lemma acceptable_kind: "acceptable q a \<Longrightarrow> answer_kind a = question_kind q"
  by (cases q; cases a) simp_all

lemma validate_answers_ok:
  "is_ok (validate_answers qs answers) \<longleftrightarrow> (\<forall>(i, q) \<in> set qs. \<exists>a. map_of answers i = Some a \<and> acceptable q a)"
proof (induction qs answers rule: validate_answers.induct)
  case (2 i q rest answers)
  show ?case
  proof (cases "map_of answers i")
    case (Some a)
    then show ?thesis
      using 2 [OF Some] acceptable_kind [of q a] validate_answer_ok [of i q a]
      by (cases "validate_answer i q a") auto
  qed simp
qed simp

lemma validate_response_ok:
  "validate_response request response = Inr u \<longleftrightarrow>
     (\<forall>(i, q) \<in> set (dq_questions request). \<exists>a. map_of (ds_answers response) i = Some a \<and> acceptable q a)"
  using validate_answers_ok [of "dq_questions request" "ds_answers response"]
  by (cases "validate_response request response") (simp_all add: validate_response_def)

text \<open>The aggregate is below no answer: a passed threshold is passed by every answer that is a number.\<close>

lemma float_min_ge:
  "\<not> float_less (float_min a b) (Fin t) \<Longrightarrow> a = NaN \<or> float_ge a (Fin t)"
  "\<not> float_less (float_min a b) (Fin t) \<Longrightarrow> b = NaN \<or> float_ge b (Fin t)"
  by (cases a; cases b; auto simp: float_less_def split: if_splits)+

lemma foldl_float_min_ge:
  "\<not> float_less (foldl float_min a xs) (Fin t) \<Longrightarrow>
     (a = NaN \<or> float_ge a (Fin t)) \<and> (\<forall>x \<in> set xs. x = NaN \<or> float_ge x (Fin t))"
proof (induction xs arbitrary: a)
  case Nil
  then show ?case by (cases a) (auto simp: float_less_def)
next
  case (Cons x xs)
  from Cons.IH [of "float_min a x"] Cons.prems
  have "float_min a x = NaN \<or> float_ge (float_min a x) (Fin t)" and rest: "\<forall>y \<in> set xs. y = NaN \<or> float_ge y (Fin t)"
    by simp_all
  then have "\<not> float_less (float_min a x) (Fin t)" by (cases "float_min a x") (auto simp: float_less_def)
  then show ?case using float_min_ge [of a x t] rest by auto
qed



definition sample_response :: decision_response where
  "sample_response =
     \<lparr> ds_model = None, ds_answers = [(''degraded'', ANoul (Fin (1 / 2))), (''remediation'', AChoice ''restart'' (Fin (3 / 4)) [])],
       ds_usage = None \<rparr>"

definition sample_context :: context_builder where
  "sample_context = add_all [(''host:local'', ''unit'', JStr ''nginx''), (''host:local'', ''service.state'', JStr ''failed'')] context_new"

lemma f64_hundredths: "to_f64 (1 / 100) \<le> 1 / 2" "1 / 2 \<le> to_f64 (99 / 100)"
proof -
  have e: "f32_exponent 1022 0 (1 / 100) = 7" "f32_exponent 1022 0 (99 / 100) = 1"
    by (simp_all add: eval_nat_numeral)
  have half: "round_scaled (2 ^ Suc k) (1 / 2) = 1 / 2" for k
    using round_scaled_exact [of "1 / 2" "2 ^ Suc k" "2 ^ k"] by simp
  show "to_f64 (1 / 100) \<le> 1 / 2"
    using round_scaled_mono [of "2 ^ Suc 58" "1 / 100" "1 / 2"] half [of 58] by (simp add: round_float_def e)
  show "1 / 2 \<le> to_f64 (99 / 100)"
    using round_scaled_mono [of "2 ^ Suc 52" "1 / 2" "99 / 100"] half [of 52] by (simp add: round_float_def e)
qed

lemma sample_decided:
  "decide_outcome_with (\<lambda>_. Inr sample_response) (host_health_request b) (Fin (3 / 10)) = Inr (Decided sample_response)"
  using f64_hundredths
  by (simp add: decide_outcome_with_def host_health_request_def host_health_questions_def sample_response_def
      validate_response_def validate_confidence_def in_range_def aggregate_confidence_def float_less_def)


text \<open>
  Reasoning over evidence: the outcome and the key agree. A plan is proposed only for evidence not
  yet claimed, its single step restarts the one unit the evidence names, its confidence has passed
  the threshold, and its key stays claimed; a repeated observation changes nothing; when there is
  nothing to do the key is free again. After an engine error the key stays claimed as well.
\<close>

theorem evidence_plan_well_formed:
  assumes "plan_from_evidence to_text provider b threshold d = (result, d')"
  shows "case result of
      Inl e \<Rightarrow> canonical_key to_text b \<notin> dd_seen d \<and> canonical_key to_text b \<in> dd_seen d'
    | Inr (Deduplicated key) \<Rightarrow> key = canonical_key to_text b \<and> key \<in> dd_seen d \<and> d' = d
    | Inr EvidenceNothing \<Rightarrow> canonical_key to_text b \<notin> dd_seen d \<and> canonical_key to_text b \<notin> dd_seen d'
    | Inr (EvidencePlan p _ key) \<Rightarrow>
        key = canonical_key to_text b \<and> key \<notin> dd_seen d \<and> key \<in> dd_seen d'
        \<and> \<not> float_less (pl_confidence p) threshold \<and> pl_status p = Proposed \<and> pl_runbook p = None
        \<and> (\<exists>unit. unit_from_evidence (into_state b) = Some unit \<and> unit \<noteq> [] \<and> unit \<noteq> REDACTED
             \<and> pl_steps p = [\<lparr> ps_action = \<lparr> ac_capability = CapabilityId HOST_SERVICE_RESTART, ac_resource = None,
                                               ac_arguments = JObj [(''unit'', JStr unit)] \<rparr>, ps_rollback = None \<rparr>])"
proof (cases "canonical_key to_text b \<in> dd_seen d")
  case True
  then show ?thesis using assms seen.claim_held [OF True] by (auto simp: plan_from_evidence_def Let_def)
next
  case False
  let ?key = "canonical_key to_text b"
  obtain d1 where d1: "claim ?key d = (True, d1)" "?key \<in> dd_seen d1"
    using seen.claim_free [OF False] by (cases "claim ?key d") auto
  have freed: "?key \<notin> dd_seen (release ?key d1)" by (simp add: seen.holds_release)
  have unit: "unit_from_evidence s = Some u \<Longrightarrow> u \<noteq> [] \<and> u \<noteq> REDACTED" for s u
  proof -
    assume "unit_from_evidence s = Some u"
    then obtain entries where
        "(case evidence_units entries of [x] \<Rightarrow> if x \<noteq> REDACTED then Some x else None | _ \<Rightarrow> None) = Some u"
      by (auto simp: unit_from_evidence_def bind_eq_Some_conv)
    then have "evidence_units entries = [u]" "u \<noteq> REDACTED"
      by (cases "evidence_units entries"; cases "tl (evidence_units entries)"; simp split: if_splits)+
    moreover from this(1) have "u \<in> set (evidence_units entries)" by simp
    then have "u \<noteq> []" by (auto simp: evidence_units_def)
    ultimately show ?thesis by simp
  qed
  have restart: "HOST_SERVICE_RESTART \<noteq> HOST_SERVICE_STOP" "HOST_SERVICE_RESTART \<noteq> HOST_SERVICE_START"
    by (simp_all add: cap_ids)
  show ?thesis
    using assms False d1 freed
    by (auto simp: plan_from_evidence_def host_health_request_def remediation_action_def propose_plan_def rollback_for_def
        restart unit Let_def
        split: sum.splits gateway_outcome.splits option.splits decision_answer.splits if_splits)
qed

theorem evidence_plan_well_formed_witness:
  "\<exists>p prov d'. plan_from_evidence (concat \<circ> json_strings) (\<lambda>_. Inr sample_response) sample_context (Fin (3 / 10)) dedup_new =
       (Inr (EvidencePlan p prov (canonical_key (concat \<circ> json_strings) sample_context)), d')
     \<and> map (get_str ''unit'' \<circ> ac_arguments \<circ> ps_action) (pl_steps p) = [Some ''nginx'']"
proof -
  let ?run = "plan_from_evidence (concat \<circ> json_strings) (\<lambda>_. Inr sample_response) sample_context (Fin (3 / 10)) dedup_new"
  have state: "unit_from_evidence (into_state sample_context) = Some ''nginx''"
    by (simp add: sample_context_def context_new_def evidence_def into_state_def MAX_CONTEXT_ENTRIES_def masked_value_def
        is_sensitive_attribute_def SENSITIVE_MARKERS_def ascii_lower_def looks_secret_def SECRET_VALUE_PREFIXES_def
        unit_from_evidence_def evidence_units_def entry_json_def get_str_def map_filter_simps trim_def char_class_defs REDACTED_def)
  have "\<exists>p prov key d'. ?run = (Inr (EvidencePlan p prov key), d')"
    using state sample_decided [of sample_context]
    by (simp add: plan_from_evidence_def claim_def dedup_new_def dedup_with_capacity_def Let_def)
       (simp add: sample_response_def remediation_action_def host_health_request_def propose_plan_def aggregate_confidence_def
        float_less_def)
  then obtain p prov key d' where run: "?run = (Inr (EvidencePlan p prov key), d')" by blast
  show ?thesis using evidence_plan_well_formed [OF run] run state by (auto simp: get_str_def)
qed

end
