(* ===== verification/Remediation_Service.thy ===== *)
theory Remediation_Service
  imports Loop_Properties Graduated_Autonomy Descriptors Self_Observability Runbook_Manager Decision
begin

text \<open>
  The remediation service of the daemon (\<open>argus-daemon\<close>, \<open>runtime.rs\<close>): the state the daemon
  keeps around the plan loop and the operations that drive it: running a plan, pausing it for an
  operator, granting, denying and resuming it, the bookkeeping of a finished run, and the reasoning
  steps that propose plans. The loop's budget port is the autonomy manager and its governor the
  autopilot, as \<open>remediation_ports\<close> wires them. The controllers and executors, the text of a
  document and of an error are parameters; the clock readings, fresh identifiers and the results of
  the store's writes during one call are a \<open>moment\<close>.
\<close>

section \<open>State\<close>

record 'h service_ports =
  sp_service :: "'h service_controller"
  sp_is_running :: "string \<Rightarrow> 'h \<Rightarrow> remediation_error + bool"
  sp_is_frozen :: "string \<Rightarrow> 'h \<Rightarrow> remediation_error + bool"
  sp_cluster :: "'h cluster_controller option"
  sp_remediation :: "'h executor"
  sp_kubernetes :: "'h executor option"
  sp_to_text :: "json \<Rightarrow> string"

datatype provider_status = ProviderReady | ProviderDegraded

record provider_health =
  ph_status :: provider_status
  ph_last_error :: "string option"
  ph_updated_at :: instant

definition provider_ready :: "instant \<Rightarrow> provider_health" where
  "provider_ready now = \<lparr> ph_status = ProviderReady, ph_last_error = None, ph_updated_at = now \<rparr>"

definition provider_degraded :: "string \<Rightarrow> instant \<Rightarrow> provider_health" where
  "provider_degraded err now = \<lparr> ph_status = ProviderDegraded, ph_last_error = Some err, ph_updated_at = now \<rparr>"

record brain_trace =
  bt_cycle_id :: "uuid option"
  bt_plan_id :: "uuid option"
  bt_evidence :: "string list"
  bt_decision :: "string option"
  bt_objective :: "string option"
  bt_steps :: "string list"
  bt_outcome :: "string option"

record 'h daemon =
  dm_host :: 'h
  dm_registry :: capability_registry
  dm_governor :: governor
  dm_autonomy :: autonomy_manager
  dm_approvals :: approval_store
  dm_pending :: "uuid \<rightharpoonup> pending_plan"
  dm_dedup :: in_memory_dedup
  dm_selfobs :: self_observability
  dm_runbooks :: runbook_manager
  dm_provider_health :: provider_health
  dm_published :: "(string \<times> json) list"
  dm_actions :: "action_event_record list"
  dm_traces :: "brain_trace list"

record moment =
  mo_now :: instant
  mo_clock :: "nat \<Rightarrow> instant"
  mo_fresh :: "nat \<Rightarrow> uuid"
  mo_correlation :: uuid
  mo_unix_ms :: u64
  mo_budget_written :: "instant \<Rightarrow> bool"
  mo_autonomy_written :: bool
  mo_runbook_written :: bool

section \<open>Pending approvals\<close>

definition store_pending :: "pending_plan \<Rightarrow> 'h daemon \<Rightarrow> 'h daemon" where
  "store_pending pending d = d\<lparr> dm_pending := hm_insert (pp_token pending) pending (dm_pending d) \<rparr>"

definition take_pending :: "uuid \<Rightarrow> 'h daemon \<Rightarrow> pending_plan option \<times> 'h daemon" where
  "take_pending token d = (dm_pending d token, d\<lparr> dm_pending := hm_remove token (dm_pending d) \<rparr>)"

definition grant_approval :: "moment \<Rightarrow> uuid \<Rightarrow> string \<Rightarrow> 'h daemon \<Rightarrow> (uuid + pending_plan) \<times> 'h daemon" where
  "grant_approval mo token granted_by d =
     (case take_pending token d of
        (None, d1) \<Rightarrow> (Inl token, d1)
      | (Some pending, d1) \<Rightarrow>
          (Inr pending,
           d1\<lparr> dm_approvals := snd (store_grant_for_a_while token (pp_context_hash pending) granted_by (mo_now mo)
                                       (seconds (15 * 60)) (dm_approvals d1)) \<rparr>))"

definition deny_approval :: "moment \<Rightarrow> uuid \<Rightarrow> string \<Rightarrow> 'h daemon \<Rightarrow> (uuid + unit) \<times> 'h daemon" where
  "deny_approval mo token granted_by d =
     (case take_pending token d of
        (None, d1) \<Rightarrow> (Inl token, d1)
      | (Some pending, d1) \<Rightarrow>
          (Inr (), d1\<lparr> dm_approvals := snd (store_deny token (pp_context_hash pending) granted_by (mo_now mo) (dm_approvals d1)) \<rparr>))"

definition pending_holds_dedup :: "string \<Rightarrow> 'h daemon \<Rightarrow> bool" where
  "pending_holds_dedup key d \<longleftrightarrow> (\<exists>pending \<in> ran (dm_pending d). pp_dedup_key pending = Some key)"

section \<open>Running a plan\<close>

definition daemon_ports ::
  "'h service_ports \<Rightarrow> moment \<Rightarrow> ('h, governor, autonomy_manager) loop_ports" where
  "daemon_ports sp mo =
     \<lparr> lp_governor = autopilot_evaluate, lp_governed_prefixes = GOVERNED_PREFIXES,
       lp_is_running = sp_is_running sp, lp_is_frozen = sp_is_frozen sp,
       lp_cluster = (case sp_cluster sp of None \<Rightarrow> unavailable_cluster | Some c \<Rightarrow> c),
       lp_remediation = sp_remediation sp,
       lp_kubernetes = (case sp_kubernetes sp of None \<Rightarrow> no_executor | Some x \<Rightarrow> x),
       lp_reserve = (\<lambda>risk scope now. manager_reserve (mo_budget_written mo now) risk scope now),
       lp_refund = (\<lambda>risk scope now. manager_refund (mo_budget_written mo now) risk scope now) \<rparr>"

definition remediation_env ::
  "'h service_ports \<Rightarrow> moment \<Rightarrow> autonomy_mode \<Rightarrow> 'h daemon \<Rightarrow> ('h, governor, autonomy_manager) loop_env" where
  "remediation_env sp mo level d =
     \<lparr> le_registry = dm_registry d, le_policy = policy_evaluate with_local_remediation, le_service = sp_service sp,
       le_autonomy = level, le_ports = daemon_ports sp mo, le_clock = mo_clock mo, le_to_text = sp_to_text sp,
       le_correlation = mo_correlation mo \<rparr>"

definition loop_start :: "moment \<Rightarrow> 'h daemon \<Rightarrow> ('h, governor, autonomy_manager) loop_state" where
  "loop_start mo d =
     \<lparr> ls_host = dm_host d, ls_gov = dm_governor d, ls_budget = dm_autonomy d, ls_tick = 0, ls_events = [],
       ls_ledger = [], ls_outcome = outcome_start (mo_correlation mo), ls_executed = [] \<rparr>"

text \<open>What the loop did to the state it shares with the daemon.\<close>

definition absorb :: "('h, governor, autonomy_manager) loop_state \<Rightarrow> 'h daemon \<Rightarrow> 'h daemon" where
  "absorb s d =
     d\<lparr> dm_host := ls_host s, dm_governor := ls_gov s, dm_autonomy := ls_budget s,
        dm_published := dm_published d @ ls_events s, dm_actions := dm_actions d @ ls_ledger s \<rparr>"

definition record_trace :: "brain_trace \<Rightarrow> 'h daemon \<Rightarrow> 'h daemon" where
  "record_trace t d = d\<lparr> dm_traces := dm_traces d @ [t] \<rparr>"

definition count_outcome :: "u64 \<Rightarrow> execution_outcome \<Rightarrow> self_observability \<Rightarrow> self_observability" where
  "count_outcome now report so =
     (let so1 = record_event_processed now (record_decision_completed now so);
          so2 = fold (\<lambda>_. record_policy_denial) (eo_denied report) so1;
          so3 = fold (\<lambda>e. if ex_status e = ExecFailed then record_executor_error else id) (eo_executions report) so2;
          succeeded = (eo_status report = Completed);
          so4 = (if \<not> succeeded \<and> eo_status report = Failed \<and> list_all (\<lambda>e. ex_status e \<noteq> ExecFailed) (eo_executions report)
                 then record_failed_validation so3 else so3)
      in record_autonomous_action succeeded (record_remediation succeeded so4))"

definition completed_executions :: "execution_outcome \<Rightarrow> u32" where
  "completed_executions report = of_nat (length (filter (\<lambda>e. ex_status e = ExecCompleted) (eo_executions report)))"

text \<open>\<open>{:?}\<close> of a plan status.\<close>

fun status_debug :: "plan_status \<Rightarrow> string" where
  "status_debug Proposed = ''Proposed''"
| "status_debug Approved = ''Approved''"
| "status_debug AwaitingApproval = ''AwaitingApproval''"
| "status_debug Superseded = ''Superseded''"
| "status_debug Executing = ''Executing''"
| "status_debug RollingBack = ''RollingBack''"
| "status_debug RolledBack = ''RolledBack''"
| "status_debug NeedsManual = ''NeedsManual''"
| "status_debug Completed = ''Completed''"
| "status_debug Failed = ''Failed''"
| "status_debug Denied = ''Denied''"

definition record_run_outcome :: "moment \<Rightarrow> execution_outcome \<Rightarrow> 'h daemon \<Rightarrow> 'h daemon" where
  "record_run_outcome mo report d =
     (let d1 = record_trace
                 \<lparr> bt_cycle_id = None, bt_plan_id = Some (eo_plan_id report), bt_evidence = [], bt_decision = None,
                   bt_objective = None, bt_steps = [], bt_outcome = Some (status_debug (eo_status report)) \<rparr> d
      in d1\<lparr> dm_selfobs := count_outcome (mo_unix_ms mo) report (dm_selfobs d1),
             dm_autonomy :=
               (if is_validation_failure (eo_status report)
                then on_validation_failed (mo_autonomy_written mo) (dm_autonomy d1)
                else record_validated_executions (completed_executions report) (mo_autonomy_written mo) (dm_autonomy d1)) \<rparr>)"

definition step_names :: "plan \<Rightarrow> string list" where
  "step_names p = map (\<lambda>st. as_str (ac_capability (ps_action st))) (pl_steps p)"

definition run_remediation ::
  "'h service_ports \<Rightarrow> moment \<Rightarrow> plan \<Rightarrow> autonomy_mode \<Rightarrow> 'h daemon \<Rightarrow> run_outcome \<times> 'h daemon" where
  "run_remediation sp mo p level d =
     (let (outcome, s) = authorize_and_run_with_ports (remediation_env sp mo level d) (mo_fresh mo) p (loop_start mo d);
          d1 = absorb s d
      in (outcome,
          case outcome of
            RunPending pending \<Rightarrow>
              record_trace
                \<lparr> bt_cycle_id = None, bt_plan_id = None, bt_evidence = [], bt_decision = None,
                  bt_objective = Some (pl_objective (pp_plan pending)), bt_steps = step_names (pp_plan pending),
                  bt_outcome = Some ''awaiting_approval'' \<rparr> (store_pending pending d1)
          | RunFinished report \<Rightarrow> record_run_outcome mo report d1
          | RunPanicked \<Rightarrow> d1))"

section \<open>Resuming\<close>

definition capability_descriptors :: "'h daemon \<Rightarrow> capability_descriptor list" where
  "capability_descriptors d = map snd (cr_descriptors (dm_registry d))"

definition note_runbook_outcome :: "moment \<Rightarrow> plan \<Rightarrow> execution_outcome \<Rightarrow> 'h daemon \<Rightarrow> 'h daemon" where
  "note_runbook_outcome mo p report d =
     (case pl_runbook p of
        None \<Rightarrow> d
      | Some name \<Rightarrow>
          if eo_executions report = [] then d
          else if eo_status report = Completed
          then d\<lparr> dm_runbooks := on_attributed_plan_validated (mo_runbook_written mo) name (capability_descriptors d)
                     (policy_evaluate with_local_remediation) (mo_correlation mo) (dm_runbooks d) \<rparr>
          else d\<lparr> dm_runbooks := note_procedure_outcome (mo_runbook_written mo) name False (dm_runbooks d) \<rparr>)"

definition release_dedup :: "string \<Rightarrow> 'h daemon \<Rightarrow> 'h daemon" where
  "release_dedup key d = d\<lparr> dm_dedup := release key (dm_dedup d) \<rparr>"

definition claim_dedup :: "string \<Rightarrow> 'h daemon \<Rightarrow> bool \<times> 'h daemon" where
  "claim_dedup key d = (let (fresh, dd) = claim key (dm_dedup d) in (fresh, d\<lparr> dm_dedup := dd \<rparr>))"

definition resume_remediation ::
  "'h service_ports \<Rightarrow> moment \<Rightarrow> pending_plan \<Rightarrow> 'h daemon \<Rightarrow> resume_outcome \<times> 'h daemon" where
  "resume_remediation sp mo pending d =
     (let (outcome, approvals, s) = resume_and_run_with_ports (remediation_env sp mo L3Assisted d) (mo_fresh mo) pending
                                      (mo_now mo) (dm_approvals d) (loop_start mo d);
          d1 = (absorb s d)\<lparr> dm_approvals := approvals \<rparr>
      in (outcome,
          case outcome of
            ResumeFinished report \<Rightarrow>
              (let d2 = note_runbook_outcome mo (pp_plan pending) report (record_run_outcome mo report d1)
               in case pp_dedup_key pending of
                    Some key \<Rightarrow> if eo_status report \<noteq> Completed then release_dedup key d2 else d2
                  | None \<Rightarrow> d2)
          | ResumeRefused _ \<Rightarrow> d1
          | ResumePanicked \<Rightarrow> d1))"

definition resume_pending ::
  "'h service_ports \<Rightarrow> moment \<Rightarrow> uuid \<Rightarrow> 'h daemon \<Rightarrow> resume_outcome option \<times> 'h daemon" where
  "resume_pending sp mo token d =
     (case take_pending token d of
        (None, d1) \<Rightarrow> (None, d1)
      | (Some pending, d1) \<Rightarrow> (let (outcome, d2) = resume_remediation sp mo pending d1 in (Some outcome, d2)))"

section \<open>Proposing\<close>

definition mark_provider_ready :: "moment \<Rightarrow> 'h daemon \<Rightarrow> 'h daemon" where
  "mark_provider_ready mo d = d\<lparr> dm_provider_health := provider_ready (mo_now mo) \<rparr>"

definition mark_provider_degraded :: "moment \<Rightarrow> string \<Rightarrow> 'h daemon \<Rightarrow> bool \<times> 'h daemon" where
  "mark_provider_degraded mo err d =
     (ph_status (dm_provider_health d) \<noteq> ProviderDegraded, d\<lparr> dm_provider_health := provider_degraded err (mo_now mo) \<rparr>)"

definition degraded_transition_event :: "string \<Rightarrow> string \<times> json" where
  "degraded_transition_event err = (''provider.degraded'', JObj [(''error'', JStr err)])"

definition propose_once ::
  "(json \<Rightarrow> string) \<Rightarrow> (decision_error \<Rightarrow> string) \<Rightarrow> moment \<Rightarrow> decision_provider \<Rightarrow> context_builder \<Rightarrow> float_val \<Rightarrow>
   'h daemon \<Rightarrow> (decision_error + (plan \<times> string) option) \<times> 'h daemon" where
  "propose_once to_text show_error mo provider b threshold d =
     (let (result, dd) = plan_from_evidence to_text provider b threshold (dm_dedup d); d1 = d\<lparr> dm_dedup := dd \<rparr>
      in case result of
           Inr (EvidencePlan p _ key) \<Rightarrow> (Inr (Some (p, key)), mark_provider_ready mo d1)
         | Inr (Deduplicated _) \<Rightarrow> (Inr None, mark_provider_ready mo d1)
         | Inr EvidenceNothing \<Rightarrow> (Inr None, mark_provider_ready mo d1)
         | Inl e \<Rightarrow>
             (let (transitioned, d2) = mark_provider_degraded mo (show_error e) d1
              in (Inl e, if transitioned
                         then d2\<lparr> dm_published := dm_published d2 @ [degraded_transition_event (show_error e)] \<rparr> else d2)))"

section \<open>The operator's surface\<close>

text \<open>
  \<open>approval.grant\<close> and \<open>approval.deny\<close> of the local socket (\<open>handler.rs\<close>): a grant resumes the
  plan at once, at the later moment \<open>mo2\<close>.
\<close>

datatype approval_response = UnknownToken uuid | GrantedWith resume_outcome | DeniedToken uuid

definition approval_grant_op ::
  "'h service_ports \<Rightarrow> moment \<Rightarrow> moment \<Rightarrow> uuid \<Rightarrow> string \<Rightarrow> 'h daemon \<Rightarrow> approval_response \<times> 'h daemon" where
  "approval_grant_op sp mo1 mo2 token who d =
     (case grant_approval mo1 token who d of
        (Inl t, d1) \<Rightarrow> (UnknownToken t, d1)
      | (Inr pending, d1) \<Rightarrow> (let (outcome, d2) = resume_remediation sp mo2 pending d1 in (GrantedWith outcome, d2)))"

definition approval_deny_op :: "moment \<Rightarrow> uuid \<Rightarrow> string \<Rightarrow> 'h daemon \<Rightarrow> approval_response \<times> 'h daemon" where
  "approval_deny_op mo token who d =
     (case deny_approval mo token who d of
        (Inl t, d1) \<Rightarrow> (UnknownToken t, d1)
      | (Inr _, d1) \<Rightarrow> (DeniedToken token, d1))"

section \<open>Frames\<close>

lemma take_pending_unknown: "dm_pending d token = None \<Longrightarrow> take_pending token d = (None, d)"
  by (simp add: take_pending_def hm_remove_def fun_upd_idem)

lemma take_pending_pending [simp]: "dm_pending (snd (take_pending token d)) = (dm_pending d)(token := None)"
  by (simp add: take_pending_def hm_remove_def)

lemma record_run_outcome_frame [simp]:
  "dm_pending (record_run_outcome mo report d) = dm_pending d"
  "dm_host (record_run_outcome mo report d) = dm_host d"
  "dm_approvals (record_run_outcome mo report d) = dm_approvals d"
  by (simp_all add: record_run_outcome_def record_trace_def Let_def)

lemma note_runbook_outcome_frame [simp]:
  "dm_pending (note_runbook_outcome mo p report d) = dm_pending d"
  "dm_host (note_runbook_outcome mo p report d) = dm_host d"
  "dm_approvals (note_runbook_outcome mo p report d) = dm_approvals d"
  by (simp_all add: note_runbook_outcome_def split: option.splits)

lemma release_dedup_frame [simp]:
  "dm_pending (release_dedup key d) = dm_pending d"
  "dm_host (release_dedup key d) = dm_host d"
  "dm_approvals (release_dedup key d) = dm_approvals d"
  by (simp_all add: release_dedup_def)

lemma resume_remediation_frame:
  "dm_pending (snd (resume_remediation sp mo pending d)) = dm_pending d"
  "dm_approvals (snd (resume_remediation sp mo pending d))
     = snd (store_consume (pp_token pending) (pp_context_hash pending) (mo_now mo) (dm_approvals d))"
  by (auto simp: resume_remediation_def resume_and_run_with_ports_def absorb_def Let_def case_prod_beta
      split: resume_outcome.splits option.splits prod.splits plan_run.splits)

text \<open>What a run does to its budget, it does through the port.\<close>

lemma run_step_budget_keeps:
  assumes res: "\<And>r sc t b. P b \<Longrightarrow> P (snd (lp_reserve (le_ports env) r sc t b))"
    and ref: "\<And>r sc t b. P b \<Longrightarrow> P (lp_refund (le_ports env) r sc t b)"
    and "P (ls_budget s)"
  shows "P (ls_budget (snd (run_step env fresh hash p resumed index st s)))"
proof -
  have reserve: "P (ls_budget s) \<Longrightarrow> P (ls_budget (snd (reserve_unless env gb r sc t s)))" for gb r sc t s
    using res by (auto simp: reserve_unless_def case_prod_beta)
  have refund: "P (ls_budget s) \<Longrightarrow> P (ls_budget (refund_unless env gb r sc t s))" for gb r sc t s
    using ref by (auto simp: refund_unless_def)
  have run: "P (ls_budget s) \<Longrightarrow> P (ls_budget (snd (run_allowed env hash p index a dc gb t s)))" for a dc gb t s
    using refund by (auto simp: run_allowed_def Let_def case_prod_beta execute_allowed_budget)
  have allow: "P (ls_budget s) \<Longrightarrow> P (ls_budget (snd (allow_branch env fresh hash p resumed index a dc s)))" for a dc s
    using reserve [of "s\<lparr> ls_tick := ls_tick s + 1 \<rparr>"] refund run
    by (simp add: allow_branch_def Let_def case_prod_beta pause_step_def split: option.split bool.split)
  have approve: "ls_budget (snd (approval_branch env fresh hash p resumed index a dc s)) = ls_budget s" for a dc s
    by (simp add: approval_branch_def pause_step_def Let_def case_prod_beta execute_allowed_budget)
  have gate: "P (ls_budget (snd (governor_gate env p index (ps_action st) s)))"
    using assms(3) by (simp add: governor_budget)
  show ?thesis
    using allow [OF gate] approve gate assms(3)
    by (simp add: run_step_def Let_def case_prod_beta split: policy_outcome.split)
qed

lemma run_plan_budget_keeps:
  assumes res: "\<And>r sc t b. P b \<Longrightarrow> P (snd (lp_reserve (le_ports env) r sc t b))"
    and ref: "\<And>r sc t b. P b \<Longrightarrow> P (lp_refund (le_ports env) r sc t b)"
    and "P (ls_budget s)"
  shows "P (ls_budget (snd (run_plan env fresh p resume s)))"
proof -
  have steps: "P (ls_budget s) \<Longrightarrow> P (ls_budget (snd (run_steps env fresh hash p resumed index sts s)))"
    for hash resumed index sts s
    by (induction sts arbitrary: index s)
       (auto simp: Let_def case_prod_beta intro!: run_step_budget_keeps [of P env, OF res ref])
  have "ls_budget (start_state env p resume s) = ls_budget s" by (simp add: start_state_def publish_def)
  then show ?thesis
    using steps assms(3) by (auto simp: run_plan_def Let_def case_prod_beta split: loop_flow.split)
qed

section \<open>Histories of runs and decisions\<close>

datatype daemon_op =
    RunPlan moment plan autonomy_mode
  | OperatorGrant moment moment uuid string
  | OperatorDeny moment uuid string

datatype service_event = PausedAt uuid | ResumedAt uuid | DeniedAt uuid

fun service_step :: "'h service_ports \<Rightarrow> daemon_op \<Rightarrow> 'h daemon \<Rightarrow> service_event list \<times> 'h daemon" where
  "service_step sp (RunPlan mo p level) d =
     (let (outcome, d') = run_remediation sp mo p level d
      in (case outcome of RunPending pending \<Rightarrow> [PausedAt (pp_token pending)] | _ \<Rightarrow> [], d'))"
| "service_step sp (OperatorGrant mo1 mo2 token who) d =
     (let (r, d') = approval_grant_op sp mo1 mo2 token who d
      in (case r of GrantedWith _ \<Rightarrow> [ResumedAt token] | _ \<Rightarrow> [], d'))"
| "service_step sp (OperatorDeny mo token who) d =
     (let (r, d') = approval_deny_op mo token who d
      in (case r of DeniedToken _ \<Rightarrow> [DeniedAt token] | _ \<Rightarrow> [], d'))"

fun service_run :: "'h service_ports \<Rightarrow> daemon_op list \<Rightarrow> 'h daemon \<Rightarrow> service_event list \<times> 'h daemon" where
  "service_run sp [] d = ([], d)"
| "service_run sp (op # ops) d =
     (let (ev, d1) = service_step sp op d; (evs, d2) = service_run sp ops d1 in (ev @ evs, d2))"

definition pending_sound :: "'h service_ports \<Rightarrow> 'h daemon \<Rightarrow> bool" where
  "pending_sound sp d \<longleftrightarrow> (\<forall>token pending. dm_pending d token = Some pending \<longrightarrow>
     pp_token pending = token \<and> pp_context_hash pending = plan_context_hash (sp_to_text sp) (pp_plan pending)
     \<and> carried_ok (pp_plan pending) (Some (pp_executed pending)))"

abbreviation open_at :: "uuid \<Rightarrow> 'h daemon \<Rightarrow> nat" where
  "open_at token d \<equiv> (if dm_pending d token = None then 0 else 1)"

abbreviation decisions_at :: "uuid \<Rightarrow> service_event list \<Rightarrow> nat" where
  "decisions_at token evlog \<equiv> count_list evlog (ResumedAt token) + count_list evlog (DeniedAt token)"

lemma run_remediation_pending:
  assumes "run_remediation sp mo p level d = (outcome, d')"
  shows "dm_pending d' = (case outcome of RunPending pending \<Rightarrow> (dm_pending d)(pp_token pending \<mapsto> pending)
                          | _ \<Rightarrow> dm_pending d)"
  using assms
  by (auto simp: run_remediation_def absorb_def store_pending_def record_trace_def hm_insert_def Let_def case_prod_beta
      split: run_outcome.splits)

lemma run_remediation_paused:
  assumes "run_remediation sp mo p level d = (RunPending pending, d')"
  shows "pp_context_hash pending = plan_context_hash (sp_to_text sp) (pp_plan pending)
       \<and> carried_ok (pp_plan pending) (Some (pp_executed pending))"
proof -
  let ?env = "remediation_env sp mo level d"
  obtain r s where run: "run_plan ?env (mo_fresh mo) p None (loop_start mo d) = (r, s)"
    by (cases "run_plan ?env (mo_fresh mo) p None (loop_start mo d)")
  with assms have "r = Paused pending"
    by (cases r) (auto simp: run_remediation_def authorize_and_run_with_ports_def Let_def)
  note run = run [unfolded this]
  have cok: "carried_ok p None" by (simp add: carried_ok_def)
  from run_plan_flow [OF cok run] obtain token where pending: "pending = pause_plan ?env token p (ls_executed s)" by blast
  from run_plan_executed [OF cok run] show ?thesis
    by (simp add: pending pause_plan_def paused_hash remediation_env_def carried_ok_def)
qed

lemma approval_grant_op_cases:
  "dm_pending d token = None \<Longrightarrow> approval_grant_op sp mo1 mo2 token who d = (UnknownToken token, d)"
  "dm_pending d token = Some pending \<Longrightarrow> \<exists>outcome. fst (approval_grant_op sp mo1 mo2 token who d) = GrantedWith outcome"
  "dm_pending (snd (approval_grant_op sp mo1 mo2 token who d)) = (dm_pending d)(token := None)"
proof -
  show unknown: "dm_pending d token = None \<Longrightarrow> approval_grant_op sp mo1 mo2 token who d = (UnknownToken token, d)"
    by (simp add: approval_grant_op_def grant_approval_def take_pending_unknown)
  show "dm_pending d token = Some pending \<Longrightarrow> \<exists>outcome. fst (approval_grant_op sp mo1 mo2 token who d) = GrantedWith outcome"
    by (simp add: approval_grant_op_def grant_approval_def take_pending_def case_prod_beta)
  show "dm_pending (snd (approval_grant_op sp mo1 mo2 token who d)) = (dm_pending d)(token := None)"
  proof (cases "dm_pending d token")
    case None
    with unknown show ?thesis by (auto simp: fun_upd_idem)
  next
    case (Some pending)
    then show ?thesis
      by (simp add: approval_grant_op_def grant_approval_def take_pending_def hm_remove_def case_prod_beta
          resume_remediation_frame)
  qed
qed

lemma approval_deny_op_cases:
  "dm_pending d token = None \<Longrightarrow> approval_deny_op mo token who d = (UnknownToken token, d)"
  "dm_pending d token = Some pending \<Longrightarrow> fst (approval_deny_op mo token who d) = DeniedToken token"
  "dm_pending (snd (approval_deny_op mo token who d)) = (dm_pending d)(token := None)"
  "dm_host (snd (approval_deny_op mo token who d)) = dm_host d"
  by (auto simp: approval_deny_op_def deny_approval_def take_pending_def hm_remove_def fun_upd_idem split: option.split)

lemma service_step_account:
  assumes "service_step sp op d = (ev, d')"
  shows "decisions_at token ev + open_at token d' \<le> count_list ev (PausedAt token) + open_at token d
       \<and> (pending_sound sp d \<longrightarrow> pending_sound sp d')"
proof (cases op)
  case (RunPlan mo p level)
  obtain outcome d1 where run: "run_remediation sp mo p level d = (outcome, d1)"
    by (cases "run_remediation sp mo p level d")
  show ?thesis
    using assms RunPlan run run_remediation_pending [OF run] run_remediation_paused [of sp mo p level d]
    by (auto simp: pending_sound_def split: run_outcome.splits if_splits)
next
  case (OperatorGrant mo1 mo2 t who)
  show ?thesis
  proof (cases "dm_pending d t")
    case None
    with assms OperatorGrant show ?thesis by (simp add: approval_grant_op_cases(1))
  next
    case (Some pending)
    with approval_grant_op_cases(2) obtain outcome where "fst (approval_grant_op sp mo1 mo2 t who d) = GrantedWith outcome"
      by blast
    with assms OperatorGrant Some show ?thesis
      using approval_grant_op_cases(3) [of sp mo1 mo2 t who d] by (auto simp: case_prod_beta pending_sound_def)
  qed
next
  case (OperatorDeny mo t who)
  show ?thesis
  proof (cases "dm_pending d t")
    case None
    with assms OperatorDeny show ?thesis by (simp add: approval_deny_op_cases(1))
  next
    case (Some pending)
    with assms OperatorDeny show ?thesis
      using approval_deny_op_cases(2) [OF Some] approval_deny_op_cases(3) [of mo t who d]
      by (auto simp: case_prod_beta pending_sound_def)
  qed
qed

lemma service_run_account:
  assumes "service_run sp ops d = (evlog, d')"
  shows "decisions_at token evlog + open_at token d' \<le> count_list evlog (PausedAt token) + open_at token d
       \<and> (pending_sound sp d \<longrightarrow> pending_sound sp d')"
  using assms
proof (induction ops arbitrary: d evlog)
  case (Cons op ops)
  obtain ev d1 where s: "service_step sp op d = (ev, d1)" by (cases "service_step sp op d")
  obtain evs d2 where r: "service_run sp ops d1 = (evs, d2)" by (cases "service_run sp ops d1")
  from Cons.prems s r have "evlog = ev @ evs" "d' = d2" by simp_all
  with service_step_account [OF s, of token] Cons.IH [of d1 evs] r show ?case by auto
qed simp

section \<open>Properties\<close>

text \<open>A daemon as it starts, over the mock service controller.\<close>

definition sample_moment :: "instant \<Rightarrow> moment" where
  "sample_moment now =
     \<lparr> mo_now = now, mo_clock = (\<lambda>_. now), mo_fresh = sample_fresh, mo_correlation = 7, mo_unix_ms = 1000,
       mo_budget_written = (\<lambda>_. True), mo_autonomy_written = True, mo_runbook_written = True \<rparr>"

definition sample_ports :: "mock_services service_ports" where
  "sample_ports =
     \<lparr> sp_service = mock_service_controller, sp_is_running = (\<lambda>_ _. Inr True), sp_is_frozen = (\<lambda>_ _. Inr False),
       sp_cluster = None, sp_remediation = no_executor, sp_kubernetes = None, sp_to_text = (\<lambda>_. []) \<rparr>"

definition sample_daemon :: "mock_services \<Rightarrow> mock_services daemon" where
  "sample_daemon h =
     \<lparr> dm_host = h, dm_registry = registry_new, dm_governor = governor_new autopilot_limits_default,
       dm_autonomy = load 1 autonomy_config_default (Inr None) None True,
       dm_approvals = Map.empty, dm_pending = Map.empty, dm_dedup = dedup_new, dm_selfobs = selfobs_new,
       dm_runbooks = manager_new [] [],
       dm_provider_health = provider_ready 0, dm_published = [], dm_actions = [], dm_traces = [] \<rparr>"

lemmas service_eval = loop_eval sample_moment_def sample_ports_def sample_daemon_def autonomy_config_default_def run_remediation_def
  remediation_env_def daemon_ports_def loop_start_def absorb_def authorize_and_run_with_ports_def
  store_pending_def record_trace_def hm_insert_def hm_remove_def take_pending_def
  policy_evaluate_def locally_permitted_def with_local_remediation_def bootstrap_policy_def step_request_def
  manager_reserve_def manager_refund_def with_state_def persist_def load_def autonomy_config_of_wire_def
  autonomy_state_fresh_def clamp_u32_def rolled_def

text \<open>
  C22. A paused plan is decided once. Over every history of runs, grants and denials of a daemon that
  starts without paused plans, the resumptions and denials under a token never outnumber the runs
  that paused under it, an operator's decision on a token that is not open is refused and changes
  nothing, and every paused plan is filed under its own token, with the hash of its own steps and
  with executed indices of its own plan.
\<close>

theorem paused_plans_decided_once:
  assumes "service_run sp ops d = (evlog, d')" and "dm_pending d = Map.empty"
  shows "count_list evlog (ResumedAt token) + count_list evlog (DeniedAt token) \<le> count_list evlog (PausedAt token)
       \<and> (dm_pending d' token = None \<longrightarrow>
            approval_grant_op sp mo1 mo2 token who d' = (UnknownToken token, d')
          \<and> approval_deny_op mo1 token who d' = (UnknownToken token, d'))
       \<and> (\<forall>pending. dm_pending d' token = Some pending \<longrightarrow>
            count_list evlog (ResumedAt token) + count_list evlog (DeniedAt token) < count_list evlog (PausedAt token)
          \<and> pp_token pending = token
          \<and> pp_context_hash pending = plan_context_hash (sp_to_text sp) (pp_plan pending)
          \<and> carried_ok (pp_plan pending) (Some (pp_executed pending)))"
proof -
  have "pending_sound sp d" using assms(2) by (simp add: pending_sound_def)
  with service_run_account [OF assms(1), of token] assms(2)
  have "decisions_at token evlog + open_at token d' \<le> count_list evlog (PausedAt token)" "pending_sound sp d'" by auto
  then show ?thesis
    using approval_grant_op_cases(1) approval_deny_op_cases(1) by (auto simp: pending_sound_def split: if_splits)
qed

definition sample_history :: "daemon_op list" where
  "sample_history =
     [RunPlan (sample_moment 0) restart_plan L3Assisted, OperatorDeny (sample_moment 5) 0 ''root'']"

lemma sample_history_log:
  "fst (service_run sample_ports sample_history (sample_daemon ([], {}))) = [PausedAt 0, DeniedAt 0]
   \<and> dm_pending (snd (service_run sample_ports sample_history (sample_daemon ([], {})))) 0 = None"
  by (simp add: service_eval sample_history_def cap_ids approval_deny_op_def deny_approval_def store_deny_def)

theorem paused_plans_decided_once_witness:
  "let (evlog, d) = service_run sample_ports sample_history (sample_daemon ([], {}))
   in evlog = [PausedAt 0, DeniedAt 0]
    \<and> approval_grant_op sample_ports (sample_moment 6) (sample_moment 7) 0 ''root'' d = (UnknownToken 0, d)"
  using paused_plans_decided_once [OF prod.collapse [symmetric], where sp = sample_ports and ops = sample_history
      and d = "sample_daemon ([], {})" and token = "0" and ?mo1.0 = "sample_moment 6" and ?mo2.0 = "sample_moment 7"
      and who = "''root''"] sample_history_log
  by (simp add: case_prod_beta sample_daemon_def)

text \<open>
  C23. An operator's grant takes effect: granting an open token and resuming within the quarter of an
  hour the grant lives is never refused and never panics; the paused plan runs to its end, the token is
  closed, the grant is spent, and any further decision on it is refused. Denying it
  leaves the host alone, closes the token and leaves no approval that could be consumed.
\<close>

theorem operator_decision_takes_effect:
  assumes "dm_pending d token = Some pending" and "pending_sound sp d"
    and "\<forall>st \<in> set (pl_steps (pp_plan pending)). valid_capability (ac_capability (ps_action st))"
    and "mo_now mo1 \<le> mo_now mo2" and "mo_now mo2 < mo_now mo1 + seconds 900"
  shows "(\<exists>report. fst (approval_grant_op sp mo1 mo2 token who d) = GrantedWith (ResumeFinished report))
       \<and> dm_pending (snd (approval_grant_op sp mo1 mo2 token who d)) token = None
       \<and> dm_approvals (snd (approval_grant_op sp mo1 mo2 token who d)) token = None
       \<and> dm_host (snd (approval_deny_op mo1 token who d)) = dm_host d
       \<and> dm_pending (snd (approval_deny_op mo1 token who d)) token = None
       \<and> fst (store_consume token hash now (dm_approvals (snd (approval_deny_op mo1 token who d)))) = None"
proof -
  define d1 where "d1 = snd (grant_approval mo1 token who d)"
  from assms(1,2) have sound: "pp_token pending = token" "carried_ok (pp_plan pending) (Some (pp_executed pending))"
    by (auto simp: pending_sound_def)
  have granted: "grant_approval mo1 token who d = (Inr pending, d1)"
    using assms(1) by (simp add: d1_def grant_approval_def take_pending_def)
  have "\<exists>a. store_consume token (pp_context_hash pending) (mo_now mo2) (dm_approvals d1)
      = (Some a, (dm_approvals d1)(token := None))"
    using assms(1,4,5) unfolding store_consume_Some
    by (simp add: d1_def grant_approval_def take_pending_def store_defs approval_grant_def authorizes_def Let_def)
  then obtain a where consumed: "store_consume token (pp_context_hash pending) (mo_now mo2) (dm_approvals d1)
      = (Some a, (dm_approvals d1)(token := None))" by blast
  let ?env = "remediation_env sp mo2 L3Assisted d1"
  obtain r s where run: "run_plan ?env (mo_fresh mo2) (pp_plan pending) (Some (pp_executed pending)) (loop_start mo2 d1) = (r, s)"
    by (cases "run_plan ?env (mo_fresh mo2) (pp_plan pending) (Some (pp_executed pending)) (loop_start mo2 d1)")
  have "\<not> escalation_bounded (le_autonomy ?env)" by (simp add: remediation_env_def escalation_bounded_def)
  with run_plan_flow [OF sound(2) run] assms(3) obtain out where "r = Finished out" by (cases r) auto
  with run consumed sound(1) have "fst (resume_remediation sp mo2 pending d1) = ResumeFinished out"
    by (simp add: resume_remediation_def resume_and_run_with_ports_def Let_def)
  then have "fst (approval_grant_op sp mo1 mo2 token who d) = GrantedWith (ResumeFinished out)"
    "dm_approvals (snd (approval_grant_op sp mo1 mo2 token who d)) token = None"
    using consumed sound(1) resume_remediation_frame(2) [of sp mo2 pending d1]
    unfolding approval_grant_op_def granted by (auto simp: case_prod_beta)
  moreover have "fst (store_consume token hash now (dm_approvals (snd (approval_deny_op mo1 token who d)))) = None"
    using assms(1) by (simp add: approval_deny_op_def deny_approval_def take_pending_def store_defs approval_deny_def authorizes_def Let_def)
  ultimately show ?thesis
    by (simp add: approval_grant_op_cases(3) approval_deny_op_cases(3,4))
qed

definition waiting_daemon :: "mock_services daemon" where
  "waiting_daemon = snd (run_remediation sample_ports (sample_moment 0) restart_plan L3Assisted (sample_daemon ([], {})))"

lemma waiting_daemon_pending:
  "\<exists>pending. dm_pending waiting_daemon 0 = Some pending \<and> pl_steps (pp_plan pending) = pl_steps restart_plan"
  by (simp add: waiting_daemon_def service_eval cap_ids)

lemma waiting_daemon_sound: "pending_sound sample_ports waiting_daemon"
proof -
  have "pending_sound sample_ports (sample_daemon ([], {}))" by (simp add: pending_sound_def sample_daemon_def)
  then show ?thesis
    using service_step_account [of sample_ports "RunPlan (sample_moment 0) restart_plan L3Assisted" "sample_daemon ([], {})"]
    by (simp add: waiting_daemon_def case_prod_beta)
qed

theorem operator_decision_takes_effect_witness:
  "(\<exists>report. fst (approval_grant_op sample_ports (sample_moment 5) (sample_moment 6) 0 ''root'' waiting_daemon)
       = GrantedWith (ResumeFinished report))
   \<and> dm_host (snd (approval_deny_op (sample_moment 5) 0 ''root'' waiting_daemon)) = dm_host waiting_daemon"
proof -
  obtain pending where p: "dm_pending waiting_daemon 0 = Some pending" "pl_steps (pp_plan pending) = pl_steps restart_plan"
    using waiting_daemon_pending by blast
  have "\<forall>st \<in> set (pl_steps (pp_plan pending)). valid_capability (ac_capability (ps_action st))"
    using p(2) by (simp add: sample_plan_def unit_action_def cap_ids valid_capability_def is_dotted_path_def is_segment_def
        char_class_defs)
  from operator_decision_takes_effect [OF p(1) waiting_daemon_sound this,
      where ?mo1.0 = "sample_moment 5" and ?mo2.0 = "sample_moment 6" and who = "''root''"]
  show ?thesis by (simp add: sample_moment_def)
qed

section \<open>The account of a run\<close>

lemma fold_denials: "so_policy_denials (fold (\<lambda>_. record_policy_denial) xs so) = so_policy_denials so + of_nat (length xs)"
  by (induction xs arbitrary: so) (simp_all add: record_policy_denial_def)

lemma fold_denials_frame:
  "so_executor_errors (fold (\<lambda>_. record_policy_denial) xs so) = so_executor_errors so"
  "so_failed_validations (fold (\<lambda>_. record_policy_denial) xs so) = so_failed_validations so"
  "so_remediation_attempts (fold (\<lambda>_. record_policy_denial) xs so) = so_remediation_attempts so"
  "so_remediation_successes (fold (\<lambda>_. record_policy_denial) xs so) = so_remediation_successes so"
  "so_last_processed_event_ms (fold (\<lambda>_. record_policy_denial) xs so) = so_last_processed_event_ms so"
  by (induction xs arbitrary: so) (simp_all add: record_policy_denial_def)

abbreviation count_failures :: "execution list \<Rightarrow> self_observability \<Rightarrow> self_observability" where
  "count_failures \<equiv> fold (\<lambda>e. if ex_status e = ExecFailed then record_executor_error else id)"

lemma fold_failures:
  "so_executor_errors (count_failures es so) = so_executor_errors so + of_nat (length (filter (\<lambda>e. ex_status e = ExecFailed) es))"
  by (induction es arbitrary: so) (simp_all add: record_executor_error_def)

lemma fold_failures_frame:
  "so_policy_denials (count_failures es so) = so_policy_denials so"
  "so_failed_validations (count_failures es so) = so_failed_validations so"
  "so_remediation_attempts (count_failures es so) = so_remediation_attempts so"
  "so_remediation_successes (count_failures es so) = so_remediation_successes so"
  "so_last_processed_event_ms (count_failures es so) = so_last_processed_event_ms so"
  by (induction es arbitrary: so) (simp_all add: record_executor_error_def)

lemmas counter_defs = count_outcome_def record_event_processed_def record_decision_completed_def
  record_failed_validation_def record_autonomous_action_def record_remediation_def

lemma finished_report:
  assumes "run_plan env fresh p resume s = (Finished report, s')" and "carried_ok p resume"
  shows "if eo_status report \<in> {Denied, Completed} then \<forall>e \<in> set (eo_executions report). ex_status e = ExecCompleted
         else length (filter (\<lambda>e. ex_status e = ExecFailed) (eo_executions report)) = 1"
proof -
  from run_plan_ends [OF assms(2,1)] have "stopped env p (resume \<noteq> None) (carried resume) s' \<and> report = ls_outcome s' \<or>
      (\<forall>e \<in> set (eo_executions report). ex_status e = ExecCompleted)
        \<and> eo_status report = (if eo_executions report = [] then Denied else Completed)"
    by (auto simp: run_ends_def loop_inv_def)
  moreover have "\<forall>e \<in> set xs. ex_status e = ExecCompleted \<Longrightarrow> filter (\<lambda>e. ex_status e = ExecFailed) xs = []" for xs
    by (auto simp: filter_empty_conv)
  ultimately show ?thesis by (auto simp: stopped_def split: if_splits)
qed

lemma run_remediation_finished:
  assumes "run_remediation sp mo p level d = (RunFinished report, d')"
  obtains s where "run_plan (remediation_env sp mo level d) (mo_fresh mo) p None (loop_start mo d) = (Finished report, s)"
    and "d' = record_run_outcome mo report (absorb s d)"
proof -
  obtain r s where run: "run_plan (remediation_env sp mo level d) (mo_fresh mo) p None (loop_start mo d) = (r, s)"
    by (cases "run_plan (remediation_env sp mo level d) (mo_fresh mo) p None (loop_start mo d)")
  with assms have "r = Finished report" "d' = record_run_outcome mo report (absorb s d)"
    by (cases r; simp add: run_remediation_def authorize_and_run_with_ports_def Let_def)+
  with run that show thesis by blast
qed

text \<open>The loop's use of the budget leaves the rung alone.\<close>

lemma run_plan_rung:
  "as_earned (am_state (ls_budget (snd (run_plan (remediation_env sp mo level d) fresh p resume s))))
     = as_earned (am_state (ls_budget s))"
  by (rule run_plan_budget_keeps [where P = "\<lambda>b. as_earned (am_state b) = as_earned (am_state (ls_budget s))"])
     (simp_all add: remediation_env_def daemon_ports_def manager_reserve_def manager_refund_def with_state_def
        Let_def case_prod_beta)

text \<open>
  A finished run is accounted exactly once: one attempt, a success exactly when it completed, one
  policy denial per refused step, and one executor error exactly when it ended failed, rolled back
  or needing manual repair. The earned rung falls by one exactly when it was rolled back or needs
  manual repair and stays otherwise, whatever the run did to the budget kept beside it.
\<close>

theorem finished_run_accounted:
  assumes "run_remediation sp mo p level d = (RunFinished report, d')"
  shows "so_remediation_attempts (dm_selfobs d') = so_remediation_attempts (dm_selfobs d) + 1
       \<and> so_remediation_successes (dm_selfobs d')
           = so_remediation_successes (dm_selfobs d) + (if eo_status report = Completed then 1 else 0)
       \<and> so_policy_denials (dm_selfobs d') = so_policy_denials (dm_selfobs d) + of_nat (length (eo_denied report))
       \<and> so_executor_errors (dm_selfobs d')
           = so_executor_errors (dm_selfobs d) + (if eo_status report \<in> {Denied, Completed} then 0 else 1)
       \<and> as_earned (am_state (dm_autonomy d'))
           = (if eo_status report \<in> {RolledBack, NeedsManual} then demote_rung (as_earned (am_state (dm_autonomy d)))
              else as_earned (am_state (dm_autonomy d)))"
proof -
  from assms obtain s where run:
    "run_plan (remediation_env sp mo level d) (mo_fresh mo) p None (loop_start mo d) = (Finished report, s)"
    and d': "d' = record_run_outcome mo report (absorb s d)" by (rule run_remediation_finished)
  have so: "dm_selfobs d' = count_outcome (mo_unix_ms mo) report (dm_selfobs d)"
    by (simp add: d' record_run_outcome_def record_trace_def absorb_def Let_def)
  have "length (filter (\<lambda>e. ex_status e = ExecFailed) (eo_executions report))
      = (if eo_status report \<in> {Denied, Completed} then 0 else 1)"
    using finished_report [OF run] by (auto simp: carried_ok_def filter_empty_conv split: if_splits)
  moreover have "as_earned (am_state (ls_budget s)) = as_earned (am_state (dm_autonomy d))"
    using run_plan_rung [of sp mo level d "mo_fresh mo" p None "loop_start mo d"] run by (simp add: loop_start_def)
  moreover have "\<not> rank a > 0 \<Longrightarrow> demote_rung a = a" for a by (cases a) simp_all
  ultimately show ?thesis
    unfolding so
    by (auto simp: counter_defs fold_denials fold_denials_frame fold_failures fold_failures_frame Let_def
        d' record_run_outcome_def record_trace_def absorb_def is_validation_failure_def on_validation_failed_def
        record_validated_executions_def with_state_def transition_def persist_def)
qed

definition sample_denied :: plan where
  "sample_denied = sample_plan [\<lparr> ps_action = unit_action K8S_POD_DELETE ''nginx'', ps_rollback = None \<rparr>]"

definition denied_report :: execution_outcome where
  "denied_report =
     \<lparr> eo_executions = [], eo_denied = [CapabilityId K8S_POD_DELETE], eo_requires_approval = [], eo_status = Denied,
       eo_plan_id = 7 \<rparr>"

lemma sample_denied_run:
  "fst (run_remediation sample_ports (sample_moment 0) sample_denied L3Assisted (sample_daemon ([], {}))) = RunFinished denied_report"
  by (simp add: service_eval sample_denied_def denied_report_def cap_ids)

theorem finished_run_accounted_witness:
  "let d = snd (run_remediation sample_ports (sample_moment 0) sample_denied L3Assisted (sample_daemon ([], {})))
   in so_remediation_attempts (dm_selfobs d) = 1 \<and> so_policy_denials (dm_selfobs d) = 1"
  using finished_run_accounted [of sample_ports "sample_moment 0" sample_denied L3Assisted "sample_daemon ([], {})" denied_report]
    sample_denied_run
  by (metis (mono_tags, lifting) denied_report_def execution_outcome.select_convs(2) list.size(3,4) One_nat_def of_nat_1
      add_0 sample_daemon_def daemon.select_convs(8) selfobs_new_def self_observability.select_convs(6,9) prod.collapse)

section \<open>Where the code and its comments disagree\<close>

text \<open>
  The counter of failed validations, one of the two inputs of the suspension rule, never moves: a
  plan that fails always has a failed step, so the branch that would count is not reached.
\<close>

theorem failed_validation_never_counted:
  "so_failed_validations (dm_selfobs (snd (run_remediation sp mo p level d))) = so_failed_validations (dm_selfobs d)"
proof (cases "fst (run_remediation sp mo p level d)")
  case (RunFinished report)
  then have "run_remediation sp mo p level d = (RunFinished report, snd (run_remediation sp mo p level d))"
    by (metis prod.collapse)
  then obtain s where run:
    "run_plan (remediation_env sp mo level d) (mo_fresh mo) p None (loop_start mo d) = (Finished report, s)"
    and d': "snd (run_remediation sp mo p level d) = record_run_outcome mo report (absorb s d)"
    by (rule run_remediation_finished)
  have "eo_status report = Failed \<Longrightarrow> \<not> list_all (\<lambda>e. ex_status e \<noteq> ExecFailed) (eo_executions report)"
    using finished_report [OF run] by (fastforce simp: carried_ok_def list_all_iff filter_empty_conv
        dest!: arg_cong [of _ 1 "\<lambda>n. n = 0"])
  then show ?thesis
    unfolding d' by (auto simp: counter_defs fold_denials_frame fold_failures_frame Let_def record_run_outcome_def
        record_trace_def absorb_def)
qed (auto simp: run_remediation_def absorb_def store_pending_def record_trace_def Let_def case_prod_beta)

text \<open>
  \<open>resume_pending\<close>, documented as the second half of the approval round trip, finds no plan after a
  grant: the grant has already taken it out of the store.
\<close>

theorem granted_token_not_resumable:
  "resume_pending sp mo2 token (snd (grant_approval mo1 token who d)) = (None, snd (grant_approval mo1 token who d))"
  by (auto simp: resume_pending_def grant_approval_def take_pending_def hm_remove_def split: option.split)

end
