(* ===== verification/Sensors.thy ===== *)
theory Sensors
  imports Identifiers
begin

text \<open>
  The kernel-native sensors (\<open>argus-sensors\<close>): the pure parsers over the contents of \<open>/proc\<close>,
  \<open>/sys\<close> and cgroup files and the figures derived from them. A parser is a function of the text;
  reading a file is the caller's, and its failure is the value \<open>None\<close> or an error. The parser of
  floating-point literals is a parameter \<open>pf\<close>. Unsigned arithmetic wraps, as in a release build.
\<close>

section \<open>Text\<close>

text \<open>\<open>str::lines\<close>: a line ends at a line feed, with one carriage return before it dropped.\<close>

abbreviation newline :: char where
  "newline \<equiv> CHR 0x0A"

definition strip_cr :: "string \<Rightarrow> string" where
  "strip_cr l = (if l \<noteq> [] \<and> last l = CHR 0x0D then butlast l else l)"

definition str_lines :: "string \<Rightarrow> string list" where
  "str_lines s =
     (let ps = split_on newline s in map strip_cr (butlast ps) @ (if last ps = [] then [] else [last ps]))"

text \<open>\<open>str::split_whitespace\<close>.\<close>

fun split_ws :: "string \<Rightarrow> string list" where
  "split_ws [] = [[]]"
| "split_ws (x # xs) =
     (case split_ws xs of [] \<Rightarrow> []
      | w # ws \<Rightarrow> if is_whitespace x then [] # w # ws else (x # w) # ws)"

definition split_whitespace :: "string \<Rightarrow> string list" where
  "split_whitespace s = filter (\<lambda>w. w \<noteq> []) (split_ws s)"

definition nth_opt :: "'a list \<Rightarrow> nat \<Rightarrow> 'a option" where
  "nth_opt xs i = (if i < length xs then Some (xs ! i) else None)"

text \<open>\<open>str::parse\<close> for unsigned and signed integers: a leading plus is accepted, overflow refused.\<close>

definition parse_unsigned :: "nat \<Rightarrow> string \<Rightarrow> nat option" where
  "parse_unsigned bits s =
     (case parse_digits (case s of c # cs \<Rightarrow> if c = CHR ''+'' then cs else s | [] \<Rightarrow> []) of
        None \<Rightarrow> None
      | Some n \<Rightarrow> if n < 2 ^ bits then Some n else None)"

definition parse_u64 :: "string \<Rightarrow> u64 option" where
  "parse_u64 s = map_option of_nat (parse_unsigned 64 s)"

definition parse_u32 :: "string \<Rightarrow> u32 option" where
  "parse_u32 s = map_option of_nat (parse_unsigned 32 s)"

definition parse_i64 :: "string \<Rightarrow> int option" where
  "parse_i64 s =
     (let (neg, ds) = (case s of [] \<Rightarrow> (False, [])
                       | c # cs \<Rightarrow> if c = CHR ''-'' then (True, cs)
                                 else if c = CHR ''+'' then (False, cs) else (False, s))
      in case parse_digits ds of None \<Rightarrow> None
         | Some n \<Rightarrow>
             (let v = (if neg then - int n else int n)
              in if - (2 ^ 63) \<le> v \<and> v < 2 ^ 63 then Some v else None))"

text \<open>\<open>u64::from_str_radix(_, 16)\<close>.\<close>

definition hex_value :: "char \<Rightarrow> nat option" where
  "hex_value c =
     (if is_ascii_digit c then Some (code c - 48)
      else if 97 \<le> code c \<and> code c \<le> 102 then Some (code c - 87)
      else if 65 \<le> code c \<and> code c \<le> 70 then Some (code c - 55) else None)"

definition parse_hex_u64 :: "string \<Rightarrow> u64 option" where
  "parse_hex_u64 s =
     (let ds = (case s of c # cs \<Rightarrow> if c = CHR ''+'' then cs else s | [] \<Rightarrow> [])
      in if ds = [] \<or> None \<in> set (map hex_value ds) then None
         else (let n = foldl (\<lambda>n c. 16 * n + the (hex_value c)) 0 ds in if n < 2 ^ 64 then Some (of_nat n) else None))"

section \<open>Errors\<close>

datatype sensor_error = SensorUnavailable string string | SensorRead string string | SensorParse string string

section \<open>Memory\<close>

record mem_info =
  mi_total :: u64
  mi_free :: u64
  mi_available :: u64
  mi_buffers :: u64
  mi_cached :: u64
  mi_swap_total :: u64
  mi_swap_free :: u64

text \<open>The product with 100 of a quotient of two converted integers, each operation rounded.\<close>

definition percent_of :: "u64 \<Rightarrow> u64 \<Rightarrow> float_val" where
  "percent_of part whole =
     Fin (to_f64 (to_f64 (to_f64 (of_nat (unat part)) / to_f64 (of_nat (unat whole))) * 100))"

definition used_percent :: "mem_info \<Rightarrow> float_val" where
  "used_percent m = (if mi_total m = 0 then Fin 0 else percent_of (mi_total m - mi_available m) (mi_total m))"

definition meminfo_line :: "string \<Rightarrow> (string \<times> u64) option" where
  "meminfo_line line =
     Option.bind (split_once (CHR '':'') line) (\<lambda>(key, rest).
       case split_whitespace rest of
         [] \<Rightarrow> None
       | v # _ \<Rightarrow> map_option (Pair (trim key)) (parse_u64 v))"

text \<open>Later lines overwrite earlier ones, as in the source's map.\<close>

definition key_counters :: "(string \<Rightarrow> (string \<times> u64) option) \<Rightarrow> string \<Rightarrow> (string \<times> u64) list" where
  "key_counters f input = rev (filter_map f (str_lines input))"

definition counter :: "(string \<times> u64) list \<Rightarrow> string \<Rightarrow> u64" where
  "counter m key = (case map_of m key of Some v \<Rightarrow> v | None \<Rightarrow> 0)"

definition meminfo_parse :: "string \<Rightarrow> sensor_error + mem_info" where
  "meminfo_parse input =
     (let m = key_counters meminfo_line input
      in if m = [] then Inl (SensorParse ''host.meminfo'' ''no key/value lines found'')
         else Inr \<lparr> mi_total = counter m ''MemTotal'', mi_free = counter m ''MemFree'',
                    mi_available = counter m ''MemAvailable'', mi_buffers = counter m ''Buffers'',
                    mi_cached = counter m ''Cached'', mi_swap_total = counter m ''SwapTotal'',
                    mi_swap_free = counter m ''SwapFree'' \<rparr>)"

record vm_stat =
  vs_oom_kill :: u64
  vs_pgmajfault :: u64
  vs_pswpin :: u64
  vs_pswpout :: u64
  vs_pgpgin :: u64
  vs_pgpgout :: u64

definition vmstat_line :: "string \<Rightarrow> (string \<times> u64) option" where
  "vmstat_line line =
     (case split_whitespace line of
        key # v # _ \<Rightarrow> map_option (Pair key) (parse_u64 v)
      | _ \<Rightarrow> None)"

definition vmstat_parse :: "string \<Rightarrow> sensor_error + vm_stat" where
  "vmstat_parse input =
     (let m = key_counters vmstat_line input
      in if m = [] then Inl (SensorParse ''host.vmstat'' ''no key/value pairs found'')
         else Inr \<lparr> vs_oom_kill = counter m ''oom_kill'', vs_pgmajfault = counter m ''pgmajfault'',
                    vs_pswpin = counter m ''pswpin'', vs_pswpout = counter m ''pswpout'',
                    vs_pgpgin = counter m ''pgpgin'', vs_pgpgout = counter m ''pgpgout'' \<rparr>)"

section \<open>Disk space\<close>

record disk_usage =
  du_mount :: string
  du_used_percent :: float_val
  du_total :: u64
  du_free :: u64

definition DEFAULT_MOUNT :: string where
  "DEFAULT_MOUNT = ''/''"

definition sat_mul :: "u64 \<Rightarrow> u64 \<Rightarrow> u64" where
  "sat_mul a b = (if unat a * unat b < 2 ^ 64 then a * b else - 1)"

definition from_blocks :: "string \<Rightarrow> u64 \<Rightarrow> u64 \<Rightarrow> u64 \<Rightarrow> disk_usage" where
  "from_blocks mount frsize blocks bavail =
     \<lparr> du_mount = mount,
       du_used_percent = (if blocks = 0 then Fin 0 else percent_of (sat_sub blocks bavail) blocks),
       du_total = sat_mul blocks frsize, du_free = sat_mul bavail frsize \<rparr>"

section \<open>Processor time\<close>

record cpu_times =
  ct_user :: u64
  ct_nice :: u64
  ct_system :: u64
  ct_idle :: u64
  ct_iowait :: u64
  ct_irq :: u64
  ct_softirq :: u64
  ct_steal :: u64

definition idle_ticks :: "cpu_times \<Rightarrow> u64" where
  "idle_ticks c = ct_idle c + ct_iowait c"

definition total_ticks :: "cpu_times \<Rightarrow> u64" where
  "total_ticks c =
     ct_user c + ct_nice c + ct_system c + ct_idle c + ct_iowait c + ct_irq c + ct_softirq c + ct_steal c"

definition utilization_since :: "cpu_times \<Rightarrow> cpu_times \<Rightarrow> float_val" where
  "utilization_since c prev =
     (let total_delta = sat_sub (total_ticks c) (total_ticks prev)
      in if total_delta = 0 then Fin 0
         else percent_of (total_delta - sat_sub (idle_ticks c) (idle_ticks prev)) total_delta)"

definition field_u64 :: "string list \<Rightarrow> nat \<Rightarrow> u64 option" where
  "field_u64 cols i = Option.bind (nth_opt cols i) parse_u64"

definition required_tick :: "string \<Rightarrow> string list \<Rightarrow> nat \<Rightarrow> sensor_error + u64" where
  "required_tick name cols i =
     ok_or (SensorParse name (''invalid cpu tick at field '' @ show_nat i)) (field_u64 cols i)"

definition optional_tick :: "string list \<Rightarrow> nat \<Rightarrow> u64" where
  "optional_tick cols i = (case field_u64 cols i of Some v \<Rightarrow> v | None \<Rightarrow> 0)"

text \<open>The question mark of the source: the first error wins.\<close>

definition bind_result :: "'e + 'a \<Rightarrow> ('a \<Rightarrow> 'e + 'b) \<Rightarrow> 'e + 'b" where
  "bind_result r f = (case r of Inl e \<Rightarrow> Inl e | Inr x \<Rightarrow> f x)"

definition stat_parse :: "string \<Rightarrow> sensor_error + cpu_times" where
  "stat_parse input =
     (case List.find (starts_with ''cpu '') (str_lines input) of
        None \<Rightarrow> Inl (SensorParse ''host.cpu'' ''no aggregate `cpu` line found'')
      | Some line \<Rightarrow>
          (let cols = split_whitespace line; tick = required_tick ''host.cpu'' cols
           in if length cols < 5
              then Inl (SensorParse ''host.cpu''
                     (''expected at least 4 time fields, got '' @ show_nat (length cols - 1)))
              else bind_result (tick 1) (\<lambda>user. bind_result (tick 2) (\<lambda>nice.
                   bind_result (tick 3) (\<lambda>system. bind_result (tick 4) (\<lambda>idle.
                     Inr \<lparr> ct_user = user, ct_nice = nice, ct_system = system, ct_idle = idle,
                           ct_iowait = optional_tick cols 5, ct_irq = optional_tick cols 6,
                           ct_softirq = optional_tick cols 7, ct_steal = optional_tick cols 8 \<rparr>))))))"

section \<open>Load and pressure\<close>

record load_average =
  la_load1 :: float_val
  la_load5 :: float_val
  la_load15 :: float_val
  la_running_threads :: u32
  la_total_threads :: u32
  la_last_pid :: u32

definition load_f64 :: "(string \<Rightarrow> float_val option) \<Rightarrow> string \<Rightarrow> sensor_error + float_val" where
  "load_f64 pf token = ok_or (SensorParse ''host.loadavg'' (''invalid float `'' @ token @ ''`'')) (pf token)"

definition load_u32 :: "string \<Rightarrow> sensor_error + u32" where
  "load_u32 token = ok_or (SensorParse ''host.loadavg'' (''invalid integer `'' @ token @ ''`'')) (parse_u32 token)"

definition loadavg_parse :: "(string \<Rightarrow> float_val option) \<Rightarrow> string \<Rightarrow> sensor_error + load_average" where
  "loadavg_parse pf input =
     (let tokens = split_whitespace input
      in if length tokens < 5
         then Inl (SensorParse ''host.loadavg'' (''expected 5 fields, got '' @ show_nat (length tokens)))
         else case split_once (CHR ''/'') (tokens ! 3) of
           None \<Rightarrow> Inl (SensorParse ''host.loadavg'' (''invalid threads field `'' @ tokens ! 3 @ ''`''))
         | Some (running, total_text) \<Rightarrow>
             bind_result (load_f64 pf (tokens ! 0)) (\<lambda>l1. bind_result (load_f64 pf (tokens ! 1)) (\<lambda>l5.
             bind_result (load_f64 pf (tokens ! 2)) (\<lambda>l15. bind_result (load_u32 running) (\<lambda>r.
             bind_result (load_u32 total_text) (\<lambda>tt. bind_result (load_u32 (tokens ! 4)) (\<lambda>pid.
               Inr \<lparr> la_load1 = l1, la_load5 = l5, la_load15 = l15, la_running_threads = r,
                     la_total_threads = tt, la_last_pid = pid \<rparr>)))))))"

record pressure_line =
  pl_avg10 :: float_val
  pl_avg60 :: float_val
  pl_avg300 :: float_val
  pl_stall_total :: u64

record pressure =
  pr_some :: "pressure_line option"
  pr_full :: "pressure_line option"

definition pressure_field ::
  "(string \<Rightarrow> float_val option) \<Rightarrow> string \<Rightarrow> pressure_line \<Rightarrow> pressure_line option" where
  "pressure_field pf kv line =
     Option.bind (split_once (CHR ''='') kv) (\<lambda>(key, v).
       if key = ''avg10'' then map_option (\<lambda>x. line\<lparr> pl_avg10 := x \<rparr>) (pf v)
       else if key = ''avg60'' then map_option (\<lambda>x. line\<lparr> pl_avg60 := x \<rparr>) (pf v)
       else if key = ''avg300'' then map_option (\<lambda>x. line\<lparr> pl_avg300 := x \<rparr>) (pf v)
       else if key = ''total'' then map_option (\<lambda>x. line\<lparr> pl_stall_total := x \<rparr>) (parse_u64 v)
       else Some line)"

fun pressure_fields ::
  "(string \<Rightarrow> float_val option) \<Rightarrow> string list \<Rightarrow> pressure_line \<Rightarrow> pressure_line option" where
  "pressure_fields pf [] line = Some line"
| "pressure_fields pf (kv # kvs) line = Option.bind (pressure_field pf kv line) (pressure_fields pf kvs)"

definition parse_pressure_line ::
  "(string \<Rightarrow> float_val option) \<Rightarrow> string \<Rightarrow> (string \<times> pressure_line) option" where
  "parse_pressure_line pf line =
     (case split_whitespace line of
        [] \<Rightarrow> None
      | tag # kvs \<Rightarrow>
          map_option (Pair tag)
            (pressure_fields pf kvs \<lparr> pl_avg10 = Fin 0, pl_avg60 = Fin 0, pl_avg300 = Fin 0, pl_stall_total = 0 \<rparr>))"

definition add_pressure :: "(string \<times> pressure_line) option \<Rightarrow> pressure \<Rightarrow> pressure" where
  "add_pressure l p =
     (case l of
        None \<Rightarrow> p
      | Some (tag, line) \<Rightarrow>
          if tag = ''some'' then p\<lparr> pr_some := Some line \<rparr>
          else if tag = ''full'' then p\<lparr> pr_full := Some line \<rparr> else p)"

definition pressure_parse :: "(string \<Rightarrow> float_val option) \<Rightarrow> string \<Rightarrow> sensor_error + pressure" where
  "pressure_parse pf input =
     (let p = fold (add_pressure \<circ> parse_pressure_line pf) (str_lines input) \<lparr> pr_some = None, pr_full = None \<rparr>
      in if pr_some p = None \<and> pr_full p = None
         then Inl (SensorParse ''host.pressure'' ''no `some` or `full` line found'') else Inr p)"

section \<open>Disks and interfaces\<close>

record disk_stats =
  dk_name :: string
  dk_reads_completed :: u64
  dk_sectors_read :: u64
  dk_time_reading_ms :: u64
  dk_writes_completed :: u64
  dk_sectors_written :: u64
  dk_time_writing_ms :: u64
  dk_io_in_progress :: u64
  dk_time_io_ms :: u64
  dk_weighted_time_io_ms :: u64

definition diskstats_line :: "string \<Rightarrow> disk_stats option" where
  "diskstats_line raw =
     (let line = trim raw; cols = split_whitespace line; u = optional_tick cols
      in if line = [] \<or> length cols < 14 then None
         else Some \<lparr> dk_name = cols ! 2, dk_reads_completed = u 3, dk_sectors_read = u 5,
                     dk_time_reading_ms = u 6, dk_writes_completed = u 7, dk_sectors_written = u 9,
                     dk_time_writing_ms = u 10, dk_io_in_progress = u 11, dk_time_io_ms = u 12,
                     dk_weighted_time_io_ms = u 13 \<rparr>)"

definition diskstats_parse :: "string \<Rightarrow> sensor_error + disk_stats list" where
  "diskstats_parse input =
     (let disks = filter_map diskstats_line (str_lines input)
      in if disks = [] then Inl (SensorParse ''host.diskstats'' ''no disk entries found'') else Inr disks)"

record net_dev =
  nd_name :: string
  nd_rx_bytes :: u64
  nd_rx_packets :: u64
  nd_rx_errors :: u64
  nd_rx_dropped :: u64
  nd_tx_bytes :: u64
  nd_tx_packets :: u64
  nd_tx_errors :: u64
  nd_tx_dropped :: u64

definition netdev_line :: "string \<Rightarrow> net_dev option" where
  "netdev_line raw =
     Option.bind (split_once (CHR '':'') (trim raw)) (\<lambda>(name, rest).
       let iface = trim name; cols = split_whitespace rest; u = optional_tick cols
       in if iface = [] \<or> length cols < 16 then None
          else Some \<lparr> nd_name = iface, nd_rx_bytes = u 0, nd_rx_packets = u 1, nd_rx_errors = u 2,
                      nd_rx_dropped = u 3, nd_tx_bytes = u 8, nd_tx_packets = u 9, nd_tx_errors = u 10,
                      nd_tx_dropped = u 11 \<rparr>)"

definition netdev_parse :: "string \<Rightarrow> sensor_error + net_dev list" where
  "netdev_parse input =
     (let out = filter_map netdev_line (str_lines input)
      in if out = [] then Inl (SensorParse ''host.network'' ''no interface lines found'')
         else Inr (sort_key nd_name out))"

text \<open>The interfaces of a directory: entry name and the contents of its \<open>operstate\<close> file.\<close>

record interface_state =
  is_name :: string
  is_oper_state :: string

definition is_up :: "interface_state \<Rightarrow> bool" where
  "is_up i \<longleftrightarrow> is_oper_state i = ''up''"

definition read_interfaces :: "sensor_error + (string \<times> string option) list \<Rightarrow> sensor_error + interface_state list" where
  "read_interfaces entries =
     bind_result entries (\<lambda>es. Inr (sort_key is_name
       (map (\<lambda>(name, text). \<lparr> is_name = name,
               is_oper_state = (case text of Some s \<Rightarrow> trim s | None \<Rightarrow> ''unknown'') \<rparr>) es)))"

section \<open>Thermal zones\<close>

record thermal_zone =
  tz_name :: string
  tz_zone_type :: string
  tz_temp_celsius :: float_val

text \<open>An integer quotient of either sign.\<close>

definition signed_f64 :: "rat \<Rightarrow> rat" where
  "signed_f64 x = (if 0 \<le> x then to_f64 x else - to_f64 (- x))"

definition parse_temp :: "string \<Rightarrow> float_val option" where
  "parse_temp input =
     map_option (\<lambda>millideg. Fin (signed_f64 (signed_f64 (of_int millideg) / 1000))) (parse_i64 (trim input))"

text \<open>A zone directory: its name and the contents of its \<open>type\<close> and \<open>temp\<close> files.\<close>

definition read_zones ::
  "sensor_error + (string \<times> string option \<times> string option) list \<Rightarrow> sensor_error + thermal_zone list" where
  "read_zones entries =
     bind_result entries (\<lambda>es. Inr (sort_key tz_name
       (map (\<lambda>(name, type_text, temp_text).
          \<lparr> tz_name = name, tz_zone_type = (case type_text of Some s \<Rightarrow> trim s | None \<Rightarrow> []),
            tz_temp_celsius = (case Option.bind temp_text parse_temp of Some v \<Rightarrow> v | None \<Rightarrow> Fin 0) \<rparr>)
        (filter (\<lambda>(name, _). starts_with ''thermal_zone'' name) es))))"

section \<open>Processes\<close>

record process_status =
  pc_pid :: u32
  pc_ppid :: u32
  pc_name :: string
  pc_state :: string
  pc_uid :: u32
  pc_threads :: u32
  pc_vm_rss_kib :: u64
  pc_cap_eff :: u64

record process_stat =
  pt_utime :: u64
  pt_stime :: u64
  pt_start_ticks :: u64

definition first_word :: "string \<Rightarrow> string option" where
  "first_word v = nth_opt (split_whitespace v) 0"

definition first_u32 :: "string \<Rightarrow> u32 option" where
  "first_u32 v = Option.bind (first_word v) parse_u32"

definition first_u64 :: "string \<Rightarrow> u64 option" where
  "first_u64 v = Option.bind (first_word v) parse_u64"

definition or_zero :: "'a::zero option \<Rightarrow> 'a" where
  "or_zero v = (case v of Some x \<Rightarrow> x | None \<Rightarrow> 0)"

definition status_line :: "string \<Rightarrow> process_status \<Rightarrow> process_status" where
  "status_line line st =
     (case split_once (CHR '':'') line of
        None \<Rightarrow> st
      | Some (key, raw) \<Rightarrow>
          (let v = trim raw
           in if key = ''Name'' then st\<lparr> pc_name := v \<rparr>
              else if key = ''Pid'' then st\<lparr> pc_pid := or_zero (first_u32 v) \<rparr>
              else if key = ''PPid'' then st\<lparr> pc_ppid := or_zero (first_u32 v) \<rparr>
              else if key = ''State'' then st\<lparr> pc_state := (case first_word v of Some w \<Rightarrow> w | None \<Rightarrow> []) \<rparr>
              else if key = ''Uid'' then st\<lparr> pc_uid := or_zero (first_u32 v) \<rparr>
              else if key = ''Threads'' then st\<lparr> pc_threads := or_zero (first_u32 v) \<rparr>
              else if key = ''VmRSS'' then st\<lparr> pc_vm_rss_kib := or_zero (first_u64 v) \<rparr>
              else if key = ''CapEff'' then st\<lparr> pc_cap_eff := or_zero (Option.bind (first_word v) parse_hex_u64) \<rparr>
              else st))"

definition process_parse :: "string \<Rightarrow> sensor_error + process_status" where
  "process_parse input =
     (if trim input = [] then Inl (SensorParse ''process.status'' ''empty status file'')
      else Inr (fold status_line (str_lines input)
             \<lparr> pc_pid = 0, pc_ppid = 0, pc_name = [], pc_state = [], pc_uid = 0, pc_threads = 0,
               pc_vm_rss_kib = 0, pc_cap_eff = 0 \<rparr>))"

text \<open>The fields after the last closing parenthesis: the command name may contain any character.\<close>

definition parse_stat :: "string \<Rightarrow> sensor_error + process_stat" where
  "parse_stat input =
     (if CHR '')'' \<notin> set input
      then Inl (SensorParse ''process.stat'' ''missing comm close parenthesis'')
      else let tokens = split_whitespace (rev (takeWhile (\<lambda>c. c \<noteq> CHR '')'') (rev input)))
      in if length tokens < 20
         then Inl (SensorParse ''process.stat''
                (''expected at least 20 stat fields, got '' @ show_nat (length tokens)))
         else Inr \<lparr> pt_utime = or_zero (parse_u64 (tokens ! 11)), pt_stime = or_zero (parse_u64 (tokens ! 12)),
                    pt_start_ticks = or_zero (parse_u64 (tokens ! 19)) \<rparr>)"

definition parse_cmdline :: "string \<Rightarrow> string list" where
  "parse_cmdline input = filter (\<lambda>s. s \<noteq> []) (split_on (CHR 0x00) input)"

definition parse_cgroup :: "string \<Rightarrow> string list" where
  "parse_cgroup input = filter (\<lambda>l. l \<noteq> []) (map trim (str_lines input))"

section \<open>Control groups\<close>

record cgroup_snapshot =
  cg_memory_current_bytes :: u64
  cg_memory_max_bytes :: "u64 option"
  cg_oom_kill :: u64
  cg_cpu_usage_usec :: u64

definition parse_memory_max :: "string \<Rightarrow> u64 option" where
  "parse_memory_max input = (let s = trim input in if s = ''max'' then None else parse_u64 s)"

definition counter_line :: "string \<Rightarrow> string \<Rightarrow> u64 option" where
  "counter_line key line =
     (case split_whitespace line of
        k # v # _ \<Rightarrow> if k = key then parse_u64 v else None
      | _ \<Rightarrow> None)"

fun find_map :: "('a \<Rightarrow> 'b option) \<Rightarrow> 'a list \<Rightarrow> 'b option" where
  "find_map f [] = None"
| "find_map f (x # xs) = (case f x of Some y \<Rightarrow> Some y | None \<Rightarrow> find_map f xs)"

definition find_counter :: "string \<Rightarrow> string \<Rightarrow> u64" where
  "find_counter input key = or_zero (find_map (counter_line key) (str_lines input))"

definition parse_memory_events :: "string \<Rightarrow> u64" where
  "parse_memory_events input = find_counter input ''oom_kill''"

definition parse_cpu_stat :: "string \<Rightarrow> u64" where
  "parse_cpu_stat input = find_counter input ''usage_usec''"

text \<open>The reader, over the contents of the files below its root.\<close>

definition cgroup_snapshot_of :: "(string \<Rightarrow> string option) \<Rightarrow> cgroup_snapshot" where
  "cgroup_snapshot_of contents =
     \<lparr> cg_memory_current_bytes = or_zero (Option.bind (contents ''memory.current'') (parse_u64 \<circ> trim)),
       cg_memory_max_bytes = Option.bind (contents ''memory.max'') parse_memory_max,
       cg_oom_kill = or_zero (map_option parse_memory_events (contents ''memory.events'')),
       cg_cpu_usage_usec = or_zero (map_option parse_cpu_stat (contents ''cpu.stat'')) \<rparr>"

section \<open>Percentages\<close>

lemma u64_rat:
  "(a :: u64) \<noteq> 0 \<Longrightarrow> 1 \<le> (of_nat (unat a) :: rat)" "(of_nat (unat (a :: u64)) :: rat) < 2 ^ 128"
proof -
  assume "a \<noteq> 0"
  then have "1 \<le> unat a" by (simp add: Suc_leI unat_gt_0)
  then have "(of_nat 1 :: rat) \<le> of_nat (unat a)" by (rule of_nat_mono)
  then show "1 \<le> (of_nat (unat a) :: rat)" by (simp only: of_nat_1)
next
  have "unat a < 2 ^ 64" using unsigned_less [of a, where 'a = nat] by simp
  then have "unat a < 2 ^ 128" by simp
  then have "(of_nat (unat a) :: rat) < of_nat (2 ^ 128)" by (simp only: of_nat_less_iff)
  then show "(of_nat (unat a) :: rat) < 2 ^ 128" by (simp only: of_nat_power of_nat_numeral)
qed

lemma f64_of_u64_mono:
  assumes "a \<le> b"
  shows "to_f64 (of_nat (unat (a :: u64))) \<le> to_f64 (of_nat (unat b))"
proof (cases "a = 0")
  case True
  have "0 \<le> to_f64 (of_nat (unat b))"
  proof (cases "b = 0")
    case False
    show ?thesis using round_float_binade [OF u64_rat(1) [OF False] u64_rat(2), of 52 1022]
      by (meson order_trans zero_le_numeral zero_le_power)
  qed simp
  with True show ?thesis by simp
next
  case False
  have "(of_nat (unat a) :: rat) \<le> of_nat (unat b)"
    by (rule of_nat_mono) (use assms in \<open>simp add: word_le_nat_alt\<close>)
  from round_float_mono [OF u64_rat(1) [OF False] this u64_rat(2)] show ?thesis .
qed

lemma percent_of_range:
  assumes "a \<le> b" "b \<noteq> 0"
  obtains x where "percent_of a b = Fin x" "0 \<le> x" "x \<le> 100"
proof -
  let ?a = "to_f64 (of_nat (unat a))" and ?b = "to_f64 (of_nat (unat b))"
  have le: "?a \<le> ?b" "0 \<le> ?a"
    using f64_of_u64_mono [OF assms(1)] f64_of_u64_mono [of 0 a] by simp_all
  have "0 \<le> ?a / ?b \<and> ?a / ?b \<le> 1" using le by (cases "?b = 0") (auto simp: divide_le_eq)
  then have q: "0 \<le> to_f64 (?a / ?b)" "to_f64 (?a / ?b) \<le> 1" using round_float_unit by blast+
  let ?x = "to_f64 (?a / ?b) * 100"
  have "0 \<le> to_f64 ?x \<and> to_f64 ?x \<le> 100"
  proof (cases "1 \<le> ?x")
    case True
    have "to_f64 ?x \<le> to_f64 100" using True q by (intro round_float_mono) simp_all
    moreover have "to_f64 100 = 100" using round_float_of_nat [of 100 52 1022] by simp
    moreover have "1 \<le> to_f64 ?x"
      using round_float_mono [of 1 ?x 52 1022] True q round_float_of_nat [of 1 52 1022] by simp
    ultimately show ?thesis by simp
  next
    case False
    then show ?thesis using round_float_unit [of ?x 52 1022] q by simp
  qed
  then show thesis using that by (auto simp: percent_of_def)
qed

abbreviation in_percent :: "float_val \<Rightarrow> bool" where
  "in_percent v \<equiv> float_ge v (Fin 0) \<and> float_ge (Fin 100) v"

lemma percent_of_in: "a \<le> b \<Longrightarrow> b \<noteq> 0 \<Longrightarrow> in_percent (percent_of a b)"
  by (auto elim!: percent_of_range)

lemma sat_sub_le: "sat_sub (a :: u64) b \<le> a"
  by (simp add: sat_sub_def word_le_nat_alt unat_sub split: if_splits)

text \<open>
  The figures the situations are judged by stay between 0 and 100: disk usage always, memory usage
  whenever the available memory does not exceed the total, processor utilisation whenever the idle
  time did not grow by more than the total; an unknown size or an empty interval reads as 0.
\<close>

theorem percentages_bounded:
  "in_percent (du_used_percent (from_blocks mount frsize blocks bavail))
   \<and> (mi_available m \<le> mi_total m \<longrightarrow> in_percent (used_percent m))
   \<and> (sat_sub (idle_ticks c) (idle_ticks prev) \<le> sat_sub (total_ticks c) (total_ticks prev) \<longrightarrow>
        in_percent (utilization_since c prev))
   \<and> used_percent (m\<lparr> mi_total := 0 \<rparr>) = Fin 0 \<and> utilization_since c c = Fin 0
   \<and> du_used_percent (from_blocks mount frsize 0 bavail) = Fin 0"
proof -
  have sub: "b \<le> a \<Longrightarrow> a - b \<le> (a :: u64)" for a b by (simp add: word_le_nat_alt unat_sub)
  have zero: "in_percent (Fin 0)" by simp
  have "in_percent (du_used_percent (from_blocks mount frsize blocks bavail))"
    using zero percent_of_in [OF sat_sub_le] by (simp add: from_blocks_def)
  moreover have "mi_available m \<le> mi_total m \<Longrightarrow> in_percent (used_percent m)"
    using zero percent_of_in [OF sub] by (simp add: used_percent_def)
  moreover have "sat_sub (idle_ticks c) (idle_ticks prev) \<le> sat_sub (total_ticks c) (total_ticks prev) \<Longrightarrow>
      in_percent (utilization_since c prev)"
    using zero percent_of_in [OF sub] by (simp add: utilization_since_def Let_def)
  moreover have "used_percent (m\<lparr> mi_total := 0 \<rparr>) = Fin 0" "utilization_since c c = Fin 0"
    "du_used_percent (from_blocks mount frsize 0 bavail) = Fin 0"
    by (simp_all add: used_percent_def utilization_since_def from_blocks_def sat_sub_def)
  ultimately show ?thesis by blast
qed

theorem percentages_bounded_witness:
  "in_percent (used_percent \<lparr> mi_total = 16384000, mi_free = 0, mi_available = 10240000, mi_buffers = 0, mi_cached = 0,
                              mi_swap_total = 0, mi_swap_free = 0 \<rparr>)"
proof -
  let ?m = "\<lparr> mi_total = 16384000, mi_free = 0, mi_available = 10240000, mi_buffers = 0, mi_cached = 0,
              mi_swap_total = 0, mi_swap_free = 0 \<rparr> :: mem_info"
  have "mi_available ?m \<le> mi_total ?m" by simp
  then show ?thesis using percentages_bounded [where m = ?m] by blast
qed

text \<open>
  Without the condition the figures leave the range: a text without \<open>MemAvailable\<close> reads as full
  memory, although the comment promises that a missing value never does, and when processor time is
  accounted downwards the difference wraps to a utilisation far above 100.
\<close>

lemma percent_of_same: "a \<noteq> 0 \<Longrightarrow> percent_of a a = Fin 100"
proof -
  assume "a \<noteq> 0"
  then have "1 \<le> to_f64 (of_nat (unat a))"
    using round_float_mono [of 1 "of_nat (unat a)" 52 1022] u64_rat [of a] round_float_of_nat [of 1 52 1022] by simp
  then have "to_f64 (of_nat (unat a)) / to_f64 (of_nat (unat a)) = 1" by (intro divide_self) linarith
  then show ?thesis
    using round_float_of_nat [of 1 52 1022] round_float_of_nat [of 100 52 1022] by (simp add: percent_of_def)
qed

theorem missing_available_reads_full:
  "mi_total m \<noteq> 0 \<Longrightarrow> used_percent (m\<lparr> mi_available := 0 \<rparr>) = Fin 100"
  by (simp add: used_percent_def percent_of_same)

section \<open>Reading back the memory file\<close>

lemma split_ws_not_Nil [simp]: "split_ws s \<noteq> []"
  by (induction s) (auto split: list.splits)

lemma split_ws_append_sep: "is_whitespace c \<Longrightarrow> split_ws (a @ c # b) = split_ws a @ split_ws b"
proof (induction a)
  case Nil
  then show ?case by (cases "split_ws b") auto
next
  case (Cons x xs)
  then show ?case by (cases "split_ws xs") auto
qed

lemma split_ws_id: "\<forall>c \<in> set w. \<not> is_whitespace c \<Longrightarrow> split_ws w = [w]"
  by (induction w) auto

lemma split_whitespace_sep: "is_whitespace c \<Longrightarrow> split_whitespace (a @ c # b) = split_whitespace a @ split_whitespace b"
  by (simp add: split_whitespace_def split_ws_append_sep)

lemma split_whitespace_word: "w \<noteq> [] \<Longrightarrow> \<forall>c \<in> set w. \<not> is_whitespace c \<Longrightarrow> split_whitespace w = [w]"
  by (simp add: split_whitespace_def split_ws_id)

lemma split_whitespace_pad: "split_whitespace (replicate n (CHR '' '') @ s) = split_whitespace s"
proof (induction n)
  case (Suc n)
  have "split_whitespace ([] @ CHR '' '' # (replicate n (CHR '' '') @ s)) = split_whitespace (replicate n (CHR '' '') @ s)"
    by (subst split_whitespace_sep) (simp_all add: is_whitespace_def split_whitespace_def)
  with Suc show ?case by simp
qed simp

lemma str_lines_unlines:
  "\<forall>l \<in> set ls. newline \<notin> set l \<and> CHR 0x0D \<notin> set l \<Longrightarrow> str_lines (concat (map (\<lambda>l. l @ [newline]) ls)) = ls"
proof -
  assume ok: "\<forall>l \<in> set ls. newline \<notin> set l \<and> CHR 0x0D \<notin> set l"
  have "split_on newline (concat (map (\<lambda>l. l @ [newline]) ls)) = ls @ [[]]"
    using ok by (induction ls) (simp_all add: split_on_append_sep split_on_id)
  moreover have "map strip_cr ls = ls"
    using ok by (auto simp: strip_cr_def intro!: map_idI) (metis last_in_set)
  ultimately show ?thesis by (simp add: str_lines_def)
qed

lemma digit_not_space: "is_ascii_digit c \<Longrightarrow> \<not> is_whitespace c"
  by (auto simp: is_ascii_digit_def is_whitespace_def)

lemma parse_u64_show: "parse_u64 (show_nat (unat v)) = Some v"
proof -
  obtain c cs where s: "show_nat (unat v) = c # cs" by (cases "show_nat (unat v)") auto
  have "unat v < 2 ^ 64" using unsigned_less [of v, where 'a = nat] by simp
  with hd_show_nat [OF s] parse_digits_show_nat [of "unat v"] s show ?thesis
    by (simp add: parse_u64_def parse_unsigned_def)
qed

text \<open>The kernel's rendering: a key, a colon, padding, the number and its unit, one entry per line.\<close>

fun meminfo_entry :: "string \<times> nat \<times> u64 \<Rightarrow> string" where
  "meminfo_entry (key, pad, v) = key @ '':'' @ replicate pad (CHR '' '') @ show_nat (unat v) @ '' kB''"

definition meminfo_text :: "(string \<times> nat \<times> u64) list \<Rightarrow> string" where
  "meminfo_text es = concat (map (\<lambda>e. meminfo_entry e @ [newline]) es)"

definition plain_key :: "string \<Rightarrow> bool" where
  "plain_key k \<longleftrightarrow> (\<forall>c \<in> set k. \<not> is_whitespace c \<and> c \<noteq> CHR '':'')"

lemma meminfo_line_entry: "plain_key k \<Longrightarrow> meminfo_line (meminfo_entry (k, pad, v)) = Some (k, v)"
proof -
  assume k: "plain_key k"
  have once: "split_once (CHR '':'') (meminfo_entry (k, pad, v)) = Some (k, replicate pad (CHR '' '') @ show_nat (unat v) @ '' kB'')"
    using k split_once_append [of "CHR '':''" k "replicate pad (CHR '' '') @ show_nat (unat v) @ '' kB''"]
    by (auto simp: plain_key_def)
  have digits: "\<forall>c \<in> set (show_nat (unat v)). \<not> is_whitespace c"
    using digits_show_nat [of "unat v"] digit_not_space by (auto simp: list_all_iff)
  have "split_whitespace (show_nat (unat v) @ CHR '' '' # ''kB'') = [show_nat (unat v), ''kB'']"
    using digits by (subst split_whitespace_sep) (simp_all add: split_whitespace_word is_whitespace_def)
  then have "split_whitespace (replicate pad (CHR '' '') @ show_nat (unat v) @ '' kB'') = [show_nat (unat v), ''kB'']"
    by (simp add: split_whitespace_pad)
  moreover have "trim k = k" using k by (intro trim_id) (simp add: plain_key_def)
  ultimately show ?thesis by (simp add: meminfo_line_def once parse_u64_show del: meminfo_entry.simps)
qed

text \<open>
  The memory file reads back: for every list of entries with distinct keys in the kernel's format,
  whatever the padding and whatever other keys there are, parsing the text gives exactly the values
  of the seven keys the sensor surfaces, 0 for one that is missing; only a text without any entry is
  an error.
\<close>

theorem meminfo_round_trip:
  assumes "\<forall>(k, pad, v) \<in> set es. plain_key k" and "distinct (map fst es)" and "es \<noteq> []"
  shows "meminfo_parse (meminfo_text es) =
     (let value = (\<lambda>key. case map_of (map (\<lambda>(k, pad, v). (k, v)) es) key of Some v \<Rightarrow> v | None \<Rightarrow> 0)
      in Inr \<lparr> mi_total = value ''MemTotal'', mi_free = value ''MemFree'', mi_available = value ''MemAvailable'',
               mi_buffers = value ''Buffers'', mi_cached = value ''Cached'', mi_swap_total = value ''SwapTotal'',
               mi_swap_free = value ''SwapFree'' \<rparr>)
   \<and> meminfo_parse [] = Inl (SensorParse ''host.meminfo'' ''no key/value lines found'')"
proof -
  let ?kv = "map (\<lambda>(k, pad, v). (k, v)) es"
  have digit: "c \<in> set (show_nat n) \<Longrightarrow> is_ascii_digit c" for c n
    using digits_show_nat [of n] by (auto simp: list_all_iff)
  have lines: "\<forall>l \<in> set (map meminfo_entry es). newline \<notin> set l \<and> CHR 0x0D \<notin> set l"
    using assms(1) by (fastforce simp: plain_key_def is_whitespace_def is_ascii_digit_def dest: digit)
  have "meminfo_text es = concat (map (\<lambda>l. l @ [newline]) (map meminfo_entry es))"
    by (simp add: meminfo_text_def comp_def)
  then have "str_lines (meminfo_text es) = map meminfo_entry es" using str_lines_unlines [OF lines] by simp
  moreover have "filter_map meminfo_line (map meminfo_entry es) = ?kv"
    using assms(1)
  proof (induction es)
    case (Cons e es)
    obtain k pad v where "e = (k, pad, v)" by (cases e)
    with Cons meminfo_line_entry [of k pad v] show ?case by (simp add: List.map_filter_simps del: meminfo_entry.simps)
  qed (simp add: List.map_filter_simps)
  ultimately have kv: "key_counters meminfo_line (meminfo_text es) = rev ?kv" by (simp add: key_counters_def)
  have "map fst ?kv = map fst es" by (simp add: case_prod_beta)
  then have dist: "distinct (map fst ?kv)" using assms(2) by (simp only:)
  have "map fst (rev ?kv) = rev (map fst ?kv)" by (simp only: rev_map)
  then have "distinct (map fst (rev ?kv))" using dist by (simp only: distinct_rev)
  from map_of_inject_set [OF this dist] have "map_of (rev ?kv) = map_of ?kv" by (simp only: set_rev)
  then show ?thesis
    using kv assms(3) by (simp add: meminfo_parse_def counter_def Let_def key_counters_def str_lines_def List.map_filter_simps)
qed

theorem meminfo_round_trip_witness:
  "map_sum id mi_total (meminfo_parse (meminfo_text [(''MemTotal'', 7, 16384000), (''MemAvailable'', 3, 10240000)]))
     = Inr 16384000"
  using meminfo_round_trip [of "[(''MemTotal'', 7, 16384000), (''MemAvailable'', 3, 10240000)]"]
  by (simp add: plain_key_def is_whitespace_def)

lemma round_float_double:
  "1 \<le> x \<Longrightarrow> x < 2 ^ 128 \<Longrightarrow> x / 2 \<le> round_float bits depth x \<and> round_float bits depth x \<le> 2 * x"
  using round_float_binade [of x bits depth] binade_bounds [of 0 x 127] by auto

theorem utilization_wraps:
  "let prev = \<lparr> ct_user = 10, ct_nice = 0, ct_system = 0, ct_idle = 0, ct_iowait = 0, ct_irq = 0, ct_softirq = 0, ct_steal = 0 \<rparr>;
       later = prev\<lparr> ct_user := 9, ct_idle := 5 \<rparr>
   in \<not> float_ge (Fin 100) (utilization_since later prev)"
proof -
  let ?a = "to_f64 18446744073709551615"
  have top_word: "(unsigned (- 1 :: u64) :: rat) = 18446744073709551615"
    by (subst of_nat_unat [symmetric], subst unat_minus_one_max) simp
  have four: "to_f64 4 = 4" using round_float_of_nat [of 4 52 1022] by simp
  have a: "9223372036854775807 \<le> ?a" "?a \<le> 36893488147419103230"
    using round_float_double [of 18446744073709551615 52 1022] by simp_all
  have q: "1 \<le> to_f64 (?a / 4)" "to_f64 (?a / 4) \<le> 36893488147419103230"
    using round_float_double [of "?a / 4" 52 1022] a by auto
  have "5 \<le> ?a / 4" using a by simp
  then have "to_f64 (?a / 4) \<ge> 5 / 2" using round_float_double [of "?a / 4" 52 1022] a by auto
  then have "to_f64 (to_f64 (?a / 4) * 100) \<ge> 125"
    using round_float_double [of "to_f64 (?a / 4) * 100" 52 1022] q by auto
  then show ?thesis
    by (simp add: utilization_since_def total_ticks_def idle_ticks_def sat_sub_def percent_of_def four top_word Let_def)
qed

end
