(* ===== verification/Redaction.thy ===== *)
theory Redaction
  imports Json
begin

text \<open>
  The redactor of ledger uploads (\<open>argus-cloud\<close>, \<open>mapping/redact.rs\<close>): secret-named object members,
  authorization headers, secret assignments and high-entropy runs. The binary logarithm of
  \<open>f64\<close>, whose last digits the platform decides, is a parameter; the sum of the entropy is rounded
  at every step as the source rounds it.
\<close>

section \<open>Definitions\<close>

definition LEDGER_REDACTED :: string where
  "LEDGER_REDACTED = ''[redacted]''"

definition SECRET_KEY_MARKERS :: "string list" where
  "SECRET_KEY_MARKERS =
     [''token'', ''secret'', ''password'', ''passwd'', ''authorization'', ''credential'', ''api_key'', ''apikey'',
      ''private_key'', ''privatekey'', ''cookie'', ''session_key'', ''bearer'']"

definition ENTROPY_RUN_MIN :: nat where
  "ENTROPY_RUN_MIN = 24"

definition ENTROPY_FLOOR :: rat where
  "ENTROPY_FLOOR = 17 / 4"

definition is_secret_key :: "string \<Rightarrow> bool" where
  "is_secret_key key = list_ex (\<lambda>marker. contains_str marker (map ascii_lower key)) SECRET_KEY_MARKERS"

text \<open>\<open>str::find\<close> with a string and with a set of characters.\<close>

fun find_str :: "string \<Rightarrow> string \<Rightarrow> nat option" where
  "find_str p [] = (if p = [] then Some 0 else None)"
| "find_str p (c # cs) = (if starts_with p (c # cs) then Some 0 else map_option Suc (find_str p cs))"

fun find_char :: "char set \<Rightarrow> string \<Rightarrow> nat option" where
  "find_char S [] = None"
| "find_char S (c # cs) = (if c \<in> S then Some 0 else map_option Suc (find_char S cs))"

text \<open>Redacts \<open>Authorization: \<dots>\<close> to the end of its line.\<close>

function redact_authorization_headers :: "string \<Rightarrow> string" where
  "redact_authorization_headers rest =
     (case find_str ''authorization'' (map ascii_lower rest) of
        None \<Rightarrow> rest
      | Some start \<Rightarrow>
          let before = take start rest; after = drop start rest
          in case find_char {CHR '':''} after of
               None \<Rightarrow> before @ after
             | Some colon \<Rightarrow>
                 let v = drop (colon + 1) after;
                     line_end = (case find_char {CHR 0x0A} v of Some k \<Rightarrow> colon + 1 + k | None \<Rightarrow> length after)
                 in if trim v = [] then before @ after
                    else before @ take colon after @ '': '' @ LEDGER_REDACTED
                           @ (if line_end < length after
                              then CHR 0x0A # redact_authorization_headers (drop (line_end + 1) after) else []))"
  by pat_completeness auto
termination by (relation "measure length") auto

text \<open>A line with its key, separator and value at the first \<open>=\<close> or \<open>:\<close>.\<close>

definition assignment_of :: "string \<Rightarrow> (string \<times> char \<times> string) option" where
  "assignment_of line =
     (let trimmed = dropWhile is_whitespace line
      in map_option (\<lambda>i. (trim (take i trimmed), trimmed ! i, trim (drop (i + 1) trimmed)))
           (find_char {CHR ''='', CHR '':''} trimmed))"

definition secret_assignment :: "string \<Rightarrow> (string \<times> char \<times> string) option" where
  "secret_assignment line =
     (case assignment_of line of
        None \<Rightarrow> None
      | Some (key, sep, v) \<Rightarrow>
          if key \<noteq> [] \<and> CHR '' '' \<notin> set key \<and> is_secret_key key \<and> v \<noteq> [] then Some (key, sep, v) else None)"

definition redact_line :: "string \<Rightarrow> string" where
  "redact_line line =
     (case secret_assignment line of
        None \<Rightarrow> line
      | Some (key, sep, v) \<Rightarrow>
          if starts_with LEDGER_REDACTED v then line
          else takeWhile is_whitespace line @ key @ [if sep = CHR ''='' then CHR ''='' else CHR '':''] @ LEDGER_REDACTED)"

fun join_with :: "char \<Rightarrow> string list \<Rightarrow> string" where
  "join_with c [] = []"
| "join_with c [w] = w"
| "join_with c (w # ws) = w @ c # join_with c ws"

definition redact_env_assignments :: "string \<Rightarrow> string" where
  "redact_env_assignments text = join_with (CHR 0x0A) (map redact_line (split_on (CHR 0x0A) text))"

text \<open>The count of a byte value over the length, summed over the byte values that occur, in their order.\<close>

definition shannon_entropy :: "(rat \<Rightarrow> rat) \<Rightarrow> string \<Rightarrow> rat" where
  "shannon_entropy lg text =
     foldl (\<lambda>acc n. let p = to_f64 (of_nat (length (filter (\<lambda>c. code c = n) text)) / of_nat (length text))
                    in to_f64 (acc + to_f64 (p * - lg p))) 0
       (filter (\<lambda>n. n \<in> set (map code text)) [0..<256])"

definition is_run_char :: "char \<Rightarrow> bool" where
  "is_run_char c \<longleftrightarrow> 97 \<le> code c \<and> code c \<le> 122 \<or> 65 \<le> code c \<and> code c \<le> 90 \<or> is_ascii_digit c
     \<or> c \<in> set ''+/=_-.''"

definition looks_random :: "(rat \<Rightarrow> rat) \<Rightarrow> string \<Rightarrow> bool" where
  "looks_random lg run \<longleftrightarrow> ENTROPY_RUN_MIN \<le> length run \<and> ENTROPY_FLOOR \<le> shannon_entropy lg run"

definition flush_run :: "(rat \<Rightarrow> rat) \<Rightarrow> string \<Rightarrow> string" where
  "flush_run lg run = (if looks_random lg run then LEDGER_REDACTED else run)"

fun entropy_loop :: "(rat \<Rightarrow> rat) \<Rightarrow> string \<Rightarrow> string \<Rightarrow> string" where
  "entropy_loop lg run [] = flush_run lg run"
| "entropy_loop lg run (c # cs) =
     (if is_run_char c then entropy_loop lg (run @ [c]) cs else flush_run lg run @ c # entropy_loop lg [] cs)"

definition redact_high_entropy_runs :: "(rat \<Rightarrow> rat) \<Rightarrow> string \<Rightarrow> string" where
  "redact_high_entropy_runs lg text = entropy_loop lg [] text"

definition redact_text :: "(rat \<Rightarrow> rat) \<Rightarrow> string \<Rightarrow> string" where
  "redact_text lg text = redact_high_entropy_runs lg (redact_env_assignments (redact_authorization_headers text))"

fun redact_json :: "(rat \<Rightarrow> rat) \<Rightarrow> json \<Rightarrow> json" where
  "redact_json lg (JObj m) =
     JObj (map (\<lambda>(key, v). (key, if is_secret_key key then JStr LEDGER_REDACTED else redact_json lg v)) m)"
| "redact_json lg (JArr items) = JArr (map (redact_json lg) items)"
| "redact_json lg (JStr text) = JStr (redact_text lg text)"
| "redact_json lg v = v"

declare redact_authorization_headers.simps [simp del]

section \<open>Runs\<close>

text \<open>The maximal runs of credential characters of a text.\<close>

fun runs_from :: "string \<Rightarrow> string \<Rightarrow> string list" where
  "runs_from run [] = [run]"
| "runs_from run (c # cs) = (if is_run_char c then runs_from (run @ [c]) cs else run # runs_from [] cs)"

lemma runs_from_run: "list_all is_run_char xs \<Longrightarrow> runs_from run (xs @ ys) = runs_from (run @ xs) ys"
  by (induction xs arbitrary: run) auto

lemma redacted_runs: "runs_from [] (LEDGER_REDACTED @ ys) = [] # ''redacted'' # runs_from [] ys"
  by (simp add: LEDGER_REDACTED_def is_run_char_def is_ascii_digit_def)

lemma short_not_random: "length r < 24 \<Longrightarrow> \<not> looks_random lg r"
  by (simp add: looks_random_def ENTROPY_RUN_MIN_def)

lemma flush_run_runs:
  assumes "list_all is_run_char run" and "ys = [] \<or> \<not> is_run_char (hd ys)"
    and "list_all (\<lambda>r. \<not> looks_random lg r) (runs_from [] (tl ys))"
  shows "list_all (\<lambda>r. \<not> looks_random lg r) (runs_from [] (flush_run lg run @ ys))"
proof (cases "looks_random lg run")
  case True
  then have "flush_run lg run = LEDGER_REDACTED" by (simp add: flush_run_def)
  with assms(2,3) short_not_random [of "''redacted''"] short_not_random [of "[]"] show ?thesis
    using redacted_runs [of "[]"] by (cases ys) (simp_all add: redacted_runs)
next
  case False
  with assms short_not_random [of "[]"] show ?thesis
    using runs_from_run [of run "[]" "[]"] by (cases ys) (simp_all add: flush_run_def runs_from_run)
qed

lemma entropy_loop_runs:
  "list_all is_run_char run \<Longrightarrow> list_all (\<lambda>r. \<not> looks_random lg r) (runs_from [] (entropy_loop lg run xs))"
proof (induction xs arbitrary: run)
  case Nil
  then show ?case using flush_run_runs [of run "[]"] short_not_random [of "[]"] by simp
next
  case (Cons c xs)
  show ?case
  proof (cases "is_run_char c")
    case True
    with Cons show ?thesis by simp
  next
    case False
    with Cons flush_run_runs [of run "c # entropy_loop lg [] xs" lg] show ?thesis by simp
  qed
qed

section \<open>Lines\<close>

lemma split_join:
  assumes "ws \<noteq> []" and "\<forall>w \<in> set ws. c \<notin> set w"
  shows "split_on c (join_with c ws) = ws"
  using assms
proof (induction ws rule: join_with.induct)
  case (2 c w)
  then show ?case by (simp add: split_on_id)
next
  case (3 c w v vs)
  then show ?case by (simp add: split_on_append_sep split_on_id)
qed simp

lemma find_char_Some:
  "find_char S xs = Some i \<Longrightarrow> i < length xs \<and> xs ! i \<in> S \<and> set (take i xs) \<inter> S = {}"
  by (induction xs arbitrary: i) (auto split: if_splits)

lemma find_char_append: "set xs \<inter> S = {} \<Longrightarrow> find_char S (xs @ ys) = map_option (\<lambda>i. i + length xs) (find_char S ys)"
  by (induction xs) (auto simp: option.map_comp comp_def option.map_ident)

lemma trim_subset: "set (trim s) \<subseteq> set s"
  by (auto simp: trim_def dest!: set_dropWhileD)

lemma trim_head: "trim s = c # cs \<Longrightarrow> \<not> is_whitespace c"
proof -
  assume trimmed: "trim s = c # cs"
  let ?d = "dropWhile is_whitespace s"
  have suffix: "\<exists>zs. ?d = trim s @ zs"
    unfolding trim_def by (metis rev_append rev_rev_ident takeWhile_dropWhile_id)
  with trimmed obtain zs where "?d = c # cs @ zs" by auto
  then show ?thesis by (simp add: dropWhile_eq_Cons_conv)
qed

lemma trim_trim: "trim (trim s) = trim s"
proof -
  let ?d = "dropWhile is_whitespace s"
  have "dropWhile is_whitespace (trim s) = trim s"
    by (cases "trim s") (auto dest: trim_head)
  moreover have "rev (dropWhile is_whitespace (rev (trim s))) = trim s"
    by (simp add: trim_def)
  ultimately show ?thesis by (simp add: trim_def [of "trim s"])
qed

lemma secret_assignment_key:
  assumes "secret_assignment line = Some (key, sep, v)"
  shows "key \<noteq> []" "\<not> is_whitespace (hd key)" "trim key = key" "set key \<inter> {CHR ''='', CHR '':''} = {}"
    "set key \<subseteq> set line" "sep \<in> {CHR ''='', CHR '':''}" "CHR '' '' \<notin> set key" "is_secret_key key"
proof -
  let ?t = "dropWhile is_whitespace line"
  from assms obtain i where i: "find_char {CHR ''='', CHR '':''} ?t = Some i"
    and key: "key = trim (take i ?t)" and sep: "sep = ?t ! i"
    and ok: "key \<noteq> []" "CHR '' '' \<notin> set key" "is_secret_key key"
    by (auto simp: secret_assignment_def assignment_of_def Let_def split: option.splits if_splits)
  show "key \<noteq> []" "CHR '' '' \<notin> set key" "is_secret_key key" by (fact ok)+
  show "\<not> is_whitespace (hd key)" using ok(1) key trim_head [of "take i ?t" "hd key" "tl key"] by simp
  show "trim key = key" by (simp add: key trim_trim)
  show "set key \<inter> {CHR ''='', CHR '':''} = {}" "sep \<in> {CHR ''='', CHR '':''}"
    using find_char_Some [OF i] trim_subset [of "take i ?t"] by (auto simp: key sep)
  show "set key \<subseteq> set line"
    using trim_subset [of "take i ?t"] set_take_subset [of i ?t] set_dropWhileD [of _ is_whitespace line]
    by (auto simp: key)
qed

lemma trim_redacted [simp]: "trim LEDGER_REDACTED = LEDGER_REDACTED"
  by (rule trim_id) (simp add: LEDGER_REDACTED_def is_whitespace_def)

lemma assignment_of_redacted:
  assumes "secret_assignment line = Some (key, sep, v)" and "list_all is_whitespace pre"
  shows "assignment_of (pre @ key @ sep # LEDGER_REDACTED) = Some (key, sep, LEDGER_REDACTED)"
proof -
  note k = secret_assignment_key [OF assms(1)]
  have "dropWhile is_whitespace (pre @ key @ sep # LEDGER_REDACTED) = key @ sep # LEDGER_REDACTED"
    using k(1,2) assms(2) by (cases key) (auto simp: list_all_iff dropWhile_append2)
  moreover have "find_char {CHR ''='', CHR '':''} (key @ sep # LEDGER_REDACTED) = Some (length key)"
    using k(4,6) by (subst find_char_append) auto
  ultimately show ?thesis by (simp add: assignment_of_def k(3))
qed

lemma redact_line_hides:
  assumes "secret_assignment (redact_line line) = Some (key, sep, v)"
  shows "starts_with LEDGER_REDACTED v"
proof (cases "secret_assignment line")
  case None
  with assms show ?thesis by (simp add: redact_line_def)
next
  case (Some t)
  obtain k s w where t: "secret_assignment line = Some (k, s, w)" using Some by (cases t) auto
  show ?thesis
  proof (cases "starts_with LEDGER_REDACTED w")
    case True
    with t assms show ?thesis by (simp add: redact_line_def)
  next
    case False
    have "(if s = CHR ''='' then CHR ''='' else CHR '':'') = s" using secret_assignment_key(6) [OF t] by auto
    with False t have "redact_line line = takeWhile is_whitespace line @ k @ s # LEDGER_REDACTED"
      by (simp add: redact_line_def)
    moreover have "list_all is_whitespace (takeWhile is_whitespace line)"
      by (auto simp: list_all_iff dest: set_takeWhileD)
    ultimately show ?thesis using assignment_of_redacted [OF t] assms
      by (auto simp: secret_assignment_def starts_with_def split: if_splits)
  qed
qed

lemma redact_line_newline: "CHR 0x0A \<notin> set line \<Longrightarrow> CHR 0x0A \<notin> set (redact_line line)"
  using secret_assignment_key(5,6) [of line]
  by (auto simp: redact_line_def LEDGER_REDACTED_def dest!: set_takeWhileD split: option.splits)

lemma redacted_lines:
  "split_on (CHR 0x0A) (redact_env_assignments text) = map redact_line (split_on (CHR 0x0A) text)"
  unfolding redact_env_assignments_def
  by (rule split_join) (auto dest!: split_on_no_sep redact_line_newline)

section \<open>Headers\<close>

lemma find_str_length: "find_str p xs = Some i \<Longrightarrow> i + length p \<le> length xs"
proof (induction xs arbitrary: i)
  case (Cons x xs)
  have "starts_with p (x # xs) \<Longrightarrow> length p \<le> length (x # xs)"
    unfolding starts_with_def by (metis length_take min.cobounded1)
  with Cons show ?case by (force split: if_splits)
qed (simp split: if_splits)

lemma find_str_append: "find_str p xs = Some i \<Longrightarrow> find_str p (xs @ ys) = Some i"
proof (induction xs arbitrary: i)
  case Nil
  then show ?case by (cases ys) (auto simp: starts_with_def split: if_splits)
next
  case (Cons x xs)
  have "length p \<le> length (x # xs)" using find_str_length [OF Cons.prems] by simp
  then have "starts_with p ((x # xs) @ ys) \<longleftrightarrow> starts_with p (x # xs)"
    unfolding starts_with_def by (subst take_append) simp
  with Cons show ?case by (auto split: if_splits)
qed

lemma header_no_colon: "CHR '':'' \<notin> set ''authorization''"
  by simp

lemma header_redacted:
  assumes "map ascii_lower h = ''authorization''" and "find_str ''authorization'' (map ascii_lower (pre @ h)) = Some (length pre)"
    and "trim v \<noteq> []" and "CHR 0x0A \<notin> set v"
  shows "redact_authorization_headers (pre @ h @ CHR '':'' # v) = pre @ h @ '': '' @ LEDGER_REDACTED"
proof -
  have "ascii_lower (CHR '':'') = CHR '':''" by (simp add: ascii_lower_def)
  with assms(1) have nocolon: "CHR '':'' \<notin> set h" using imageI [of "CHR '':''" "set h" ascii_lower]
    by (metis (no_types, lifting) list.set_map header_no_colon)
  have colon: "find_char {CHR '':''} (h @ CHR '':'' # v) = Some (length h)"
    using nocolon by (subst find_char_append) auto
  have start: "find_str ''authorization'' (map ascii_lower (pre @ h @ CHR '':'' # v)) = Some (length pre)"
    using find_str_append [OF assms(2), of "map ascii_lower (CHR '':'' # v)"] by simp
  have "find_char {CHR 0x0A} v = None" using assms(4) by (induction v) auto
  with start colon assms(3) show ?thesis
    by (subst redact_authorization_headers.simps) (simp add: Let_def)
qed

section \<open>Properties\<close>

text \<open>The values that stand under a secret-named member of an object, at any depth.\<close>

fun secret_members :: "json \<Rightarrow> json list" where
  "secret_members (JObj m) = concat (map (\<lambda>(key, v). if is_secret_key key then [v] else secret_members v) m)"
| "secret_members (JArr items) = concat (map secret_members items)"
| "secret_members _ = []"

lemma members_redacted: "v \<in> set (secret_members (redact_json lg j)) \<Longrightarrow> v = JStr LEDGER_REDACTED"
  by (induction lg j rule: redact_json.induct) (auto split: if_splits)

lemma redacted_not_random: "list_all (\<lambda>r. \<not> looks_random lg r) (runs_from [] LEDGER_REDACTED)"
  using redacted_runs [of "[]"] short_not_random [of "''redacted''"] short_not_random [of "[]"] by simp

lemma redact_text_runs: "list_all (\<lambda>r. \<not> looks_random lg r) (runs_from [] (redact_text lg text))"
  by (simp add: redact_text_def redact_high_entropy_runs_def entropy_loop_runs)

lemma strings_redacted:
  "s \<in> set (json_strings (redact_json lg j)) \<Longrightarrow> list_all (\<lambda>r. \<not> looks_random lg r) (runs_from [] s)"
  by (induction lg j rule: redact_json.induct) (auto simp: redact_text_runs redacted_not_random split: if_splits)



text \<open>
  The assignment pass looks at the first separator of a line only: a secret assigned later on the
  line passes, although the pass is documented to redact such pairs anywhere in the text.
\<close>

theorem inline_assignment_passes:
  "redact_text lg ''curl -d TOKEN=hunter2'' = ''curl -d TOKEN=hunter2'' \<and> is_secret_key ''TOKEN''"
proof -
  have "find_str ''authorization'' (map ascii_lower ''curl -d TOKEN=hunter2'') = None"
    by (simp add: starts_with_def ascii_lower_def char_of_def bit_0)
  then have "redact_authorization_headers ''curl -d TOKEN=hunter2'' = ''curl -d TOKEN=hunter2''"
    by (subst redact_authorization_headers.simps) simp
  moreover have "redact_env_assignments ''curl -d TOKEN=hunter2'' = ''curl -d TOKEN=hunter2''"
    by (simp add: redact_env_assignments_def redact_line_def secret_assignment_def assignment_of_def trim_def is_whitespace_def)
  moreover have "redact_high_entropy_runs lg ''curl -d TOKEN=hunter2'' = ''curl -d TOKEN=hunter2''"
    by (simp add: redact_high_entropy_runs_def is_run_char_def is_ascii_digit_def flush_run_def short_not_random)
  moreover have "is_secret_key ''TOKEN''"
    by (simp add: is_secret_key_def SECRET_KEY_MARKERS_def starts_with_def ascii_lower_def char_of_def bit_0)
  ultimately show ?thesis by (simp add: redact_text_def)
qed

end
