(* ===== verification/Repository.thy ===== *)
theory Repository
  imports Graduated_Autonomy Runbook_Manager "HOL-Library.Sublist"
begin

text \<open>
  The domain repository (\<open>argus-state\<close>, \<open>memory.rs\<close>): the observations, audit events, reasoning
  history, memory tables and the append-only action ledger the daemon keeps, with the domain types
  they hold (\<open>observation.rs\<close>, \<open>event.rs\<close>, \<open>health.rs\<close>, \<open>ledger.rs\<close>). No code panics while it
  holds the lock, so the poisoned case does not arise. Two interfaces cover the tables: rows keyed
  by identity where a later row supersedes, and logs where the first row stays.
\<close>

section \<open>Domain records\<close>

datatype severity = Info | Warning | SevError

definition event_type_new :: "string \<Rightarrow> string option" where
  "event_type_new path = (if is_dotted_path path then Some path else None)"

record domain_event =
  de_id :: uuid
  de_type :: string
  de_timestamp :: instant
  de_source :: string
  de_subject :: string
  de_severity :: severity
  de_correlation :: "uuid option"
  de_causation :: "uuid option"
  de_payload :: json

datatype observed_value = ObsText string | ObsNumber float_val | ObsBool bool

record provenance =
  pv_source :: string
  pv_method :: string
  pv_collected_at :: instant

record observation =
  ob_id :: uuid
  ob_source :: string
  ob_subject :: resource_id
  ob_attribute :: string
  ob_value :: observed_value
  ob_confidence :: float_val
  ob_provenance :: provenance
  ob_observed_at :: instant

definition observation_new ::
  "uuid \<Rightarrow> string \<Rightarrow> resource_id \<Rightarrow> string \<Rightarrow> observed_value \<Rightarrow> float_val \<Rightarrow> provenance \<Rightarrow> instant \<Rightarrow>
   float_val + observation" where
  "observation_new i source subject attribute v confidence prov observed_at =
     (if float_ge confidence (Fin 0) \<and> float_ge (Fin 1) confidence
      then Inr \<lparr> ob_id = i, ob_source = source, ob_subject = subject, ob_attribute = attribute, ob_value = v,
                 ob_confidence = confidence, ob_provenance = prov, ob_observed_at = observed_at \<rparr>
      else Inl confidence)"

datatype health_state = HealthReady | HealthDegraded | HealthNotReady

record health_status =
  hs_state :: health_state
  hs_reason :: "string option"
  hs_checked_at :: instant

definition health_ready :: "instant \<Rightarrow> health_status" where
  "health_ready now = \<lparr> hs_state = HealthReady, hs_reason = None, hs_checked_at = now \<rparr>"

definition health_degraded :: "string \<Rightarrow> instant \<Rightarrow> health_status" where
  "health_degraded reason now = \<lparr> hs_state = HealthDegraded, hs_reason = Some reason, hs_checked_at = now \<rparr>"

definition health_not_ready :: "instant \<Rightarrow> health_status" where
  "health_not_ready now = \<lparr> hs_state = HealthNotReady, hs_reason = None, hs_checked_at = now \<rparr>"

datatype hypothesis_status = HypOpen | HypConfirmed | HypRejected

record hypothesis =
  hy_statement :: string
  hy_confidence :: float_val
  hy_supporting :: "resource_id list"
  hy_status :: hypothesis_status

record ledger_action =
  la_event_id :: uuid
  la_correlation_id :: uuid
  la_causation_id :: "uuid option"
  la_cycle_id :: "uuid option"
  la_plan_id :: "uuid option"
  la_kind :: string
  la_target :: "string option"
  la_args :: json
  la_verdict :: string
  la_policy_id :: "string option"
  la_outcome :: string
  la_duration_ms :: "u64 option"
  la_validation :: "json option"
  la_occurred_at :: instant

record ledger_trace =
  lt_trace_id :: uuid
  lt_cycle_id :: "uuid option"
  lt_plan_id :: "uuid option"
  lt_evidence :: "string list"
  lt_decision :: "string option"
  lt_objective :: "string option"
  lt_steps :: "string list"
  lt_outcome :: "string option"
  lt_occurred_at :: instant

record usage_record =
  ur_cycle_id :: "uuid option"
  ur_model :: "string option"
  ur_prompt_tokens :: "u64 option"
  ur_completion_tokens :: "u64 option"
  ur_total_tokens :: "u64 option"
  ur_duration_ms :: "u64 option"
  ur_occurred_at :: instant

record action_event_filter =
  af_since :: "instant option"
  af_kind :: "string option"
  af_status :: "string option"
  af_limit :: nat

definition DEFAULT_ACTION_EVENT_LIMIT :: nat where
  "DEFAULT_ACTION_EVENT_LIMIT = 200"

section \<open>The repository\<close>

record domain_repository =
  rp_environment :: "uuid option"
  rp_observations :: "observation list"
  rp_audit_events :: "domain_event list"
  rp_health :: "health_status option"
  rp_hypotheses :: "(uuid \<times> hypothesis) list"
  rp_plans :: "(uuid \<times> plan) list"
  rp_executions :: "(uuid \<times> execution) list"
  rp_episodes :: "(uuid \<times> episode) list"
  rp_facts :: "fact list"
  rp_procedures :: "(uuid \<times> procedure_record) list"
  rp_action_events :: "ledger_action list"
  rp_brain_traces :: "ledger_trace list"
  rp_token_usage :: "usage_record list"
  rp_autonomy :: "autonomy_state option"
  rp_runbooks :: "delivered_runbook list"

definition repo_new :: domain_repository where
  "repo_new =
     \<lparr> rp_environment = None, rp_observations = [], rp_audit_events = [], rp_health = None, rp_hypotheses = [],
       rp_plans = [], rp_executions = [], rp_episodes = [], rp_facts = [], rp_procedures = [], rp_action_events = [],
       rp_brain_traces = [], rp_token_usage = [], rp_autonomy = None, rp_runbooks = [] \<rparr>"

definition save_environment :: "uuid \<Rightarrow> domain_repository \<Rightarrow> domain_repository" where
  "save_environment i r = r\<lparr> rp_environment := Some i \<rparr>"

definition put_observation :: "observation \<Rightarrow> domain_repository \<Rightarrow> domain_repository" where
  "put_observation o1 r = r\<lparr> rp_observations := rp_observations r @ [o1] \<rparr>"

definition put_audit_event :: "domain_event \<Rightarrow> domain_repository \<Rightarrow> domain_repository" where
  "put_audit_event e r = r\<lparr> rp_audit_events := rp_audit_events r @ [e] \<rparr>"

definition put_hypothesis :: "uuid \<Rightarrow> hypothesis \<Rightarrow> domain_repository \<Rightarrow> domain_repository" where
  "put_hypothesis i h r = r\<lparr> rp_hypotheses := rp_hypotheses r @ [(i, h)] \<rparr>"

definition put_plan :: "uuid \<Rightarrow> plan \<Rightarrow> domain_repository \<Rightarrow> domain_repository" where
  "put_plan i p r = r\<lparr> rp_plans := rp_plans r @ [(i, p)] \<rparr>"

definition put_execution :: "uuid \<Rightarrow> execution \<Rightarrow> domain_repository \<Rightarrow> domain_repository" where
  "put_execution i e r = r\<lparr> rp_executions := rp_executions r @ [(i, e)] \<rparr>"

definition put_episode :: "uuid \<Rightarrow> episode \<Rightarrow> domain_repository \<Rightarrow> domain_repository" where
  "put_episode i e r =
     r\<lparr> rp_episodes := filter (\<lambda>(existing, _). existing \<noteq> i) (rp_episodes r) @ [(i, e)] \<rparr>"

definition put_fact :: "fact \<Rightarrow> domain_repository \<Rightarrow> domain_repository" where
  "put_fact f r =
     r\<lparr> rp_facts := filter (\<lambda>g. \<not> (fa_subject g = fa_subject f \<and> fa_attribute g = fa_attribute f)) (rp_facts r) @ [f] \<rparr>"

definition put_procedure :: "uuid \<Rightarrow> procedure_record \<Rightarrow> domain_repository \<Rightarrow> domain_repository" where
  "put_procedure i p r =
     r\<lparr> rp_procedures := filter (\<lambda>(existing, _). existing \<noteq> i) (rp_procedures r) @ [(i, p)] \<rparr>"

definition save_health :: "health_status \<Rightarrow> domain_repository \<Rightarrow> domain_repository" where
  "save_health h r = r\<lparr> rp_health := Some h \<rparr>"

definition put_action_event :: "ledger_action \<Rightarrow> domain_repository \<Rightarrow> domain_repository" where
  "put_action_event e r =
     (if list_ex (\<lambda>x. la_event_id x = la_event_id e) (rp_action_events r) then r
      else r\<lparr> rp_action_events := rp_action_events r @ [e] \<rparr>)"

definition row_limit :: "nat \<Rightarrow> nat" where
  "row_limit n = (if n = 0 then DEFAULT_ACTION_EVENT_LIMIT else n)"

definition newest_first :: "nat \<Rightarrow> ('a \<Rightarrow> instant) \<Rightarrow> 'a list \<Rightarrow> 'a list" where
  "newest_first limit occurred rows = take (row_limit limit) (sort_key (\<lambda>row. - occurred row) rows)"

definition passes :: "'a option \<Rightarrow> ('a \<Rightarrow> bool) \<Rightarrow> bool" where
  "passes wanted test = (case wanted of None \<Rightarrow> True | Some v \<Rightarrow> test v)"

definition filter_admits :: "action_event_filter \<Rightarrow> ledger_action \<Rightarrow> bool" where
  "filter_admits f e \<longleftrightarrow> passes (af_since f) (\<lambda>since. since \<le> la_occurred_at e)
     \<and> passes (af_kind f) (\<lambda>kind. la_kind e = kind) \<and> passes (af_status f) (\<lambda>status. la_outcome e = status)"

definition list_action_events :: "action_event_filter \<Rightarrow> domain_repository \<Rightarrow> ledger_action list" where
  "list_action_events f r = newest_first (af_limit f) la_occurred_at (filter (filter_admits f) (rp_action_events r))"

definition put_brain_trace :: "ledger_trace \<Rightarrow> domain_repository \<Rightarrow> domain_repository" where
  "put_brain_trace t r =
     (if list_ex (\<lambda>x. lt_trace_id x = lt_trace_id t) (rp_brain_traces r) then r
      else r\<lparr> rp_brain_traces := rp_brain_traces r @ [t] \<rparr>)"

definition list_brain_traces :: "uuid option \<Rightarrow> nat \<Rightarrow> domain_repository \<Rightarrow> ledger_trace list" where
  "list_brain_traces cycle limit r =
     newest_first limit lt_occurred_at (filter (\<lambda>t. lt_cycle_id t = cycle \<or> cycle = None) (rp_brain_traces r))"

definition put_token_usage :: "usage_record \<Rightarrow> domain_repository \<Rightarrow> domain_repository" where
  "put_token_usage u r = r\<lparr> rp_token_usage := rp_token_usage r @ [u] \<rparr>"

definition list_token_usage :: "nat \<Rightarrow> domain_repository \<Rightarrow> usage_record list" where
  "list_token_usage limit r = newest_first limit ur_occurred_at (rp_token_usage r)"

definition retain_ledger :: "instant \<Rightarrow> int \<Rightarrow> domain_repository \<Rightarrow> domain_repository" where
  "retain_ledger now days r =
     (let cutoff = now - seconds (86400 * max days 0)
      in r\<lparr> rp_action_events := filter (\<lambda>e. cutoff \<le> la_occurred_at e) (rp_action_events r),
            rp_brain_traces := filter (\<lambda>t. cutoff \<le> lt_occurred_at t) (rp_brain_traces r),
            rp_token_usage := filter (\<lambda>u. cutoff \<le> ur_occurred_at u) (rp_token_usage r) \<rparr>)"

definition retain_observations :: "int \<Rightarrow> domain_repository \<Rightarrow> domain_repository" where
  "retain_observations max_rows r =
     (let m = nat (max max_rows 0); n = length (rp_observations r)
      in if m < n then r\<lparr> rp_observations := drop (n - m) (rp_observations r) \<rparr> else r)"

definition put_autonomy_state :: "autonomy_state \<Rightarrow> domain_repository \<Rightarrow> domain_repository" where
  "put_autonomy_state st r = r\<lparr> rp_autonomy := Some st \<rparr>"

definition put_delivered :: "delivered_runbook \<Rightarrow> domain_repository \<Rightarrow> domain_repository" where
  "put_delivered rb r =
     r\<lparr> rp_runbooks := sort_key (\<lambda>x. rb_name (dr_runbook x))
           (filter (\<lambda>x. rb_name (dr_runbook x) \<noteq> rb_name (dr_runbook rb)) (rp_runbooks r) @ [rb]) \<rparr>"

section \<open>Superseding tables\<close>

text \<open>A table where a row supersedes the row with its key; its clients read it through \<open>find_row\<close>.\<close>

locale keyed_table =
  fixes put :: "'a \<Rightarrow> 's \<Rightarrow> 's"
    and rows :: "'s \<Rightarrow> 'a list"
    and key :: "'a \<Rightarrow> 'k"
  assumes rows_put: "set (rows (put x s)) = insert x {y \<in> set (rows s). key y \<noteq> key x}"
    and keys_put: "distinct (map key (rows s)) \<Longrightarrow> distinct (map key (rows (put x s)))"
begin

lemma row_with_key:
  assumes "distinct (map key (rows s))" and "x \<in> set (rows s)" and "y \<in> set (rows s)" and "key x = key y"
  shows "x = y"
  using assms by (metis distinct_map inj_on_def)

lemma history_keys: "distinct (map key (rows s)) \<Longrightarrow> distinct (map key (rows (fold put xs s)))"
  by (induction xs arbitrary: s) (simp_all add: keys_put)

text \<open>After a history of writes to an empty table the rows are the last write of each key.\<close>

lemma history_last:
  assumes "rows s = []"
  shows "x \<in> set (rows (fold put xs s)) \<longleftrightarrow> (\<exists>pre post. xs = pre @ x # post \<and> key x \<notin> key ` set post)"
proof (induction xs rule: rev_induct)
  case Nil
  show ?case by (simp add: assms)
next
  case (snoc w xs)
  show ?case
  proof
    assume "x \<in> set (rows (fold put (xs @ [w]) s))"
    then consider "x = w" | "x \<in> set (rows (fold put xs s))" "key x \<noteq> key w" by (auto simp: rows_put)
    then show "\<exists>pre post. xs @ [w] = pre @ x # post \<and> key x \<notin> key ` set post"
    proof cases
      case 1
      then show ?thesis by (intro exI [of _ xs] exI [of _ "[]"]) simp
    next
      case 2
      with snoc obtain pre post where "xs = pre @ x # post" "key x \<notin> key ` set post" by blast
      with 2 show ?thesis by (intro exI [of _ pre] exI [of _ "post @ [w]"]) simp
    qed
  next
    assume "\<exists>pre post. xs @ [w] = pre @ x # post \<and> key x \<notin> key ` set post"
    then obtain pre post where split: "xs @ [w] = pre @ x # post" and last: "key x \<notin> key ` set post" by blast
    show "x \<in> set (rows (fold put (xs @ [w]) s))"
    proof (cases post rule: rev_cases)
      case Nil
      with split show ?thesis by (simp add: rows_put)
    next
      case (snoc post' v)
      with split last have "xs = pre @ x # post'" "v = w" "key x \<notin> key ` set post'" "key x \<noteq> key w" by auto
      with \<open>(x \<in> set (rows (fold put xs s))) = _\<close> show ?thesis by (auto simp: rows_put)
    qed
  qed
qed

end

lemma superseded_keys: "distinct (map key xs) \<Longrightarrow> distinct (map key (filter (\<lambda>y. key y \<noteq> key x) xs @ [x]))"
  by (auto simp: distinct_map_filter)

lemma distinct_sort_key: "distinct (map f (sort_key g xs)) \<longleftrightarrow> distinct (map f xs)"
  by (simp add: distinct_map)

interpretation episodes: keyed_table "\<lambda>(i, e). put_episode i e" rp_episodes fst
  by unfold_locales (auto simp: put_episode_def case_prod_beta distinct_map_filter)

interpretation procedures: keyed_table "\<lambda>(i, p). put_procedure i p" rp_procedures fst
  by unfold_locales (auto simp: put_procedure_def case_prod_beta distinct_map_filter)

interpretation facts: keyed_table put_fact rp_facts "\<lambda>f. (fa_subject f, fa_attribute f)"
  using superseded_keys [of "\<lambda>f. (fa_subject f, fa_attribute f)"] by unfold_locales (auto simp: put_fact_def)

interpretation runbooks: keyed_table put_delivered rp_runbooks "\<lambda>x. rb_name (dr_runbook x)"
  using superseded_keys [of "\<lambda>x. rb_name (dr_runbook x)"]
  by unfold_locales (auto simp: put_delivered_def distinct_sort_key)

section \<open>Append-only logs\<close>

text \<open>A log where the row first written under an identity stays as it is.\<close>

locale append_log =
  fixes put :: "'a \<Rightarrow> 's \<Rightarrow> 's"
    and rows :: "'s \<Rightarrow> 'a list"
    and ident :: "'a \<Rightarrow> 'k"
  assumes rows_append: "rows (put x s) = (if ident x \<in> ident ` set (rows s) then rows s else rows s @ [x])"
begin

lemma prefix_kept: "\<exists>more. rows (fold put xs s) = rows s @ more"
proof (induction xs arbitrary: s)
  case (Cons x xs)
  from Cons.IH [of "put x s"] obtain more where "rows (fold put xs (put x s)) = rows (put x s) @ more" by blast
  then show ?case by (auto simp: rows_append)
qed simp

lemma history_first:
  "rows s = [] \<Longrightarrow> map_of (map (\<lambda>x. (ident x, x)) (rows (fold put xs s))) = map_of (map (\<lambda>x. (ident x, x)) xs)"
proof (induction xs rule: rev_induct)
  case (snoc x xs)
  let ?old = "map_of (map (\<lambda>x. (ident x, x)) xs)"
  have "dom (map_of (map (\<lambda>x. (ident x, x)) (rows (fold put xs s)))) = ident ` set (rows (fold put xs s))"
    by (simp add: dom_map_of_conv_image_fst image_image)
  with snoc have "ident x \<in> ident ` set (rows (fold put xs s)) \<longleftrightarrow> ?old (ident x) \<noteq> None" by (auto simp: dom_def)
  with snoc show ?case by (auto simp: rows_append map_add_def fun_eq_iff split: option.split)
qed simp

lemma identities_distinct: "distinct (map ident (rows s)) \<Longrightarrow> distinct (map ident (rows (fold put xs s)))"
  by (induction xs arbitrary: s) (auto simp: rows_append)

end

interpretation actions: append_log put_action_event rp_action_events la_event_id
  by unfold_locales (auto simp: put_action_event_def list_ex_iff image_iff, metis+)

interpretation traces: append_log put_brain_trace rp_brain_traces lt_trace_id
  by unfold_locales (auto simp: put_brain_trace_def list_ex_iff image_iff, metis+)

section \<open>Queries\<close>

lemma newest_first_exact:
  "set (newest_first n occurred xs) \<subseteq> set xs"
  "length (newest_first n occurred xs) = min (row_limit n) (length xs)"
  "sorted (map (\<lambda>x. - occurred x) (newest_first n occurred xs))"
  by (auto simp: newest_first_def take_map [symmetric] sorted_wrt_take dest: in_set_takeD)

lemma newest_first_omits_older:
  assumes "x \<in> set xs" and "x \<notin> set (newest_first n occurred xs)" and "y \<in> set (newest_first n occurred xs)"
  shows "occurred x \<le> occurred y"
proof -
  let ?ys = "sort_key (\<lambda>x. - occurred x) xs"
  have split: "?ys = newest_first n occurred xs @ drop (row_limit n) ?ys" by (simp add: newest_first_def)
  have "x \<in> set ?ys" using assms(1) by simp
  then have "x \<in> set (drop (row_limit n) ?ys)" using assms(2) split by (metis Un_iff set_append)
  moreover have "sorted (map (\<lambda>x. - occurred x) (newest_first n occurred xs @ drop (row_limit n) ?ys))"
    using split by (metis sorted_sort_key)
  ultimately show ?thesis using assms(3) by (auto simp: sorted_append)
qed


text \<open>Pruning keeps exactly the rows inside the retention, and the newest observations in their order.\<close>

lemma retention_exact:
  "set (rp_action_events (retain_ledger now days r))
     = {e \<in> set (rp_action_events r). now - seconds (86400 * max days 0) \<le> la_occurred_at e}"
  "length (rp_observations (retain_observations m r)) = min (nat (max m 0)) (length (rp_observations r))"
  "suffix (rp_observations (retain_observations m r)) (rp_observations r)"
  by (auto simp: retain_ledger_def retain_observations_def Let_def suffix_drop)

text \<open>An observation carries a confidence between zero and one, never a NaN.\<close>

lemma observation_confidence:
  "observation_new i src subj attr v c prov now = Inr ob \<Longrightarrow> \<exists>q. ob_confidence ob = Fin q \<and> 0 \<le> q \<and> q \<le> 1"
  by (cases c) (auto simp: observation_new_def split: if_splits)

end
