(* ===== verification/Ledger.thy ===== *)
theory Ledger
  imports Redaction Repository
begin

text \<open>
  The ledger and its way upstream: the report queue and the ledger buffer (\<open>argus-cloud\<close>,
  \<open>buffer.rs\<close>), the daemon's ledger sink with its cycle context and wire payloads
  (\<open>argus-daemon\<close>, \<open>ledger.rs\<close>), and the flush, acknowledgement and requeue steps of the cloud
  session (\<open>cloud.rs\<close>). The text of an identifier and of a time, and what a send returns, are
  parameters. A producer that waits for room sees, at each pause, whether the flusher drained.
\<close>

section \<open>Reports\<close>

datatype report_kind =
    RkTelemetry | RkHealth | RkEvents | RkActivities | RkSentinel | RkActionLedger | RkBrainTrace | RkTokenUsage

fun kind_str :: "report_kind \<Rightarrow> string" where
  "kind_str RkTelemetry = ''telemetry''"
| "kind_str RkSentinel = ''sentinel''"
| "kind_str RkHealth = ''health''"
| "kind_str RkEvents = ''events''"
| "kind_str RkActivities = ''activities''"
| "kind_str RkActionLedger = ''actions''"
| "kind_str RkBrainTrace = ''traces''"
| "kind_str RkTokenUsage = ''usage''"

definition is_ledger :: "report_kind \<Rightarrow> bool" where
  "is_ledger k \<longleftrightarrow> k \<in> {RkActionLedger, RkBrainTrace, RkTokenUsage}"

fun message_type_for :: "report_kind \<Rightarrow> string" where
  "message_type_for RkTelemetry = ''telemetry.report''"
| "message_type_for RkHealth = ''health.report''"
| "message_type_for RkEvents = ''events.report''"
| "message_type_for RkActivities = ''activities.report''"
| "message_type_for RkSentinel = ''sentinel.report''"
| "message_type_for RkActionLedger = ''action.event''"
| "message_type_for RkBrainTrace = ''brain.trace''"
| "message_type_for RkTokenUsage = ''token.usage''"

record buffered_report =
  bu_entry_id :: uuid
  bu_kind :: report_kind
  bu_payload :: json
  bu_enqueued_at :: instant
  bu_attempts :: u32

record report_queue =
  rq_capacity :: nat
  rq_entries :: "buffered_report list"
  rq_dropped_total :: u64
  rq_last_drain_at :: "instant option"

definition queue_new :: "nat \<Rightarrow> report_queue" where
  "queue_new capacity = \<lparr> rq_capacity = max capacity 1, rq_entries = [], rq_dropped_total = 0, rq_last_drain_at = None \<rparr>"

definition fresh_report :: "uuid \<Rightarrow> report_kind \<Rightarrow> json \<Rightarrow> instant \<Rightarrow> buffered_report" where
  "fresh_report i kind payload now =
     \<lparr> bu_entry_id = i, bu_kind = kind, bu_payload = payload, bu_enqueued_at = now, bu_attempts = 0 \<rparr>"

definition count_dropped :: "nat \<Rightarrow> report_queue \<Rightarrow> report_queue" where
  "count_dropped n q = q\<lparr> rq_dropped_total := ((\<lambda>d. sat_add d 1) ^^ n) (rq_dropped_total q) \<rparr>"

definition enqueue ::
  "uuid \<Rightarrow> report_kind \<Rightarrow> json \<Rightarrow> instant \<Rightarrow> report_queue \<Rightarrow> buffered_report option \<times> report_queue" where
  "enqueue i kind payload now q =
     (let (discarded, q1) =
            (if rq_capacity q \<le> length (rq_entries q)
             then (case rq_entries q of
                     [] \<Rightarrow> (None, q)
                   | e # es \<Rightarrow> (Some e, count_dropped 1 (q\<lparr> rq_entries := es \<rparr>)))
             else (None, q))
      in (discarded, q1\<lparr> rq_entries := rq_entries q1 @ [fresh_report i kind payload now] \<rparr>))"

definition attempted :: "buffered_report \<Rightarrow> buffered_report" where
  "attempted e = e\<lparr> bu_attempts := sat_add (bu_attempts e) 1 \<rparr>"

definition queue_drain :: "nat \<Rightarrow> instant \<Rightarrow> report_queue \<Rightarrow> buffered_report list \<times> report_queue" where
  "queue_drain limit now q =
     (let taken = map attempted (take limit (rq_entries q)); q1 = q\<lparr> rq_entries := drop limit (rq_entries q) \<rparr>
      in (taken, if taken \<noteq> [] then q1\<lparr> rq_last_drain_at := Some now \<rparr> else q1))"

definition requeue_front :: "buffered_report list \<Rightarrow> report_queue \<Rightarrow> report_queue" where
  "requeue_front entries q =
     (let es = entries @ rq_entries q; excess = length es - rq_capacity q
      in count_dropped excess (q\<lparr> rq_entries := drop excess es \<rparr>))"

section \<open>The ledger buffer\<close>

definition LEDGER_ACTION_CAPACITY :: nat where
  "LEDGER_ACTION_CAPACITY = 8192"

definition LEDGER_TRACE_CAPACITY :: nat where
  "LEDGER_TRACE_CAPACITY = 256"

record usage_sum =
  us_usage_id :: uuid
  us_cycle_id :: "uuid option"
  us_model :: "string option"
  us_prompt_tokens :: "u64 option"
  us_completion_tokens :: "u64 option"
  us_total_tokens :: "u64 option"
  us_calls :: u32
  us_unknown_usage :: u32
  us_duration_ms :: u64

definition sum_opt :: "u64 option \<Rightarrow> u64 option \<Rightarrow> u64 option" where
  "sum_opt a b = (case (a, b) of (Some x, Some y) \<Rightarrow> Some (sat_add x y) | _ \<Rightarrow> a)"

definition usage_merge :: "usage_sum \<Rightarrow> usage_sum \<Rightarrow> usage_sum" where
  "usage_merge other u =
     u\<lparr> us_prompt_tokens := sum_opt (us_prompt_tokens u) (us_prompt_tokens other),
        us_completion_tokens := sum_opt (us_completion_tokens u) (us_completion_tokens other),
        us_total_tokens := sum_opt (us_total_tokens u) (us_total_tokens other),
        us_calls := sat_add (us_calls u) (us_calls other),
        us_unknown_usage := sat_add (us_unknown_usage u) (us_unknown_usage other),
        us_duration_ms := sat_add (us_duration_ms u) (us_duration_ms other) \<rparr>"

record ledger_buffer =
  lb_actions :: "buffered_report list"
  lb_traces :: "buffered_report list"
  lb_dropped_traces :: u64
  lb_usage :: "usage_sum list"

definition buffer_new :: ledger_buffer where
  "buffer_new = \<lparr> lb_actions = [], lb_traces = [], lb_dropped_traces = 0, lb_usage = [] \<rparr>"

definition buffer_empty :: "ledger_buffer \<Rightarrow> bool" where
  "buffer_empty b \<longleftrightarrow> lb_actions b = [] \<and> lb_traces b = [] \<and> lb_usage b = []"

definition try_push_action :: "uuid \<Rightarrow> json \<Rightarrow> instant \<Rightarrow> ledger_buffer \<Rightarrow> ledger_buffer option" where
  "try_push_action i payload now b =
     (if LEDGER_ACTION_CAPACITY \<le> length (lb_actions b) then None
      else Some (b\<lparr> lb_actions := lb_actions b @ [fresh_report i RkActionLedger payload now] \<rparr>))"

definition sacrifice_actions :: "nat \<Rightarrow> ledger_buffer \<Rightarrow> buffered_report list \<times> ledger_buffer" where
  "sacrifice_actions n b = (take n (lb_actions b), b\<lparr> lb_actions := drop n (lb_actions b) \<rparr>)"

definition push_trace :: "uuid \<Rightarrow> json \<Rightarrow> instant \<Rightarrow> ledger_buffer \<Rightarrow> ledger_buffer" where
  "push_trace i payload now b =
     (let excess = Suc (length (lb_traces b)) - LEDGER_TRACE_CAPACITY;
          dropped = ((\<lambda>d. sat_add d 1) ^^ excess) (lb_dropped_traces b);
          (payload1, dropped1) =
            (case payload of
               JObj m \<Rightarrow> if 0 < dropped then (JObj (obj_insert ''coalesced_before'' (JNum (PosInt (unat dropped))) m), 0)
                         else (payload, dropped)
             | _ \<Rightarrow> (payload, dropped))
      in b\<lparr> lb_traces := drop excess (lb_traces b) @ [fresh_report i RkBrainTrace payload1 now],
            lb_dropped_traces := dropped1 \<rparr>)"

definition same_batch :: "usage_sum \<Rightarrow> usage_sum \<Rightarrow> bool" where
  "same_batch u v \<longleftrightarrow> us_cycle_id u = us_cycle_id v \<and> us_model u = us_model v"

fun batch_usage :: "usage_sum \<Rightarrow> usage_sum list \<Rightarrow> usage_sum list" where
  "batch_usage entry [] = [entry]"
| "batch_usage entry (u # us) = (if same_batch u entry then usage_merge entry u # us else u # batch_usage entry us)"

definition push_usage :: "usage_sum \<Rightarrow> ledger_buffer \<Rightarrow> ledger_buffer" where
  "push_usage entry b = b\<lparr> lb_usage := batch_usage entry (lb_usage b) \<rparr>"

text \<open>The identifiers' and times' text, as \<open>uuid\<close> and \<open>chrono\<close> print and read them.\<close>

record wire_text =
  wt_uuid :: "uuid \<Rightarrow> string"
  wt_parse_uuid :: "string \<Rightarrow> uuid option"
  wt_time :: "instant \<Rightarrow> string"

definition json_opt :: "('a \<Rightarrow> json) \<Rightarrow> 'a option \<Rightarrow> json" where
  "json_opt f v = (case v of None \<Rightarrow> JNull | Some x \<Rightarrow> f x)"

definition json_word :: "'n::len word \<Rightarrow> json" where
  "json_word w = JNum (PosInt (unat w))"

definition usage_json :: "wire_text \<Rightarrow> instant \<Rightarrow> usage_sum \<Rightarrow> json" where
  "usage_json wt now u =
     JObj [(''usage_id'', JStr (wt_uuid wt (us_usage_id u))),
           (''cycle_id'', json_opt (\<lambda>i. JStr (wt_uuid wt i)) (us_cycle_id u)),
           (''model'', json_opt JStr (us_model u)),
           (''prompt_tokens'', json_opt json_word (us_prompt_tokens u)),
           (''completion_tokens'', json_opt json_word (us_completion_tokens u)),
           (''total_tokens'', json_opt json_word (us_total_tokens u)),
           (''calls'', json_word (us_calls u)),
           (''unknown_usage'', json_word (us_unknown_usage u)),
           (''duration_ms'', json_word (us_duration_ms u)),
           (''occurred_at'', JStr (wt_time wt now))]"

text \<open>Reading a batch back: an absent or null optional member is \<open>None\<close>, a value of another kind fails.\<close>

fun word_of_json :: "json \<Rightarrow> 'n::len word option" where
  "word_of_json (JNum (PosInt n)) = (if n < 2 ^ LENGTH('n) then Some (of_nat n) else None)"
| "word_of_json _ = None"

definition opt_of_json :: "(json \<Rightarrow> 'a option) \<Rightarrow> json option \<Rightarrow> 'a option option" where
  "opt_of_json f v =
     (case v of None \<Rightarrow> Some None | Some JNull \<Rightarrow> Some None | Some j \<Rightarrow> map_option Some (f j))"

definition uuid_of_json :: "wire_text \<Rightarrow> json \<Rightarrow> uuid option" where
  "uuid_of_json wt j = Option.bind (as_string j) (wt_parse_uuid wt)"

definition usage_of_json :: "wire_text \<Rightarrow> json \<Rightarrow> usage_sum option" where
  "usage_of_json wt j =
     Option.bind (Option.bind (json_get ''usage_id'' j) (uuid_of_json wt)) (\<lambda>i.
     Option.bind (opt_of_json (uuid_of_json wt) (json_get ''cycle_id'' j)) (\<lambda>cycle.
     Option.bind (opt_of_json as_string (json_get ''model'' j)) (\<lambda>model.
     Option.bind (opt_of_json word_of_json (json_get ''prompt_tokens'' j)) (\<lambda>p.
     Option.bind (opt_of_json word_of_json (json_get ''completion_tokens'' j)) (\<lambda>c.
     Option.bind (opt_of_json word_of_json (json_get ''total_tokens'' j)) (\<lambda>t.
     Option.bind (Option.bind (json_get ''calls'' j) word_of_json) (\<lambda>calls.
     Option.bind (Option.bind (json_get ''unknown_usage'' j) word_of_json) (\<lambda>unknown.
     Option.bind (Option.bind (json_get ''duration_ms'' j) word_of_json) (\<lambda>duration.
       Some \<lparr> us_usage_id = i, us_cycle_id = cycle, us_model = model, us_prompt_tokens = p, us_completion_tokens = c,
              us_total_tokens = t, us_calls = calls, us_unknown_usage = unknown, us_duration_ms = duration \<rparr>)))))))))"

definition buffer_drain ::
  "wire_text \<Rightarrow> (nat \<Rightarrow> uuid) \<Rightarrow> instant \<Rightarrow> ledger_buffer \<Rightarrow> buffered_report list \<times> ledger_buffer" where
  "buffer_drain wt fresh now b =
     (map attempted (lb_actions b @ lb_traces b
        @ map (\<lambda>(i, u). fresh_report (fresh i) RkTokenUsage (usage_json wt now u) now)
              (zip [0..<length (lb_usage b)] (lb_usage b))),
      b\<lparr> lb_actions := [], lb_traces := [], lb_usage := [] \<rparr>)"

definition buffer_requeue :: "wire_text \<Rightarrow> buffered_report list \<Rightarrow> ledger_buffer \<Rightarrow> ledger_buffer" where
  "buffer_requeue wt entries b =
     (let usages = List.map_filter (\<lambda>e. if bu_kind e = RkTokenUsage then usage_of_json wt (bu_payload e) else None) entries
      in b\<lparr> lb_actions := filter (\<lambda>e. bu_kind e = RkActionLedger) entries @ lb_actions b,
            lb_traces := filter (\<lambda>e. bu_kind e = RkBrainTrace) entries @ lb_traces b,
            lb_usage := fold batch_usage usages (lb_usage b) \<rparr>)"

section \<open>The ledger sink\<close>

record cycle_frame =
  cf_cycle_id :: uuid
  cf_plan_ids :: "uuid list"

record daemon_ledger =
  dl_repository :: domain_repository
  dl_buffer :: ledger_buffer
  dl_upload_enabled :: bool
  dl_retention_days :: int
  dl_observation_max_rows :: int
  dl_events :: "domain_event list"
  dl_cycles :: "cycle_frame list"

definition ledger_new :: "domain_repository \<Rightarrow> bool \<Rightarrow> int \<Rightarrow> int \<Rightarrow> daemon_ledger" where
  "ledger_new r upload days rows =
     \<lparr> dl_repository = r, dl_buffer = buffer_new, dl_upload_enabled = upload, dl_retention_days = days,
       dl_observation_max_rows = rows, dl_events = [], dl_cycles = [] \<rparr>"

definition enter_cycle :: "uuid \<Rightarrow> daemon_ledger \<Rightarrow> daemon_ledger" where
  "enter_cycle i l = l\<lparr> dl_cycles := dl_cycles l @ [\<lparr> cf_cycle_id = i, cf_plan_ids = [] \<rparr>] \<rparr>"

fun remove_frame :: "uuid \<Rightarrow> cycle_frame list \<Rightarrow> uuid list \<times> cycle_frame list" where
  "remove_frame i [] = ([], [])"
| "remove_frame i (f # fs) =
     (if cf_cycle_id f = i then (cf_plan_ids f, fs) else let (ids, rest) = remove_frame i fs in (ids, f # rest))"

definition exit_cycle :: "uuid \<Rightarrow> daemon_ledger \<Rightarrow> uuid list \<times> daemon_ledger" where
  "exit_cycle i l = (let (ids, rest) = remove_frame i (dl_cycles l) in (ids, l\<lparr> dl_cycles := rest \<rparr>))"

definition ledger_prune :: "bool \<Rightarrow> bool \<Rightarrow> instant \<Rightarrow> daemon_ledger \<Rightarrow> daemon_ledger" where
  "ledger_prune ledger_ok observations_ok now l =
     (let r1 = (if ledger_ok then retain_ledger now (dl_retention_days l) (dl_repository l) else dl_repository l);
          r2 = (if observations_ok then retain_observations (dl_observation_max_rows l) r1 else r1)
      in l\<lparr> dl_repository := r2 \<rparr>)"

definition open_cycle :: "daemon_ledger \<Rightarrow> uuid option" where
  "open_cycle l = (if dl_cycles l = [] then None else Some (cf_cycle_id (last (dl_cycles l))))"

definition stamp_plan :: "uuid \<Rightarrow> uuid \<Rightarrow> daemon_ledger \<Rightarrow> daemon_ledger" where
  "stamp_plan cycle plan_id l =
     (if dl_cycles l = [] then l
      else let f = last (dl_cycles l)
           in if cf_cycle_id f = cycle \<and> plan_id \<notin> set (cf_plan_ids f)
              then l\<lparr> dl_cycles := butlast (dl_cycles l) @ [f\<lparr> cf_plan_ids := cf_plan_ids f @ [plan_id] \<rparr>] \<rparr> else l)"

definition MAX_LEDGER_KIND_LEN :: nat where "MAX_LEDGER_KIND_LEN = 200"
definition MAX_LEDGER_TARGET_LEN :: nat where "MAX_LEDGER_TARGET_LEN = 500"
definition MAX_LEDGER_TEXT_LEN :: nat where "MAX_LEDGER_TEXT_LEN = 2000"
definition MAX_LEDGER_EVIDENCE :: nat where "MAX_LEDGER_EVIDENCE = 50"
definition MAX_LEDGER_STEPS :: nat where "MAX_LEDGER_STEPS = 50"

definition bound_text :: "string \<Rightarrow> nat \<Rightarrow> string" where
  "bound_text text n = take n text"

text \<open>Members with \<open>skip_serializing_if\<close> are left out when absent.\<close>

definition member :: "string \<Rightarrow> json option \<Rightarrow> (string \<times> json) list" where
  "member key v = (case v of None \<Rightarrow> [] | Some j \<Rightarrow> [(key, j)])"

abbreviation uuid_member :: "wire_text \<Rightarrow> string \<Rightarrow> uuid option \<Rightarrow> (string \<times> json) list" where
  "uuid_member wt key i \<equiv> member key (map_option (\<lambda>i. JStr (wt_uuid wt i)) i)"

definition action_args :: "(rat \<Rightarrow> rat) \<Rightarrow> json \<Rightarrow> (string \<times> json) list option" where
  "action_args lg args = (case args of JObj m \<Rightarrow> if m \<noteq> [] then as_object (redact_json lg args) else None | _ \<Rightarrow> None)"

definition action_payload :: "wire_text \<Rightarrow> (rat \<Rightarrow> rat) \<Rightarrow> ledger_action \<Rightarrow> uuid option \<Rightarrow> json" where
  "action_payload wt lg e cycle =
     JObj ([(''event_id'', JStr (wt_uuid wt (la_event_id e))),
            (''correlation_id'', JStr (wt_uuid wt (la_correlation_id e)))]
        @ uuid_member wt ''causation_id'' (la_causation_id e)
        @ uuid_member wt ''cycle_id'' (if cycle \<noteq> None then cycle else la_cycle_id e)
        @ uuid_member wt ''plan_id'' (la_plan_id e)
        @ [(''kind'', JStr (bound_text (la_kind e) MAX_LEDGER_KIND_LEN))]
        @ member ''target'' (map_option (\<lambda>t. JStr (bound_text t MAX_LEDGER_TEXT_LEN)) (la_target e))
        @ member ''args'' (map_option JObj (action_args lg (la_args e)))
        @ [(''verdict'', JStr (la_verdict e))]
        @ member ''policy_id'' (map_option (\<lambda>i. JStr (bound_text i MAX_LEDGER_KIND_LEN)) (la_policy_id e))
        @ [(''outcome'', JStr (la_outcome e))]
        @ member ''duration_ms'' (map_option json_word (la_duration_ms e))
        @ member ''validation'' (map_option (redact_json lg) (la_validation e))
        @ [(''occurred_at'', JStr (wt_time wt (la_occurred_at e)))])"

definition trace_text :: "(rat \<Rightarrow> rat) \<Rightarrow> string \<Rightarrow> string" where
  "trace_text lg text = redact_text lg (bound_text text MAX_LEDGER_TEXT_LEN)"

definition trace_payload :: "wire_text \<Rightarrow> (rat \<Rightarrow> rat) \<Rightarrow> ledger_trace \<Rightarrow> json" where
  "trace_payload wt lg t =
     JObj ([(''trace_id'', JStr (wt_uuid wt (lt_trace_id t)))]
        @ uuid_member wt ''cycle_id'' (lt_cycle_id t) @ uuid_member wt ''plan_id'' (lt_plan_id t)
        @ [(''evidence'', JArr (map (\<lambda>s. JStr (trace_text lg s)) (take MAX_LEDGER_EVIDENCE (lt_evidence t))))]
        @ member ''decision'' (map_option (\<lambda>s. JStr (trace_text lg s)) (lt_decision t))
        @ member ''objective'' (map_option (\<lambda>s. JStr (trace_text lg s)) (lt_objective t))
        @ [(''steps'', JArr (map (\<lambda>s. JStr (trace_text lg s)) (take MAX_LEDGER_STEPS (lt_steps t))))]
        @ member ''outcome'' (map_option (\<lambda>s. JStr (trace_text lg s)) (lt_outcome t))
        @ [(''coalesced_before'', JNum (PosInt 0)), (''occurred_at'', JStr (wt_time wt (lt_occurred_at t)))])"

text \<open>
  The bounded wait for room: an attempt, and after each pause another, until one succeeds or the
  deadline passes, when a quarter of the capacity gives way. The list says for each pause whether the
  flusher drained the buffer meanwhile.
\<close>

fun push_waiting ::
  "uuid \<Rightarrow> json \<Rightarrow> instant \<Rightarrow> bool list \<Rightarrow> ledger_buffer \<Rightarrow> buffered_report list \<times> ledger_buffer" where
  "push_waiting i payload now [] b =
     (case try_push_action i payload now b of
        Some b' \<Rightarrow> ([], b')
      | None \<Rightarrow>
          let (dropped, b1) = sacrifice_actions (LEDGER_ACTION_CAPACITY div 4) b
          in (dropped, case try_push_action i payload now b1 of Some b2 \<Rightarrow> b2 | None \<Rightarrow> b1))"
| "push_waiting i payload now (drained # pauses) b =
     (case try_push_action i payload now b of
        Some b' \<Rightarrow> ([], b')
      | None \<Rightarrow>
          push_waiting i payload now pauses
            (if drained then b\<lparr> lb_actions := [], lb_traces := [], lb_usage := [] \<rparr> else b))"

definition ledger_record_action ::
  "wire_text \<Rightarrow> (rat \<Rightarrow> rat) \<Rightarrow> uuid \<Rightarrow> instant \<Rightarrow> bool \<Rightarrow> bool list \<Rightarrow> ledger_action \<Rightarrow> daemon_ledger \<Rightarrow> daemon_ledger" where
  "ledger_record_action wt lg entry_id now written pauses e l =
     (let (e1, l1) =
            (case open_cycle l of
               None \<Rightarrow> (e, l)
             | Some c \<Rightarrow>
                 (e\<lparr> la_cycle_id := Some c \<rparr>, case la_plan_id e of None \<Rightarrow> l | Some p \<Rightarrow> stamp_plan c p l));
          l2 = (if written then l1\<lparr> dl_repository := put_action_event e1 (dl_repository l1) \<rparr> else l1)
      in if dl_upload_enabled l2
         then l2\<lparr> dl_buffer := snd (push_waiting entry_id (action_payload wt lg e1 (la_cycle_id e1)) now pauses (dl_buffer l2)) \<rparr>
         else l2)"

definition trace_event :: "wire_text \<Rightarrow> ledger_trace \<Rightarrow> domain_event" where
  "trace_event wt t =
     \<lparr> de_id = lt_trace_id t, de_type = ''brain.trace'', de_timestamp = lt_occurred_at t, de_source = ''argusd'',
       de_subject = ''argusd'', de_severity = Info, de_correlation = lt_cycle_id t, de_causation = lt_plan_id t,
       de_payload = JObj [(''cycle_id'', json_opt (\<lambda>i. JStr (wt_uuid wt i)) (lt_cycle_id t)),
                          (''plan_id'', json_opt (\<lambda>i. JStr (wt_uuid wt i)) (lt_plan_id t)),
                          (''objective'', json_opt JStr (lt_objective t)), (''outcome'', json_opt JStr (lt_outcome t)),
                          (''evidence_count'', JNum (PosInt (length (lt_evidence t)))),
                          (''steps'', JNum (PosInt (length (lt_steps t))))] \<rparr>"

definition ledger_record_trace ::
  "wire_text \<Rightarrow> (rat \<Rightarrow> rat) \<Rightarrow> uuid \<Rightarrow> instant \<Rightarrow> bool \<Rightarrow> ledger_trace \<Rightarrow> daemon_ledger \<Rightarrow> daemon_ledger" where
  "ledger_record_trace wt lg entry_id now written t l =
     (let l1 = (if written then l\<lparr> dl_repository := put_brain_trace t (dl_repository l) \<rparr> else l);
          l2 = l1\<lparr> dl_events := dl_events l1 @ [trace_event wt t] \<rparr>
      in if dl_upload_enabled l2 then l2\<lparr> dl_buffer := push_trace entry_id (trace_payload wt lg t) now (dl_buffer l2) \<rparr> else l2)"

definition usage_event :: "uuid \<Rightarrow> usage_record \<Rightarrow> domain_event" where
  "usage_event i u =
     \<lparr> de_id = i, de_type = ''token.usage'', de_timestamp = ur_occurred_at u, de_source = ''argusd'',
       de_subject = ''argusd'', de_severity = Info, de_correlation = ur_cycle_id u, de_causation = None,
       de_payload = JObj [(''model'', json_opt JStr (ur_model u)),
                          (''prompt_tokens'', json_opt json_word (ur_prompt_tokens u)),
                          (''completion_tokens'', json_opt json_word (ur_completion_tokens u)),
                          (''total_tokens'', json_opt json_word (ur_total_tokens u)),
                          (''duration_ms'', json_opt json_word (ur_duration_ms u))] \<rparr>"

definition usage_entry :: "uuid \<Rightarrow> usage_record \<Rightarrow> usage_sum" where
  "usage_entry i u =
     \<lparr> us_usage_id = i, us_cycle_id = ur_cycle_id u, us_model = ur_model u, us_prompt_tokens = ur_prompt_tokens u,
       us_completion_tokens = ur_completion_tokens u, us_total_tokens = ur_total_tokens u, us_calls = 1,
       us_unknown_usage = (if ur_prompt_tokens u \<noteq> None \<or> ur_completion_tokens u \<noteq> None \<or> ur_total_tokens u \<noteq> None
                           then 0 else 1),
       us_duration_ms = (case ur_duration_ms u of Some d \<Rightarrow> d | None \<Rightarrow> 0) \<rparr>"

definition ledger_record_usage :: "uuid \<Rightarrow> uuid \<Rightarrow> bool \<Rightarrow> usage_record \<Rightarrow> daemon_ledger \<Rightarrow> daemon_ledger" where
  "ledger_record_usage event_id usage_id written u l =
     (let u1 = (if ur_cycle_id u = None then u\<lparr> ur_cycle_id := open_cycle l \<rparr> else u);
          l1 = (if written then l\<lparr> dl_repository := put_token_usage u1 (dl_repository l) \<rparr> else l);
          l2 = l1\<lparr> dl_events := dl_events l1 @ [usage_event event_id u1] \<rparr>
      in if dl_upload_enabled l2 then l2\<lparr> dl_buffer := push_usage (usage_entry usage_id u1) (dl_buffer l2) \<rparr> else l2)"

section \<open>The session's custody\<close>

text \<open>
  The entries sent and not yet acknowledged are a map by message id, listed in the order of sending;
  \<open>sends\<close> says for each entry whether the transport accepted it and under which id.
\<close>

type_synonym in_flight = "(uuid \<times> buffered_report) list"

fun send_each :: "(nat \<Rightarrow> uuid option) \<Rightarrow> nat \<Rightarrow> buffered_report list \<Rightarrow> in_flight \<Rightarrow> bool \<times> in_flight" where
  "send_each sends n [] flight = (True, flight)"
| "send_each sends n (e # es) flight =
     (case sends n of
        None \<Rightarrow> (False, flight)
      | Some i \<Rightarrow> send_each sends (Suc n) es (flight @ [(i, e)]))"

definition flush_reports ::
  "(nat \<Rightarrow> uuid option) \<Rightarrow> instant \<Rightarrow> report_queue \<Rightarrow> in_flight \<Rightarrow> bool \<times> report_queue \<times> in_flight" where
  "flush_reports sends now q flight =
     (let (entries, q1) = queue_drain (length (rq_entries q)) now q; (ok, flight1) = send_each sends 0 entries flight
      in (ok, q1, flight1))"

definition flush_ledger ::
  "wire_text \<Rightarrow> (nat \<Rightarrow> uuid) \<Rightarrow> (nat \<Rightarrow> uuid option) \<Rightarrow> instant \<Rightarrow> ledger_buffer \<Rightarrow> in_flight \<Rightarrow>
   bool \<times> ledger_buffer \<times> in_flight" where
  "flush_ledger wt fresh sends now b flight =
     (let (entries, b1) = buffer_drain wt fresh now b; (ok, flight1) = send_each sends 0 entries flight
      in (ok, b1, flight1))"

definition requeue_in_flight ::
  "wire_text \<Rightarrow> in_flight \<Rightarrow> report_queue \<Rightarrow> ledger_buffer \<Rightarrow> report_queue \<times> ledger_buffer" where
  "requeue_in_flight wt flight q b =
     (if flight = [] then (q, b)
      else let entries = sort_key bu_enqueued_at (map snd flight)
           in (requeue_front (filter (\<lambda>e. \<not> is_ledger (bu_kind e)) entries) q,
               buffer_requeue wt (filter (\<lambda>e. is_ledger (bu_kind e)) entries) b))"

definition MAX_SEND_ATTEMPTS :: u32 where
  "MAX_SEND_ATTEMPTS = 8"

definition on_ack ::
  "wire_text \<Rightarrow> uuid \<Rightarrow> bool \<Rightarrow> in_flight \<Rightarrow> report_queue \<Rightarrow> ledger_buffer \<Rightarrow> in_flight \<times> report_queue \<times> ledger_buffer" where
  "on_ack wt message_id accepted flight q b =
     (let flight1 = filter (\<lambda>(i, _). i \<noteq> message_id) flight
      in case map_of flight message_id of
           None \<Rightarrow> (flight1, q, b)
         | Some e \<Rightarrow>
             if accepted \<or> MAX_SEND_ATTEMPTS \<le> bu_attempts e then (flight1, q, b)
             else if is_ledger (bu_kind e) then (flight1, q, buffer_requeue wt [e] b)
             else (flight1, requeue_front [e] q, b))"

section \<open>The queue is bounded and counts its losses\<close>

lemma saturating_count: "unat (((\<lambda>d::u64. sat_add d 1) ^^ n) d) = min (unat d + n) (2 ^ 64 - 1)"
proof (induction n)
  case 0
  have "unat d < 2 ^ 64" using unsigned_less [where ?'a = nat, of d] by simp
  then show ?case by simp
next
  case (Suc n)
  then show ?case by (simp add: unat_sat_add)
qed

definition enqueue_all :: "(uuid \<times> report_kind \<times> json \<times> instant) list \<Rightarrow> report_queue \<Rightarrow> report_queue" where
  "enqueue_all = fold (\<lambda>(i, kind, payload, now) q. snd (enqueue i kind payload now q))"

lemma enqueue_entries:
  assumes "1 \<le> rq_capacity q" and "length (rq_entries q) \<le> rq_capacity q"
  shows "rq_entries (snd (enqueue i kind payload now q))
           = drop (Suc (length (rq_entries q)) - rq_capacity q) (rq_entries q) @ [fresh_report i kind payload now]"
    and "unat (rq_dropped_total (snd (enqueue i kind payload now q)))
           = min (unat (rq_dropped_total q) + (Suc (length (rq_entries q)) - rq_capacity q)) (2 ^ 64 - 1)"
    and "rq_capacity (snd (enqueue i kind payload now q)) = rq_capacity q"
proof -
  have "unat (rq_dropped_total q) < 2 ^ 64" using unsigned_less [where ?'a = nat, of "rq_dropped_total q"] by simp
  then have bound: "unat (rq_dropped_total q) \<le> 2 ^ 64 - 1" by simp
  show "rq_entries (snd (enqueue i kind payload now q))
      = drop (Suc (length (rq_entries q)) - rq_capacity q) (rq_entries q) @ [fresh_report i kind payload now]"
    using assms by (cases "rq_entries q") (auto simp: enqueue_def count_dropped_def)
  show "unat (rq_dropped_total (snd (enqueue i kind payload now q)))
      = min (unat (rq_dropped_total q) + (Suc (length (rq_entries q)) - rq_capacity q)) (2 ^ 64 - 1)"
    using assms bound by (cases "rq_entries q") (auto simp: enqueue_def count_dropped_def unat_sat_add)
  show "rq_capacity (snd (enqueue i kind payload now q)) = rq_capacity q"
    by (auto simp: enqueue_def count_dropped_def split: list.split)
qed

lemma enqueue_all_exact:
  "rq_entries (enqueue_all xs (queue_new c)) = map (\<lambda>(i, k, p, t). fresh_report i k p t) (drop (length xs - max c 1) xs)
   \<and> unat (rq_dropped_total (enqueue_all xs (queue_new c))) = min (length xs - max c 1) (2 ^ 64 - 1)
   \<and> rq_capacity (enqueue_all xs (queue_new c)) = max c 1"
proof (induction xs rule: rev_induct)
  case Nil
  show ?case by (simp add: enqueue_all_def queue_new_def)
next
  case (snoc x xs)
  obtain i k p t where x: "x = (i, k, p, t)" by (cases x) auto
  let ?q = "enqueue_all xs (queue_new c)" and ?cap = "max c 1" and ?n = "length xs"
  have step: "enqueue_all (xs @ [x]) (queue_new c) = snd (enqueue i k p t ?q)" by (simp add: enqueue_all_def x)
  have len: "length (rq_entries ?q) = min ?n ?cap" and cap: "rq_capacity ?q = ?cap" using snoc by auto
  have over: "Suc (min ?n ?cap) - ?cap = (if ?cap \<le> ?n then 1 else 0)" by auto
  note e = enqueue_entries [of ?q i k p t]
  show ?case
  proof (cases "?cap \<le> ?n")
    case True
    then have "drop 1 (drop (?n - ?cap) xs) = drop (Suc ?n - ?cap) xs" "Suc ?n - ?cap = Suc (?n - ?cap)"
      by (simp_all add: Suc_diff_le)
    moreover have "min (min m 18446744073709551615 + 1) 18446744073709551615 = min (Suc m) 18446744073709551615" for m :: nat
      by simp
    ultimately show ?thesis
      using e snoc True unfolding step len cap over by (simp add: x drop_map)
  next
    case False
    then have "?n - ?cap = 0" "Suc ?n - ?cap = 0" by linarith+
    moreover have "(?cap \<le> ?n) = False" using False by blast
    ultimately show ?thesis using e snoc unfolding step len cap over by (simp add: x)
  qed
qed

text \<open>
  Reports survive an outage up to the capacity, and losses are counted. After any sequence of reports
  the queue holds exactly the most recent ones up to its capacity (a capacity of zero counts as one)
  in their order, and the loss counter equals the number discarded, saturating at 64 bits. What a
  drain takes are the oldest reports, each with one more attempt; returning it restores the queue,
  loses nothing and counts nothing.
\<close>

theorem report_queue_bounded_and_counted:
  fixes xs :: "(uuid \<times> report_kind \<times> json \<times> instant) list" and c :: nat
  defines "q \<equiv> enqueue_all xs (queue_new c)"
  shows "rq_entries q = map (\<lambda>(i, k, p, t). fresh_report i k p t) (drop (length xs - max c 1) xs)
       \<and> unat (rq_dropped_total q) = min (length xs - max c 1) (2 ^ 64 - 1)
       \<and> fst (queue_drain n now q) = map attempted (take n (rq_entries q))
       \<and> rq_entries (requeue_front (fst (queue_drain n now q)) (snd (queue_drain n now q)))
           = map attempted (take n (rq_entries q)) @ drop n (rq_entries q)
       \<and> rq_dropped_total (requeue_front (fst (queue_drain n now q)) (snd (queue_drain n now q))) = rq_dropped_total q"
proof -
  note exact = enqueue_all_exact [of xs c, folded q_def]
  have "length (rq_entries q) \<le> rq_capacity q" using exact by simp
  then have "length (map attempted (take n (rq_entries q)) @ drop n (rq_entries q)) - rq_capacity q = 0" by simp
  then show ?thesis
    using exact by (simp add: queue_drain_def requeue_front_def count_dropped_def Let_def)
qed

section \<open>Returning what was not delivered\<close>

definition batch_key :: "usage_sum \<Rightarrow> uuid option \<times> string option" where
  "batch_key u = (us_cycle_id u, us_model u)"

definition buffer_ok :: "ledger_buffer \<Rightarrow> bool" where
  "buffer_ok b \<longleftrightarrow> list_all (\<lambda>e. bu_kind e = RkActionLedger) (lb_actions b)
     \<and> list_all (\<lambda>e. bu_kind e = RkBrainTrace) (lb_traces b) \<and> distinct (map batch_key (lb_usage b))"

lemma same_batch_key: "same_batch u v \<longleftrightarrow> batch_key u = batch_key v"
  by (simp add: same_batch_def batch_key_def)

lemma batch_usage_keys:
  "map batch_key (batch_usage u us)
     = (if batch_key u \<in> batch_key ` set us then map batch_key us else map batch_key us @ [batch_key u])"
  by (induction u us rule: batch_usage.induct) (auto simp: same_batch_key usage_merge_def batch_key_def)

lemma batch_usage_new: "batch_key u \<notin> batch_key ` set us \<Longrightarrow> batch_usage u us = us @ [u]"
  by (induction u us rule: batch_usage.induct) (auto simp: same_batch_key)

lemma batch_usage_distinct: "distinct (map batch_key us) \<Longrightarrow> distinct (map batch_key (batch_usage u us))"
  by (simp add: batch_usage_keys)

lemma fold_batch_distinct: "distinct (map batch_key us) \<Longrightarrow> distinct (map batch_key (fold batch_usage vs us))"
  by (induction vs arbitrary: us) (simp_all add: batch_usage_distinct)

lemma fold_batch_new: "distinct (map batch_key (us @ vs)) \<Longrightarrow> fold batch_usage vs us = us @ vs"
proof (induction vs arbitrary: us)
  case (Cons v vs)
  then have "batch_usage v us = us @ [v]" by (intro batch_usage_new) auto
  with Cons show ?case by simp
qed simp

datatype buffer_op =
    BufAction uuid json instant "bool list"
  | BufTrace uuid json instant
  | BufUsage usage_sum
  | BufDrain "nat \<Rightarrow> uuid" instant
  | BufReturn "buffered_report list"

fun buffer_step :: "wire_text \<Rightarrow> buffer_op \<Rightarrow> ledger_buffer \<Rightarrow> ledger_buffer" where
  "buffer_step wt (BufAction i payload now pauses) b = snd (push_waiting i payload now pauses b)"
| "buffer_step wt (BufTrace i payload now) b = push_trace i payload now b"
| "buffer_step wt (BufUsage u) b = push_usage u b"
| "buffer_step wt (BufDrain fresh now) b = snd (buffer_drain wt fresh now b)"
| "buffer_step wt (BufReturn entries) b = buffer_requeue wt entries b"

lemma fresh_report_kind [simp]: "bu_kind (fresh_report i k p t) = k" "bu_kind (attempted e) = bu_kind e"
  by (simp_all add: fresh_report_def attempted_def)

lemma try_push_ok: "buffer_ok b \<Longrightarrow> try_push_action i payload now b = Some b' \<Longrightarrow> buffer_ok b'"
  by (auto simp: buffer_ok_def try_push_action_def split: if_splits)

lemma sacrifice_ok: "buffer_ok b \<Longrightarrow> buffer_ok (snd (sacrifice_actions n b))"
  by (auto simp: buffer_ok_def sacrifice_actions_def list_all_iff dest: in_set_dropD)

lemma emptied_ok: "buffer_ok (b\<lparr> lb_actions := [], lb_traces := [], lb_usage := [] \<rparr>)"
  by (simp add: buffer_ok_def)

lemma push_waiting_ok: "buffer_ok b \<Longrightarrow> buffer_ok (snd (push_waiting i payload now pauses b))"
proof (induction pauses arbitrary: b)
  case Nil
  then show ?case
    using sacrifice_ok [of b] by (auto simp: case_prod_beta dest: try_push_ok split: option.split)
next
  case (Cons d pauses)
  then show ?case using emptied_ok by (auto dest: try_push_ok split: option.split)
qed

lemma buffer_step_ok: "buffer_ok b \<Longrightarrow> buffer_ok (buffer_step wt op b)"
proof (cases op)
  case (BufAction i payload now pauses)
  assume "buffer_ok b"
  with BufAction show ?thesis by (simp add: push_waiting_ok)
next
  case (BufTrace i payload now)
  assume "buffer_ok b"
  with BufTrace show ?thesis
    by (auto simp: buffer_ok_def push_trace_def list_all_iff Let_def case_prod_beta dest: in_set_dropD)
qed (auto simp: buffer_ok_def push_usage_def batch_usage_distinct buffer_drain_def buffer_requeue_def
      fold_batch_distinct list_all_iff Let_def)

lemma buffer_run_ok: "buffer_ok (fold (buffer_step wt) ops buffer_new)"
proof -
  have "buffer_ok b \<Longrightarrow> buffer_ok (fold (buffer_step wt) ops b)" for b
    by (induction ops arbitrary: b) (simp_all add: buffer_step_ok)
  then show ?thesis by (simp add: buffer_ok_def buffer_new_def)
qed

lemma word_json [simp]: "word_of_json (json_word w) = Some w"
  by (simp add: json_word_def)

lemma usage_json_back:
  assumes "\<forall>i. wt_parse_uuid wt (wt_uuid wt i) = Some i"
  shows "usage_of_json wt (usage_json wt now u) = Some u"
proof -
  have words: "opt_of_json word_of_json (Some (json_opt json_word v)) = Some v" for v :: "u64 option"
  proof (cases v)
    case (Some w)
    have "opt_of_json (word_of_json :: json \<Rightarrow> u64 option) (Some (json_word w)) = map_option Some (word_of_json (json_word w))"
      by (simp add: opt_of_json_def json_word_def)
    with Some show ?thesis by (simp add: json_opt_def)
  qed (simp add: opt_of_json_def json_opt_def)
  have ids: "opt_of_json (uuid_of_json wt) (Some (json_opt (\<lambda>i. JStr (wt_uuid wt i)) v)) = Some v" for v
    using assms by (cases v) (simp_all add: opt_of_json_def json_opt_def uuid_of_json_def)
  have texts: "opt_of_json as_string (Some (json_opt JStr v)) = Some v" for v
    by (cases v) (simp_all add: opt_of_json_def json_opt_def)
  show ?thesis
    using assms by (simp add: usage_of_json_def usage_json_def words ids texts) (simp add: uuid_of_json_def)
qed

lemma map_filter_all: "(\<And>x. x \<in> set xs \<Longrightarrow> f x = Some (g x)) \<Longrightarrow> List.map_filter f xs = map g xs"
  by (induction xs) (auto simp: map_filter_simps)

lemma map_filter_none: "(\<And>x. x \<in> set xs \<Longrightarrow> f x = None) \<Longrightarrow> List.map_filter f xs = []"
  by (induction xs) (auto simp: map_filter_simps)

lemma map_filter_append: "List.map_filter f (xs @ ys) = List.map_filter f xs @ List.map_filter f ys"
  by (simp add: List.map_filter_def)

lemma map_filter_map: "List.map_filter f (map g xs) = List.map_filter (f \<circ> g) xs"
  by (simp add: List.map_filter_def filter_map comp_def)

lemma drained_returned:
  assumes "buffer_ok b" and "\<forall>i. wt_parse_uuid wt (wt_uuid wt i) = Some i"
  shows "buffer_requeue wt (fst (buffer_drain wt fresh now b)) (snd (buffer_drain wt fresh now b))
       = b\<lparr> lb_actions := map attempted (lb_actions b), lb_traces := map attempted (lb_traces b) \<rparr>"
proof -
  define us where "us = map (\<lambda>(i, u). attempted (fresh_report (fresh i) RkTokenUsage (usage_json wt now u) now))
              (zip [0..<length (lb_usage b)] (lb_usage b))"
  have entries: "fst (buffer_drain wt fresh now b) = map attempted (lb_actions b) @ map attempted (lb_traces b) @ us"
    by (simp add: buffer_drain_def us_def case_prod_beta comp_def)
  let ?read = "\<lambda>e. if bu_kind e = RkTokenUsage then usage_of_json wt (bu_payload e) else None"
  have kinds: "bu_kind e = RkTokenUsage" if "e \<in> set us" for e using that by (auto simp: us_def)
  have acts: "bu_kind e = RkActionLedger" if "e \<in> set (lb_actions b)" for e
    using that assms(1) by (simp add: buffer_ok_def list_all_iff)
  have trs: "bu_kind e = RkBrainTrace" if "e \<in> set (lb_traces b)" for e
    using that assms(1) by (simp add: buffer_ok_def list_all_iff)
  have "List.map_filter ?read us = map snd (zip [0..<length (lb_usage b)] (lb_usage b))"
    unfolding us_def map_filter_map
    by (rule map_filter_all) (auto simp: attempted_def fresh_report_def usage_json_back [OF assms(2)])
  moreover have "List.map_filter ?read (map attempted (lb_actions b)) = []"
    "List.map_filter ?read (map attempted (lb_traces b)) = []"
    by (rule map_filter_none; auto simp: acts trs)+
  moreover have "fold batch_usage (lb_usage b) [] = lb_usage b"
    using fold_batch_new [of "[]" "lb_usage b"] assms(1) by (simp add: buffer_ok_def)
  moreover have "filter (\<lambda>e. bu_kind e = RkActionLedger) (fst (buffer_drain wt fresh now b)) = map attempted (lb_actions b)"
    "filter (\<lambda>e. bu_kind e = RkBrainTrace) (fst (buffer_drain wt fresh now b)) = map attempted (lb_traces b)"
    unfolding entries using kinds acts trs by (auto simp: filter_empty_conv filter_id_conv)
  ultimately show ?thesis
    unfolding buffer_requeue_def entries
    by (simp add: map_filter_append Let_def buffer_drain_def)
qed

lemma push_waiting_admits:
  assumes "length (lb_actions b) < 10240"
  shows "\<exists>before. lb_actions (snd (push_waiting i payload now pauses b)) = before @ [fresh_report i RkActionLedger payload now]
     \<and> (fst (push_waiting i payload now pauses b) = []
        \<or> list_all Not pauses \<and> fst (push_waiting i payload now pauses b) = take 2048 (lb_actions b))"
  using assms
proof (induction pauses arbitrary: b)
  case Nil
  then show ?case
    by (auto simp: try_push_action_def sacrifice_actions_def LEDGER_ACTION_CAPACITY_def split: option.split)
next
  case (Cons d pauses)
  show ?case
  proof (cases "try_push_action i payload now b")
    case (Some b')
    then show ?thesis by (auto simp: try_push_action_def split: if_splits)
  next
    case None
    show ?thesis
    proof (cases d)
      case True
      let ?b = "b\<lparr> lb_actions := [], lb_traces := [], lb_usage := [] \<rparr>"
      have "\<exists>before. lb_actions (snd (push_waiting i payload now pauses ?b)) = before @ [fresh_report i RkActionLedger payload now]
          \<and> fst (push_waiting i payload now pauses ?b) = []"
        using Cons.IH [of ?b] by auto
      with None True show ?thesis by simp
    next
      case False
      with None Cons.IH [OF Cons.prems] show ?thesis by simp
    qed
  qed
qed


definition plain_text :: wire_text where
  "plain_text = \<lparr> wt_uuid = (\<lambda>i. show_nat (unat i)), wt_parse_uuid = (\<lambda>s. map_option of_nat (parse_digits s)),
                  wt_time = show_int \<rparr>"

definition sample_usage :: usage_sum where
  "sample_usage =
     \<lparr> us_usage_id = 7, us_cycle_id = Some 3, us_model = Some ''m'', us_prompt_tokens = Some 10,
       us_completion_tokens = None, us_total_tokens = Some 10, us_calls = 1, us_unknown_usage = 0, us_duration_ms = 5 \<rparr>"

definition sample_buffer :: ledger_buffer where
  "sample_buffer = fold (buffer_step plain_text) [BufAction 1 JNull 0 [], BufUsage sample_usage] buffer_new"


section \<open>Where custody is lost\<close>

text \<open>
  A failed send loses the entry and everything drained behind it: nothing of it is in flight and the
  buffer has been emptied, although the flush documents that nothing leaves custody on send alone.
\<close>

theorem failed_flush_loses_entries:
  assumes "sends 0 = None" and "\<not> buffer_empty b"
  shows "flush_ledger wt fresh sends now b flight
           = (False, b\<lparr> lb_actions := [], lb_traces := [], lb_usage := [] \<rparr>, flight)"
proof -
  obtain e es where "fst (buffer_drain wt fresh now b) = e # es"
    using assms(2) by (cases "fst (buffer_drain wt fresh now b)") (auto simp: buffer_drain_def buffer_empty_def)
  with assms(1) show ?thesis by (simp add: flush_ledger_def case_prod_beta buffer_drain_def)
qed

text \<open>
  The rolling sum forgets known tokens after an unknown call: the comment says unknowns do not drag
  known sums down.
\<close>

theorem unknown_usage_swallows_known:
  "us_total_tokens u = None \<Longrightarrow> us_total_tokens (usage_merge v u) = None"
  by (simp add: usage_merge_def sum_opt_def)

text \<open>
  A usage batch the cloud keeps rejecting is sent forever: returning it forgets its attempts, so the
  cap of eight attempts never applies.
\<close>

theorem rejected_usage_sent_forever:
  assumes "\<forall>i. wt_parse_uuid wt (wt_uuid wt i) = Some i"
  shows "let b = buffer_new\<lparr> lb_usage := [u] \<rparr>; e = hd (fst (buffer_drain wt fresh now b))
         in on_ack wt m False [(m, e)] q (snd (buffer_drain wt fresh now b)) = ([], q, b)"
  using assms
  by (simp add: Let_def buffer_drain_def buffer_new_def on_ack_def attempted_def fresh_report_def is_ledger_def
      MAX_SEND_ATTEMPTS_def sat_add_def word_le_nat_alt buffer_requeue_def map_filter_simps usage_json_back)

text \<open>
  A buffer that returns have filled past the capacity and a quarter admits no action event after the
  wait, and the event is dropped where the source expects that room exists.
\<close>

theorem overfull_buffer_drops_event:
  assumes "10240 \<le> length (lb_actions b)" and "list_all Not pauses"
  shows "lb_actions (snd (push_waiting i payload now pauses b)) = drop 2048 (lb_actions b)"
  using assms
  by (induction pauses arbitrary: b)
     (auto simp: try_push_action_def sacrifice_actions_def LEDGER_ACTION_CAPACITY_def)

text \<open>The losses a buffered trace reports.\<close>

definition reported_loss :: "buffered_report \<Rightarrow> nat" where
  "reported_loss e =
     (case json_get ''coalesced_before'' (bu_payload e) of Some (JNum (PosInt n)) \<Rightarrow> n | _ \<Rightarrow> 0)"

lemma push_trace_reports:
  assumes "lb_dropped_traces b = 0" and "length (lb_traces b) \<le> 256"
  shows "\<exists>e. lb_traces (push_trace i (trace_payload wt lg t) now b) = drop (length (lb_traces b) - 255) (lb_traces b) @ [e]
     \<and> reported_loss e \<le> 1 \<and> lb_dropped_traces (push_trace i (trace_payload wt lg t) now b) = 0"
proof -
  let ?excess = "length (lb_traces b) - 255"
  obtain m where m: "trace_payload wt lg t = JObj m" "map_of m ''coalesced_before'' = Some (JNum (PosInt 0))"
    by (simp add: trace_payload_def member_def split: option.split)
  have "?excess = 0 \<or> ?excess = 1" using assms(2) by arith
  then have "unat (((\<lambda>d::u64. sat_add d 1) ^^ ?excess) 0) \<le> 1"
    by (auto simp: saturating_count)
  then show ?thesis
    using assms by (auto simp: push_trace_def LEDGER_TRACE_CAPACITY_def Let_def case_prod_beta m reported_loss_def
        fresh_report_def map_of_obj_insert word_gt_0)
qed

text \<open>
  Losses of traces are under-reported in a long outage: a trace that carries the count of earlier
  losses is itself dropped later. However many traces are pushed while nothing is drained, the
  buffered ones report at most 256 losses and none is pending, although the count is documented to
  be reported exactly once.
\<close>

theorem coalesced_losses_underreported:
  "let b = fold (\<lambda>t. push_trace 0 (trace_payload wt lg t) now) ts buffer_new
   in length (lb_traces b) = min (length ts) 256 \<and> lb_dropped_traces b = 0
    \<and> sum_list (map reported_loss (lb_traces b)) \<le> 256"
proof -
  let ?b = "\<lambda>ts. fold (\<lambda>t. push_trace 0 (trace_payload wt lg t) now) ts buffer_new"
  have "length (lb_traces (?b ts)) = min (length ts) 256 \<and> lb_dropped_traces (?b ts) = 0
      \<and> (\<forall>e \<in> set (lb_traces (?b ts)). reported_loss e \<le> 1)"
  proof (induction ts rule: rev_induct)
    case Nil
    show ?case by (simp add: buffer_new_def)
  next
    case (snoc t ts)
    then have "lb_dropped_traces (?b ts) = 0" "length (lb_traces (?b ts)) \<le> 256" by simp_all
    from push_trace_reports [OF this, of 0 wt lg t now] snoc show ?case
      by (auto dest!: in_set_dropD)
  qed
  moreover have "\<forall>e \<in> set es. reported_loss e \<le> 1 \<Longrightarrow> sum_list (map reported_loss es) \<le> length es" for es
    by (induction es) auto
  ultimately show ?thesis by (fastforce simp: Let_def)
qed

text \<open>
  A target is uploaded as it stands, at up to 2000 characters: it is copied from the arguments without
  redaction, although the module says raw arguments never leave, and clipped at the bound of free
  text although the contract bounds a target at 500.
\<close>

theorem target_uploaded_raw:
  assumes "la_target e = Some t" and "length t \<le> 2000"
  shows "json_get ''target'' (action_payload wt lg e cycle) = Some (JStr t)"
  using assms
  by (simp add: action_payload_def member_def bound_text_def MAX_LEDGER_TEXT_LEN_def split: option.split)

lemma find_str_skip: "c \<noteq> d \<Longrightarrow> find_str (d # p) (replicate n c @ xs) = map_option (\<lambda>i. i + n) (find_str (d # p) xs)"
  by (induction n) (auto simp: starts_with_def option.map_comp comp_def option.map_ident)

lemma spaces:
  "dropWhile is_whitespace (replicate n (CHR '' '') @ xs) = dropWhile is_whitespace xs"
  "takeWhile is_whitespace (replicate n (CHR '' '') @ xs) = replicate n (CHR '' '') @ takeWhile is_whitespace xs"
  by (induction n) (simp_all add: is_whitespace_def)

lemma entropy_loop_spaces: "entropy_loop lg [] (replicate n (CHR '' '') @ xs) = replicate n (CHR '' '') @ entropy_loop lg [] xs"
  by (induction n) (simp_all add: is_run_char_def is_ascii_digit_def flush_run_def short_not_random)

text \<open>Text is clipped before it is redacted, and redaction may lengthen it past the contract's bound.\<close>

theorem redaction_exceeds_bound:
  "length (trace_text lg (replicate 1993 (CHR '' '') @ ''TOKEN=y'')) = 2009"
proof -
  let ?sp = "replicate 1993 (CHR '' '')"
  have "length (?sp @ ''TOKEN=y'') = 2000" by simp
  then have clip: "bound_text (?sp @ ''TOKEN=y'') MAX_LEDGER_TEXT_LEN = ?sp @ ''TOKEN=y''"
    by (simp only: bound_text_def MAX_LEDGER_TEXT_LEN_def take_all le_refl)
  have "find_str ''authorization'' (map ascii_lower (?sp @ ''TOKEN=y'')) = None"
    by (simp only: map_append map_replicate) (simp add: find_str_skip ascii_lower_def starts_with_def char_of_def bit_0)
  then have auth: "redact_authorization_headers (?sp @ ''TOKEN=y'') = ?sp @ ''TOKEN=y''"
    by (subst redact_authorization_headers.simps) simp
  have "secret_assignment (?sp @ ''TOKEN=y'') = Some (''TOKEN'', CHR ''='', ''y'')"
    by (simp add: secret_assignment_def assignment_of_def spaces trim_def is_whitespace_def is_secret_key_def
        SECRET_KEY_MARKERS_def starts_with_def ascii_lower_def char_of_def bit_0)
  then have line: "redact_line (?sp @ ''TOKEN=y'') = ?sp @ ''TOKEN=[redacted]''"
    by (simp add: redact_line_def spaces starts_with_def LEDGER_REDACTED_def is_whitespace_def)
  have "split_on (CHR 0x0A) (?sp @ ''TOKEN=y'') = [?sp @ ''TOKEN=y'']"
    by (rule split_on_id) simp
  with line have env: "redact_env_assignments (?sp @ ''TOKEN=y'') = ?sp @ ''TOKEN=[redacted]''"
    by (simp add: redact_env_assignments_def)
  have "entropy_loop lg [] ''TOKEN=[redacted]'' = ''TOKEN=[redacted]''"
    by (simp add: is_run_char_def is_ascii_digit_def flush_run_def short_not_random)
  with clip auth env show ?thesis
    by (simp only: trace_text_def redact_text_def redact_high_entropy_runs_def entropy_loop_spaces) simp
qed

end
