(* ===== verification/Brain.thy ===== *)
theory Brain
  imports Remediation_Service Sensors Ledger
begin

text \<open>
  The brain (\<open>argus-daemon\<close>, \<open>brain.rs\<close> and \<open>brain_state.rs\<close>, with \<open>propose_procedure\<close> of
  \<open>runtime.rs\<close> and the situation thresholds of \<open>config.rs\<close>): the loop that reads the host,
  turns readings into situations, drives promoted runbooks or asks the decision provider, acts
  through the remediation service at the effective autonomy and remembers what happened. The readings
  of a cycle, the provider, the text of numbers and errors, fresh identifiers and the results of the
  store's writes are parameters.
\<close>

section \<open>Situations\<close>

definition HOST_HEALTH :: string where "HOST_HEALTH = ''host-health''"
definition MEMORY_PRESSURE :: string where "MEMORY_PRESSURE = ''memory-pressure''"
definition DISK_PRESSURE :: string where "DISK_PRESSURE = ''disk-pressure''"

record situation =
  st_signature :: string
  st_subject :: string
  st_detail :: string

record readings =
  rd_failed_units :: "(string \<times> string) list"
  rd_memory :: "mem_info option"
  rd_disk :: "disk_usage option"

record situations_config =
  sc_memory_used_percent :: float_val
  sc_disk_used_percent :: float_val

text \<open>\<open>f64::clamp\<close>: a NaN stays.\<close>

fun clamp_float :: "rat \<Rightarrow> rat \<Rightarrow> float_val \<Rightarrow> float_val" where
  "clamp_float lo hi NaN = NaN"
| "clamp_float lo hi PosInf = Fin hi"
| "clamp_float lo hi NegInf = Fin lo"
| "clamp_float lo hi (Fin q) = Fin (if q < lo then lo else if hi < q then hi else q)"

definition situations_config_of_wire :: "float_val option \<Rightarrow> float_val option \<Rightarrow> situations_config" where
  "situations_config_of_wire memory disk =
     \<lparr> sc_memory_used_percent = clamp_float 50 99 (case memory of Some v \<Rightarrow> v | None \<Rightarrow> Fin 90),
       sc_disk_used_percent = clamp_float 50 99 (case disk of Some v \<Rightarrow> v | None \<Rightarrow> Fin 90) \<rparr>"

definition dedup_key :: "situation \<Rightarrow> string" where
  "dedup_key s = st_signature s @ '':'' @ st_subject s"

definition failed_units :: "(string \<times> string \<times> string) list option \<Rightarrow> (string \<times> string) list \<times> bool" where
  "failed_units units =
     (case units of
        None \<Rightarrow> ([], False)
      | Some us \<Rightarrow> (sort_key fst (map (\<lambda>(name, active, sub). (name, active @ '' '' @ sub))
                       (filter (\<lambda>(_, active, _). active = ''failed'') us)), True))"

definition situations_from :: "(float_val \<Rightarrow> string) \<Rightarrow> readings \<Rightarrow> situations_config \<Rightarrow> situation list" where
  "situations_from show_pct r config =
     (case rd_failed_units r of
        [] \<Rightarrow> []
      | (u, state) # _ \<Rightarrow> [\<lparr> st_signature = HOST_HEALTH, st_subject = u, st_detail = state \<rparr>])
     @ (case rd_memory r of
          None \<Rightarrow> []
        | Some m \<Rightarrow>
            if float_ge (used_percent m) (sc_memory_used_percent config)
            then [\<lparr> st_signature = MEMORY_PRESSURE, st_subject = ''mem'',
                    st_detail = ''mem at '' @ show_pct (used_percent m) @ ''%'' \<rparr>] else [])
     @ (case rd_disk r of
          None \<Rightarrow> []
        | Some d \<Rightarrow>
            if float_ge (du_used_percent d) (sc_disk_used_percent config)
            then [\<lparr> st_signature = DISK_PRESSURE, st_subject = du_mount d,
                    st_detail = du_mount d @ '' at '' @ show_pct (du_used_percent d) @ ''%'' \<rparr>] else [])"

definition resolved_pressure_keys :: "readings \<Rightarrow> situations_config \<Rightarrow> string list" where
  "resolved_pressure_keys r config =
     (case rd_memory r of
        None \<Rightarrow> []
      | Some m \<Rightarrow> if float_less (used_percent m) (sc_memory_used_percent config) then [MEMORY_PRESSURE @ '':mem''] else [])
     @ (case rd_disk r of
          None \<Rightarrow> []
        | Some d \<Rightarrow> if float_less (du_used_percent d) (sc_disk_used_percent config)
                    then [DISK_PRESSURE @ '':'' @ du_mount d] else [])"

definition release_resolved_pressure :: "readings \<Rightarrow> situations_config \<Rightarrow> 'h daemon \<Rightarrow> 'h daemon" where
  "release_resolved_pressure r config d =
     fold (\<lambda>key d. if pending_holds_dedup key d then d else release_dedup key d) (resolved_pressure_keys r config) d"

definition situation_dedup_key :: "(json \<Rightarrow> string) \<Rightarrow> situation \<Rightarrow> context_builder \<Rightarrow> string" where
  "situation_dedup_key to_text s b = (if st_signature s = HOST_HEALTH then canonical_key to_text b else dedup_key s)"

fun join_bar :: "string list \<Rightarrow> string" where
  "join_bar [] = []"
| "join_bar [w] = w"
| "join_bar (w # ws) = w @ ''|'' @ join_bar ws"

definition situation_set_key :: "situation list \<Rightarrow> string" where
  "situation_set_key ss = join_bar (sort (map dedup_key ss))"

definition pressure_signals :: "situation list \<Rightarrow> (string \<times> severity) list" where
  "pressure_signals ss =
     map (\<lambda>s. (st_subject s, Warning))
       (filter (\<lambda>s. st_signature s = MEMORY_PRESSURE \<or> st_signature s = DISK_PRESSURE) ss)"

definition add_situation_evidence :: "string \<Rightarrow> situation \<Rightarrow> context_builder \<Rightarrow> context_builder" where
  "add_situation_evidence host s b =
     (if st_signature s = HOST_HEALTH
      then evidence host ''service.state'' (JStr (st_detail s)) (evidence host ''unit'' (JStr (st_subject s)) b)
      else evidence host ''pressure'' (JStr (st_detail s)) (evidence host ''situation'' (JStr (st_signature s)) b))"

definition evidence_line :: "situation \<Rightarrow> string" where
  "evidence_line s =
     (if st_signature s = HOST_HEALTH then st_subject s @ '': '' @ st_detail s else st_signature s @ '': '' @ st_detail s)"

section \<open>Procedure plans\<close>

definition promoted_runbook :: "'h daemon \<Rightarrow> string \<Rightarrow> runbook option" where
  "promoted_runbook d signature =
     find (\<lambda>r. rb_status r = RbPromoted \<and> matches_trigger r (Symptom signature)) (library_list (rm_library (dm_runbooks d)))"

fun worst_blast_radius :: "blast_radius \<Rightarrow> blast_radius \<Rightarrow> blast_radius" where
  "worst_blast_radius a b =
     (if a = RadiusFleet \<or> b = RadiusFleet then RadiusFleet
      else if a = RadiusEnvironment \<or> b = RadiusEnvironment then RadiusEnvironment
      else if a = RadiusHost \<or> b = RadiusHost then RadiusHost else RadiusNone)"

definition situation_arguments :: "situation \<Rightarrow> json" where
  "situation_arguments s =
     JObj [(if st_signature s = HOST_HEALTH then ''unit'' else ''subject'', JStr (st_subject s))]"

definition conforming :: "capability_descriptor list \<Rightarrow> json \<Rightarrow> capability_id \<Rightarrow> capability_descriptor option" where
  "conforming descriptors arguments c =
     (case find (\<lambda>d. cd_id d = c) descriptors of
        None \<Rightarrow> None | Some d \<Rightarrow> if input_matches (cd_input_schema d) arguments then Some d else None)"

fun procedure_steps ::
  "capability_descriptor list \<Rightarrow> json \<Rightarrow> capability_id list \<Rightarrow> nat \<Rightarrow> capability_id list \<Rightarrow>
   plan_step list \<times> blast_radius \<Rightarrow> plan_step list \<times> blast_radius" where
  "procedure_steps ds arguments rollbacks i [] acc = acc"
| "procedure_steps ds arguments rollbacks i (c # cs) (steps, radius) =
     procedure_steps ds arguments rollbacks (Suc i) cs
       (case conforming ds arguments c of
          None \<Rightarrow> (steps, radius)
        | Some d \<Rightarrow>
            (let action = (\<lambda>c. \<lparr> ac_capability = c, ac_resource = None, ac_arguments = arguments \<rparr>);
                 rollback = Option.bind (nth_opt rollbacks i)
                   (\<lambda>rb. if conforming ds arguments rb = None then None else Some (action rb))
             in (steps @ [\<lparr> ps_action = action c, ps_rollback = rollback \<rparr>],
                 worst_blast_radius radius (effective_blast_radius d))))"

definition procedure_plan :: "runbook \<Rightarrow> situation \<Rightarrow> capability_descriptor list \<Rightarrow> plan option" where
  "procedure_plan r s descriptors =
     (let (steps, radius) = procedure_steps descriptors (situation_arguments s) (rb_rollback r) 0 (rb_allowed_actions r)
                              ([], RadiusNone)
      in if steps = [] then None
         else Some \<lparr> pl_objective = ''procedure: '' @ rb_name r, pl_steps = steps, pl_preconditions = [],
                     pl_expected_outcomes = [], pl_blast_radius = radius,
                     pl_confidence = Fin (case historical_success_rate r of Some q \<Rightarrow> q | None \<Rightarrow> 1 / 2),
                     pl_status = Proposed, pl_runbook = Some (rb_name r) \<rparr>)"

definition propose_procedure :: "runbook \<Rightarrow> situation \<Rightarrow> string \<Rightarrow> 'h daemon \<Rightarrow> (plan \<times> string) option \<times> 'h daemon" where
  "propose_procedure r s key d =
     (let (fresh, d1) = claim_dedup key d
      in if \<not> fresh then (None, d1)
         else case procedure_plan r s (capability_descriptors d1) of
                Some p \<Rightarrow> (Some (p, key), d1)
              | None \<Rightarrow> (None, release_dedup key d1))"

section \<open>The agent's state\<close>

record brain_cycle =
  by_cycle_id :: "uuid option"
  by_consulted_live :: bool
  by_evidence :: "string list"
  by_provider_available :: bool
  by_decision :: "string option"
  by_plan_objective :: "string option"
  by_runbook :: "string option"
  by_steps :: "string list"
  by_outcome :: "string option"
  by_validation_failed :: bool

definition brain_cycle_start :: "bool \<Rightarrow> brain_cycle" where
  "brain_cycle_start consulted =
     \<lparr> by_cycle_id = None, by_consulted_live = consulted, by_evidence = [], by_provider_available = False, by_decision = None,
       by_plan_objective = None, by_runbook = None, by_steps = [], by_outcome = None, by_validation_failed = False \<rparr>"

record brain_cycle_record =
  yr_cycle_id :: "uuid option"
  yr_evidence :: "string list"
  yr_provider_available :: bool
  yr_decision :: "string option"
  yr_plan :: "string option"
  yr_runbook :: "string option"
  yr_outcome :: "string option"
  yr_time :: instant

record brain_control =
  bl_autonomy :: autonomy_mode
  bl_confidence_threshold :: float_val
  bl_interval_seconds :: u64

definition brain_control_default :: brain_control where
  "brain_control_default =
     \<lparr> bl_autonomy = L0Observe, bl_confidence_threshold = Fin (to_f64 (3 / 10)), bl_interval_seconds = 60 \<rparr>"

record 'h agent =
  ag_daemon :: "'h daemon"
  ag_ledger :: daemon_ledger
  ag_pressure :: "(string \<times> severity) list"
  ag_last_cycle :: "brain_cycle_record option"

record 'h brain_ports =
  bp_service :: "'h service_ports"
  bp_show_error :: "decision_error \<Rightarrow> string"
  bp_show_pct :: "float_val \<Rightarrow> string"
  bp_wire :: wire_text
  bp_lg :: "rat \<Rightarrow> rat"

text \<open>What one acting situation draws from outside: its moment, fresh identifiers, the store's answers.\<close>

record act_input =
  ai_moment :: moment
  ai_plan_id :: uuid
  ai_execution_id :: "nat \<Rightarrow> uuid"
  ai_event_id :: "nat \<Rightarrow> uuid"
  ai_entry_id :: "nat \<Rightarrow> uuid"
  ai_pauses :: "nat \<Rightarrow> bool list"
  ai_episode_id :: uuid
  ai_procedure_id :: uuid
  ai_row_id :: uuid
  ai_plan_written :: bool
  ai_execution_written :: "nat \<Rightarrow> bool"
  ai_event_written :: "nat \<Rightarrow> bool"
  ai_episode_written :: bool
  ai_procedures_listed :: bool
  ai_procedure_written :: bool

definition with_repository :: "(domain_repository \<Rightarrow> domain_repository) \<Rightarrow> 'h agent \<Rightarrow> 'h agent" where
  "with_repository f ag = ag\<lparr> ag_ledger := (ag_ledger ag)\<lparr> dl_repository := f (dl_repository (ag_ledger ag)) \<rparr> \<rparr>"

definition with_daemon :: "('h daemon \<Rightarrow> 'h daemon) \<Rightarrow> 'h agent \<Rightarrow> 'h agent" where
  "with_daemon f ag = ag\<lparr> ag_daemon := f (ag_daemon ag) \<rparr>"

section \<open>The ledger during a run\<close>

text \<open>The rows the loop and the service emitted, as the sink receives them.\<close>

definition row_of :: "uuid \<Rightarrow> instant \<Rightarrow> action_event_record \<Rightarrow> ledger_action" where
  "row_of i now a =
     \<lparr> la_event_id = i, la_correlation_id = ae_correlation a, la_causation_id = None, la_cycle_id = None,
       la_plan_id = Some (ae_correlation a), la_kind = ae_kind a, la_target = ae_target a, la_args = ae_args a,
       la_verdict = ae_verdict a, la_policy_id = ae_policy_id a, la_outcome = ae_outcome a, la_duration_ms = None,
       la_validation = ae_validation a, la_occurred_at = now \<rparr>"

definition trace_of :: "uuid \<Rightarrow> instant \<Rightarrow> brain_trace \<Rightarrow> ledger_trace" where
  "trace_of i now t =
     \<lparr> lt_trace_id = i, lt_cycle_id = bt_cycle_id t, lt_plan_id = bt_plan_id t, lt_evidence = bt_evidence t,
       lt_decision = bt_decision t, lt_objective = bt_objective t, lt_steps = bt_steps t, lt_outcome = bt_outcome t,
       lt_occurred_at = now \<rparr>"

definition sink_run :: "'h brain_ports \<Rightarrow> act_input \<Rightarrow> 'h daemon \<Rightarrow> 'h daemon \<Rightarrow> daemon_ledger \<Rightarrow> daemon_ledger" where
  "sink_run bp ai d d' l =
     (let rows = drop (length (dm_actions d)) (dm_actions d'); n = length rows;
          traces = drop (length (dm_traces d)) (dm_traces d'); now = mo_now (ai_moment ai);
          l1 = fold (\<lambda>(i, a). ledger_record_action (bp_wire bp) (bp_lg bp) (ai_entry_id ai i) now (ai_event_written ai i)
                                 (ai_pauses ai i) (row_of (ai_event_id ai i) now a)) (zip [0..<n] rows) l
      in fold (\<lambda>(i, t). ledger_record_trace (bp_wire bp) (bp_lg bp) (ai_entry_id ai i) now (ai_event_written ai i)
                           (trace_of (ai_event_id ai i) now t)) (zip [n..<n + length traces] traces) l1)"

section \<open>Acting\<close>

definition remember_episode :: "act_input \<Rightarrow> string \<Rightarrow> string option \<Rightarrow> bool \<Rightarrow> episode" where
  "remember_episode ai signature objective resolved =
     (let now = mo_now (ai_moment ai)
      in \<lparr> ep_id = ai_episode_id ai, ep_subject = ResourceId ''host:local'', ep_symptom = signature,
           ep_resource_class = ''host'', ep_root_cause = None, ep_remediation = objective,
           ep_outcome = (if resolved then EpResolved else EpUnresolved), ep_change_proximity = None,
           ep_started_at = now, ep_resolved_at = (if resolved then Some now else None) \<rparr>)"

definition remember :: "act_input \<Rightarrow> string \<Rightarrow> string option \<Rightarrow> bool \<Rightarrow> domain_repository \<Rightarrow> domain_repository" where
  "remember ai signature objective resolved r =
     (let now = mo_now (ai_moment ai);
          r1 = (if ai_episode_written ai
                then put_episode (ai_episode_id ai) (remember_episode ai signature objective resolved) r else r);
          name = (case objective of Some o1 \<Rightarrow> o1 | None \<Rightarrow> signature);
          existing = find (\<lambda>(_, p). pd_name p = name \<and> pd_trigger p = signature)
                       (if ai_procedures_listed ai then rp_procedures r1 else []);
          procedure = (case existing of
                         Some (_, p) \<Rightarrow> p
                       | None \<Rightarrow> procedure_new (ai_procedure_id ai) signature name ProcCandidate now);
          i = (case existing of Some (i, _) \<Rightarrow> i | None \<Rightarrow> ai_row_id ai)
      in if ai_procedure_written ai then put_procedure i (procedure_outcome resolved now procedure) r1 else r1)"

text \<open>
  The identifier of a stored execution is always fresh: the text the source tries to read, a plan
  identifier, a colon and an index, is not the text of an identifier.
\<close>

definition put_executions :: "act_input \<Rightarrow> execution list \<Rightarrow> domain_repository \<Rightarrow> domain_repository" where
  "put_executions ai es r =
     fold (\<lambda>(i, e) r. if ai_execution_written ai i then put_execution (ai_execution_id ai i) e r else r)
       (zip [0..<length es] es) r"

definition first_decision :: "plan \<Rightarrow> brain_cycle \<Rightarrow> brain_cycle" where
  "first_decision p rec =
     rec\<lparr> by_decision := Some (case pl_runbook p of
                                Some name \<Rightarrow> ''procedure plan from promoted runbook '' @ [CHR 0x27] @ name @ [CHR 0x27]
                              | None \<Rightarrow> ''provider decision passed the confidence gate''),
          by_plan_objective := Some (pl_objective p), by_runbook := pl_runbook p, by_steps := step_names p \<rparr>"

datatype act_flow = Acted | ActPanicked

definition act ::
  "'h brain_ports \<Rightarrow> brain_control \<Rightarrow> act_input \<Rightarrow> plan \<Rightarrow> string \<Rightarrow> string \<Rightarrow> brain_cycle \<times> 'h agent \<Rightarrow>
   act_flow \<times> brain_cycle \<times> 'h agent" where
  "act bp bc ai p key signature state =
     (let (rec0, ag0) = state; first = (by_plan_objective rec0 = None);
          rec1 = (if first then first_decision p rec0 else rec0);
          ag1 = (if ai_plan_written ai then with_repository (put_plan (ai_plan_id ai) p) ag0 else ag0);
          d = ag_daemon ag1; level = effective (dm_autonomy d) (bl_autonomy bc);
          (outcome, d1) = run_remediation (bp_service bp) (ai_moment ai) p level d;
          ag2 = ag1\<lparr> ag_daemon := d1, ag_ledger := sink_run bp ai d d1 (ag_ledger ag1) \<rparr>
      in case outcome of
           RunPanicked \<Rightarrow> (ActPanicked, rec1, ag2)
         | RunFinished report \<Rightarrow>
             (let resolved = (eo_status report = Completed);
                  rec2 = rec1\<lparr> by_validation_failed := by_validation_failed rec1 \<or> is_validation_failure (eo_status report),
                               by_outcome := (if first then Some (status_debug (eo_status report)) else by_outcome rec1) \<rparr>;
                  ag3 = with_repository (remember ai signature (Some (pl_objective p)) resolved
                                          \<circ> put_executions ai (eo_executions report)) ag2;
                  ag4 = with_daemon (note_runbook_outcome (ai_moment ai) p report) ag3
              in (Acted, rec2, if resolved then ag4 else with_daemon (release_dedup key) ag4))
         | RunPending pending \<Rightarrow>
             (let ag3 = (if pl_runbook p \<noteq> None
                         then with_daemon (store_pending (pending\<lparr> pp_dedup_key := Some key \<rparr>)) ag2 else ag2);
                  rec2 = (if first
                          then rec1\<lparr> by_outcome := Some (''awaiting approval '' @ wt_uuid (bp_wire bp) (pp_token pending)) \<rparr>
                          else rec1)
              in (Acted, rec2, with_repository (remember ai signature (Some (pl_objective p)) False) ag3)))"

section \<open>One cycle\<close>

record cycle_input =
  ci_cycle_id :: uuid
  ci_act :: "nat \<Rightarrow> act_input"
  ci_propose :: moment
  ci_usage_event :: uuid
  ci_usage_id :: uuid
  ci_usage_written :: bool
  ci_elapsed_ms :: u64
  ci_trace_id :: uuid
  ci_trace_entry :: uuid
  ci_trace_written :: bool
  ci_end :: instant

definition situation_evidence :: "situation \<Rightarrow> context_builder" where
  "situation_evidence s = add_situation_evidence ''host:local'' s context_new"

definition merged_evidence :: "situation list \<Rightarrow> context_builder" where
  "merged_evidence ss = fold (add_situation_evidence ''host:local'') ss context_new"

text \<open>The procedure pass: whether a plan fired, and whether the run of one panicked.\<close>

fun procedure_pass ::
  "'h brain_ports \<Rightarrow> brain_control \<Rightarrow> cycle_input \<Rightarrow> nat \<Rightarrow> situation list \<Rightarrow> bool \<times> brain_cycle \<times> 'h agent \<Rightarrow>
   act_flow \<times> bool \<times> brain_cycle \<times> 'h agent" where
  "procedure_pass bp bc ci n [] (fired, rec, ag) = (Acted, fired, rec, ag)"
| "procedure_pass bp bc ci n (s # ss) (fired, rec, ag) =
     (let attributed =
            (case promoted_runbook (ag_daemon ag) (st_signature s) of
               None \<Rightarrow> (None, ag_daemon ag)
             | Some r \<Rightarrow>
                 propose_procedure r s (situation_dedup_key (sp_to_text (bp_service bp)) s (situation_evidence s)) (ag_daemon ag));
          ag1 = ag\<lparr> ag_daemon := snd attributed \<rparr>
      in case fst attributed of
           None \<Rightarrow> procedure_pass bp bc ci (Suc n) ss (fired, rec, ag1)
         | Some (p, key) \<Rightarrow>
             (case act bp bc (ci_act ci n) p key (st_signature s) (rec, ag1) of
                (ActPanicked, rec2, ag2) \<Rightarrow> (ActPanicked, True, rec2, ag2)
              | (Acted, rec2, ag2) \<Rightarrow> procedure_pass bp bc ci (Suc n) ss (True, rec2, ag2)))"

text \<open>The metered call: a response, and only a response, is recorded with what it says of its usage.\<close>

definition meter_usage ::
  "'h brain_ports \<Rightarrow> cycle_input \<Rightarrow> decision_provider \<Rightarrow> context_builder \<Rightarrow> 'h daemon \<Rightarrow> daemon_ledger \<Rightarrow> daemon_ledger" where
  "meter_usage bp ci provider b d l =
     (if fst (claim (canonical_key (sp_to_text (bp_service bp)) b) (dm_dedup d))
      then (case provider (host_health_request b) of
              Inl _ \<Rightarrow> l
            | Inr response \<Rightarrow>
                ledger_record_usage (ci_usage_event ci) (ci_usage_id ci) (ci_usage_written ci)
                  \<lparr> ur_cycle_id = None, ur_model = ds_model response,
                    ur_prompt_tokens = Option.bind (ds_usage response) tu_prompt_tokens,
                    ur_completion_tokens = Option.bind (ds_usage response) tu_completion_tokens,
                    ur_total_tokens = Option.bind (ds_usage response) tu_total_tokens,
                    ur_duration_ms = Some (ci_elapsed_ms ci), ur_occurred_at = mo_now (ci_propose ci) \<rparr> l)
      else l)"

definition provider_pass ::
  "'h brain_ports \<Rightarrow> brain_control \<Rightarrow> cycle_input \<Rightarrow> decision_provider option \<Rightarrow> situation list \<Rightarrow> brain_cycle \<times> 'h agent \<Rightarrow>
   act_flow \<times> brain_cycle \<times> 'h agent" where
  "provider_pass bp bc ci provider ss state =
     (let (rec, ag) = state; quiet = (\<lambda>rec. rec\<lparr> by_decision := Some ''no actionable decision this cycle'' \<rparr>)
      in case provider of
           None \<Rightarrow> (Acted, rec, ag)
         | Some pr \<Rightarrow>
             (let set_key = situation_set_key ss; (claimed, d1) = claim_dedup set_key (ag_daemon ag)
              in if \<not> claimed then (Acted, quiet rec, ag\<lparr> ag_daemon := d1 \<rparr>)
                 else let merged = merged_evidence ss;
                          ag1 = ag\<lparr> ag_daemon := d1, ag_ledger := meter_usage bp ci pr merged d1 (ag_ledger ag) \<rparr>;
                          (result, d2) = propose_once (sp_to_text (bp_service bp)) (bp_show_error bp) (ci_propose ci) pr merged
                                           (bl_confidence_threshold bc) d1;
                          ag2 = ag1\<lparr> ag_daemon := d2 \<rparr>
                 in case result of
                      Inr (Some (p, _)) \<Rightarrow> act bp bc (ci_act ci (length ss)) p set_key HOST_HEALTH (rec, ag2)
                    | Inr None \<Rightarrow> (Acted, quiet rec, with_daemon (release_dedup set_key) ag2)
                    | Inl e \<Rightarrow> (Acted, rec\<lparr> by_decision := Some (''decision failed: '' @ bp_show_error bp e) \<rparr>, ag2)))"

definition run_cycle ::
  "'h brain_ports \<Rightarrow> brain_control \<Rightarrow> cycle_input \<Rightarrow> decision_provider option \<Rightarrow> situation list \<Rightarrow> bool \<Rightarrow> 'h agent \<Rightarrow>
   act_flow \<times> brain_cycle \<times> 'h agent" where
  "run_cycle bp bc ci provider ss consulted ag =
     (let ag1 = ag\<lparr> ag_pressure := pressure_signals ss \<rparr>;
          rec = (brain_cycle_start consulted)\<lparr> by_evidence := map evidence_line ss, by_provider_available := (provider \<noteq> None) \<rparr>
      in if ss = [] then (Acted, rec, ag1)
         else case procedure_pass bp bc ci 0 ss (False, rec, ag1) of
                (ActPanicked, _, rec2, ag2) \<Rightarrow> (ActPanicked, rec2, ag2)
              | (Acted, fired, rec2, ag2) \<Rightarrow>
                  if fired then (Acted, rec2, ag2) else provider_pass bp bc ci provider ss (rec2, ag2))"

text \<open>A panic unwinds the cycle's task: neither the frame is closed nor the trace written.\<close>

definition cycle_with_situations ::
  "'h brain_ports \<Rightarrow> brain_control \<Rightarrow> cycle_input \<Rightarrow> decision_provider option \<Rightarrow> situation list \<Rightarrow> bool \<Rightarrow> 'h agent \<Rightarrow>
   brain_cycle option \<times> 'h agent" where
  "cycle_with_situations bp bc ci provider ss consulted ag =
     (case run_cycle bp bc ci provider ss consulted (ag\<lparr> ag_ledger := enter_cycle (ci_cycle_id ci) (ag_ledger ag) \<rparr>) of
        (ActPanicked, _, ag1) \<Rightarrow> (None, ag1)
      | (Acted, rec, ag1) \<Rightarrow>
          (let (plan_ids, l1) = exit_cycle (ci_cycle_id ci) (ag_ledger ag1);
               trace = \<lparr> lt_trace_id = ci_trace_id ci, lt_cycle_id = Some (ci_cycle_id ci),
                         lt_plan_id = (case plan_ids of [] \<Rightarrow> None | i # _ \<Rightarrow> Some i), lt_evidence = by_evidence rec,
                         lt_decision = by_decision rec, lt_objective = by_plan_objective rec, lt_steps = by_steps rec,
                         lt_outcome = by_outcome rec, lt_occurred_at = ci_end ci \<rparr>
           in (Some (rec\<lparr> by_cycle_id := Some (ci_cycle_id ci) \<rparr>),
               ag1\<lparr> ag_ledger := ledger_record_trace (bp_wire bp) (bp_lg bp) (ci_trace_entry ci) (ci_end ci) (ci_trace_written ci)
                                  trace l1 \<rparr>)))"

record live_readings =
  lr_units :: "(string \<times> string \<times> string) list option"
  lr_memory :: "mem_info option"
  lr_disk :: "disk_usage option"

definition cycle ::
  "'h brain_ports \<Rightarrow> situations_config \<Rightarrow> brain_control \<Rightarrow> cycle_input \<Rightarrow> decision_provider option \<Rightarrow> live_readings \<Rightarrow> 'h agent \<Rightarrow>
   brain_cycle option \<times> 'h agent" where
  "cycle bp config bc ci provider lr ag =
     (let (failed, units_live) = failed_units (lr_units lr);
          r = \<lparr> rd_failed_units = failed, rd_memory = lr_memory lr, rd_disk = lr_disk lr \<rparr>;
          ss = situations_from (bp_show_pct bp) r config;
          ag1 = with_daemon (release_resolved_pressure r config) ag
      in cycle_with_situations bp bc ci provider ss (units_live \<or> lr_memory lr \<noteq> None \<or> lr_disk lr \<noteq> None) ag1)"

section \<open>The loop\<close>

record tick_input =
  ti_cycle :: cycle_input
  ti_readings :: live_readings
  ti_uptime :: u64
  ti_unix_ms :: u64
  ti_cloud_paired :: bool
  ti_written :: bool
  ti_now :: instant

definition tick_signals :: "brain_control \<Rightarrow> tick_input \<Rightarrow> brain_cycle \<Rightarrow> 'h daemon \<Rightarrow> cycle_signals" where
  "tick_signals bc ti rec d =
     \<lparr> cs_ceiling = bl_autonomy bc,
       cs_provider_ready = (by_provider_available rec \<and> ph_status (dm_provider_health d) = ProviderReady),
       cs_cloud_paired = ti_cloud_paired ti,
       cs_safe_mode_active =
         (safe_mode_from (snapshot (ti_uptime ti) (ti_unix_ms ti) (dm_selfobs d)) thresholds_default \<noteq> SafeNone),
       cs_open_critical_incidents = 0, cs_live_environment = by_consulted_live rec,
       cs_failed_validation = by_validation_failed rec \<rparr>"

definition cycle_record_of :: "instant \<Rightarrow> brain_cycle \<Rightarrow> brain_cycle_record" where
  "cycle_record_of now rec =
     \<lparr> yr_cycle_id = by_cycle_id rec, yr_evidence = by_evidence rec, yr_provider_available = by_provider_available rec,
       yr_decision = by_decision rec, yr_plan = by_plan_objective rec, yr_runbook = by_runbook rec,
       yr_outcome = by_outcome rec, yr_time = now \<rparr>"

definition tick ::
  "'h brain_ports \<Rightarrow> situations_config \<Rightarrow> brain_control \<Rightarrow> tick_input \<Rightarrow> decision_provider option \<Rightarrow> 'h agent \<Rightarrow> 'h agent" where
  "tick bp config bc ti provider ag =
     (case cycle bp config bc (ti_cycle ti) provider (ti_readings ti) ag of
        (None, ag1) \<Rightarrow> ag1
      | (Some rec, ag1) \<Rightarrow>
          with_daemon (\<lambda>d. d\<lparr> dm_autonomy := on_cycle (tick_signals bc ti rec d) (ti_written ti) (dm_autonomy d) \<rparr>)
            (ag1\<lparr> ag_last_cycle := Some (cycle_record_of (ti_now ti) rec) \<rparr>))"

section \<open>The control levers\<close>

fun as_f64 :: "json \<Rightarrow> float_val option" where
  "as_f64 (JNum (PosInt n)) = Some (Fin (to_f64 (of_nat n)))"
| "as_f64 (JNum (NegInt i)) = Some (Fin (signed_f64 (of_int i)))"
| "as_f64 (JNum (FloatNum x)) = Some x"
| "as_f64 _ = None"

fun as_u64 :: "json \<Rightarrow> u64 option" where
  "as_u64 (JNum (PosInt n)) = Some (of_nat n)"
| "as_u64 _ = None"

datatype setting_error =
    AutonomyNotString | NotALevel string | ThresholdNotNumber | ThresholdOutside float_val | IntervalNotInteger | IntervalBelowFloor u64

definition apply_to :: "string \<Rightarrow> json \<Rightarrow> brain_control \<Rightarrow> setting_error + brain_control" where
  "apply_to key v c =
     (if key = ''brain.autonomy''
      then (case as_string v of
              None \<Rightarrow> Inl AutonomyNotString
            | Some raw \<Rightarrow> (case deserialize_mode raw of
                             None \<Rightarrow> Inl (NotALevel raw) | Some m \<Rightarrow> Inr (c\<lparr> bl_autonomy := m \<rparr>)))
      else if key = ''brain.confidence_threshold''
      then (case as_f64 v of
              None \<Rightarrow> Inl ThresholdNotNumber
            | Some x \<Rightarrow> if float_ge x (Fin 0) \<and> float_ge (Fin 1) x then Inr (c\<lparr> bl_confidence_threshold := x \<rparr>)
                        else Inl (ThresholdOutside x))
      else if key = ''brain.interval_seconds''
      then (case as_u64 v of
              None \<Rightarrow> Inl IntervalNotInteger
            | Some n \<Rightarrow> if n < 5 then Inl (IntervalBelowFloor n) else Inr (c\<lparr> bl_interval_seconds := n \<rparr>))
      else Inr c)"

definition apply_setting :: "string \<Rightarrow> json \<Rightarrow> brain_control \<Rightarrow> setting_error option \<times> brain_control" where
  "apply_setting key v c = (case apply_to key v c of Inl e \<Rightarrow> (Some e, c) | Inr c' \<Rightarrow> (None, c'))"

fun validate_each :: "(string \<times> json) list \<Rightarrow> brain_control \<Rightarrow> setting_error + (string \<times> json) list" where
  "validate_each [] probe = Inr []"
| "validate_each ((key, v) # rest) probe =
     (if \<not> starts_with ''brain.'' key then validate_each rest probe
      else case apply_to key v probe of
             Inl e \<Rightarrow> Inl e
           | Inr probe' \<Rightarrow> map_sum id (\<lambda>applied. (key, v) # applied) (validate_each rest probe'))"

definition validate_all :: "brain_control \<Rightarrow> (string \<times> json) list \<Rightarrow> setting_error + (string \<times> json) list" where
  "validate_all c settings = validate_each settings c"

definition commit_one :: "string \<times> json \<Rightarrow> brain_control \<Rightarrow> brain_control" where
  "commit_one kv c = (case apply_to (fst kv) (snd kv) c of Inl _ \<Rightarrow> c | Inr c' \<Rightarrow> c')"

definition commit_all :: "(string \<times> json) list \<Rightarrow> brain_control \<Rightarrow> brain_control" where
  "commit_all applied c = fold commit_one applied c"

section \<open>Frames\<close>

lemma agent_simps [simp]:
  "ag_daemon (with_repository f ag) = ag_daemon ag"
  "ag_daemon (with_daemon g ag) = g (ag_daemon ag)"
  by (simp_all add: with_repository_def with_daemon_def)

lemma run_remediation_frame:
  "dm_dedup (snd (run_remediation sp mo p level d)) = dm_dedup d"
  "dm_registry (snd (run_remediation sp mo p level d)) = dm_registry d"
  "dm_provider_health (snd (run_remediation sp mo p level d)) = dm_provider_health d"
  by (auto simp: run_remediation_def absorb_def store_pending_def record_trace_def record_run_outcome_def Let_def
      case_prod_beta split: run_outcome.splits)

lemma service_dedup [simp]:
  "dm_dedup (note_runbook_outcome mo p report d) = dm_dedup d"
  "dm_dedup (release_dedup key d) = release key (dm_dedup d)"
  "dm_dedup (store_pending pending d) = dm_dedup d"
  by (auto simp: note_runbook_outcome_def release_dedup_def store_pending_def split: option.split)

lemma act_dedup:
  assumes "act bp bc ai p key signature (rec, ag) = (flow, rec', ag')"
    and "fst (run_remediation (bp_service bp) (ai_moment ai) p (effective (dm_autonomy (ag_daemon ag)) (bl_autonomy bc)) (ag_daemon ag))
          = outcome"
  shows "dm_dedup (ag_daemon ag') =
     (case outcome of RunFinished report \<Rightarrow> if eo_status report = Completed then dm_dedup (ag_daemon ag)
                                            else release key (dm_dedup (ag_daemon ag))
      | _ \<Rightarrow> dm_dedup (ag_daemon ag))"
proof -
  obtain d1 where run: "run_remediation (bp_service bp) (ai_moment ai) p (effective (dm_autonomy (ag_daemon ag)) (bl_autonomy bc))
      (ag_daemon ag) = (outcome, d1)" using assms(2) by (metis prod.collapse)
  then have "dm_dedup d1 = dm_dedup (ag_daemon ag)" by (metis run_remediation_frame(1) snd_conv)
  with assms(1) run show ?thesis
    by (cases outcome) (auto simp: act_def Let_def with_repository_def with_daemon_def split: if_splits)
qed

section \<open>Perception\<close>

lemma clamp_float_bounds:
  "lo \<le> hi \<Longrightarrow> x \<noteq> NaN \<Longrightarrow> \<exists>q. clamp_float lo hi x = Fin q \<and> lo \<le> q \<and> q \<le> hi"
  by (cases x) auto

lemma thresholds_clamped:
  assumes "memory \<noteq> Some NaN" and "disk \<noteq> Some NaN"
  obtains a b where "situations_config_of_wire memory disk = \<lparr> sc_memory_used_percent = Fin a, sc_disk_used_percent = Fin b \<rparr>"
    and "50 \<le> a" "a \<le> 99" "50 \<le> b" "b \<le> 99"
proof -
  let ?v = "\<lambda>w. case w of Some v \<Rightarrow> v | None \<Rightarrow> Fin (90::rat)"
  have "?v memory \<noteq> NaN" "?v disk \<noteq> NaN" using assms by (auto split: option.split)
  moreover have "(50::rat) \<le> 99" by simp
  ultimately obtain a b where
    "clamp_float 50 99 (?v memory) = Fin a" "50 \<le> a" "a \<le> 99" "clamp_float 50 99 (?v disk) = Fin b" "50 \<le> b" "b \<le> 99"
    using clamp_float_bounds [of 50 99 "?v memory"] clamp_float_bounds [of 50 99 "?v disk"] by blast
  with that show thesis by (simp add: situations_config_of_wire_def)
qed

lemmas signature_defs = HOST_HEALTH_def MEMORY_PRESSURE_def DISK_PRESSURE_def

lemma used_percent_fin: "\<exists>q. used_percent m = Fin q"
  by (auto simp: used_percent_def percent_of_def)

lemma float_dichotomy: "x \<noteq> NaN \<Longrightarrow> float_less x (Fin a) \<longleftrightarrow> \<not> float_ge x (Fin a)"
  by (cases x) (auto simp: float_less_def)

lemma situation_keys:
  "dedup_key ` set (situations_from show_pct r config) =
     {HOST_HEALTH @ '':'' @ u | u. \<exists>state us. rd_failed_units r = (u, state) # us}
     \<union> {MEMORY_PRESSURE @ '':mem'' | m. rd_memory r = Some m \<and> float_ge (used_percent m) (sc_memory_used_percent config)}
     \<union> {DISK_PRESSURE @ '':'' @ du_mount d | d. rd_disk r = Some d \<and> float_ge (du_used_percent d) (sc_disk_used_percent config)}"
  by (cases "rd_failed_units r"; cases "rd_memory r"; cases "rd_disk r") (auto simp: situations_from_def dedup_key_def)

lemma float_ge_NaN [simp]: "\<not> float_ge x NaN" "\<not> float_ge NaN x"
  by (cases x; simp)+

text \<open>
  Perception is exactly the readings. With thresholds read from any configuration without a NaN, both
  lie between 50 and 99 percent; a failed unit raises one host-health situation about the first unit in name order;
  a resource whose reading succeeded is either perceived as under pressure or its key is
  resolved, never both; a failed reading raises no situation and resolves nothing; and the
  situations of a cycle have distinct identities.
\<close>

theorem perception_exact:
  assumes "config = situations_config_of_wire memory disk" and "memory \<noteq> Some NaN" and "disk \<noteq> Some NaN"
    and "\<forall>d. rd_disk r = Some d \<longrightarrow> du_used_percent d \<noteq> NaN"
  shows "(\<exists>a b. sc_memory_used_percent config = Fin a \<and> sc_disk_used_percent config = Fin b
            \<and> {a, b} \<subseteq> {50..99})
       \<and> distinct (map dedup_key (situations_from show_pct r config))
       \<and> filter (\<lambda>s. st_signature s = HOST_HEALTH) (situations_from show_pct r config)
           = (case rd_failed_units r of [] \<Rightarrow> []
              | (u, state) # _ \<Rightarrow> [\<lparr> st_signature = HOST_HEALTH, st_subject = u, st_detail = state \<rparr>])
       \<and> (case rd_memory r of
            Some m \<Rightarrow> (''memory-pressure:mem'' \<in> dedup_key ` set (situations_from show_pct r config))
                      \<noteq> (''memory-pressure:mem'' \<in> set (resolved_pressure_keys r config))
          | None \<Rightarrow> ''memory-pressure:mem'' \<notin> dedup_key ` set (situations_from show_pct r config)
                      \<union> set (resolved_pressure_keys r config))
       \<and> (case rd_disk r of
            Some d \<Rightarrow> (''disk-pressure:'' @ du_mount d \<in> dedup_key ` set (situations_from show_pct r config))
                      \<noteq> (''disk-pressure:'' @ du_mount d \<in> set (resolved_pressure_keys r config))
          | None \<Rightarrow> DISK_PRESSURE \<notin> st_signature ` set (situations_from show_pct r config))"
proof -
  obtain a b where conf: "config = \<lparr> sc_memory_used_percent = Fin a, sc_disk_used_percent = Fin b \<rparr>"
    and range: "50 \<le> a" "a \<le> 99" "50 \<le> b" "b \<le> 99"
    using thresholds_clamped [OF assms(2,3)] assms(1) by metis
  have mem: "float_less (used_percent m) (Fin a) \<longleftrightarrow> \<not> float_ge (used_percent m) (Fin a)" for m
    using used_percent_fin [of m] by (intro float_dichotomy) auto
  have dsk: "rd_disk r = Some d \<Longrightarrow> float_less (du_used_percent d) (Fin b) \<longleftrightarrow> \<not> float_ge (du_used_percent d) (Fin b)" for d
    using assms(4) by (intro float_dichotomy) auto
  have thresholds: "sc_memory_used_percent config = Fin a \<and> sc_disk_used_percent config = Fin b \<and> {a, b} \<subseteq> {50..99}"
    using conf range by simp
  have dist: "distinct (map dedup_key (situations_from show_pct r config))"
    by (auto simp: situations_from_def dedup_key_def signature_defs split: list.split option.split)
  have host: "filter (\<lambda>s. st_signature s = HOST_HEALTH) (situations_from show_pct r config)
           = (case rd_failed_units r of [] \<Rightarrow> []
              | (u, state) # _ \<Rightarrow> [\<lparr> st_signature = HOST_HEALTH, st_subject = u, st_detail = state \<rparr>])"
    by (auto simp: situations_from_def signature_defs split: list.split option.split)
  have memory: "case rd_memory r of
            Some m \<Rightarrow> (''memory-pressure:mem'' \<in> dedup_key ` set (situations_from show_pct r config))
                      \<noteq> (''memory-pressure:mem'' \<in> set (resolved_pressure_keys r config))
          | None \<Rightarrow> ''memory-pressure:mem'' \<notin> dedup_key ` set (situations_from show_pct r config)
                      \<union> set (resolved_pressure_keys r config)"
    by (auto simp: situation_keys resolved_pressure_keys_def conf mem signature_defs split: option.split)
  have disk: "case rd_disk r of
            Some d \<Rightarrow> (''disk-pressure:'' @ du_mount d \<in> dedup_key ` set (situations_from show_pct r config))
                      \<noteq> (''disk-pressure:'' @ du_mount d \<in> set (resolved_pressure_keys r config))
          | None \<Rightarrow> DISK_PRESSURE \<notin> st_signature ` set (situations_from show_pct r config)"
  proof (cases "rd_disk r")
    case None
    then show ?thesis by (auto simp: situations_from_def signature_defs split: list.splits option.splits if_splits)
  next
    case (Some d)
    with dsk [OF Some] show ?thesis
      by (auto simp: situation_keys resolved_pressure_keys_def conf signature_defs split: option.split)
  qed
  from thresholds dist host memory disk show ?thesis by blast
qed

definition pressed_readings :: readings where
  "pressed_readings =
     \<lparr> rd_failed_units = [(''nginx.service'', ''failed failed'')],
       rd_memory = Some \<lparr> mi_total = 100, mi_free = 0, mi_available = 5, mi_buffers = 0, mi_cached = 0, mi_swap_total = 0,
                          mi_swap_free = 0 \<rparr>, rd_disk = None \<rparr>"

theorem perception_exact_witness:
  "distinct (map dedup_key (situations_from (\<lambda>_. []) pressed_readings (situations_config_of_wire None None)))"
  using perception_exact [OF refl, of None None pressed_readings "\<lambda>_. []"] by (simp add: pressed_readings_def)

text \<open>
  A NaN threshold, which the configuration format can express, survives the clamp and disables the
  check: nothing is ever perceived and nothing is ever resolved. The documentation says an extreme
  value degrades to the nearest bound rather than disabling the check.
\<close>

theorem nan_threshold_disables_check:
  "MEMORY_PRESSURE \<notin> st_signature ` set (situations_from show_pct r (situations_config_of_wire (Some NaN) disk))
   \<and> MEMORY_PRESSURE @ '':mem'' \<notin> set (resolved_pressure_keys r (situations_config_of_wire (Some NaN) disk))"
  by (auto simp: situations_from_def resolved_pressure_keys_def situations_config_of_wire_def signature_defs float_less_def
      split: list.splits option.splits if_splits)

section \<open>Procedures widen nothing\<close>

definition step_confined ::
  "capability_descriptor list \<Rightarrow> json \<Rightarrow> capability_id list \<Rightarrow> blast_radius \<Rightarrow> plan_step \<Rightarrow> bool" where
  "step_confined ds arguments rollbacks radius step \<longleftrightarrow>
     ac_arguments (ps_action step) = arguments \<and> ac_resource (ps_action step) = None
     \<and> (\<exists>d. conforming ds arguments (ac_capability (ps_action step)) = Some d
          \<and> worst_blast_radius radius (effective_blast_radius d) = radius)
     \<and> (\<forall>rb. ps_rollback step = Some rb \<longrightarrow> ac_capability rb \<in> set rollbacks \<and> ac_arguments rb = arguments
          \<and> conforming ds arguments (ac_capability rb) \<noteq> None)"

lemma step_confined_worsen:
  "step_confined ds arguments rollbacks radius step \<Longrightarrow>
     step_confined ds arguments rollbacks (worst_blast_radius radius other) step"
  by (auto simp: step_confined_def split: if_splits)

lemma worst_absorbs: "worst_blast_radius (worst_blast_radius a b) b = worst_blast_radius a b"
  by simp

lemma nth_opt_mem: "nth_opt xs i = Some x \<Longrightarrow> x \<in> set xs"
  by (auto simp: nth_opt_def split: if_splits)

lemma procedure_steps_confined:
  assumes "procedure_steps ds arguments rollbacks i cs (steps, radius) = (steps', radius')"
    and "\<forall>step \<in> set steps. step_confined ds arguments rollbacks radius step"
  shows "(\<forall>step \<in> set steps'. step_confined ds arguments rollbacks radius' step)
       \<and> map (\<lambda>st. ac_capability (ps_action st)) steps'
          = map (\<lambda>st. ac_capability (ps_action st)) steps @ filter (\<lambda>c. conforming ds arguments c \<noteq> None) cs"
  using assms
proof (induction cs arbitrary: i steps radius)
  case (Cons c cs)
  show ?case
  proof (cases "conforming ds arguments c")
    case None
    with Cons show ?thesis by simp
  next
    case (Some d)
    let ?act = "\<lambda>c. \<lparr> ac_capability = c, ac_resource = None, ac_arguments = arguments \<rparr>"
    define step where "step = \<lparr> ps_action = ?act c,
        ps_rollback = Option.bind (nth_opt rollbacks i) (\<lambda>rb. if conforming ds arguments rb = None then None else Some (?act rb)) \<rparr>"
    let ?radius = "worst_blast_radius radius (effective_blast_radius d)"
    have new: "step_confined ds arguments rollbacks ?radius step"
      using Some worst_absorbs [of radius "effective_blast_radius d"]
      by (auto simp: step_confined_def step_def bind_eq_Some_conv simp del: worst_blast_radius.simps
          dest: nth_opt_mem split: if_splits)
    have "procedure_steps ds arguments rollbacks (Suc i) cs (steps @ [step], ?radius) = (steps', radius')"
      using Cons.prems(1) Some by (simp add: Let_def step_def)
    moreover have "\<forall>st \<in> set (steps @ [step]). step_confined ds arguments rollbacks ?radius st"
      using Cons.prems(2) new step_confined_worsen by (auto simp del: worst_blast_radius.simps)
    ultimately show ?thesis using Cons.IH [of "Suc i" "steps @ [step]" ?radius] Some by (simp add: step_def)
  qed
qed simp

lemma conforming_registered:
  "conforming ds arguments c = Some d \<Longrightarrow> d \<in> set ds \<and> cd_id d = c \<and> input_matches (cd_input_schema d) arguments"
  by (auto simp: conforming_def find_Some_iff split: option.splits if_splits)

lemma confined_step_registered:
  assumes c: "step_confined ds arguments rollbacks radius st"
  shows "ac_arguments (ps_action st) = arguments
       \<and> (\<exists>d \<in> set ds. cd_id d = ac_capability (ps_action st) \<and> input_matches (cd_input_schema d) arguments
            \<and> worst_blast_radius radius (effective_blast_radius d) = radius)
       \<and> (\<forall>rb. ps_rollback st = Some rb \<longrightarrow> ac_capability rb \<in> set rollbacks \<and> ac_arguments rb = arguments
          \<and> (\<exists>d \<in> set ds. cd_id d = ac_capability rb \<and> input_matches (cd_input_schema d) arguments))"
proof (intro conjI allI impI)
  from c show "ac_arguments (ps_action st) = arguments" by (simp add: step_confined_def)
  from c obtain d where "conforming ds arguments (ac_capability (ps_action st)) = Some d"
    "worst_blast_radius radius (effective_blast_radius d) = radius" unfolding step_confined_def by blast
  with conforming_registered show "\<exists>d \<in> set ds. cd_id d = ac_capability (ps_action st)
      \<and> input_matches (cd_input_schema d) arguments \<and> worst_blast_radius radius (effective_blast_radius d) = radius" by blast
  fix rb assume "ps_rollback st = Some rb"
  with c have rb: "ac_capability rb \<in> set rollbacks" "ac_arguments rb = arguments"
    "conforming ds arguments (ac_capability rb) \<noteq> None" unfolding step_confined_def by blast+
  then show "ac_capability rb \<in> set rollbacks" "ac_arguments rb = arguments" by blast+
  from rb(3) conforming_registered show "\<exists>d \<in> set ds. cd_id d = ac_capability rb \<and> input_matches (cd_input_schema d) arguments"
    by blast
qed

text \<open>
  C28. A procedure plan widens nothing. Its steps are exactly those allowed actions of the runbook, in
  its order, that are registered with a schema the situation's subject satisfies; every
  step carries that subject as its only argument; a rollback is one the runbook declares and
  is registered with a matching schema; the declared radius covers the radius of every step; the
  plan names its runbook; and there is no plan exactly when no allowed action conforms.
\<close>

theorem procedure_plan_confined:
  "(procedure_plan r s ds = None \<longleftrightarrow>
      filter (\<lambda>c. conforming ds (situation_arguments s) c \<noteq> None) (rb_allowed_actions r) = [])
   \<and> (\<forall>p. procedure_plan r s ds = Some p \<longrightarrow>
        map (\<lambda>st. ac_capability (ps_action st)) (pl_steps p)
          = filter (\<lambda>c. conforming ds (situation_arguments s) c \<noteq> None) (rb_allowed_actions r)
      \<and> pl_runbook p = Some (rb_name r) \<and> pl_status p = Proposed
      \<and> (\<forall>st \<in> set (pl_steps p).
           ac_arguments (ps_action st) = situation_arguments s
         \<and> (\<exists>d \<in> set ds. cd_id d = ac_capability (ps_action st)
              \<and> input_matches (cd_input_schema d) (situation_arguments s)
              \<and> worst_blast_radius (pl_blast_radius p) (effective_blast_radius d) = pl_blast_radius p)
         \<and> (\<forall>rb. ps_rollback st = Some rb \<longrightarrow>
              ac_capability rb \<in> set (rb_rollback r) \<and> ac_arguments rb = situation_arguments s
            \<and> (\<exists>d \<in> set ds. cd_id d = ac_capability rb \<and> input_matches (cd_input_schema d) (situation_arguments s)))))"
proof -
  let ?args = "situation_arguments s"
  obtain steps radius where ps:
    "procedure_steps ds ?args (rb_rollback r) 0 (rb_allowed_actions r) ([], RadiusNone) = (steps, radius)"
    by (cases "procedure_steps ds ?args (rb_rollback r) 0 (rb_allowed_actions r) ([], RadiusNone)")
  from procedure_steps_confined [OF this]
  have conf: "\<forall>step \<in> set steps. step_confined ds ?args (rb_rollback r) radius step"
    and caps: "map (\<lambda>st. ac_capability (ps_action st)) steps
        = filter (\<lambda>c. conforming ds ?args c \<noteq> None) (rb_allowed_actions r)" by simp_all
  have none: "procedure_plan r s ds = None \<longleftrightarrow> steps = []" using ps by (simp add: procedure_plan_def)
  have some: "procedure_plan r s ds = Some p \<Longrightarrow> pl_steps p = steps \<and> pl_blast_radius p = radius
      \<and> pl_runbook p = Some (rb_name r) \<and> pl_status p = Proposed" for p
    using ps by (auto simp: procedure_plan_def split: if_splits)
  have "steps = [] \<longleftrightarrow> filter (\<lambda>c. conforming ds ?args c \<noteq> None) (rb_allowed_actions r) = []"
    using caps by (metis Nil_is_map_conv)
  with none have first: "procedure_plan r s ds = None \<longleftrightarrow>
      filter (\<lambda>c. conforming ds ?args c \<noteq> None) (rb_allowed_actions r) = []" by blast
  show ?thesis
  proof (intro conjI allI impI, goal_cases)
    case 1
    show ?case by (rule first)
  next
    case (2 p)
    then show ?case using some [OF 2] caps by metis
  next
    case (3 p)
    then show ?case using some [OF 3] by blast
  next
    case (4 p)
    then show ?case using some [OF 4] by blast
  next
    case (5 p)
    note e = some [OF 5, THEN conjunct1] some [OF 5, THEN conjunct2, THEN conjunct1]
    show ?case unfolding e using conf confined_step_registered by blast
  qed
qed

definition restart_runbook :: runbook where
  "restart_runbook =
     runbook_candidate 1 ''restart'' (Symptom HOST_HEALTH) [] [] []
       [CapabilityId ''host.service.restart'', CapabilityId ''host.unknown''] [] []"

definition failed_nginx :: situation where
  "failed_nginx = \<lparr> st_signature = HOST_HEALTH, st_subject = ''nginx.service'', st_detail = ''failed failed'' \<rparr>"

lemma restart_conforms:
  "filter (\<lambda>c. conforming [sample_descriptor] (situation_arguments failed_nginx) c \<noteq> None) (rb_allowed_actions restart_runbook)
     = [CapabilityId ''host.service.restart'']"
  by (simp add: restart_runbook_def runbook_candidate_def conforming_def sample_descriptor_def descriptor_new_def
      failed_nginx_def situation_arguments_def input_matches.simps type_ok_def required_ok_def additional_ok_def schema_properties_def)

theorem procedure_plan_confined_witness:
  "(\<exists>p. procedure_plan restart_runbook failed_nginx [sample_descriptor] = Some p
     \<and> map (\<lambda>st. ac_capability (ps_action st)) (pl_steps p) = [CapabilityId ''host.service.restart''])"
proof -
  note confined = procedure_plan_confined [of restart_runbook failed_nginx "[sample_descriptor]", unfolded restart_conforms]
  then obtain p where "procedure_plan restart_runbook failed_nginx [sample_descriptor] = Some p" by auto
  with confined show ?thesis by blast
qed

section \<open>Authority\<close>

definition observing :: "brain_control \<Rightarrow> 'h \<Rightarrow> 'h daemon \<Rightarrow> bool" where
  "observing bc h d \<longleftrightarrow> dm_host d = h \<and> effective (dm_autonomy d) (bl_autonomy bc) < L3Assisted"

lemma lower_of_mono: "rank b' \<le> rank b \<Longrightarrow> lower_of a b < L3Assisted \<Longrightarrow> lower_of a b' < L3Assisted"
  by (auto simp: lower_of_def less_autonomy_mode_def split: if_splits)

lemma run_remediation_rung:
  "rank (as_earned (am_state (dm_autonomy (snd (run_remediation sp mo p level d))))) \<le> rank (as_earned (am_state (dm_autonomy d)))"
proof -
  let ?run = "run_plan (remediation_env sp mo level d) (mo_fresh mo) p None (loop_start mo d)"
  have rung: "as_earned (am_state (ls_budget (snd ?run))) = as_earned (am_state (dm_autonomy d))"
    using run_plan_rung [of sp mo level d "mo_fresh mo" p None "loop_start mo d"] by (simp add: loop_start_def)
  have down: "rank (demote_rung a) \<le> rank a" for a by (cases a) simp_all
  show ?thesis
  proof (cases "fst ?run")
    case (Finished report)
    then show ?thesis
      using rung down [of "as_earned (am_state (dm_autonomy d))"]
      by (auto simp: run_remediation_def authorize_and_run_with_ports_def case_prod_beta Let_def record_run_outcome_def
          record_trace_def absorb_def on_validation_failed_def record_validated_executions_def with_state_def transition_def
          persist_def)
  qed (use rung in \<open>auto simp: run_remediation_def authorize_and_run_with_ports_def case_prod_beta Let_def record_trace_def
          absorb_def store_pending_def\<close>)
qed

lemma run_remediation_observing:
  assumes "observing bc h d"
  shows "observing bc h (snd (run_remediation sp mo p (effective (dm_autonomy d) (bl_autonomy bc)) d))"
proof -
  let ?level = "effective (dm_autonomy d) (bl_autonomy bc)"
  let ?run = "run_plan (remediation_env sp mo ?level d) (mo_fresh mo) p None (loop_start mo d)"
  have "ls_host (snd ?run) = ls_host (loop_start mo d)"
    using assms by (intro observed_run_host [OF prod.collapse [symmetric]]) (simp add: remediation_env_def observing_def)
  then have "dm_host (snd (run_remediation sp mo p ?level d)) = h"
    using assms by (auto simp: run_remediation_def authorize_and_run_with_ports_def case_prod_beta Let_def observing_def
        loop_start_def absorb_def store_pending_def record_trace_def split: plan_run.split)
  moreover have "effective (dm_autonomy (snd (run_remediation sp mo p ?level d))) (bl_autonomy bc) < L3Assisted"
    using assms lower_of_mono [OF run_remediation_rung [of sp mo p ?level d], of "bl_autonomy bc"]
    by (simp add: observing_def effective_def)
  ultimately show ?thesis by (simp add: observing_def)
qed

lemma observing_frames [simp]:
  "observing bc h (note_runbook_outcome mo p report d) = observing bc h d"
  "observing bc h (release_dedup key d) = observing bc h d"
  "observing bc h (store_pending pending d) = observing bc h d"
  "observing bc h (snd (claim_dedup key d)) = observing bc h d"
  by (auto simp: observing_def note_runbook_outcome_def release_dedup_def store_pending_def claim_dedup_def Let_def
      case_prod_beta split: option.split)

lemma propose_observing:
  "observing bc h (snd (propose_once to_text show_error mo pr b t d)) = observing bc h d"
  "observing bc h (snd (propose_procedure r s key d)) = observing bc h d"
  by (auto simp: propose_once_def propose_procedure_def observing_def Let_def case_prod_beta mark_provider_ready_def
      mark_provider_degraded_def claim_dedup_def release_dedup_def split: sum.split evidence_decision.split option.split)

lemma act_observing:
  assumes "observing bc h (ag_daemon ag)" and "act bp bc ai p key signature (rec, ag) = (flow, rec', ag')"
  shows "observing bc h (ag_daemon ag')"
proof -
  let ?run = "run_remediation (bp_service bp) (ai_moment ai) p (effective (dm_autonomy (ag_daemon ag)) (bl_autonomy bc)) (ag_daemon ag)"
  have "observing bc h (snd ?run)" by (rule run_remediation_observing [OF assms(1)])
  with assms(2) show ?thesis
    by (cases "fst ?run") (auto simp: act_def Let_def case_prod_beta with_repository_def with_daemon_def split: if_splits)
qed

lemma procedure_pass_observing:
  "observing bc h (ag_daemon ag) \<Longrightarrow>
     observing bc h (ag_daemon (snd (snd (snd (procedure_pass bp bc ci n ss (fired, rec, ag))))))"
proof (induction ss arbitrary: n fired rec ag)
  case (Cons s ss)
  let ?att = "case promoted_runbook (ag_daemon ag) (st_signature s) of None \<Rightarrow> (None, ag_daemon ag)
     | Some r \<Rightarrow> propose_procedure r s (situation_dedup_key (sp_to_text (bp_service bp)) s (situation_evidence s)) (ag_daemon ag)"
  let ?ag = "ag\<lparr> ag_daemon := snd ?att \<rparr>"
  have ok: "observing bc h (ag_daemon ?ag)"
    using Cons.prems by (auto simp: propose_observing split: option.split)
  show ?case
  proof (cases "fst ?att")
    case None
    with Cons.IH [OF ok] show ?thesis by (simp add: Let_def)
  next
    case (Some pk)
    obtain p key where pk: "pk = (p, key)" by (cases pk)
    obtain flow rec' ag' where a: "act bp bc (ci_act ci n) p key (st_signature s) (rec, ?ag) = (flow, rec', ag')"
      by (cases "act bp bc (ci_act ci n) p key (st_signature s) (rec, ?ag)")
    from act_observing [OF ok a] have "observing bc h (ag_daemon ag')" .
    with Some pk a Cons.IH show ?thesis by (cases flow) (simp_all add: Let_def)
  qed
qed simp

lemma provider_pass_observing:
  assumes "observing bc h (ag_daemon ag)"
  shows "observing bc h (ag_daemon (snd (snd (provider_pass bp bc ci provider ss (rec, ag)))))"
proof (cases provider)
  case None
  with assms show ?thesis by (simp add: provider_pass_def)
next
  case (Some pr)
  let ?d1 = "snd (claim_dedup (situation_set_key ss) (ag_daemon ag))"
  let ?proposal = "propose_once (sp_to_text (bp_service bp)) (bp_show_error bp) (ci_propose ci) pr (merged_evidence ss)
      (bl_confidence_threshold bc) ?d1"
  let ?ag = "ag\<lparr> ag_ledger := meter_usage bp ci pr (merged_evidence ss) ?d1 (ag_ledger ag), ag_daemon := snd ?proposal \<rparr>"
  have d2: "observing bc h (snd ?proposal)" using assms by (simp add: propose_observing)
  show ?thesis
  proof (cases "fst (claim_dedup (situation_set_key ss) (ag_daemon ag))")
    case False
    with assms Some show ?thesis by (simp add: provider_pass_def Let_def case_prod_beta)
  next
    case True
    show ?thesis
    proof (cases "\<exists>p k. fst ?proposal = Inr (Some (p, k))")
      case False
      with True Some d2 show ?thesis
        by (auto simp: provider_pass_def Let_def case_prod_beta split: sum.splits option.splits)
    next
      case decided: True
      then obtain p k where pk: "fst ?proposal = Inr (Some (p, k))" by blast
      obtain flow rec' ag' where a: "act bp bc (ci_act ci (length ss)) p (situation_set_key ss) HOST_HEALTH (rec, ?ag) = (flow, rec', ag')"
        by (cases "act bp bc (ci_act ci (length ss)) p (situation_set_key ss) HOST_HEALTH (rec, ?ag)")
      have "observing bc h (ag_daemon ag')" using act_observing [OF _ a] d2 by simp
      with True Some pk a show ?thesis by (simp add: provider_pass_def Let_def case_prod_beta)
    qed
  qed
qed

lemma run_cycle_observing:
  assumes "observing bc h (ag_daemon ag)"
  shows "observing bc h (ag_daemon (snd (snd (run_cycle bp bc ci provider ss consulted ag))))"
proof (cases "ss = []")
  case True
  with assms show ?thesis by (simp add: run_cycle_def)
next
  case False
  let ?rec = "(brain_cycle_start consulted)\<lparr> by_evidence := map evidence_line ss, by_provider_available := (provider \<noteq> None) \<rparr>"
  let ?ag = "ag\<lparr> ag_pressure := pressure_signals ss \<rparr>"
  obtain flow fired rec2 ag2 where pass: "procedure_pass bp bc ci 0 ss (False, ?rec, ?ag) = (flow, fired, rec2, ag2)"
    by (cases "procedure_pass bp bc ci 0 ss (False, ?rec, ?ag)") auto
  have "observing bc h (ag_daemon ag2)"
    using procedure_pass_observing [of bc h ?ag bp ci 0 ss False ?rec] assms pass by simp
  with False pass provider_pass_observing [of bc h ag2 bp ci provider ss rec2] show ?thesis
    by (cases flow) (simp_all add: run_cycle_def)
qed

lemma release_resolved_observing:
  "observing bc h (release_resolved_pressure r config d) = observing bc h d"
proof -
  have "observing bc h (fold (\<lambda>key d. if pending_holds_dedup key d then d else release_dedup key d) keys d) = observing bc h d"
    for keys by (induction keys arbitrary: d) simp_all
  then show ?thesis by (simp add: release_resolved_pressure_def)
qed

lemma cycle_observing:
  assumes "observing bc h (ag_daemon ag)"
  shows "observing bc h (ag_daemon (snd (cycle bp config bc ci provider lr ag)))"
proof -
  have "observing bc h (ag_daemon ag) \<Longrightarrow>
      observing bc h (ag_daemon (snd (cycle_with_situations bp bc ci provider ss consulted ag)))" for ss consulted ag
    using run_cycle_observing [of bc h "ag\<lparr> ag_ledger := enter_cycle (ci_cycle_id ci) (ag_ledger ag) \<rparr>" bp ci provider ss consulted]
    by (auto simp: cycle_with_situations_def Let_def split: prod.splits act_flow.splits)
  then show ?thesis using assms by (simp add: cycle_def Let_def case_prod_beta release_resolved_observing)
qed


definition plain_ports :: "mock_services brain_ports" where
  "plain_ports = \<lparr> bp_service = sample_ports, bp_show_error = (\<lambda>_. []), bp_show_pct = (\<lambda>_. []), bp_wire = plain_text,
                   bp_lg = (\<lambda>_. 0) \<rparr>"

definition plain_act :: act_input where
  "plain_act =
     \<lparr> ai_moment = sample_moment 0, ai_plan_id = 1, ai_execution_id = of_nat, ai_event_id = of_nat, ai_entry_id = of_nat,
       ai_pauses = (\<lambda>_. []), ai_episode_id = 2, ai_procedure_id = 3, ai_row_id = 4, ai_plan_written = True,
       ai_execution_written = (\<lambda>_. True), ai_event_written = (\<lambda>_. True), ai_episode_written = True,
       ai_procedures_listed = True, ai_procedure_written = True \<rparr>"

definition plain_cycle :: cycle_input where
  "plain_cycle =
     \<lparr> ci_cycle_id = 9, ci_act = (\<lambda>_. plain_act), ci_propose = sample_moment 0, ci_usage_event = 5, ci_usage_id = 6,
       ci_usage_written = True, ci_elapsed_ms = 12, ci_trace_id = 7, ci_trace_entry = 8, ci_trace_written = True, ci_end = 1 \<rparr>"

definition plain_tick :: tick_input where
  "plain_tick =
     \<lparr> ti_cycle = plain_cycle,
       ti_readings = \<lparr> lr_units = Some [(''nginx.service'', ''failed'', ''failed'')], lr_memory = None, lr_disk = None \<rparr>,
       ti_uptime = 100, ti_unix_ms = 1000, ti_cloud_paired = True, ti_written = True, ti_now = 1 \<rparr>"

definition plain_agent :: "mock_services \<Rightarrow> mock_services agent" where
  "plain_agent h =
     \<lparr> ag_daemon = sample_daemon h, ag_ledger = ledger_new repo_new True 30 1000, ag_pressure = [], ag_last_cycle = None \<rparr>"


section \<open>Reasoning again\<close>

lemma pending_holds_release [simp]: "pending_holds_dedup key (release_dedup other d) = pending_holds_dedup key d"
  by (simp add: pending_holds_dedup_def)

lemma release_keeps_held:
  assumes "pending_holds_dedup key d" and "key \<in> dd_seen (dm_dedup d)"
  shows "key \<in> dd_seen (dm_dedup (release_resolved_pressure r config d))"
proof -
  have "pending_holds_dedup key d \<Longrightarrow> key \<in> dd_seen (dm_dedup d) \<Longrightarrow>
      key \<in> dd_seen (dm_dedup (fold (\<lambda>key d. if pending_holds_dedup key d then d else release_dedup key d) keys d))" for keys d
  proof (induction keys arbitrary: d)
    case (Cons k keys)
    let ?d = "if pending_holds_dedup k d then d else release_dedup k d"
    have "pending_holds_dedup key ?d" using Cons.prems(1) by simp
    moreover have "key \<in> dd_seen (dm_dedup ?d)" using Cons.prems by (auto simp: release_def)
    ultimately show ?case using Cons.IH [of ?d] by simp
  qed simp
  with assms show ?thesis by (simp add: release_resolved_pressure_def)
qed

lemma pending_holds_stored: "pp_dedup_key pending = Some key \<Longrightarrow> pending_holds_dedup key (store_pending pending d)"
  unfolding pending_holds_dedup_def store_pending_def hm_insert_def
  by (rule bexI [of _ pending]) (auto intro: ranI [of _ "pp_token pending"])

lemma act_pending_holds:
  assumes "act bp bc ai p key signature (rec, ag) = (flow, rec', ag')"
    and "fst (run_remediation (bp_service bp) (ai_moment ai) p (effective (dm_autonomy (ag_daemon ag)) (bl_autonomy bc)) (ag_daemon ag))
          = RunPending pending" and "pl_runbook p \<noteq> None"
  shows "pending_holds_dedup key (ag_daemon ag')"
proof -
  obtain d1 where "run_remediation (bp_service bp) (ai_moment ai) p (effective (dm_autonomy (ag_daemon ag)) (bl_autonomy bc))
      (ag_daemon ag) = (RunPending pending, d1)" using assms(2) by (metis prod.collapse)
  with assms(1,3) have "ag_daemon ag' = store_pending (pending\<lparr> pp_dedup_key := Some key \<rparr>) d1"
    by (auto simp: act_def Let_def with_repository_def with_daemon_def split: if_splits)
  then show ?thesis by (simp add: pending_holds_stored)
qed

text \<open>
  A situation is reasoned about again exactly when its remediation did not resolve it. With its key
  claimed, after the run the key can be claimed again exactly when the run finished without
  completing: a completed run and a paused one keep it. A pause of an attributed plan carries the
  key, so that a momentary resolution of the pressure does not free the situation while the
  operator decides.
\<close>

theorem unresolved_situation_reasoned_again:
  assumes "act bp bc ai p key signature (rec, ag) = (flow, rec', ag')" and "key \<in> dd_seen (dm_dedup (ag_daemon ag))"
    and "fst (run_remediation (bp_service bp) (ai_moment ai) p (effective (dm_autonomy (ag_daemon ag)) (bl_autonomy bc)) (ag_daemon ag))
          = outcome"
  shows "(fst (claim_dedup key (ag_daemon ag')) \<longleftrightarrow> (\<exists>report. outcome = RunFinished report \<and> eo_status report \<noteq> Completed))
       \<and> (pl_runbook p \<noteq> None \<and> (\<exists>pending. outcome = RunPending pending) \<longrightarrow>
            pending_holds_dedup key (ag_daemon ag')
          \<and> \<not> fst (claim_dedup key (release_resolved_pressure r config (ag_daemon ag'))))"
proof -
  have dedup: "dm_dedup (ag_daemon ag') =
     (case outcome of RunFinished report \<Rightarrow> if eo_status report = Completed then dm_dedup (ag_daemon ag)
                                            else release key (dm_dedup (ag_daemon ag))
      | _ \<Rightarrow> dm_dedup (ag_daemon ag))" by (rule act_dedup [OF assms(1,3)])
  have claim: "fst (claim_dedup key d) \<longleftrightarrow> key \<notin> dd_seen (dm_dedup d)" for d :: "'a daemon"
    by (simp add: claim_dedup_def case_prod_beta seen.claim_iff)
  have "fst (claim_dedup key (ag_daemon ag')) \<longleftrightarrow> (\<exists>report. outcome = RunFinished report \<and> eo_status report \<noteq> Completed)"
    using assms(2) unfolding claim dedup by (auto simp: release_def split: run_outcome.split)
  moreover have "pending_holds_dedup key (ag_daemon ag') \<and> \<not> fst (claim_dedup key (release_resolved_pressure r config (ag_daemon ag')))"
    if "pl_runbook p \<noteq> None" "outcome = RunPending pending" for pending
  proof -
    have "pending_holds_dedup key (ag_daemon ag')" using act_pending_holds [OF assms(1)] assms(3) that by simp
    moreover have "key \<in> dd_seen (dm_dedup (ag_daemon ag'))" using assms(2) that(2) dedup by simp
    ultimately show ?thesis unfolding claim using release_keeps_held by blast
  qed
  ultimately show ?thesis by blast
qed

definition claimed_agent :: "mock_services agent" where
  "claimed_agent = (plain_agent ([], {}))\<lparr> ag_daemon := snd (claim_dedup ''k'' (sample_daemon ([], {}))) \<rparr>"

theorem unresolved_situation_reasoned_again_witness:
  "fst (claim_dedup ''k'' (ag_daemon (snd (snd (act plain_ports brain_control_default plain_act sample_denied ''k'' HOST_HEALTH
      (brain_cycle_start True, claimed_agent))))))"
proof -
  let ?run = "run_remediation (bp_service plain_ports) (ai_moment plain_act) sample_denied
      (effective (dm_autonomy (ag_daemon claimed_agent)) (bl_autonomy brain_control_default)) (ag_daemon claimed_agent)"
  have run: "fst ?run = RunFinished denied_report"
    by (simp add: service_eval claimed_agent_def plain_agent_def plain_ports_def plain_act_def brain_control_default_def
        claim_dedup_def case_prod_beta sample_denied_def denied_report_def cap_ids)
  have "''k'' \<in> dd_seen (dm_dedup (ag_daemon claimed_agent))"
    by (simp add: claimed_agent_def claim_dedup_def case_prod_beta seen.claim_holds)
  from unresolved_situation_reasoned_again [OF _ this run] show ?thesis
    by (metis denied_report_def execution_outcome.select_convs(4) plan_status.distinct prod.collapse)
qed

section \<open>Managed settings\<close>

definition control_ok :: "brain_control \<Rightarrow> bool" where
  "control_ok c \<longleftrightarrow> float_ge (bl_confidence_threshold c) (Fin 0) \<and> float_ge (Fin 1) (bl_confidence_threshold c)
     \<and> 5 \<le> bl_interval_seconds c"

lemma apply_to_ok: "apply_to key v c = Inr c' \<Longrightarrow> control_ok c \<Longrightarrow> control_ok c'"
  by (auto simp: apply_to_def control_ok_def split: if_splits option.splits)

lemma apply_to_accepts: "isl (apply_to key v c) = isl (apply_to key v c')"
  by (simp add: apply_to_def split: option.split)

lemma apply_to_error: "apply_to key v c = Inl e \<Longrightarrow> apply_to key v c' = Inl e"
  by (auto simp: apply_to_def split: if_splits option.splits)

abbreviation brain_settings :: "(string \<times> json) list \<Rightarrow> (string \<times> json) list" where
  "brain_settings \<equiv> filter (\<lambda>(key, _). starts_with ''brain.'' key)"

lemma validate_each_exact:
  "(case validate_each settings probe of
      Inr applied \<Rightarrow> applied = brain_settings settings \<and> (\<forall>(key, v) \<in> set applied. \<not> isl (apply_to key v c))
    | Inl e \<Rightarrow> \<exists>(key, v) \<in> set (brain_settings settings). apply_to key v c = Inl e)"
proof (induction settings arbitrary: probe)
  case (Cons s settings)
  obtain key v where s: "s = (key, v)" by (cases s)
  show ?case
  proof (cases "starts_with ''brain.'' key")
    case False
    with Cons.IH [of probe] s show ?thesis by (auto split: sum.splits)
  next
    case True
    show ?thesis
    proof (cases "apply_to key v probe")
      case (Inl e)
      with True s apply_to_error [OF Inl] show ?thesis by simp
    next
      case (Inr probe')
      then have "\<not> isl (apply_to key v c)" using apply_to_accepts [of key v c probe] by simp
      with Inr True s Cons.IH [of probe'] show ?thesis by (auto split: sum.splits)
    qed
  qed
qed simp

lemma commit_one_ok: "control_ok c \<Longrightarrow> control_ok (commit_one kv c)"
  by (auto simp: commit_one_def split: sum.split dest: apply_to_ok)

lemma commit_all_ok: "control_ok c \<Longrightarrow> control_ok (commit_all applied c)"
proof -
  have "control_ok c \<Longrightarrow> control_ok (fold commit_one applied c)" for c
    by (induction applied arbitrary: c) (simp_all add: commit_one_ok)
  then show "control_ok c \<Longrightarrow> control_ok (commit_all applied c)" by (simp add: commit_all_def)
qed

lemma commit_one_level: "fst kv \<noteq> ''brain.autonomy'' \<Longrightarrow> bl_autonomy (commit_one kv c) = bl_autonomy c"
  by (auto simp: commit_one_def apply_to_def split: sum.split option.split)

lemma commit_level:
  assumes "distinct (map fst applied)" and "(''brain.autonomy'', JStr raw) \<in> set applied" and "deserialize_mode raw = Some m"
  shows "bl_autonomy (commit_all applied c) = m"
proof -
  have other: "''brain.autonomy'' \<notin> fst ` set xs \<Longrightarrow> bl_autonomy (fold commit_one xs c) = bl_autonomy c" for xs c
    by (induction xs arbitrary: c) (auto simp: commit_one_level)
  from assms(2) obtain pre post where split: "applied = pre @ (''brain.autonomy'', JStr raw) # post" by (meson split_list)
  with assms(1) have "''brain.autonomy'' \<notin> fst ` set post" by auto
  moreover have "bl_autonomy (commit_one (''brain.autonomy'', JStr raw) d) = m" for d
    using assms(3) by (simp add: commit_one_def apply_to_def)
  ultimately show ?thesis by (simp add: commit_all_def split other)
qed

text \<open>
  A managed configuration is applied as a whole or not at all. A delivery is accepted exactly when
  every setting addressed to the brain is valid by itself, whatever the levers are at the
  moment; an error names a setting that is invalid. Committing an accepted delivery, even if the
  levers have changed since, applies every setting, so the delivered autonomy is the one in force,
  and keeps the threshold within zero and one and the interval at five seconds or more.
\<close>

theorem managed_levers_all_or_nothing:
  assumes "control_ok c'" and "distinct (map fst settings)"
  shows "(case validate_all c settings of
            Inr applied \<Rightarrow> applied = brain_settings settings \<and> list_all (\<lambda>(key, v). \<not> isl (apply_to key v c')) applied
          | Inl e \<Rightarrow> list_ex (\<lambda>(key, v). apply_to key v c' = Inl e) (brain_settings settings))
       \<and> control_ok (commit_all applied c')
       \<and> (validate_all c settings = Inr applied \<and> (''brain.autonomy'', JStr raw) \<in> set settings \<longrightarrow>
            deserialize_mode raw = Some (bl_autonomy (commit_all applied c')))"
proof -
  have exact: "case validate_all c settings of
      Inr applied \<Rightarrow> applied = brain_settings settings \<and> (\<forall>(key, v) \<in> set applied. \<not> isl (apply_to key v c'))
    | Inl e \<Rightarrow> \<exists>(key, v) \<in> set (brain_settings settings). apply_to key v c' = Inl e"
    unfolding validate_all_def by (rule validate_each_exact)
  moreover have "deserialize_mode raw = Some (bl_autonomy (commit_all applied c'))"
    if ok: "validate_all c settings = Inr applied" and mem: "(''brain.autonomy'', JStr raw) \<in> set settings"
  proof -
    from exact ok have applied: "applied = brain_settings settings" by simp
    with mem have mem': "(''brain.autonomy'', JStr raw) \<in> set applied" by (simp add: starts_with_def)
    with exact ok have "\<not> isl (apply_to ''brain.autonomy'' (JStr raw) c')" by auto
    then obtain m where "deserialize_mode raw = Some m" by (auto simp: apply_to_def split: option.splits)
    moreover have "distinct (map fst applied)" using assms(2) applied by (simp add: distinct_map_filter)
    ultimately show ?thesis using commit_level [OF _ mem'] by simp
  qed
  ultimately show ?thesis
    using commit_all_ok [OF assms(1)] by (auto simp: list_all_iff list_ex_iff split: sum.splits)
qed

theorem managed_levers_all_or_nothing_witness:
  "let settings = [(''brain.autonomy'', JStr ''l2_recommend''), (''other.key'', JNull)]
   in bl_autonomy (commit_all [(''brain.autonomy'', JStr ''l2_recommend'')] brain_control_default) = L2Recommend"
proof -
  let ?settings = "[(''brain.autonomy'', JStr ''l2_recommend''), (''other.key'', JNull)]"
  have mode: "deserialize_mode ''l2_recommend'' = Some L2Recommend" by (simp add: deserialize_mode_def from_legacy_name_def)
  have "control_ok (brain_control_default\<lparr> bl_confidence_threshold := Fin 0 \<rparr>)"
    by (simp add: control_ok_def brain_control_default_def)
  from managed_levers_all_or_nothing [OF this, of ?settings brain_control_default "[(''brain.autonomy'', JStr ''l2_recommend'')]"
      "''l2_recommend''"] mode
  have "bl_autonomy (commit_all [(''brain.autonomy'', JStr ''l2_recommend'')]
      (brain_control_default\<lparr> bl_confidence_threshold := Fin 0 \<rparr>)) = L2Recommend"
    by (simp add: validate_all_def apply_to_def starts_with_def)
  then show ?thesis by (simp add: commit_all_def commit_one_def apply_to_def mode)
qed

section \<open>Where the loop and its comments disagree\<close>

lemma claim_dedup_seen: "fst (claim_dedup key d) \<longleftrightarrow> key \<notin> dd_seen (dm_dedup d)"
  "key \<in> dd_seen (dm_dedup (snd (claim_dedup key d)))"
  by (simp_all add: claim_dedup_def case_prod_beta seen.claim_iff seen.claim_holds)

text \<open>
  A decision that fails suppresses its situations: the key of the set stays claimed, so that
  every later cycle over the same situations ends without asking the provider again; every other
  branch that acts on nothing releases it.
\<close>

theorem failed_decision_suppresses_situations:
  assumes "situation_set_key ss \<notin> dd_seen (dm_dedup (ag_daemon ag))"
    and "canonical_key (sp_to_text (bp_service bp)) (merged_evidence ss) \<notin> dd_seen (dm_dedup (ag_daemon ag))"
    and "situation_set_key ss \<noteq> canonical_key (sp_to_text (bp_service bp)) (merged_evidence ss)"
    and "pr (host_health_request (merged_evidence ss)) = Inl (DecisionValidation e)"
    and "card (dd_seen (dm_dedup (ag_daemon ag))) + 1 < dd_max_keys (dm_dedup (ag_daemon ag))"
    and "finite (dd_seen (dm_dedup (ag_daemon ag)))"
  shows "let ag1 = snd (snd (provider_pass bp bc ci (Some pr) ss (rec, ag)))
         in provider_pass bp bc ci' (Some pr') ss (rec', ag1)
              = (Acted, rec'\<lparr> by_decision := Some ''no actionable decision this cycle'' \<rparr>, ag1)"
proof -
  let ?k = "situation_set_key ss" and ?e = "canonical_key (sp_to_text (bp_service bp)) (merged_evidence ss)"
  let ?d = "ag_daemon ag"
  let ?d1 = "snd (claim_dedup ?k ?d)"
  have fresh: "fst (claim_dedup ?k ?d)" using assms(1) by (simp add: claim_dedup_seen)
  have seen1: "dd_seen (dm_dedup ?d1) = insert ?k (dd_seen (dm_dedup ?d))" "dd_max_keys (dm_dedup ?d1) = dd_max_keys (dm_dedup ?d)"
    using assms(1,5) by (simp_all add: claim_dedup_def case_prod_beta claim_def)
  have c: "fst (claim ?e (dm_dedup ?d1))" using assms(2,3) seen1 by (simp add: seen.claim_iff)
  have "card (insert ?k (dd_seen (dm_dedup ?d))) < dd_max_keys (dm_dedup ?d)" using assms(1,5,6) by simp
  then have seen2: "dd_seen (snd (claim ?e (dm_dedup ?d1))) = insert ?e (insert ?k (dd_seen (dm_dedup ?d)))"
    using assms(2,3) seen1 by (simp add: claim_def)
  let ?proposal = "propose_once (sp_to_text (bp_service bp)) (bp_show_error bp) (ci_propose ci) pr (merged_evidence ss)
      (bl_confidence_threshold bc) ?d1"
  have "plan_from_evidence (sp_to_text (bp_service bp)) pr (merged_evidence ss) (bl_confidence_threshold bc) (dm_dedup ?d1)
      = (Inl (DecisionValidation e), snd (claim ?e (dm_dedup ?d1)))"
    using c assms(4) by (simp add: plan_from_evidence_def case_prod_beta Let_def decide_outcome_with_def host_health_request_def)
  then have failed: "fst ?proposal = Inl (DecisionValidation e)" "dd_seen (dm_dedup (snd ?proposal)) = dd_seen (snd (claim ?e (dm_dedup ?d1)))"
    by (auto simp: propose_once_def Let_def mark_provider_degraded_def)
  have "?k \<in> dd_seen (dm_dedup (ag_daemon (snd (snd (provider_pass bp bc ci (Some pr) ss (rec, ag))))))"
    using fresh failed seen2 by (simp add: provider_pass_def case_prod_beta Let_def)
  then show ?thesis
    by (simp add: provider_pass_def Let_def case_prod_beta claim_dedup_seen claim_dedup_def seen.claim_held)
qed

text \<open>
  A provider plan that fails is not retried either: the run releases the key of the set, the
  evidence key its proposal claimed stays, and the next proposal over the same evidence is a
  duplicate that consults nobody.
\<close>

theorem failed_provider_plan_not_retried:
  assumes "canonical_key (sp_to_text (bp_service bp)) (merged_evidence ss) \<in> dd_seen (dm_dedup (ag_daemon ag))"
    and "situation_set_key ss \<noteq> canonical_key (sp_to_text (bp_service bp)) (merged_evidence ss)"
    and "card (dd_seen (dm_dedup (ag_daemon ag))) < dd_max_keys (dm_dedup (ag_daemon ag))"
    and "act bp bc ai p (situation_set_key ss) HOST_HEALTH (rec, ag) = (Acted, rec', ag')"
    and "fst (run_remediation (bp_service bp) (ai_moment ai) p (effective (dm_autonomy (ag_daemon ag)) (bl_autonomy bc)) (ag_daemon ag))
          = RunFinished report" and "eo_status report \<noteq> Completed"
    and "finite (dd_seen (dm_dedup (ag_daemon ag)))"
  shows "fst (snd (provider_pass bp bc' ci (Some pr) ss (rec'', ag')))
       = rec''\<lparr> by_decision := Some ''no actionable decision this cycle'' \<rparr>"
proof -
  let ?k = "situation_set_key ss" and ?e = "canonical_key (sp_to_text (bp_service bp)) (merged_evidence ss)"
  have d: "dm_dedup (ag_daemon ag') = release ?k (dm_dedup (ag_daemon ag))"
    using act_dedup [OF assms(4,5)] assms(6) by simp
  let ?d1 = "snd (claim_dedup ?k (ag_daemon ag'))"
  have fresh: "fst (claim_dedup ?k (ag_daemon ag'))" by (simp add: claim_dedup_seen d release_def)
  have "card (dd_seen (dm_dedup (ag_daemon ag)) - {?k}) < dd_max_keys (dm_dedup (ag_daemon ag))"
    using assms(3,7) by (meson card_Diff1_le le_less_trans)
  then have "?e \<in> dd_seen (dm_dedup ?d1)"
    using assms(1,2) d by (simp add: claim_dedup_def case_prod_beta claim_def release_def)
  then have "plan_from_evidence (sp_to_text (bp_service bp)) pr (merged_evidence ss) (bl_confidence_threshold bc') (dm_dedup ?d1)
      = (Inr (Deduplicated ?e), dm_dedup ?d1)"
    by (simp add: plan_from_evidence_def seen.claim_held Let_def)
  with fresh show ?thesis
    by (simp add: provider_pass_def propose_once_def case_prod_beta Let_def)
qed

text \<open>
  An engine that cannot be reached leaves the provider marked ready: its error is turned into a
  missing decision before the health is updated, so the rung does not fall on provider loss.
\<close>

theorem unreachable_engine_marked_ready:
  assumes "pr (host_health_request b) = Inl (DecisionUnavailable m)"
  shows "ph_status (dm_provider_health (snd (propose_once to_text show_error mo pr b t d))) = ProviderReady"
  using assms
  by (auto simp: propose_once_def plan_from_evidence_def decide_outcome_with_def Let_def case_prod_beta mark_provider_ready_def
      provider_ready_def)

text \<open>
  A host without situations loses its rung: only a finished run counts as an event processed, so
  once the last one is older than the lag limit the inputs read as stale, and the tick of a cycle that
  perceives nothing resets the rung to L0, however healthy the host is.
\<close>

theorem quiet_host_loses_rung:
  assumes "cycle_with_situations bp bc (ti_cycle ti) provider [] consulted ag = (Some rec, ag1)"
    and "selfobs_safe_mode (ti_uptime ti) (ti_unix_ms ti) thresholds_default (dm_selfobs (ag_daemon ag)) = StaleInputs"
  shows "as_earned (am_state (on_cycle (tick_signals bc ti rec (ag_daemon ag1)) ok (dm_autonomy (ag_daemon ag1)))) = L0Observe"
proof -
  have "dm_selfobs (ag_daemon ag1) = dm_selfobs (ag_daemon ag)"
    using assms(1) by (auto simp: cycle_with_situations_def run_cycle_def Let_def case_prod_beta)
  with assms(2) have safe: "cs_safe_mode_active (tick_signals bc ti rec (ag_daemon ag1))"
    by (simp add: tick_signals_def)
  have low: "\<not> rank L0Observe < rank a \<Longrightarrow> a = L0Observe" for a by (cases a) simp_all
  show ?thesis
    using safe low by (auto simp: on_cycle_def revoke_def earn_def clean_def Let_def transition_def
        with_state_def persist_def split: if_splits)
qed

end
