(* ===== verification/Cloud_Client.thy ===== *)
theory Cloud_Client
  imports Ledger
begin

text \<open>
  The client side of the agent protocol (\<open>argus-cloud\<close>): message types and envelopes, version
  negotiation, the installation key, the connectivity tracker, the backoff with its generator at 64
  bits, the reconnect policy, the handshake and the enrollment over a transport, heartbeat and
  reporting schedules, the batching of the report queue, clock skew and the cloud settings.

  A transport is what it will deliver, in order, and what each send will return; past the end of its
  script the peer has closed. The signature scheme, base64, the parser of semantic versions, the text
  of times and the text of a decoding error belong to libraries and are parameters.
\<close>

unbundle bit_operations_syntax

section \<open>Message types and envelopes\<close>

datatype message_type =
    HandshakeHello | HandshakeAuthenticate | HandshakeReady | HandshakeReject
  | PairingRedeem | PairingGranted | PairingDenied
  | TelemetryReport | HealthReport | EventsReport | ActivitiesReport | CapabilitiesPublish | SentinelReport
  | ActionEvent | BrainTraceMsg | TokenUsageMsg
  | TelemetryAck | HealthAck | EventsAck | ActivitiesAck | CapabilitiesAck | IngestAck
  | ActionEventAck | BrainTraceAck | TokenUsageAck
  | ConfigResult | CommandResultMsg | ConfigState
  | ConfigApply | CommandInvokeMsg | ConfigPullRequest | ApprovalDecisionMsg | ApprovalResult
  | RunbookDecision | RunbookResult | SentinelAck
  | Ping | Pong | StreamThrottle | SessionRotate

fun message_type_str :: "message_type \<Rightarrow> string" where
  "message_type_str HandshakeHello = ''handshake.hello''"
| "message_type_str HandshakeAuthenticate = ''handshake.authenticate''"
| "message_type_str HandshakeReady = ''handshake.ready''"
| "message_type_str HandshakeReject = ''handshake.reject''"
| "message_type_str PairingRedeem = ''pairing.redeem''"
| "message_type_str PairingGranted = ''pairing.granted''"
| "message_type_str PairingDenied = ''pairing.denied''"
| "message_type_str TelemetryReport = ''telemetry.report''"
| "message_type_str HealthReport = ''health.report''"
| "message_type_str EventsReport = ''events.report''"
| "message_type_str ActivitiesReport = ''activities.report''"
| "message_type_str CapabilitiesPublish = ''capabilities.publish''"
| "message_type_str SentinelReport = ''sentinel.report''"
| "message_type_str ActionEvent = ''action.event''"
| "message_type_str BrainTraceMsg = ''brain.trace''"
| "message_type_str TokenUsageMsg = ''token.usage''"
| "message_type_str SentinelAck = ''sentinel.ack''"
| "message_type_str ApprovalDecisionMsg = ''approval.decision''"
| "message_type_str ApprovalResult = ''approval.result''"
| "message_type_str RunbookDecision = ''runbook.decision''"
| "message_type_str RunbookResult = ''runbook.result''"
| "message_type_str TelemetryAck = ''telemetry.ack''"
| "message_type_str HealthAck = ''health.ack''"
| "message_type_str EventsAck = ''events.ack''"
| "message_type_str ActivitiesAck = ''activities.ack''"
| "message_type_str CapabilitiesAck = ''capabilities.ack''"
| "message_type_str IngestAck = ''ingest.ack''"
| "message_type_str ActionEventAck = ''action.event.ack''"
| "message_type_str BrainTraceAck = ''brain.trace.ack''"
| "message_type_str TokenUsageAck = ''token.usage.ack''"
| "message_type_str ConfigResult = ''config.result''"
| "message_type_str CommandResultMsg = ''command.result''"
| "message_type_str ConfigState = ''config.state''"
| "message_type_str ConfigApply = ''config.apply''"
| "message_type_str CommandInvokeMsg = ''command.invoke''"
| "message_type_str ConfigPullRequest = ''config.pull.request''"
| "message_type_str Ping = ''ping''"
| "message_type_str Pong = ''pong''"
| "message_type_str StreamThrottle = ''stream.throttle''"
| "message_type_str SessionRotate = ''session.rotate''"

text \<open>Reading a type: the match of \<open>from_str\<close>, arm by arm, as a table.\<close>

definition message_type_table :: "(string \<times> message_type) list" where
  "message_type_table =
     [(''handshake.hello'', HandshakeHello), (''handshake.authenticate'', HandshakeAuthenticate),
      (''handshake.ready'', HandshakeReady), (''handshake.reject'', HandshakeReject),
      (''pairing.redeem'', PairingRedeem), (''pairing.granted'', PairingGranted),
      (''pairing.denied'', PairingDenied), (''telemetry.report'', TelemetryReport),
      (''health.report'', HealthReport), (''events.report'', EventsReport),
      (''activities.report'', ActivitiesReport), (''capabilities.publish'', CapabilitiesPublish),
      (''action.event'', ActionEvent), (''brain.trace'', BrainTraceMsg), (''token.usage'', TokenUsageMsg),
      (''telemetry.ack'', TelemetryAck), (''health.ack'', HealthAck), (''events.ack'', EventsAck),
      (''activities.ack'', ActivitiesAck), (''capabilities.ack'', CapabilitiesAck), (''ingest.ack'', IngestAck),
      (''action.event.ack'', ActionEventAck), (''brain.trace.ack'', BrainTraceAck),
      (''token.usage.ack'', TokenUsageAck), (''config.result'', ConfigResult),
      (''command.result'', CommandResultMsg), (''config.state'', ConfigState), (''config.apply'', ConfigApply),
      (''command.invoke'', CommandInvokeMsg), (''config.pull.request'', ConfigPullRequest),
      (''sentinel.report'', SentinelReport), (''sentinel.ack'', SentinelAck),
      (''approval.decision'', ApprovalDecisionMsg), (''approval.result'', ApprovalResult),
      (''runbook.decision'', RunbookDecision), (''runbook.result'', RunbookResult),
      (''ping'', Ping), (''pong'', Pong), (''stream.throttle'', StreamThrottle),
      (''session.rotate'', SessionRotate)]"

definition parse_message_type :: "string \<Rightarrow> message_type option" where
  "parse_message_type s = map_of message_type_table s"

datatype direction = CloudToInstallation | InstallationToCloud

definition message_direction :: "message_type \<Rightarrow> direction" where
  "message_direction ty =
     (if ty \<in> {HandshakeHello, HandshakeReady, HandshakeReject, PairingGranted, PairingDenied, TelemetryAck, HealthAck,
               EventsAck, ActivitiesAck, CapabilitiesAck, IngestAck, ActionEventAck, BrainTraceAck, TokenUsageAck,
               SentinelAck, ConfigApply, CommandInvokeMsg, ConfigPullRequest, ApprovalDecisionMsg, RunbookDecision,
               Ping, Pong, StreamThrottle, SessionRotate}
      then CloudToInstallation else InstallationToCloud)"

definition is_report_ack :: "message_type \<Rightarrow> bool" where
  "is_report_ack ty \<longleftrightarrow>
     ty \<in> {TelemetryAck, HealthAck, EventsAck, ActivitiesAck, CapabilitiesAck, IngestAck, ActionEventAck,
           BrainTraceAck, TokenUsageAck}"

definition PROTOCOL_VERSION :: string where
  "PROTOCOL_VERSION = ''1.2.0''"

definition SUPPORTED_PROTOCOL_VERSIONS :: "string list" where
  "SUPPORTED_PROTOCOL_VERSIONS = [''1.2.0'', ''1.1.0'', ''1.0.0'']"

definition negotiate :: "(string \<Rightarrow> 'v::linorder option) \<Rightarrow> string list \<Rightarrow> 'v option" where
  "negotiate parse peers =
     (let shared = sort (filter (\<lambda>v. v \<in> set (List.map_filter parse peers))
                                (List.map_filter parse SUPPORTED_PROTOCOL_VERSIONS))
      in if shared = [] then None else Some (last shared))"

record envelope =
  en_protocol_version :: string
  en_message_id :: uuid
  en_correlation_id :: "uuid option"
  en_sent_at :: instant
  en_message_type :: string
  en_payload :: json

definition envelope_new :: "uuid \<times> instant \<Rightarrow> message_type \<Rightarrow> json \<Rightarrow> uuid option \<Rightarrow> envelope" where
  "envelope_new fresh ty payload correlation =
     \<lparr> en_protocol_version = PROTOCOL_VERSION, en_message_id = fst fresh, en_correlation_id = correlation,
       en_sent_at = snd fresh, en_message_type = message_type_str ty, en_payload = payload \<rparr>"

definition envelope_kind :: "envelope \<Rightarrow> message_type option" where
  "envelope_kind e = parse_message_type (en_message_type e)"

text \<open>The correlation of a reply: that of the frame, or the frame itself.\<close>

definition reply_correlation :: "envelope \<Rightarrow> uuid option" where
  "reply_correlation e = (case en_correlation_id e of Some c \<Rightarrow> Some c | None \<Rightarrow> Some (en_message_id e))"

section \<open>Transport\<close>

datatype transport_error =
    ConnectError string | SendError string | ReceiveError string | Closed | MalformedFrame string
  | CloudIdentityMismatchError string string | SecureTransport string | IoError string

fun transport_error_str :: "transport_error \<Rightarrow> string" where
  "transport_error_str (ConnectError e) = ''connect failed: '' @ e"
| "transport_error_str (SendError e) = ''send failed: '' @ e"
| "transport_error_str (ReceiveError e) = ''receive failed: '' @ e"
| "transport_error_str Closed = ''connection is closed''"
| "transport_error_str (MalformedFrame e) = ''frame is not a valid envelope: '' @ e"
| "transport_error_str (CloudIdentityMismatchError expected actual) =
     ''cloud identity mismatch: expected '' @ [CHR 0x27] @ expected @ [CHR 0x27] @ '', got '' @ [CHR 0x27] @ actual @ [CHR 0x27]"
| "transport_error_str (SecureTransport e) = ''secure transport failure: '' @ e"
| "transport_error_str (IoError e) = ''i/o failure: '' @ e"

record transport =
  tp_incoming :: "(transport_error + envelope) list"
  tp_verdict :: "nat \<Rightarrow> transport_error option"
  tp_fresh :: "nat \<Rightarrow> uuid \<times> instant"
  tp_attempts :: nat
  tp_sent :: "envelope list"

definition transport_recv :: "transport \<Rightarrow> (transport_error + envelope option) \<times> transport" where
  "transport_recv t =
     (case tp_incoming t of
        [] \<Rightarrow> (Inr None, t)
      | Inl e # rest \<Rightarrow> (Inl e, t\<lparr> tp_incoming := rest \<rparr>)
      | Inr frame # rest \<Rightarrow> (Inr (Some frame), t\<lparr> tp_incoming := rest \<rparr>))"

definition transport_send ::
  "message_type \<Rightarrow> json \<Rightarrow> uuid option \<Rightarrow> transport \<Rightarrow> transport_error option \<times> transport" where
  "transport_send ty payload correlation t =
     (let n = tp_attempts t; t1 = t\<lparr> tp_attempts := Suc n \<rparr>
      in case tp_verdict t n of
           Some e \<Rightarrow> (Some e, t1)
         | None \<Rightarrow> (None, t1\<lparr> tp_sent := tp_sent t @ [envelope_new (tp_fresh t n) ty payload correlation] \<rparr>))"

definition verify_cloud_identity :: "string \<Rightarrow> string option \<Rightarrow> transport_error option" where
  "verify_cloud_identity expected announced =
     (case announced of
        Some actual \<Rightarrow> if actual = expected then None else Some (CloudIdentityMismatchError expected actual)
      | None \<Rightarrow> Some (MalformedFrame ''handshake.hello did not announce a cloud_id''))"

section \<open>The installation key\<close>

record key_scheme =
  ks_public :: "8 word list \<Rightarrow> 8 word list"
  ks_sign :: "8 word list \<Rightarrow> 8 word list \<Rightarrow> 8 word list"
  ks_encode :: "8 word list \<Rightarrow> string"
  ks_decode :: "string \<Rightarrow> 8 word list option"

definition SEED_LEN :: nat where "SEED_LEN = 32"
definition SPKI_LEN :: nat where "SPKI_LEN = 44"

definition SPKI_PREFIX :: "8 word list" where
  "SPKI_PREFIX = [0x30, 0x2a, 0x30, 0x05, 0x06, 0x03, 0x2b, 0x65, 0x70, 0x03, 0x21, 0x00]"

datatype identity_error = NotBase64 | WrongLength nat

datatype installation_key = InstallationKey (ik_seed: "8 word list")

definition key_from_seed_b64 :: "key_scheme \<Rightarrow> string \<Rightarrow> identity_error + installation_key" where
  "key_from_seed_b64 ks s =
     (case ks_decode ks (trim s) of
        None \<Rightarrow> Inl NotBase64
      | Some seed \<Rightarrow> if length seed = SEED_LEN then Inr (InstallationKey seed) else Inl (WrongLength (length seed)))"

definition seed_b64 :: "key_scheme \<Rightarrow> installation_key \<Rightarrow> string" where
  "seed_b64 ks k = ks_encode ks (ik_seed k)"

definition spki_der :: "key_scheme \<Rightarrow> installation_key \<Rightarrow> 8 word list" where
  "spki_der ks k = SPKI_PREFIX @ ks_public ks (ik_seed k)"

definition public_key_b64 :: "key_scheme \<Rightarrow> installation_key \<Rightarrow> string" where
  "public_key_b64 ks k = ks_encode ks (spki_der ks k)"

definition sign_challenge :: "key_scheme \<Rightarrow> installation_key \<Rightarrow> string \<Rightarrow> string" where
  "sign_challenge ks k challenge = ks_encode ks (ks_sign ks (ik_seed k) (utf8 challenge))"

section \<open>Payloads\<close>

text \<open>
  How the library reads times and describes a payload it cannot decode. A payload struct is read from
  a JSON object: a required member must be there with its type, unknown members are ignored.
\<close>

record wire_codec =
  wc_text :: wire_text
  wc_parse_time :: "string \<Rightarrow> instant option"
  wc_error :: "json \<Rightarrow> string"

definition required :: "(json \<Rightarrow> 'a option) \<Rightarrow> string \<Rightarrow> json \<Rightarrow> 'a option" where
  "required f key j = Option.bind (json_get key j) f"

definition time_of_json :: "wire_codec \<Rightarrow> json \<Rightarrow> instant option" where
  "time_of_json wc j = Option.bind (as_string j) (wc_parse_time wc)"

definition strings_of_json :: "json \<Rightarrow> string list option" where
  "strings_of_json j = Option.bind (as_array j) (\<lambda>js. those (map as_string js))"

definition bool_default :: "string \<Rightarrow> json \<Rightarrow> bool option" where
  "bool_default key j = (case json_get key j of None \<Rightarrow> Some False | Some v \<Rightarrow> as_bool v)"

record hello_payload =
  hl_cloud_id :: string
  hl_cloud_instance :: string
  hl_server_time :: instant
  hl_versions :: "string list"
  hl_challenge :: string
  hl_heartbeat_interval_seconds :: u64

definition hello_of_json :: "wire_codec \<Rightarrow> json \<Rightarrow> hello_payload option" where
  "hello_of_json wc j =
     Option.bind (required as_string ''cloud_id'' j) (\<lambda>cloud_id.
     Option.bind (required as_string ''cloud_instance'' j) (\<lambda>cloud_instance.
     Option.bind (required (time_of_json wc) ''server_time'' j) (\<lambda>server_time.
     Option.bind (required strings_of_json ''supported_protocol_versions'' j) (\<lambda>versions.
     Option.bind (required as_string ''challenge'' j) (\<lambda>challenge.
     Option.bind (required word_of_json ''heartbeat_interval_seconds'' j) (\<lambda>interval.
       Some \<lparr> hl_cloud_id = cloud_id, hl_cloud_instance = cloud_instance, hl_server_time = server_time,
              hl_versions = versions, hl_challenge = challenge, hl_heartbeat_interval_seconds = interval \<rparr>))))))"

record ready_payload =
  rd_negotiated_protocol_version :: string
  rd_instance_id :: uuid
  rd_tenant_id :: uuid
  rd_config_pull_required :: bool
  rd_capability_schema_version :: "string option"

definition ready_of_json :: "wire_codec \<Rightarrow> json \<Rightarrow> ready_payload option" where
  "ready_of_json wc j =
     Option.bind (required as_string ''negotiated_protocol_version'' j) (\<lambda>version.
     Option.bind (required (uuid_of_json (wc_text wc)) ''instance_id'' j) (\<lambda>instance_id.
     Option.bind (required (uuid_of_json (wc_text wc)) ''tenant_id'' j) (\<lambda>tenant_id.
     Option.bind (bool_default ''config_pull_required'' j) (\<lambda>pull.
     Option.bind (opt_of_json as_string (json_get ''capability_schema_version'' j)) (\<lambda>schema_version.
       Some \<lparr> rd_negotiated_protocol_version = version, rd_instance_id = instance_id, rd_tenant_id = tenant_id,
              rd_config_pull_required = pull, rd_capability_schema_version = schema_version \<rparr>)))))"

definition reject_of_json :: "json \<Rightarrow> (string \<times> string) option" where
  "reject_of_json j =
     Option.bind (required as_string ''code'' j) (\<lambda>c.
     Option.bind (required as_string ''message'' j) (\<lambda>m. Some (c, m)))"

record granted_payload =
  gr_instance_id :: uuid
  gr_tenant_id :: uuid
  gr_instance_name :: string
  gr_session_token :: string
  gr_session_expires_at :: instant
  gr_negotiated_protocol_version :: string

definition granted_of_json :: "wire_codec \<Rightarrow> json \<Rightarrow> granted_payload option" where
  "granted_of_json wc j =
     Option.bind (required (uuid_of_json (wc_text wc)) ''instance_id'' j) (\<lambda>instance_id.
     Option.bind (required (uuid_of_json (wc_text wc)) ''tenant_id'' j) (\<lambda>tenant_id.
     Option.bind (required as_string ''instance_name'' j) (\<lambda>name.
     Option.bind (required as_string ''session_token'' j) (\<lambda>session_token.
     Option.bind (required (time_of_json wc) ''session_expires_at'' j) (\<lambda>expires.
     Option.bind (required as_string ''negotiated_protocol_version'' j) (\<lambda>version.
       Some \<lparr> gr_instance_id = instance_id, gr_tenant_id = tenant_id, gr_instance_name = name,
              gr_session_token = session_token, gr_session_expires_at = expires,
              gr_negotiated_protocol_version = version \<rparr>))))))"

datatype pairing_denial_code = PdInvalid | PdUsed | PdExpired | PdCancelled | PdKeyChanged | PdRateLimited

fun denial_str :: "pairing_denial_code \<Rightarrow> string" where
  "denial_str PdInvalid = ''INVALID''"
| "denial_str PdUsed = ''USED''"
| "denial_str PdExpired = ''EXPIRED''"
| "denial_str PdCancelled = ''CANCELLED''"
| "denial_str PdKeyChanged = ''KEY_CHANGED''"
| "denial_str PdRateLimited = ''RATE_LIMITED''"

fun denial_remediation :: "pairing_denial_code \<Rightarrow> string" where
  "denial_remediation PdInvalid = ''The pairing code is not valid. Check for typos and try again.''"
| "denial_remediation PdUsed = ''This pairing code has already been used. Generate a new one.''"
| "denial_remediation PdExpired = ''This pairing code has expired. Generate a new one.''"
| "denial_remediation PdCancelled = ''This pairing code was cancelled. Generate a new one.''"
| "denial_remediation PdKeyChanged =
     ''This installation is already enrolled with different credentials. ''
     @ ''Revoke it in the workspace, or forget the local enrollment first.''"
| "denial_remediation PdRateLimited =
     ''Too many pairing attempts. Wait before retrying; repeated attempts '' @ ''will extend the lockout.''"

definition denial_of_json :: "json \<Rightarrow> pairing_denial_code option" where
  "denial_of_json j =
     Option.bind (required as_string ''code'' j) (\<lambda>s.
     Option.bind (opt_of_json as_string (json_get ''message'' j)) (\<lambda>_.
       find (\<lambda>c. denial_str c = s) [PdInvalid, PdUsed, PdExpired, PdCancelled, PdKeyChanged, PdRateLimited]))"

section \<open>Enrolled identity and connectivity\<close>

datatype cloud_connectivity_state =
    CsNotConfigured | CsConnecting | CsConnected | CsDegraded | CsDisconnected | CsSuspended | CsRevoked

definition allows_reconnect :: "cloud_connectivity_state \<Rightarrow> bool" where
  "allows_reconnect s \<longleftrightarrow> s \<notin> {CsRevoked, CsNotConfigured}"

definition is_online :: "cloud_connectivity_state \<Rightarrow> bool" where
  "is_online s \<longleftrightarrow> s \<in> {CsConnected, CsDegraded}"

datatype trust_status = TrustActive | TrustSuspended | TrustRevoked

record trust_state =
  ts_status :: trust_status
  ts_credential_epoch :: u64
  ts_last_change_at :: instant
  ts_last_change_reason :: "string option"

definition trust_active :: "instant \<Rightarrow> trust_state" where
  "trust_active now =
     \<lparr> ts_status = TrustActive, ts_credential_epoch = 0, ts_last_change_at = now, ts_last_change_reason = None \<rparr>"

definition trust_transition :: "trust_status \<Rightarrow> string \<Rightarrow> instant \<Rightarrow> trust_state \<Rightarrow> trust_state" where
  "trust_transition status reason now t =
     t\<lparr> ts_status := status, ts_last_change_at := now, ts_last_change_reason := Some reason \<rparr>"

definition rotate_credential :: "instant \<Rightarrow> trust_state \<Rightarrow> trust_state" where
  "rotate_credential now t =
     t\<lparr> ts_credential_epoch := sat_add (ts_credential_epoch t) 1, ts_last_change_at := now,
        ts_last_change_reason := Some ''credential rotated'' \<rparr>"

record cloud_enrollment =
  ce_installation_id :: uuid
  ce_tenant_id :: uuid
  ce_instance_name :: string
  ce_enrolled_at :: instant
  ce_enrolled_by :: "string option"

definition enrollment_new :: "uuid \<Rightarrow> uuid \<Rightarrow> string \<Rightarrow> instant \<Rightarrow> cloud_enrollment" where
  "enrollment_new installation tenant name now =
     \<lparr> ce_installation_id = installation, ce_tenant_id = tenant, ce_instance_name = name, ce_enrolled_at = now,
       ce_enrolled_by = None \<rparr>"

record enrolled_identity =
  ei_installation_id :: uuid
  ei_tenant_id :: uuid
  ei_instance_name :: string
  ei_credential_epoch :: u64
  ei_public_key :: string
  ei_protocol_version :: string
  ei_enrolled_at :: instant

definition from_granted :: "granted_payload \<Rightarrow> instant \<Rightarrow> string \<Rightarrow> enrolled_identity" where
  "from_granted p now public_key =
     \<lparr> ei_installation_id = gr_instance_id p, ei_tenant_id = gr_tenant_id p, ei_instance_name = gr_instance_name p,
       ei_credential_epoch = 0, ei_public_key = public_key, ei_protocol_version = gr_negotiated_protocol_version p,
       ei_enrolled_at = now \<rparr>"

definition from_enrollment :: "cloud_enrollment \<Rightarrow> string \<Rightarrow> string \<Rightarrow> enrolled_identity" where
  "from_enrollment e version public_key =
     \<lparr> ei_installation_id = ce_installation_id e, ei_tenant_id = ce_tenant_id e, ei_instance_name = ce_instance_name e,
       ei_credential_epoch = 0, ei_public_key = public_key, ei_protocol_version = version,
       ei_enrolled_at = ce_enrolled_at e \<rparr>"

definition to_enrollment :: "enrolled_identity \<Rightarrow> cloud_enrollment" where
  "to_enrollment i =
     (enrollment_new (ei_installation_id i) (ei_tenant_id i) (ei_instance_name i) (ei_enrolled_at i))
       \<lparr> ce_enrolled_by := None \<rparr>"

definition identity_trust_state :: "instant \<Rightarrow> enrolled_identity \<Rightarrow> trust_state" where
  "identity_trust_state now i =
     (trust_active (ei_enrolled_at i))\<lparr> ts_credential_epoch := ei_credential_epoch i, ts_last_change_at := now \<rparr>"

definition identity_rotated :: "enrolled_identity \<Rightarrow> enrolled_identity" where
  "identity_rotated i = i\<lparr> ei_credential_epoch := sat_add (ei_credential_epoch i) 1 \<rparr>"

record connectivity_tracker =
  ct_state :: cloud_connectivity_state
  ct_last_exchange_at :: "instant option"
  ct_last_error :: "string option"

definition tracker_new :: connectivity_tracker where
  "tracker_new = \<lparr> ct_state = CsNotConfigured, ct_last_exchange_at = None, ct_last_error = None \<rparr>"

definition tracker_transition :: "cloud_connectivity_state \<Rightarrow> connectivity_tracker \<Rightarrow> connectivity_tracker" where
  "tracker_transition s t =
     (let t1 = t\<lparr> ct_state := s \<rparr>
      in if s \<notin> {CsDisconnected, CsDegraded} then t1\<lparr> ct_last_error := None \<rparr> else t1)"

definition record_exchange :: "instant \<Rightarrow> connectivity_tracker \<Rightarrow> connectivity_tracker" where
  "record_exchange now t = t\<lparr> ct_last_exchange_at := Some now, ct_last_error := None \<rparr>"

definition record_error :: "string \<Rightarrow> connectivity_tracker \<Rightarrow> connectivity_tracker" where
  "record_error e t = t\<lparr> ct_last_error := Some e \<rparr>"

definition tracker_remediation :: "connectivity_tracker \<Rightarrow> string option" where
  "tracker_remediation t =
     (case ct_state t of
        CsNotConfigured \<Rightarrow> Some ''run `argus cloud enroll` to connect this installation''
      | CsRevoked \<Rightarrow> Some ''this installation was revoked; re-enrollment is required''
      | CsSuspended \<Rightarrow> Some ''this installation is suspended; no action is needed until it is resumed''
      | CsDisconnected \<Rightarrow> Some ''check network reachability and the configured cloud endpoint''
      | _ \<Rightarrow> None)"

section \<open>Backoff and the reconnect policy\<close>

definition DURATION_MAX :: duration where
  "DURATION_MAX = (2 ^ 64 - 1) * 1000000000 + 999999999"

abbreviation millis :: "int \<Rightarrow> duration" where
  "millis n \<equiv> n * 1000000"

record backoff =
  bo_base :: duration
  bo_max :: duration
  bo_attempt :: u32
  bo_state :: u64

definition backoff_with_seed :: "duration \<Rightarrow> duration \<Rightarrow> u64 \<Rightarrow> backoff" where
  "backoff_with_seed base limit seed =
     \<lparr> bo_base = base, bo_max = max limit base, bo_attempt = 0,
       bo_state = (if seed = 0 then 0x9E3779B97F4A7C15 else seed) \<rparr>"

definition seed_from_environment :: "u64 option \<Rightarrow> u64 \<Rightarrow> u64" where
  "seed_from_environment nanos pid =
     (case nanos of None \<Rightarrow> 0x5DEECE66D1CE4E5B | Some n \<Rightarrow> n) XOR (pid * 0x9E3779B97F4A7C15)"

definition shift_factor :: "u32 \<Rightarrow> u32" where
  "shift_factor attempt = (if min attempt 63 < 32 then push_bit (unat (min attempt 63)) 1 else - 1)"

definition backoff_ceiling :: "backoff \<Rightarrow> duration" where
  "backoff_ceiling b = min (min (bo_base b * uint (shift_factor (bo_attempt b))) DURATION_MAX) (bo_max b)"

definition xorshift :: "u64 \<Rightarrow> u64" where
  "xorshift x0 = (let x1 = x0 XOR drop_bit 12 x0; x2 = x1 XOR push_bit 25 x1 in x2 XOR drop_bit 27 x2)"

definition next_u64 :: "backoff \<Rightarrow> u64 \<times> backoff" where
  "next_u64 b = (let x = xorshift (bo_state b) in (x * 0x2545F4914F6CDD1D, b\<lparr> bo_state := x \<rparr>))"

text \<open>\<open>None\<close> is the panic of the remainder by \<open>ceiling_ms + 1\<close> when that sum wraps to zero.\<close>

definition next_delay :: "backoff \<Rightarrow> (duration \<times> backoff) option" where
  "next_delay b =
     (let ceiling_ms = (word_of_int (min (backoff_ceiling b div 1000000) (2 ^ 64 - 1)) :: u64);
          next = (if ceiling_ms = 0 then Some (0, b)
                  else if ceiling_ms + 1 = 0 then None
                  else let (x, b1) = next_u64 b in Some (x mod (ceiling_ms + 1), b1))
      in map_option (\<lambda>(jittered, b1). (millis (uint jittered), b1\<lparr> bo_attempt := sat_add (bo_attempt b1) 1 \<rparr>)) next)"

definition backoff_reset :: "backoff \<Rightarrow> backoff" where
  "backoff_reset b = b\<lparr> bo_attempt := 0 \<rparr>"

datatype handshake_failure =
    HsRejected string string | HsIdentityMismatch string string | HsCloudClosed | HsUnexpected string
  | HsUnsupportedVersion "string list" | HsMalformed string

fun failure_terminal :: "handshake_failure \<Rightarrow> bool" where
  "failure_terminal (HsRejected c m) = (c = ''REVOKED'')"
| "failure_terminal _ = False"

fun failure_rate_limited :: "handshake_failure \<Rightarrow> bool" where
  "failure_rate_limited (HsRejected c m) = (c = ''RATE_LIMITED'')"
| "failure_rate_limited _ = False"

definition failure_allows_retry :: "handshake_failure \<Rightarrow> bool" where
  "failure_allows_retry f \<longleftrightarrow> \<not> failure_terminal f"

fun failure_remediation :: "handshake_failure \<Rightarrow> string" where
  "failure_remediation (HsRejected c m) =
     (if c = ''REVOKED'' then ''this installation was revoked; re-enrollment is required''
      else if c = ''RATE_LIMITED'' then ''the cloud is rate limiting this installation; it will retry more slowly''
      else if c = ''UNSUPPORTED_VERSION''
      then ''this installation and the cloud share no protocol version; upgrade is required''
      else ''the cloud refused the session ('' @ c @ ''): '' @ m)"
| "failure_remediation (HsIdentityMismatch expected actual) =
     ''refused to talk to '' @ [CHR 0x27] @ actual @ [CHR 0x27] @ ''; expected '' @ [CHR 0x27] @ expected @ [CHR 0x27]"
| "failure_remediation HsCloudClosed = ''the cloud closed the connection during the handshake''"
| "failure_remediation (HsUnexpected received) =
     ''the cloud sent an unexpected message during the handshake ('' @ received @ '')''"
| "failure_remediation (HsUnsupportedVersion offered) = ''no mutually supported protocol version; upgrade is required''"
| "failure_remediation (HsMalformed detail) = ''the cloud sent a malformed handshake reply: '' @ detail"

datatype connection_outcome = SessionEnded | HandshakeFailed handshake_failure | TransportFailed string | StoppedByHuman

datatype stop_reason = StopRevoked | StopUnsupportedVersion | StopRequested | StopNotEnrolled

datatype next_action = Reconnect duration | StopSupervision stop_reason

record reconnect_policy =
  po_backoff :: backoff
  po_rate_limit_floor :: duration

definition policy_with_seed :: "duration \<Rightarrow> duration \<Rightarrow> u64 \<Rightarrow> reconnect_policy" where
  "policy_with_seed base limit seed =
     \<lparr> po_backoff = backoff_with_seed base limit seed, po_rate_limit_floor = seconds 60 \<rparr>"

definition note_connected :: "reconnect_policy \<Rightarrow> reconnect_policy" where
  "note_connected p = p\<lparr> po_backoff := backoff_reset (po_backoff p) \<rparr>"

definition delayed :: "(duration \<Rightarrow> duration) \<Rightarrow> reconnect_policy \<Rightarrow> (next_action \<times> reconnect_policy) option" where
  "delayed adjust p = map_option (\<lambda>(d, b). (Reconnect (adjust d), p\<lparr> po_backoff := b \<rparr>)) (next_delay (po_backoff p))"

definition policy_after :: "connection_outcome \<Rightarrow> reconnect_policy \<Rightarrow> (next_action \<times> reconnect_policy) option" where
  "policy_after outcome p =
     (case outcome of
        StoppedByHuman \<Rightarrow> Some (StopSupervision StopRequested, p)
      | SessionEnded \<Rightarrow> delayed id p
      | TransportFailed _ \<Rightarrow> delayed id p
      | HandshakeFailed failure \<Rightarrow>
          if failure_terminal failure then Some (StopSupervision StopRevoked, p)
          else (case failure of
                  HsUnsupportedVersion _ \<Rightarrow> Some (StopSupervision StopUnsupportedVersion, p)
                | HsRejected c _ \<Rightarrow>
                    if c = ''UNSUPPORTED_VERSION'' then Some (StopSupervision StopUnsupportedVersion, p)
                    else delayed (\<lambda>d. if failure_rate_limited failure then max d (po_rate_limit_floor p) else d) p
                | _ \<Rightarrow> delayed id p))"

section \<open>The handshake\<close>

record authenticated_session =
  as_negotiated_protocol_version :: string
  as_instance_id :: uuid
  as_tenant_id :: uuid
  as_heartbeat_interval_seconds :: u64
  as_config_pull_required :: bool

definition classify_transport :: "transport_error \<Rightarrow> handshake_failure" where
  "classify_transport e =
     (case e of
        CloudIdentityMismatchError expected actual \<Rightarrow> HsIdentityMismatch expected actual
      | _ \<Rightarrow> HsMalformed (transport_error_str e))"

definition recv_frame :: "transport \<Rightarrow> (handshake_failure + envelope) \<times> transport" where
  "recv_frame t =
     (case transport_recv t of
        (Inl e, t1) \<Rightarrow> (Inl (classify_transport e), t1)
      | (Inr None, t1) \<Rightarrow> (Inl HsCloudClosed, t1)
      | (Inr (Some frame), t1) \<Rightarrow> (Inr frame, t1))"

definition check_hello :: "wire_codec \<Rightarrow> string \<Rightarrow> envelope \<Rightarrow> handshake_failure + hello_payload" where
  "check_hello wc expected frame =
     (if envelope_kind frame \<noteq> Some HandshakeHello then Inl (HsUnexpected (en_message_type frame))
      else case hello_of_json wc (en_payload frame) of
             None \<Rightarrow> Inl (HsMalformed (''handshake.hello: '' @ wc_error wc (en_payload frame)))
           | Some hello \<Rightarrow>
               (case verify_cloud_identity expected (Some (hl_cloud_id hello)) of
                  Some e \<Rightarrow> Inl (classify_transport e)
                | None \<Rightarrow> Inr hello))"

definition await_hello :: "wire_codec \<Rightarrow> string \<Rightarrow> transport \<Rightarrow> (handshake_failure + hello_payload) \<times> transport" where
  "await_hello wc expected t =
     (case recv_frame t of
        (Inl e, t1) \<Rightarrow> (Inl e, t1)
      | (Inr frame, t1) \<Rightarrow> (check_hello wc expected frame, t1))"

record session_request =
  sr_expected_cloud_id :: string
  sr_identity :: enrolled_identity
  sr_key :: installation_key
  sr_session_proof :: "string option"
  sr_hostname :: string
  sr_agent_version :: string
  sr_capability_schema_version :: "string option"

definition authenticate_json :: "wire_codec \<Rightarrow> key_scheme \<Rightarrow> session_request \<Rightarrow> string \<Rightarrow> json" where
  "authenticate_json wc ks rq challenge =
     JObj ([(''instance_id'', JStr (wt_uuid (wc_text wc) (ei_installation_id (sr_identity rq)))),
            (''protocol_version'', JStr PROTOCOL_VERSION),
            (''agent_version'', JStr (sr_agent_version rq)),
            (''hostname'', JStr (sr_hostname rq)),
            (''challenge_signature'', JStr (sign_challenge ks (sr_key rq) challenge))]
        @ Ledger.member ''session_proof'' (map_option JStr (sr_session_proof rq))
        @ Ledger.member ''capability_schema_version'' (map_option JStr (sr_capability_schema_version rq)))"

definition session_of_reply ::
  "wire_codec \<Rightarrow> hello_payload \<Rightarrow> envelope \<Rightarrow> handshake_failure + authenticated_session" where
  "session_of_reply wc hello reply =
     (case envelope_kind reply of
        Some HandshakeReady \<Rightarrow>
          (case ready_of_json wc (en_payload reply) of
             None \<Rightarrow> Inl (HsMalformed (''handshake.ready: '' @ wc_error wc (en_payload reply)))
           | Some ready \<Rightarrow>
               Inr \<lparr> as_negotiated_protocol_version = rd_negotiated_protocol_version ready,
                     as_instance_id = rd_instance_id ready, as_tenant_id = rd_tenant_id ready,
                     as_heartbeat_interval_seconds = hl_heartbeat_interval_seconds hello,
                     as_config_pull_required = rd_config_pull_required ready \<rparr>)
      | Some HandshakeReject \<Rightarrow>
          (case reject_of_json (en_payload reply) of
             None \<Rightarrow> Inl (HsMalformed (''handshake.reject: '' @ wc_error wc (en_payload reply)))
           | Some (c, m) \<Rightarrow> Inl (HsRejected c m))
      | _ \<Rightarrow> Inl (HsUnexpected (en_message_type reply)))"

definition authenticate ::
  "wire_codec \<Rightarrow> key_scheme \<Rightarrow> (string \<Rightarrow> 'v::linorder option) \<Rightarrow> session_request \<Rightarrow> transport \<Rightarrow>
   (handshake_failure + authenticated_session) \<times> transport" where
  "authenticate wc ks parse rq t =
     (case await_hello wc (sr_expected_cloud_id rq) t of
        (Inl e, t1) \<Rightarrow> (Inl e, t1)
      | (Inr hello, t1) \<Rightarrow>
          if negotiate parse (hl_versions hello) = None then (Inl (HsUnsupportedVersion (hl_versions hello)), t1)
          else (case transport_send HandshakeAuthenticate (authenticate_json wc ks rq (hl_challenge hello)) None t1 of
                  (Some e, t2) \<Rightarrow> (Inl (classify_transport e), t2)
                | (None, t2) \<Rightarrow>
                    (case recv_frame t2 of
                       (Inl e, t3) \<Rightarrow> (Inl e, t3)
                     | (Inr reply, t3) \<Rightarrow> (session_of_reply wc hello reply, t3))))"

definition connect_once ::
  "wire_codec \<Rightarrow> key_scheme \<Rightarrow> (string \<Rightarrow> 'v::linorder option) \<Rightarrow> (string \<Rightarrow> transport_error + transport) \<Rightarrow> string \<Rightarrow>
   session_request \<Rightarrow> connection_outcome + (transport \<times> authenticated_session)" where
  "connect_once wc ks parse connect endpoint rq =
     (case connect endpoint of
        Inl e \<Rightarrow> Inl (TransportFailed (transport_error_str e))
      | Inr t \<Rightarrow>
          (case authenticate wc ks parse rq t of
             (Inl f, _) \<Rightarrow> Inl (HandshakeFailed f)
           | (Inr session, t1) \<Rightarrow> Inr (t1, session)))"

section \<open>Enrollment\<close>

datatype cloud_error = CloudTransport transport_error | CloudProtocol string

definition MIN_PAIRING_CODE_LEN :: nat where "MIN_PAIRING_CODE_LEN = 8"
definition MAX_PAIRING_CODE_LEN :: nat where "MAX_PAIRING_CODE_LEN = 64"
definition MAX_HOSTNAME_LEN :: nat where "MAX_HOSTNAME_LEN = 255"
definition MAX_AGENT_VERSION_LEN :: nat where "MAX_AGENT_VERSION_LEN = 50"

text \<open>Lengths are of the UTF-8 text; the en dash of two messages is written as a hyphen.\<close>

definition validate_code :: "string \<Rightarrow> cloud_error + unit" where
  "validate_code c =
     (if \<not> (MIN_PAIRING_CODE_LEN \<le> length (utf8 c) \<and> length (utf8 c) \<le> MAX_PAIRING_CODE_LEN)
      then Inl (CloudProtocol (''pairing code must be '' @ show_nat MIN_PAIRING_CODE_LEN @ ''-''
             @ show_nat MAX_PAIRING_CODE_LEN @ '' characters, got '' @ show_nat (length (utf8 c))))
      else if trim c \<noteq> c \<or> c = [] then Inl (CloudProtocol ''pairing code must not be empty or padded with whitespace'')
      else Inr ())"

definition validate_identity_fields :: "string \<Rightarrow> string \<Rightarrow> cloud_error + unit" where
  "validate_identity_fields hostname agent_version =
     (if hostname = [] \<or> MAX_HOSTNAME_LEN < length (utf8 hostname)
      then Inl (CloudProtocol (''hostname must be 1-'' @ show_nat MAX_HOSTNAME_LEN @ '' characters''))
      else if agent_version = [] \<or> MAX_AGENT_VERSION_LEN < length (utf8 agent_version)
      then Inl (CloudProtocol (''agent version must be 1-'' @ show_nat MAX_AGENT_VERSION_LEN @ '' characters''))
      else Inr ())"

lemma send_keeps_incoming [simp]: "tp_incoming (snd (transport_send ty payload c t)) = tp_incoming t"
  by (simp add: transport_send_def Let_def split: option.split)

lemma recv_shortens: "fst (transport_recv t) = Inr (Some f) \<Longrightarrow>
    length (tp_incoming (snd (transport_recv t))) < length (tp_incoming t)"
  by (auto simp: transport_recv_def split: list.splits sum.splits)

function recv_heartbeat_aware :: "transport \<Rightarrow> (cloud_error + envelope) \<times> transport" where
  "recv_heartbeat_aware t =
     (case transport_recv t of
        (Inl e, t1) \<Rightarrow> (Inl (CloudTransport e), t1)
      | (Inr None, t1) \<Rightarrow> (Inl (CloudTransport Closed), t1)
      | (Inr (Some frame), t1) \<Rightarrow>
          if envelope_kind frame = Some Ping
          then (case transport_send Pong (JObj []) (reply_correlation frame) t1 of
                  (Some e, t2) \<Rightarrow> (Inl (CloudTransport e), t2)
                | (None, t2) \<Rightarrow> recv_heartbeat_aware t2)
          else (Inr frame, t1))"
  by pat_completeness auto
termination
  by (relation "measure (\<lambda>t. length (tp_incoming t))")
     (simp, metis recv_shortens send_keeps_incoming fst_conv snd_conv in_measure)

declare recv_heartbeat_aware.simps [simp del]

definition malformed :: "wire_codec \<Rightarrow> envelope \<Rightarrow> cloud_error" where
  "malformed wc frame =
     CloudProtocol (''malformed '' @ [CHR 0x27] @ en_message_type frame @ [CHR 0x27] @ '' payload: ''
       @ wc_error wc (en_payload frame))"

definition pairing_hello :: "wire_codec \<Rightarrow> string \<Rightarrow> envelope \<Rightarrow> cloud_error + hello_payload" where
  "pairing_hello wc expected frame =
     (if envelope_kind frame \<noteq> Some HandshakeHello
      then Inl (CloudProtocol (''expected handshake.hello, received '' @ [CHR 0x27] @ en_message_type frame @ [CHR 0x27]))
      else case hello_of_json wc (en_payload frame) of
             None \<Rightarrow> Inl (malformed wc frame)
           | Some hello \<Rightarrow>
               (case verify_cloud_identity expected (Some (hl_cloud_id hello)) of
                  Some e \<Rightarrow> Inl (CloudTransport e)
                | None \<Rightarrow> Inr hello))"

definition redeem_json :: "key_scheme \<Rightarrow> string \<Rightarrow> string \<Rightarrow> string \<Rightarrow> installation_key \<Rightarrow> string \<Rightarrow> json" where
  "redeem_json ks c hostname agent_version k challenge =
     JObj [(''code'', JStr c), (''protocol_version'', JStr PROTOCOL_VERSION), (''agent_version'', JStr agent_version),
           (''hostname'', JStr hostname), (''public_key'', JStr (public_key_b64 ks k)),
           (''challenge_signature'', JStr (sign_challenge ks k challenge))]"

datatype enrollment_outcome = Granted granted_payload | DeniedPairing pairing_denial_code string

definition enrollment_reply :: "wire_codec \<Rightarrow> envelope \<Rightarrow> cloud_error + enrollment_outcome" where
  "enrollment_reply wc reply =
     (case envelope_kind reply of
        Some PairingGranted \<Rightarrow>
          (case granted_of_json wc (en_payload reply) of
             None \<Rightarrow> Inl (malformed wc reply) | Some granted \<Rightarrow> Inr (Granted granted))
      | Some PairingDenied \<Rightarrow>
          (case denial_of_json (en_payload reply) of
             None \<Rightarrow> Inl (malformed wc reply) | Some c \<Rightarrow> Inr (DeniedPairing c (denial_remediation c)))
      | Some _ \<Rightarrow> Inl (CloudProtocol (''expected pairing.granted or pairing.denied, received ''
                   @ [CHR 0x27] @ en_message_type reply @ [CHR 0x27]))
      | None \<Rightarrow> Inl (CloudProtocol (''expected pairing.granted or pairing.denied, received unknown type ''
                   @ [CHR 0x27] @ en_message_type reply @ [CHR 0x27])))"

definition enroll ::
  "wire_codec \<Rightarrow> key_scheme \<Rightarrow> string \<Rightarrow> string \<Rightarrow> string \<Rightarrow> string \<Rightarrow> installation_key \<Rightarrow> transport \<Rightarrow>
   (cloud_error + enrollment_outcome) \<times> transport" where
  "enroll wc ks c hostname agent_version expected k t =
     (case validate_code c of
        Inl e \<Rightarrow> (Inl e, t)
      | Inr _ \<Rightarrow>
     (case validate_identity_fields hostname agent_version of
        Inl e \<Rightarrow> (Inl e, t)
      | Inr _ \<Rightarrow>
     (case recv_heartbeat_aware t of
        (Inl e, t1) \<Rightarrow> (Inl e, t1)
      | (Inr frame, t1) \<Rightarrow>
     (case pairing_hello wc expected frame of
        Inl e \<Rightarrow> (Inl e, t1)
      | Inr hello \<Rightarrow>
     (case transport_send PairingRedeem (redeem_json ks c hostname agent_version k (hl_challenge hello)) None t1 of
        (Some e, t2) \<Rightarrow> (Inl (CloudTransport e), t2)
      | (None, t2) \<Rightarrow>
     (case recv_heartbeat_aware t2 of
        (Inl e, t3) \<Rightarrow> (Inl e, t3)
      | (Inr reply, t3) \<Rightarrow> (enrollment_reply wc reply, t3)))))))"

section \<open>Schedules\<close>

record heartbeat =
  hb_interval :: duration
  hb_grace :: duration
  hb_last_seen :: instant

definition heartbeat_new :: "u64 \<Rightarrow> instant \<Rightarrow> heartbeat" where
  "heartbeat_new interval_seconds now =
     (let interval = seconds (uint (max interval_seconds 1))
      in \<lparr> hb_interval = interval, hb_grace = interval div 2, hb_last_seen = now \<rparr>)"

definition heartbeat_timeout :: "heartbeat \<Rightarrow> duration" where
  "heartbeat_timeout h = hb_interval h + hb_grace h"

definition note_seen :: "instant \<Rightarrow> heartbeat \<Rightarrow> heartbeat" where
  "note_seen now h = h\<lparr> hb_last_seen := now \<rparr>"

text \<open>\<open>duration_since\<close> of an earlier instant is zero.\<close>

definition silent_for :: "instant \<Rightarrow> heartbeat \<Rightarrow> duration" where
  "silent_for now h = max 0 (now - hb_last_seen h)"

definition ping_due :: "instant \<Rightarrow> heartbeat \<Rightarrow> bool" where
  "ping_due now h \<longleftrightarrow> hb_interval h \<le> silent_for now h"

definition is_overdue :: "instant \<Rightarrow> heartbeat \<Rightarrow> bool" where
  "is_overdue now h \<longleftrightarrow> heartbeat_timeout h \<le> silent_for now h"

record reporting_schedule =
  rs_interval :: duration
  rs_next_telemetry :: instant

definition schedule_new :: "u64 \<Rightarrow> instant \<Rightarrow> reporting_schedule" where
  "schedule_new interval_seconds now =
     (let interval = seconds (uint (max interval_seconds 1))
      in \<lparr> rs_interval = interval, rs_next_telemetry = now + interval \<rparr>)"

definition telemetry_due :: "instant \<Rightarrow> reporting_schedule \<Rightarrow> bool" where
  "telemetry_due now s \<longleftrightarrow> rs_next_telemetry s \<le> now"

definition note_telemetry_sent :: "instant \<Rightarrow> reporting_schedule \<Rightarrow> reporting_schedule" where
  "note_telemetry_sent now s = s\<lparr> rs_next_telemetry := now + rs_interval s \<rparr>"

definition apply_throttle :: "u64 \<Rightarrow> instant \<Rightarrow> reporting_schedule \<Rightarrow> reporting_schedule" where
  "apply_throttle interval_ms now s =
     (let throttled = millis (uint interval_ms)
      in if rs_interval s < throttled then s\<lparr> rs_interval := throttled, rs_next_telemetry := now + throttled \<rparr> else s)"

section \<open>Batches, events and clock skew\<close>

definition MAX_EVENTS_PER_REPORT :: nat where "MAX_EVENTS_PER_REPORT = 500"
definition MAX_ACTIVITIES_PER_REPORT :: nat where "MAX_ACTIVITIES_PER_REPORT = 500"

record report_batch =
  rb_kind :: report_kind
  rb_entries :: "buffered_report list"

fun per_message_limit :: "report_kind \<Rightarrow> nat" where
  "per_message_limit RkEvents = MAX_EVENTS_PER_REPORT"
| "per_message_limit RkActivities = MAX_ACTIVITIES_PER_REPORT"
| "per_message_limit _ = 1"

text \<open>One turn of the loop: into the last batch when it is of the kind and has room, else into a new one.\<close>

definition batch_entry :: "buffered_report \<Rightarrow> report_batch list \<Rightarrow> report_batch list" where
  "batch_entry e bs =
     (if bs \<noteq> [] \<and> rb_kind (last bs) = bu_kind e \<and> length (rb_entries (last bs)) < per_message_limit (bu_kind e)
      then butlast bs @ [(last bs)\<lparr> rb_entries := rb_entries (last bs) @ [e] \<rparr>]
      else bs @ [\<lparr> rb_kind = bu_kind e, rb_entries = [e] \<rparr>])"

definition assemble_batches :: "instant \<Rightarrow> report_queue \<Rightarrow> report_batch list \<times> report_queue" where
  "assemble_batches now q =
     (let (drained, q1) = queue_drain (length (rq_entries q)) now q in (fold batch_entry drained [], q1))"

definition requeue_batches :: "report_batch list \<Rightarrow> report_queue \<Rightarrow> report_queue" where
  "requeue_batches bs q = requeue_front (concat (map rb_entries bs)) q"

fun severity_str :: "severity \<Rightarrow> string" where
  "severity_str Info = ''info''"
| "severity_str Warning = ''warning''"
| "severity_str SevError = ''error''"

text \<open>Members left out when absent, as \<open>skip_serializing_if\<close> has it; an empty object is no payload.\<close>

definition event_json :: "wire_text \<Rightarrow> domain_event \<Rightarrow> json" where
  "event_json wt e =
     JObj ([(''source_event_id'', JStr (wt_uuid wt (de_id e))), (''type'', JStr (de_type e)),
            (''severity'', JStr (severity_str (de_severity e)))]
        @ Ledger.member ''subject'' (if de_subject e \<noteq> [] then Some (JStr (de_subject e)) else None)
        @ uuid_member wt ''correlation_id'' (de_correlation e)
        @ uuid_member wt ''causation_id'' (de_causation e)
        @ [(''reported_at'', JStr (wt_time wt (de_timestamp e)))]
        @ Ledger.member ''payload'' (case de_payload e of JObj m \<Rightarrow> if m \<noteq> [] then Some (JObj m) else None | _ \<Rightarrow> None))"

fun chunks :: "nat \<Rightarrow> 'a list \<Rightarrow> 'a list list" where
  "chunks n [] = []"
| "chunks n (x # xs) = (x # take (n - 1) xs) # chunks n (drop (n - 1) xs)"

definition event_batches :: "wire_text \<Rightarrow> domain_event list \<Rightarrow> json list" where
  "event_batches wt es =
     map (\<lambda>chunk. JObj [(''events'', JArr (map (event_json wt) chunk))]) (chunks MAX_EVENTS_PER_REPORT es)"

text \<open>What the bus returns until it is empty or closed: events, and how many were skipped.\<close>

datatype bus_item = BusEvent domain_event | BusLagged u64

definition lag_notice :: "uuid \<Rightarrow> instant \<Rightarrow> u64 \<Rightarrow> domain_event" where
  "lag_notice i now lagged =
     \<lparr> de_id = i, de_type = ''bus.lagged'', de_timestamp = now, de_source = ''argusd'', de_subject = ''argusd'',
       de_severity = Warning, de_correlation = None, de_causation = None,
       de_payload = JObj [(''events_lagged'', json_word lagged)] \<rparr>"

definition bus_lag :: "bus_item list \<Rightarrow> u64" where
  "bus_lag items = fold (\<lambda>item n. case item of BusLagged k \<Rightarrow> sat_add n k | BusEvent _ \<Rightarrow> n) items 0"

definition bus_events :: "bus_item list \<Rightarrow> domain_event list" where
  "bus_events items = List.map_filter (\<lambda>item. case item of BusEvent e \<Rightarrow> Some e | BusLagged _ \<Rightarrow> None) items"

definition enqueue_events ::
  "wire_text \<Rightarrow> (nat \<Rightarrow> uuid) \<Rightarrow> instant \<Rightarrow> json list \<Rightarrow> report_queue \<Rightarrow> report_queue" where
  "enqueue_events wt fresh now payloads =
     enqueue_all (map (\<lambda>(i, p). (fresh i, RkEvents, p, now)) (zip [0..<length payloads] payloads))"

definition collect_events ::
  "wire_text \<Rightarrow> uuid \<Rightarrow> (nat \<Rightarrow> uuid) \<Rightarrow> instant \<Rightarrow> bus_item list \<Rightarrow> report_queue \<Rightarrow> nat \<times> report_queue" where
  "collect_events wt notice_id fresh now items q =
     (let notices = (if 0 < bus_lag items then [lag_notice notice_id now (bus_lag items)] else [])
      in (length (bus_events items),
          enqueue_events wt fresh now (event_batches wt notices @ event_batches wt (bus_events items)) q))"

datatype skew_verdict = SkewWithin | SkewAhead duration | SkewBehind duration

definition DEFAULT_MAX_SKEW :: duration where
  "DEFAULT_MAX_SKEW = seconds 300"

definition assess_skew :: "instant \<Rightarrow> instant \<Rightarrow> duration \<Rightarrow> skew_verdict" where
  "assess_skew local_now candidate limit =
     (let delta = candidate - local_now; magnitude = \<bar>delta\<bar>
      in if magnitude \<le> limit then SkewWithin else if 0 < delta then SkewAhead magnitude else SkewBehind magnitude)"

fun skew_magnitude :: "skew_verdict \<Rightarrow> duration" where
  "skew_magnitude SkewWithin = 0"
| "skew_magnitude (SkewAhead d) = d"
| "skew_magnitude (SkewBehind d) = d"

section \<open>Settings and deliveries\<close>

record cloud_config =
  cc_enabled :: bool
  cc_endpoint :: "string option"
  cc_expected_cloud_id :: string
  cc_allow_privileged_execution :: bool
  cc_telemetry_interval_seconds :: u64
  cc_report_buffer_max_records :: u64
  cc_request_timeout_seconds :: u64
  cc_max_concurrent_privileged :: u32
  cc_reconnect_base_seconds :: u64
  cc_reconnect_max_seconds :: u64

definition cloud_config_default :: cloud_config where
  "cloud_config_default =
     \<lparr> cc_enabled = False, cc_endpoint = None, cc_expected_cloud_id = ''argus-cloud'',
       cc_allow_privileged_execution = True, cc_telemetry_interval_seconds = 60, cc_report_buffer_max_records = 5000,
       cc_request_timeout_seconds = 120, cc_max_concurrent_privileged = 2, cc_reconnect_base_seconds = 1,
       cc_reconnect_max_seconds = 300 \<rparr>"

definition cloud_is_active :: "cloud_config \<Rightarrow> bool" where
  "cloud_is_active c \<longleftrightarrow> cc_enabled c \<and> cc_endpoint c \<noteq> None"

datatype cloud_config_error =
    MissingEndpoint | BelowMinimum string u64 u64 | ReconnectRangeInverted u64 u64 | InsecureEndpoint string

definition check_min :: "string \<Rightarrow> u64 \<Rightarrow> u64 \<Rightarrow> cloud_config_error option" where
  "check_min name actual least = (if actual < least then Some (BelowMinimum name least actual) else None)"

definition check_endpoint :: "cloud_config \<Rightarrow> cloud_config_error option" where
  "check_endpoint c =
     (if cc_enabled c
      then (case cc_endpoint c of
              None \<Rightarrow> Some MissingEndpoint
            | Some e \<Rightarrow> if \<not> starts_with ''wss://'' e \<and> \<not> starts_with ''ws://'' e then Some (InsecureEndpoint e) else None)
      else None)"

definition first_error :: "'e option list \<Rightarrow> 'e option" where
  "first_error es = (case filter (\<lambda>e. e \<noteq> None) es of [] \<Rightarrow> None | e # _ \<Rightarrow> e)"

definition cloud_validate :: "cloud_config \<Rightarrow> cloud_config_error option" where
  "cloud_validate c =
     first_error
       [check_endpoint c,
        check_min ''telemetry_interval_seconds'' (cc_telemetry_interval_seconds c) 10,
        check_min ''report_buffer_max_records'' (cc_report_buffer_max_records c) 100,
        check_min ''request_timeout_seconds'' (cc_request_timeout_seconds c) 1,
        check_min ''max_concurrent_privileged'' (ucast (cc_max_concurrent_privileged c)) 1,
        check_min ''reconnect_base_seconds'' (cc_reconnect_base_seconds c) 1,
        (if cc_reconnect_max_seconds c < cc_reconnect_base_seconds c
         then Some (ReconnectRangeInverted (cc_reconnect_base_seconds c) (cc_reconnect_max_seconds c)) else None)]"

datatype config_apply_mode = ModeApply | ModeRollback

datatype delivery_decision = DeliveryAdvance | DeliveryIgnoreStale | DeliveryRollback

definition changes_held_version :: "delivery_decision \<Rightarrow> bool" where
  "changes_held_version d \<longleftrightarrow> d \<noteq> DeliveryIgnoreStale"

definition classify_delivery :: "int \<Rightarrow> int \<Rightarrow> config_apply_mode \<Rightarrow> delivery_decision" where
  "classify_delivery held incoming mode =
     (case mode of
        ModeRollback \<Rightarrow> DeliveryRollback
      | ModeApply \<Rightarrow> if held < incoming then DeliveryAdvance else DeliveryIgnoreStale)"


section \<open>Names and versions\<close>

lemma message_type_listed: "(message_type_str ty, ty) \<in> set message_type_table"
  by (cases ty) (simp_all add: message_type_table_def)

lemma message_type_names: "(s, ty) \<in> set message_type_table \<Longrightarrow> s = message_type_str ty"
  by (auto simp: message_type_table_def)

lemma message_type_keys_distinct: "distinct (map fst message_type_table)"
  by (simp add: message_type_table_def)

theorem message_types_round_trip: "parse_message_type s = Some ty \<longleftrightarrow> s = message_type_str ty"
  unfolding parse_message_type_def
  using message_type_listed message_type_names message_type_keys_distinct
  by (metis map_of_SomeD map_of_is_SomeI)

lemma sorted_last_Max:
  fixes xs :: "'v::linorder list"
  assumes "sorted xs" and "xs \<noteq> []" shows "last xs = Max (set xs)"
proof (rule Max_eqI [symmetric])
  show "y \<le> last xs" if "y \<in> set xs" for y
    using that assms append_butlast_last_id [OF assms(2)]
    by (metis Un_iff in_set_conv_decomp order_refl set_ConsD set_append sorted_append empty_iff list.set(1))
qed (use assms in auto)

lemma sort_empty: "sort xs = [] \<longleftrightarrow> xs = []"
  by (metis set_empty set_sort)

lemma negotiate_shared:
  defines "S parse peers \<equiv> set (List.map_filter parse SUPPORTED_PROTOCOL_VERSIONS) \<inter> set (List.map_filter parse peers)"
  shows "negotiate parse peers = (if S parse peers = {} then None else Some (Max (S parse peers)))"
proof -
  let ?xs = "filter (\<lambda>v. v \<in> set (List.map_filter parse peers)) (List.map_filter parse SUPPORTED_PROTOCOL_VERSIONS)"
  have S: "set ?xs = S parse peers" by (auto simp: S_def)
  have "last (sort ?xs) = Max (set ?xs)" if "?xs \<noteq> []"
    using that sorted_last_Max [of "sort ?xs"] by (metis set_empty set_sort sorted_sort)
  then show ?thesis
    by (cases "?xs = []") (simp_all only: negotiate_def Let_def S [symmetric] set_empty sort_key_simps simp_thms if_True if_False
        list.set, simp_all add: sort_empty)
qed

section \<open>Backoff\<close>

lemma xor_self_shift_right:
  fixes x :: "'a::len word"
  assumes "0 < n" and "x = drop_bit n x" shows "x = 0"
proof -
  have "unat x = unat x div 2 ^ n" using assms(2) by (metis unat_drop_bit_eq drop_bit_eq_div)
  moreover have "unat x div 2 ^ n < unat x" if "0 < unat x"
    using that assms(1) by (intro div_less_dividend one_less_power) simp_all
  ultimately show ?thesis by (metis less_irrefl gr0I unat_eq_zero)
qed

lemma xor_self_shift_left:
  fixes x :: "'a::len word"
  assumes "0 < n" and "x = push_bit n x" shows "x = 0"
proof -
  have "\<not> bit x k" for k
  proof (induction k rule: less_induct)
    case (less k)
    have "bit x k \<Longrightarrow> n \<le> k \<and> bit x (k - n)" using assms(2) by (metis bit_push_bit_iff)
    then show ?case using less assms(1) by (metis diff_less less_le_trans)
  qed
  then show ?thesis by (simp add: bit_eq_iff)
qed

lemma xor_zero: "x XOR y = 0 \<longleftrightarrow> x = (y :: 'a::len word)"
  by (metis xor.right_neutral xor_self_eq xor.assoc xor.left_neutral)

lemma xor_shifts_nonzero:
  fixes x :: "'a::len word"
  assumes "x \<noteq> 0" and "0 < n"
  shows "x XOR drop_bit n x \<noteq> 0" and "x XOR push_bit n x \<noteq> 0"
  using assms xor_self_shift_right xor_self_shift_left unfolding xor_zero by blast+

lemma xorshift_nonzero: "x \<noteq> 0 \<Longrightarrow> xorshift x \<noteq> 0"
  unfolding xorshift_def Let_def by (intro xor_shifts_nonzero) simp_all

definition backoff_ok :: "backoff \<Rightarrow> bool" where
  "backoff_ok b \<longleftrightarrow> bo_state b \<noteq> 0 \<and> 0 \<le> bo_base b \<and> bo_base b \<le> bo_max b \<and> bo_base b \<le> DURATION_MAX"

lemma shift_factor_pos: "1 \<le> uint (shift_factor n)"
proof -
  have "bit (push_bit k (1::u32)) k" if "k < 32" for k using that by (simp add: bit_push_bit_iff bit_exp_iff)
  then have "push_bit k (1::u32) \<noteq> 0" if "k < 32" for k using that by fastforce
  moreover have "min n 63 < 32 \<Longrightarrow> unat (min n 63) < 32" by (simp add: word_less_nat_alt)
  ultimately have "shift_factor n \<noteq> 0" unfolding shift_factor_def by (metis minus_equation_iff minus_zero zero_neq_one)
  then have "uint (shift_factor n) \<noteq> 0" by (simp add: unsigned_eq_0_iff)
  then show ?thesis by (metis unsigned_greater_eq int_one_le_iff_zero_less order_le_less)
qed

lemma ceiling_bounds:
  assumes "backoff_ok b" shows "bo_base b \<le> backoff_ceiling b" and "backoff_ceiling b \<le> bo_max b"
proof -
  have "bo_base b * 1 \<le> bo_base b * uint (shift_factor (bo_attempt b))"
    using assms shift_factor_pos by (intro mult_left_mono) (auto simp: backoff_ok_def)
  then show "bo_base b \<le> backoff_ceiling b" using assms by (simp add: backoff_ceiling_def backoff_ok_def)
qed (simp add: backoff_ceiling_def)

lemma next_delay_bounds:
  assumes ok: "backoff_ok b" and d: "next_delay b = Some (d, b')"
  shows "0 \<le> d \<and> d \<le> backoff_ceiling b \<and> backoff_ok b' \<and> bo_base b' = bo_base b \<and> bo_max b' = bo_max b
       \<and> bo_attempt b' = sat_add (bo_attempt b) 1"
proof -
  let ?ms = "min (backoff_ceiling b div 1000000) (2 ^ 64 - 1)" let ?c = "word_of_int ?ms :: u64"
  have nonneg: "0 \<le> backoff_ceiling b" using ceiling_bounds(1) [OF ok] ok by (simp add: backoff_ok_def)
  have "uint ?c = ?ms" using nonneg by (simp add: uint_word_of_int take_bit_eq_mod min_def pos_imp_zdiv_nonneg_iff)
  moreover have "millis ?ms \<le> millis (backoff_ceiling b div 1000000)" by simp
  moreover have "millis (backoff_ceiling b div 1000000) \<le> backoff_ceiling b" by simp
  ultimately have c: "millis (uint ?c) \<le> backoff_ceiling b" by linarith
  have m: "uint (x mod (?c + 1)) \<le> uint ?c" if "?c + 1 \<noteq> 0" for x
  proof -
    have "x mod (?c + 1) < ?c + 1" using that by (simp add: word_mod_less_divisor word_neq_0_conv)
    then have "uint (x mod (?c + 1)) < uint (?c + 1)" by (simp add: word_less_def)
    moreover have "uint (?c + 1) \<le> uint ?c + 1" by (simp add: uint_plus_if')
    ultimately show ?thesis by linarith
  qed
  show ?thesis
  proof (cases "?c = 0")
    case True
    then show ?thesis using d ok nonneg by (auto simp: next_delay_def Let_def backoff_ok_def)
  next
    case False
    then have n: "?c + 1 \<noteq> 0" using d by (auto simp: next_delay_def Let_def split: if_splits)
    obtain x b1 where x: "next_u64 b = (x, b1)" by fastforce
    then have b1: "b1 = b\<lparr> bo_state := xorshift (bo_state b) \<rparr>" by (simp add: next_u64_def Let_def)
    have d': "d = millis (uint (x mod (?c + 1)))" "b' = b1\<lparr> bo_attempt := sat_add (bo_attempt b1) 1 \<rparr>"
      using d False n x by (auto simp: next_delay_def Let_def)
    then show ?thesis using m [OF n, of x] c ok xorshift_nonzero by (auto simp: b1 backoff_ok_def)
  qed
qed

lemma uint_minus_one_64: "uint (- 1 :: u64) = 2 ^ 64 - 1"
  by (simp add: unsigned_minus_1_eq_mask mask_eq_exp_minus_1)

lemma next_delay_total:
  assumes "bo_max b < millis (2 ^ 64 - 1)" and "0 \<le> backoff_ceiling b" shows "\<exists>d b'. next_delay b = Some (d, b')"
proof -
  let ?k = "backoff_ceiling b div 1000000"
  have k: "?k < 2 ^ 64 - 1" "0 \<le> ?k"
    using assms by (simp add: backoff_ceiling_def, simp add: pos_imp_zdiv_nonneg_iff)
  then have "(word_of_int ?k :: u64) + 1 \<noteq> 0"
  proof -
    have "uint (word_of_int ?k :: u64) = ?k" using k by (simp add: uint_word_of_int take_bit_eq_mod)
    then have "(word_of_int ?k :: u64) \<noteq> - 1" using k by (metis less_irrefl uint_minus_one_64)
    then show ?thesis by (metis add.commute add_eq_0_iff2 eq_neg_iff_add_eq_0)
  qed
  then show ?thesis using k by (auto simp: next_delay_def Let_def min_def split: prod.splits)
qed

section \<open>The reconnect policy\<close>

definition policy_ok :: "reconnect_policy \<Rightarrow> bool" where
  "policy_ok p \<longleftrightarrow> backoff_ok (po_backoff p) \<and> bo_max (po_backoff p) < millis (2 ^ 64 - 1)"

lemma policy_with_seed_ok:
  "0 \<le> base \<Longrightarrow> base \<le> DURATION_MAX \<Longrightarrow> max limit base < millis (2 ^ 64 - 1) \<Longrightarrow> policy_ok (policy_with_seed base limit seed)"
  by (simp add: policy_ok_def policy_with_seed_def backoff_with_seed_def backoff_ok_def)

lemma note_connected_ok: "policy_ok p \<Longrightarrow> policy_ok (note_connected p)"
  by (simp add: policy_ok_def note_connected_def backoff_reset_def backoff_ok_def)

lemma delayed_bounds:
  assumes "policy_ok p"
  shows "\<exists>d b. delayed adjust p = Some (Reconnect (adjust d), p\<lparr> po_backoff := b \<rparr>) \<and> 0 \<le> d \<and> d \<le> bo_max (po_backoff p)
      \<and> policy_ok (p\<lparr> po_backoff := b \<rparr>) \<and> bo_max b = bo_max (po_backoff p)"
proof -
  have ok: "backoff_ok (po_backoff p)" and m: "bo_max (po_backoff p) < millis (2 ^ 64 - 1)"
    using assms by (simp_all add: policy_ok_def)
  have "0 \<le> backoff_ceiling (po_backoff p)" using ceiling_bounds(1) [OF ok] ok by (simp add: backoff_ok_def)
  then obtain d b where d: "next_delay (po_backoff p) = Some (d, b)" using next_delay_total [OF m] by blast
  note bounds = next_delay_bounds [OF ok d] ceiling_bounds(2) [OF ok]
  have "delayed adjust p = Some (Reconnect (adjust d), p\<lparr> po_backoff := b \<rparr>)" by (simp add: delayed_def d)
  moreover have "0 \<le> d" and "d \<le> bo_max (po_backoff p)" and "policy_ok (p\<lparr> po_backoff := b \<rparr>)"
      and "bo_max b = bo_max (po_backoff p)"
    using bounds m by (simp_all add: policy_ok_def)
  ultimately show ?thesis by blast
qed

fun permanent :: "connection_outcome \<Rightarrow> stop_reason option" where
  "permanent StoppedByHuman = Some StopRequested"
| "permanent (HandshakeFailed (HsRejected c m)) =
     (if c = ''REVOKED'' then Some StopRevoked else if c = ''UNSUPPORTED_VERSION'' then Some StopUnsupportedVersion else None)"
| "permanent (HandshakeFailed (HsUnsupportedVersion vs)) = Some StopUnsupportedVersion"
| "permanent _ = None"

lemma policy_after_permanent: "permanent outcome = Some reason \<Longrightarrow> policy_after outcome p = Some (StopSupervision reason, p)"
  by (cases outcome rule: permanent.cases) (auto simp: policy_after_def split: if_splits)

lemma policy_after_delayed:
  "permanent outcome = None \<Longrightarrow>
   policy_after outcome p =
     delayed (\<lambda>d. if \<exists>m. outcome = HandshakeFailed (HsRejected ''RATE_LIMITED'' m) then max d (po_rate_limit_floor p) else d) p"
  by (cases outcome rule: permanent.cases) (auto simp: policy_after_def id_def split: if_splits)

text \<open>
  C40. Supervision neither gives up nor hammers. After every attempt, in any state the policy can reach
  from a configured range of less than 2 to the 64 milliseconds, it decides without a panic: it stops
  exactly on a revocation, a version mismatch or a request, with the reason that belongs to it, and in
  every other case reconnects after a delay that is never negative, never above the configured maximum
  - or, when the cloud asked to slow down, at least a minute and at most the larger of the two. The
  policy stays in such a state, and its generator never reaches zero.
\<close>

theorem reconnect_contract:
  assumes "policy_ok p" and "po_rate_limit_floor p = seconds 60"
  shows "\<exists>action p'. policy_after outcome p = Some (action, p') \<and> policy_ok p' \<and> po_rate_limit_floor p' = seconds 60
       \<and> bo_max (po_backoff p') = bo_max (po_backoff p)
       \<and> (case permanent outcome of
            Some reason \<Rightarrow> action = StopSupervision reason
          | None \<Rightarrow> (\<exists>d. action = Reconnect d
              \<and> (if \<exists>m. outcome = HandshakeFailed (HsRejected ''RATE_LIMITED'' m)
                 then seconds 60 \<le> d \<and> d \<le> max (seconds 60) (bo_max (po_backoff p))
                 else 0 \<le> d \<and> d \<le> bo_max (po_backoff p))))"
proof (cases "permanent outcome")
  case None
  obtain d b where d: "policy_after outcome p = Some (Reconnect
        (if \<exists>m. outcome = HandshakeFailed (HsRejected ''RATE_LIMITED'' m) then max d (po_rate_limit_floor p) else d),
        p\<lparr> po_backoff := b \<rparr>)" "0 \<le> d" "d \<le> bo_max (po_backoff p)" "policy_ok (p\<lparr> po_backoff := b \<rparr>)"
      "bo_max b = bo_max (po_backoff p)"
    using delayed_bounds [OF assms(1)] unfolding policy_after_delayed [OF None] by blast
  then show ?thesis using None assms(2) by auto
next
  case (Some reason)
  then show ?thesis using policy_after_permanent [OF Some] assms by simp
qed

theorem reconnect_contract_witness:
  "policy_after (HandshakeFailed (HsRejected ''REVOKED'' ''gone'')) (policy_with_seed (seconds 1) (seconds 300) 7)
     = Some (StopSupervision StopRevoked, policy_with_seed (seconds 1) (seconds 300) 7)
   \<and> (\<exists>d p'. policy_after (HandshakeFailed (HsRejected ''RATE_LIMITED'' ''slow'')) (policy_with_seed (seconds 1) (seconds 300) 7)
        = Some (Reconnect d, p') \<and> seconds 60 \<le> d \<and> d \<le> seconds 300)"
proof -
  let ?p = "policy_with_seed (seconds 1) (seconds 300) 7"
  have p: "policy_ok ?p" "po_rate_limit_floor ?p = seconds 60"
    by (rule policy_with_seed_ok) (simp_all add: DURATION_MAX_def policy_with_seed_def)
  have m: "bo_max (po_backoff (policy_with_seed base limit seed)) = max limit base" for base limit seed
    by (simp add: policy_with_seed_def backoff_with_seed_def)
  show ?thesis
    using reconnect_contract [OF p, of "HandshakeFailed (HsRejected ''REVOKED'' ''gone'')"]
          reconnect_contract [OF p, of "HandshakeFailed (HsRejected ''RATE_LIMITED'' ''slow'')"]
    by (auto simp: m policy_after_permanent)
qed

section \<open>Enrollment\<close>

definition pong_for :: "transport \<Rightarrow> nat \<Rightarrow> envelope \<Rightarrow> envelope" where
  "pong_for t n frame = envelope_new (tp_fresh t n) Pong (JObj []) (reply_correlation frame)"

text \<open>
  Heartbeats that arrive during the pairing exchange are answered, one pong each, and do not end it;
  the handshake of an enrolled installation has no such patience.
\<close>

lemma send_ok: "tp_verdict t (tp_attempts t) = None \<Longrightarrow>
    transport_send ty p c t = (None, t\<lparr> tp_attempts := Suc (tp_attempts t),
       tp_sent := tp_sent t @ [envelope_new (tp_fresh t (tp_attempts t)) ty p c] \<rparr>)"
  by (simp add: transport_send_def Let_def)

theorem pairing_survives_heartbeats:
  assumes "\<forall>p \<in> set pings. envelope_kind p = Some Ping" and "envelope_kind f \<noteq> Some Ping" and "\<forall>n. tp_verdict t n = None"
    and "tp_incoming t = map Inr pings @ Inr f # rest"
  shows "\<exists>pongs. length pongs = length pings \<and> fst (recv_heartbeat_aware t) = Inr f
       \<and> tp_sent (snd (recv_heartbeat_aware t)) = tp_sent t @ pongs
       \<and> tp_incoming (snd (recv_heartbeat_aware t)) = rest
       \<and> (\<forall>p \<in> set pongs. envelope_kind p = Some Pong)"
  using assms
proof (induction pings arbitrary: t)
  case Nil
  then have "recv_heartbeat_aware t = (Inr f, t\<lparr> tp_incoming := rest \<rparr>)"
    by (subst recv_heartbeat_aware.simps) (simp add: transport_recv_def)
  then show ?case by simp
next
  case (Cons p pings)
  let ?t1 = "t\<lparr> tp_incoming := map Inr pings @ Inr f # rest \<rparr>"
  let ?t2 = "?t1\<lparr> tp_attempts := Suc (tp_attempts t), tp_sent := tp_sent t @ [pong_for t (tp_attempts t) p] \<rparr>"
  have step: "recv_heartbeat_aware t = recv_heartbeat_aware ?t2"
    using Cons.prems by (subst recv_heartbeat_aware.simps) (simp add: transport_recv_def send_ok pong_for_def)
  have "\<exists>pongs. length pongs = length pings \<and> fst (recv_heartbeat_aware ?t2) = Inr f
       \<and> tp_sent (snd (recv_heartbeat_aware ?t2)) = tp_sent ?t2 @ pongs
       \<and> tp_incoming (snd (recv_heartbeat_aware ?t2)) = rest \<and> (\<forall>p \<in> set pongs. envelope_kind p = Some Pong)"
    using Cons.prems by (intro Cons.IH) simp_all
  then obtain pongs where "length pongs = length pings" "fst (recv_heartbeat_aware ?t2) = Inr f"
      "tp_sent (snd (recv_heartbeat_aware ?t2)) = tp_sent ?t2 @ pongs"
      "tp_incoming (snd (recv_heartbeat_aware ?t2)) = rest" "\<forall>p \<in> set pongs. envelope_kind p = Some Pong"
    by blast
  moreover have "envelope_kind (pong_for t (tp_attempts t) p) = Some Pong"
    by (simp add: pong_for_def envelope_new_def envelope_kind_def message_types_round_trip)
  ultimately show ?case unfolding step by (intro exI [of _ "pong_for t (tp_attempts t) p # pongs"]) simp
qed

section \<open>The handshake speaks only to its cloud\<close>

lemma send_keeps: "tp_verdict (snd (transport_send ty p c t)) = tp_verdict t"
  "tp_fresh (snd (transport_send ty p c t)) = tp_fresh t"
  by (simp_all add: transport_send_def Let_def split: option.split)

lemma send_sent:
  "tp_sent (snd (transport_send ty p c t)) =
     (if fst (transport_send ty p c t) = None then tp_sent t @ [envelope_new (tp_fresh t (tp_attempts t)) ty p c] else tp_sent t)"
  by (simp add: transport_send_def Let_def split: option.split)

lemma send_failed: "transport_send ty p c t = (Some e, t') \<Longrightarrow> tp_sent t' = tp_sent t"
  by (auto simp: transport_send_def Let_def split: option.splits)

lemma recv_keeps [simp]: "tp_sent (snd (transport_recv t)) = tp_sent t"
  "tp_fresh (snd (transport_recv t)) = tp_fresh t" "tp_attempts (snd (transport_recv t)) = tp_attempts t"
  "tp_verdict (snd (transport_recv t)) = tp_verdict t"
  by (simp_all add: transport_recv_def split: list.split sum.split)

lemma recv_frame_eq:
  "recv_frame t =
     (case tp_incoming t of
        [] \<Rightarrow> (Inl HsCloudClosed, t)
      | Inl e # rest \<Rightarrow> (Inl (classify_transport e), t\<lparr> tp_incoming := rest \<rparr>)
      | Inr f # rest \<Rightarrow> (Inr f, t\<lparr> tp_incoming := rest \<rparr>))"
  by (simp add: recv_frame_def transport_recv_def split: list.split sum.split)

lemma recv_frame_Inr:
  "recv_frame t = (Inr f, t') \<longleftrightarrow> (\<exists>rest. tp_incoming t = Inr f # rest \<and> t' = t\<lparr> tp_incoming := rest \<rparr>)"
  by (auto simp: recv_frame_eq split: list.split sum.split)

lemma recv_frame_sent [simp]: "tp_sent (snd (recv_frame t)) = tp_sent t" "tp_fresh (snd (recv_frame t)) = tp_fresh t"
  "tp_attempts (snd (recv_frame t)) = tp_attempts t"
  by (simp_all add: recv_frame_eq split: list.split sum.split)

lemma check_hello_identity: "check_hello wc expected f = Inr hello \<Longrightarrow>
    envelope_kind f = Some HandshakeHello \<and> hello_of_json wc (en_payload f) = Some hello \<and> hl_cloud_id hello = expected"
  by (auto simp: check_hello_def verify_cloud_identity_def split: if_splits option.splits)

lemma await_hello_state: "snd (await_hello wc expected t) = snd (recv_frame t)"
  by (simp add: await_hello_def split: prod.split sum.split)

lemma session_needs_ready:
  assumes "session_of_reply wc hello reply = Inr session" shows "envelope_kind reply = Some HandshakeReady"
proof (cases "envelope_kind reply")
  case (Some ty)
  then show ?thesis using assms by (cases ty) (simp_all add: session_of_reply_def split: option.splits prod.splits)
qed (use assms in \<open>simp add: session_of_reply_def\<close>)

text \<open>The frame a cloud is answered with: it was the right cloud, speaking a shared version.\<close>

definition trusted_hello ::
  "wire_codec \<Rightarrow> (string \<Rightarrow> 'v::linorder option) \<Rightarrow> string \<Rightarrow> (transport_error + envelope) list \<Rightarrow> hello_payload \<Rightarrow> bool" where
  "trusted_hello wc parse expected incoming hello \<longleftrightarrow>
     (\<exists>f rest. incoming = Inr f # rest \<and> envelope_kind f = Some HandshakeHello
        \<and> hello_of_json wc (en_payload f) = Some hello) \<and> hl_cloud_id hello = expected
     \<and> (\<exists>v \<in> set SUPPORTED_PROTOCOL_VERSIONS. \<exists>w \<in> set (hl_versions hello). parse v \<noteq> None \<and> parse v = parse w)"

lemma negotiate_some:
  "negotiate parse peers \<noteq> None \<longleftrightarrow>
     (\<exists>v \<in> set SUPPORTED_PROTOCOL_VERSIONS. \<exists>w \<in> set peers. parse v \<noteq> None \<and> parse v = parse w)"
proof -
  have m: "y \<in> set (List.map_filter parse xs) \<longleftrightarrow> (\<exists>x \<in> set xs. parse x = Some y)" for y xs
    by (force simp: map_filter_def)
  have "negotiate parse peers \<noteq> None \<longleftrightarrow>
          (\<exists>y. y \<in> set (List.map_filter parse SUPPORTED_PROTOCOL_VERSIONS) \<and> y \<in> set (List.map_filter parse peers))"
    by (auto simp: negotiate_def Let_def sort_empty filter_empty_conv)
  then show ?thesis unfolding m by (metis option.exhaust option.distinct(1))
qed

lemma authenticate_cases:
  assumes "authenticate wc ks parse rq t = (r, t')"
  shows "(tp_sent t' = tp_sent t \<and> (\<exists>e. r = Inl e))
       \<or> (\<exists>hello. trusted_hello wc parse (sr_expected_cloud_id rq) (tp_incoming t) hello
            \<and> tp_sent t' = tp_sent t @ [envelope_new (tp_fresh t (tp_attempts t)) HandshakeAuthenticate
                                            (authenticate_json wc ks rq (hl_challenge hello)) None]
            \<and> (\<forall>session. r = Inr session \<longrightarrow>
                 (\<exists>reply. envelope_kind reply = Some HandshakeReady \<and> Inr reply \<in> set (tp_incoming t)
                    \<and> session_of_reply wc hello reply = Inr session)))"
proof -
  let ?send = "\<lambda>hello. transport_send HandshakeAuthenticate (authenticate_json wc ks rq (hl_challenge hello)) None"
  obtain h t1 where h: "await_hello wc (sr_expected_cloud_id rq) t = (h, t1)" by fastforce
  have sent1: "tp_sent t1 = tp_sent t" "tp_fresh t1 = tp_fresh t" "tp_attempts t1 = tp_attempts t"
    using h recv_frame_sent [of t] by (metis await_hello_state snd_conv)+
  show ?thesis
  proof (cases "\<exists>hello. h = Inr hello \<and> negotiate parse (hl_versions hello) \<noteq> None \<and> fst (?send hello t1) = None")
    case False
    then have "tp_sent t' = tp_sent t \<and> (\<exists>e. r = Inl e)"
      using assms h sent1
      by (auto simp: authenticate_def dest!: send_failed split: prod.splits sum.splits option.splits if_splits)
    then show ?thesis ..
  next
    case True
    then obtain hello where hello: "h = Inr hello" "negotiate parse (hl_versions hello) \<noteq> None" "fst (?send hello t1) = None"
      by blast
    then obtain f rest where f: "tp_incoming t = Inr f # rest" "t1 = t\<lparr> tp_incoming := rest \<rparr>"
        "check_hello wc (sr_expected_cloud_id rq) f = Inr hello"
      using h by (auto simp: await_hello_def recv_frame_Inr split: prod.splits sum.splits)
    obtain t2 where t2: "?send hello t1 = (None, t2)" using hello(3) by (metis prod.collapse)
    have run: "(r, t') = (case recv_frame t2 of (Inl e, t3) \<Rightarrow> (Inl e, t3) | (Inr reply, t3) \<Rightarrow> (session_of_reply wc hello reply, t3))"
      using assms h hello t2 by (simp add: authenticate_def)
    have "t' = snd (recv_frame t2)" using run by (auto split: prod.splits sum.splits)
    then have "tp_sent t' = tp_sent t2" by simp
    moreover have "tp_sent t2 = tp_sent t @ [envelope_new (tp_fresh t (tp_attempts t)) HandshakeAuthenticate
                                            (authenticate_json wc ks rq (hl_challenge hello)) None]"
      using send_sent [of HandshakeAuthenticate "authenticate_json wc ks rq (hl_challenge hello)" None t1] t2 sent1 by simp
    moreover have "tp_incoming t2 = rest"
      using send_keeps_incoming [of HandshakeAuthenticate "authenticate_json wc ks rq (hl_challenge hello)" None t1]
      unfolding t2 by (simp add: f(2))
    then have "\<exists>reply. envelope_kind reply = Some HandshakeReady \<and> Inr reply \<in> set (tp_incoming t)
                    \<and> session_of_reply wc hello reply = Inr session" if session: "r = Inr session" for session
    proof -
      obtain reply where reply: "recv_frame t2 = (Inr reply, t')" "session_of_reply wc hello reply = Inr session"
        using run session by (auto split: prod.splits sum.splits)
      then have "Inr reply \<in> set (tp_incoming t2)" by (auto simp: recv_frame_Inr)
      then show ?thesis using reply(2) session_needs_ready [OF reply(2)] f(1) \<open>tp_incoming t2 = rest\<close> by auto
    qed
    moreover have "trusted_hello wc parse (sr_expected_cloud_id rq) (tp_incoming t) hello"
      using check_hello_identity [OF f(3)] f(1) hello(2) unfolding trusted_hello_def negotiate_some by blast
    ultimately show ?thesis by auto
  qed
qed

text \<open>
  C36. The handshake speaks only to its cloud. An authentication attempt sends nothing at all, and
  fails, unless the first frame is a hello in which the expected cloud announces itself with a version
  both sides support; then it sends exactly one frame, which proves the installation by the signature
  of the challenge of that hello. A session is returned only on a ready frame after it.
\<close>

theorem handshake_speaks_to_its_cloud:
  assumes "authenticate wc ks parse rq t = (r, t')"
  shows "(tp_sent t' = tp_sent t \<and> (\<exists>e. r = Inl e))
       \<or> (\<exists>hello. trusted_hello wc parse (sr_expected_cloud_id rq) (tp_incoming t) hello
            \<and> tp_sent t' = tp_sent t @ [envelope_new (tp_fresh t (tp_attempts t)) HandshakeAuthenticate
                                            (authenticate_json wc ks rq (hl_challenge hello)) None]
            \<and> (\<forall>session. r = Inr session \<longrightarrow>
                 (\<exists>reply. envelope_kind reply = Some HandshakeReady \<and> Inr reply \<in> set (tp_incoming t)
                    \<and> session_of_reply wc hello reply = Inr session)))"
  using assms by (rule authenticate_cases)

definition sample_codec :: wire_codec where
  "sample_codec = \<lparr> wc_text = plain_text, wc_parse_time = (\<lambda>s. if s = ''now'' then Some 0 else None), wc_error = (\<lambda>_. ''bad'') \<rparr>"

definition sample_keys :: key_scheme where
  "sample_keys = \<lparr> ks_public = id, ks_sign = (\<lambda>seed m. m), ks_encode = map (\<lambda>b. char_of (unat b)),
                   ks_decode = (\<lambda>s. Some (map (\<lambda>c. of_nat (code c)) s)) \<rparr>"

definition sample_request :: session_request where
  "sample_request =
     \<lparr> sr_expected_cloud_id = ''argus-cloud'',
       sr_identity = from_enrollment (enrollment_new 1 2 ''host'' 0) ''1.0.0'' ''key'',
       sr_key = InstallationKey (replicate 32 7), sr_session_proof = None, sr_hostname = ''host'',
       sr_agent_version = ''0.1.0'', sr_capability_schema_version = None \<rparr>"

definition sample_hello :: "string \<Rightarrow> string list \<Rightarrow> envelope" where
  "sample_hello cloud versions = envelope_new (9, 0) HandshakeHello
     (JObj [(''cloud_id'', JStr cloud), (''cloud_instance'', JStr ''eu''), (''server_time'', JStr ''now''),
            (''supported_protocol_versions'', JArr (map JStr versions)), (''challenge'', JStr ''nonce''),
            (''heartbeat_interval_seconds'', JNum (PosInt 20))]) None"

definition sample_ready :: envelope where
  "sample_ready = envelope_new (10, 0) HandshakeReady
     (JObj [(''negotiated_protocol_version'', JStr ''1.2.0''), (''instance_id'', JStr ''1''), (''tenant_id'', JStr ''2'')]) None"

definition sample_transport :: "envelope list \<Rightarrow> transport" where
  "sample_transport frames =
     \<lparr> tp_incoming = map Inr frames, tp_verdict = (\<lambda>_. None), tp_fresh = (\<lambda>n. (of_nat n, 0)), tp_attempts = 0, tp_sent = [] \<rparr>"

definition version_text :: "string \<Rightarrow> nat option" where
  "version_text s = map_of [(''1.0.0'', 100), (''1.1.0'', 110), (''1.2.0'', 120)] s"

lemma kind_of_new [simp]: "envelope_kind (envelope_new fresh ty p c) = Some ty"
  by (simp add: envelope_kind_def envelope_new_def message_types_round_trip)

lemma payload_of_new [simp]: "en_payload (envelope_new fresh ty p c) = p"
  by (simp add: envelope_new_def)

lemmas sample_defs = sample_transport_def sample_request_def sample_codec_def sample_hello_def sample_ready_def plain_text_def

lemma sample_hello_read:
  "hello_of_json sample_codec (en_payload (sample_hello cloud versions)) =
     Some \<lparr> hl_cloud_id = cloud, hl_cloud_instance = ''eu'', hl_server_time = 0, hl_versions = versions,
            hl_challenge = ''nonce'', hl_heartbeat_interval_seconds = 20 \<rparr>"
proof -
  have "those (map as_string (map JStr versions)) = Some versions" by (induction versions) simp_all
  then show ?thesis
    by (simp add: sample_hello_def hello_of_json_def required_def time_of_json_def strings_of_json_def sample_codec_def)
qed

lemma sample_run:
  "authenticate sample_codec sample_keys version_text sample_request
     (sample_transport [sample_hello ''argus-cloud'' [''1.0.0''], sample_ready])
   = (Inr \<lparr> as_negotiated_protocol_version = ''1.2.0'', as_instance_id = 1, as_tenant_id = 2,
            as_heartbeat_interval_seconds = 20, as_config_pull_required = False \<rparr>,
      (sample_transport [])\<lparr> tp_attempts := 1,
         tp_sent := [envelope_new (0, 0) HandshakeAuthenticate (authenticate_json sample_codec sample_keys sample_request ''nonce'') None] \<rparr>)"
proof -
  have k: "envelope_kind (sample_hello c v) = Some HandshakeHello" for c v by (simp add: sample_hello_def)
  have n: "negotiate version_text [''1.0.0''] = Some 100"
    by (simp add: negotiate_def map_filter_def SUPPORTED_PROTOCOL_VERSIONS_def version_text_def)
  have r: "ready_of_json sample_codec (en_payload sample_ready) =
      Some \<lparr> rd_negotiated_protocol_version = ''1.2.0'', rd_instance_id = 1, rd_tenant_id = 2,
             rd_config_pull_required = False, rd_capability_schema_version = None \<rparr>"
    by (simp add: sample_ready_def ready_of_json_def required_def bool_default_def opt_of_json_def uuid_of_json_def
        sample_codec_def plain_text_def parse_digits_def is_ascii_digit_def)
  have kr: "envelope_kind sample_ready = Some HandshakeReady" by (simp add: sample_ready_def)
  have "sr_expected_cloud_id sample_request = ''argus-cloud''" by (simp add: sample_request_def)
  then show ?thesis
    by (simp add: authenticate_def await_hello_def recv_frame_eq check_hello_def k sample_hello_read
        verify_cloud_identity_def n send_ok session_of_reply_def r kr sample_transport_def)
qed

theorem handshake_speaks_to_its_cloud_witness:
  "(\<exists>hello. trusted_hello sample_codec version_text ''argus-cloud''
        (map Inr [sample_hello ''argus-cloud'' [''1.0.0''], sample_ready]) hello
      \<and> hl_challenge hello = ''nonce'')
   \<and> tp_sent (snd (authenticate sample_codec sample_keys version_text sample_request
                     (sample_transport [sample_hello ''other-cloud'' [''1.0.0''], sample_ready]))) = []"
proof
  let ?t = "sample_transport [sample_hello ''argus-cloud'' [''1.0.0''], sample_ready]"
  have "trusted_hello sample_codec version_text ''argus-cloud'' (map Inr [sample_hello ''argus-cloud'' [''1.0.0''], sample_ready]) hello
      \<Longrightarrow> hl_challenge hello = ''nonce''" for hello
    by (auto simp: trusted_hello_def sample_hello_read)
  then show "\<exists>hello. trusted_hello sample_codec version_text ''argus-cloud''
        (map Inr [sample_hello ''argus-cloud'' [''1.0.0''], sample_ready]) hello \<and> hl_challenge hello = ''nonce''"
    using handshake_speaks_to_its_cloud [OF sample_run] by (auto simp: sample_transport_def sample_request_def)
  let ?u = "sample_transport [sample_hello ''other-cloud'' [''1.0.0''], sample_ready]"
  have "\<not> trusted_hello sample_codec version_text ''argus-cloud'' (tp_incoming ?u) hello" for hello
    by (auto simp: trusted_hello_def sample_hello_read sample_transport_def)
  moreover obtain r t' where u: "authenticate sample_codec sample_keys version_text sample_request ?u = (r, t')" by fastforce
  moreover have "sr_expected_cloud_id sample_request = ''argus-cloud''" "tp_sent ?u = []"
    by (simp_all add: sample_request_def sample_transport_def)
  ultimately show "tp_sent (snd (authenticate sample_codec sample_keys version_text sample_request ?u)) = []"
    using handshake_speaks_to_its_cloud [OF u] by auto
qed

text \<open>The negotiated version is not used: a cloud that speaks only 1.0.0 is answered in 1.2.0.\<close>

theorem negotiated_version_ignored:
  "\<exists>frame. tp_sent (snd (authenticate sample_codec sample_keys version_text sample_request
                     (sample_transport [sample_hello ''argus-cloud'' [''1.0.0''], sample_ready]))) = [frame]
     \<and> negotiate version_text [''1.0.0''] = version_text ''1.0.0'' \<and> get_str ''protocol_version'' (en_payload frame) = Some ''1.2.0''"
  unfolding sample_run
  by (simp add: negotiate_def map_filter_def SUPPORTED_PROTOCOL_VERSIONS_def version_text_def authenticate_json_def
      get_str_def PROTOCOL_VERSION_def)

text \<open>A heartbeat that arrives first ends the handshake, although the pairing exchange skips it.\<close>

theorem heartbeat_aborts_handshake:
  assumes "tp_incoming t = Inr f # rest" and "envelope_kind f = Some Ping"
  shows "authenticate wc ks parse rq t = (Inl (HsUnexpected ''ping''), t\<lparr> tp_incoming := rest \<rparr>)"
proof -
  have "en_message_type f = ''ping''"
    using assms(2) message_types_round_trip [of "en_message_type f" Ping] by (simp add: envelope_kind_def)
  then show ?thesis using assms by (simp add: authenticate_def await_hello_def recv_frame_eq check_hello_def)
qed

section \<open>Keys and enrollment\<close>

text \<open>A stored seed reads back as its key, whatever white space the store added, and nothing else does.\<close>

theorem key_round_trip:
  assumes "ks_decode ks (trim (ks_encode ks (ik_seed k))) = Some (ik_seed k)" and "length (ik_seed k) = SEED_LEN"
  shows "key_from_seed_b64 ks (seed_b64 ks k) = Inr k"
  using assms by (simp add: key_from_seed_b64_def seed_b64_def)

lemma spki_length: "length (ks_public ks (ik_seed k)) = 32 \<Longrightarrow> length (spki_der ks k) = SPKI_LEN"
  by (simp add: spki_der_def SPKI_PREFIX_def SPKI_LEN_def)

lemma heartbeat_aware_pongs:
  "\<exists>pongs. tp_sent (snd (recv_heartbeat_aware t)) = tp_sent t @ pongs \<and> list_all (\<lambda>p. envelope_kind p = Some Pong) pongs
     \<and> set (tp_incoming (snd (recv_heartbeat_aware t))) \<subseteq> set (tp_incoming t)
     \<and> (\<forall>f. fst (recv_heartbeat_aware t) = Inr f \<longrightarrow> Inr f \<in> set (tp_incoming t))"
proof (induction t rule: recv_heartbeat_aware.induct)
  case (1 t)
  show ?case
  proof (cases "tp_incoming t")
    case Nil
    then show ?thesis by (subst recv_heartbeat_aware.simps) (simp add: transport_recv_def recv_heartbeat_aware.simps [of t])
  next
    case (Cons item rest)
    let ?t1 = "t\<lparr> tp_incoming := rest \<rparr>"
    show ?thesis
    proof (cases "\<exists>f. item = Inr f \<and> envelope_kind f = Some Ping \<and> tp_verdict t (tp_attempts t) = None")
      case True
      then obtain f where f: "item = Inr f" "envelope_kind f = Some Ping" "tp_verdict t (tp_attempts t) = None" by blast
      let ?t2 = "?t1\<lparr> tp_attempts := Suc (tp_attempts t), tp_sent := tp_sent t @ [pong_for t (tp_attempts t) f] \<rparr>"
      have r: "transport_recv t = (Inr (Some f), ?t1)" using Cons f by (simp add: transport_recv_def)
      have s: "transport_send Pong (JObj []) (reply_correlation f) ?t1 = (None, ?t2)" using f by (simp add: send_ok pong_for_def)
      have step: "recv_heartbeat_aware t = recv_heartbeat_aware ?t2"
        by (subst recv_heartbeat_aware.simps) (simp add: r s f)
      obtain pongs where p: "tp_sent (snd (recv_heartbeat_aware ?t2)) = tp_sent ?t2 @ pongs"
          "list_all (\<lambda>p. envelope_kind p = Some Pong) pongs"
          "set (tp_incoming (snd (recv_heartbeat_aware ?t2))) \<subseteq> set (tp_incoming ?t2)"
          "\<forall>f. fst (recv_heartbeat_aware ?t2) = Inr f \<longrightarrow> Inr f \<in> set (tp_incoming ?t2)"
        using "1.IH" [OF r [symmetric] refl refl f(2) s [symmetric] refl] by blast
      have "tp_sent (snd (recv_heartbeat_aware t)) = tp_sent t @ pong_for t (tp_attempts t) f # pongs"
        using p(1) by (simp add: step)
      moreover have "list_all (\<lambda>p. envelope_kind p = Some Pong) (pong_for t (tp_attempts t) f # pongs)"
        using p(2) by (simp add: pong_for_def)
      ultimately show ?thesis using p(3,4) unfolding step Cons by auto
    next
      case False
      then have "\<exists>t1. recv_heartbeat_aware t = (case item of Inl e \<Rightarrow> Inl (CloudTransport e)
            | Inr f \<Rightarrow> if envelope_kind f = Some Ping then Inl (CloudTransport (the (tp_verdict t (tp_attempts t)))) else Inr f, t1)
          \<and> tp_sent t1 = tp_sent t \<and> tp_incoming t1 = rest"
        by (subst recv_heartbeat_aware.simps)
           (auto simp: transport_recv_def transport_send_def Let_def Cons split: sum.splits option.splits)
      then show ?thesis using Cons by (auto split: sum.splits if_splits)
    qed
  qed
qed

lemma pairing_hello_identity: "pairing_hello wc expected f = Inr hello \<Longrightarrow>
    envelope_kind f = Some HandshakeHello \<and> hello_of_json wc (en_payload f) = Some hello \<and> hl_cloud_id hello = expected"
  by (auto simp: pairing_hello_def verify_cloud_identity_def split: if_splits option.splits)

text \<open>
  The pairing code leaves the host at most once, only when it is well formed, and only towards the
  expected cloud: everything else an enrollment sends is a pong.
\<close>

abbreviation all_pongs :: "envelope list \<Rightarrow> bool" where
  "all_pongs \<equiv> list_all (\<lambda>p. envelope_kind p = Some Pong)"

theorem enroll_discloses_only_to_its_cloud:
  assumes "enroll wc ks c hostname version expected k t = (r, t')"
  shows "\<exists>before. all_pongs before \<and>
     (tp_sent t' = tp_sent t @ before \<and> (\<exists>e. r = Inl e)
      \<or> (\<exists>f hello fresh after. validate_code c = Inr () \<and> Inr f \<in> set (tp_incoming t) \<and> envelope_kind f = Some HandshakeHello
           \<and> hello_of_json wc (en_payload f) = Some hello \<and> hl_cloud_id hello = expected \<and> all_pongs after
           \<and> tp_sent t' = tp_sent t @ before
               @ envelope_new fresh PairingRedeem (redeem_json ks c hostname version k (hl_challenge hello)) None # after))"
proof -
  obtain x t1 where x: "recv_heartbeat_aware t = (x, t1)" by fastforce
  then obtain before where before: "tp_sent t1 = tp_sent t @ before" "all_pongs before"
      "\<forall>f. x = Inr f \<longrightarrow> Inr f \<in> set (tp_incoming t)"
    using heartbeat_aware_pongs [of t] by auto
  let ?send = "\<lambda>hello. transport_send PairingRedeem (redeem_json ks c hostname version k (hl_challenge hello)) None t1"
  consider (invalid) e where "validate_code c = Inl e \<or> validate_identity_fields hostname version = Inl e"
    | (early) "validate_code c = Inr ()" "validate_identity_fields hostname version = Inr ()"
        "\<And>f hello. x = Inr f \<Longrightarrow> pairing_hello wc expected f = Inr hello \<Longrightarrow> fst (?send hello) \<noteq> None"
    | (redeemed) f hello where "validate_code c = Inr ()" "validate_identity_fields hostname version = Inr ()"
        "x = Inr f" "pairing_hello wc expected f = Inr hello" "fst (?send hello) = None"
    by (metis old.sum.exhaust old.unit.exhaust)
  then show ?thesis
  proof cases
    case invalid
    then show ?thesis using assms by (intro exI [of _ "[]"]) (auto simp: enroll_def split: sum.splits)
  next
    case early
    have "tp_sent t' = tp_sent t1 \<and> (\<exists>e. r = Inl e)"
    proof (cases "\<exists>f hello. x = Inr f \<and> pairing_hello wc expected f = Inr hello")
      case True
      then obtain f hello where f: "x = Inr f" "pairing_hello wc expected f = Inr hello" by blast
      then obtain e t2 where e: "?send hello = (Some e, t2)" using early(3) by (metis option.exhaust prod.collapse)
      have "r = Inl (CloudTransport e)" "t' = t2" using assms x early(1,2) f e by (simp_all add: enroll_def)
      then show ?thesis using send_failed [OF e] by simp
    next
      case False
      then show ?thesis using assms x early(1,2) by (auto simp: enroll_def split: sum.splits)
    qed
    then show ?thesis using before by auto
  next
    case redeemed
    then obtain t2 where t2: "?send hello = (None, t2)" by (metis prod.collapse)
    have sent2: "tp_sent t2 = tp_sent t1 @ [envelope_new (tp_fresh t1 (tp_attempts t1)) PairingRedeem
        (redeem_json ks c hostname version k (hl_challenge hello)) None]"
      using send_sent [of PairingRedeem "redeem_json ks c hostname version k (hl_challenge hello)" None t1] t2 by simp
    have "t' = snd (recv_heartbeat_aware t2)"
      using assms x redeemed t2 by (auto simp: enroll_def split: prod.splits sum.splits)
    then obtain after where "tp_sent t' = tp_sent t2 @ after" "all_pongs after" using heartbeat_aware_pongs [of t2] by auto
    then have "tp_sent t' = tp_sent t @ before
        @ envelope_new (tp_fresh t1 (tp_attempts t1)) PairingRedeem (redeem_json ks c hostname version k (hl_challenge hello)) None # after"
      using sent2 before(1) by simp
    then show ?thesis using redeemed before pairing_hello_identity [OF redeemed(4)] \<open>all_pongs after\<close> by blast
  qed
qed

section \<open>Batches keep every report\<close>

definition batch_ok :: "report_batch \<Rightarrow> bool" where
  "batch_ok b \<longleftrightarrow> rb_entries b \<noteq> [] \<and> length (rb_entries b) \<le> per_message_limit (rb_kind b)
     \<and> (\<forall>e \<in> set (rb_entries b). bu_kind e = rb_kind b)"

lemma per_message_limit_pos: "1 \<le> per_message_limit k"
  by (cases k) (simp_all add: MAX_EVENTS_PER_REPORT_def MAX_ACTIVITIES_PER_REPORT_def)

lemma batch_entry_keeps:
  assumes "\<forall>b \<in> set bs. batch_ok b"
  shows "concat (map rb_entries (batch_entry e bs)) = concat (map rb_entries bs) @ [e]"
    and "\<forall>b \<in> set (batch_entry e bs). batch_ok b"
proof -
  have "concat (map rb_entries (butlast bs)) @ rb_entries (last bs) = concat (map rb_entries bs)" if "bs \<noteq> []"
    using arg_cong [OF append_butlast_last_id [OF that], of "\<lambda>l. concat (map rb_entries l)"] by simp
  then show "concat (map rb_entries (batch_entry e bs)) = concat (map rb_entries bs) @ [e]"
    by (simp add: batch_entry_def flip: append_assoc)
  show "\<forall>b \<in> set (batch_entry e bs). batch_ok b"
  proof (cases "bs \<noteq> [] \<and> rb_kind (last bs) = bu_kind e \<and> length (rb_entries (last bs)) < per_message_limit (bu_kind e)")
    case True
    then have "batch_ok (last bs)" using assms by simp
    then show ?thesis using True assms by (auto simp: batch_entry_def batch_ok_def dest: in_set_butlastD)
  next
    case False
    then show ?thesis using assms per_message_limit_pos by (auto simp: batch_entry_def batch_ok_def)
  qed
qed

lemma fold_batch_entry:
  "\<forall>b \<in> set bs. batch_ok b \<Longrightarrow> concat (map rb_entries (fold batch_entry es bs)) = concat (map rb_entries bs) @ es
     \<and> (\<forall>b \<in> set (fold batch_entry es bs). batch_ok b)"
proof (induction es arbitrary: bs)
  case (Cons e es)
  note k = batch_entry_keeps [OF Cons.prems, of e]
  have "concat (map rb_entries (fold batch_entry es (batch_entry e bs))) = concat (map rb_entries (batch_entry e bs)) @ es
      \<and> (\<forall>b \<in> set (fold batch_entry es (batch_entry e bs)). batch_ok b)"
    by (rule Cons.IH [OF k(2)])
  then show ?case using k(1) by simp
qed simp

lemma assemble_batches_drains:
  assumes "assemble_batches now q = (bs, q1)"
  shows "concat (map rb_entries bs) = map attempted (rq_entries q)" and "\<forall>b \<in> set bs. batch_ok b" and "rq_entries q1 = []"
    and "rq_capacity q1 = rq_capacity q" and "rq_dropped_total q1 = rq_dropped_total q"
  using assms fold_batch_entry [of "[]" "map attempted (rq_entries q)"]
  by (auto simp: assemble_batches_def queue_drain_def Let_def split: if_splits)

text \<open>
  Batches keep the queue. Whatever is queued is drained into batches that hold each report once,
  in the order of the queue, one kind per batch, none empty and none beyond the bound of its kind; and
  when the batches are returned after a failed send, the queue holds the same reports in the same
  order, one attempt older, with nothing dropped.
\<close>

theorem batches_round_trip:
  assumes "assemble_batches now q = (bs, q1)" and "length (rq_entries q) \<le> rq_capacity q"
  shows "(\<forall>b \<in> set bs. rb_entries b \<noteq> [] \<and> length (rb_entries b) \<le> per_message_limit (rb_kind b)
             \<and> (\<forall>e \<in> set (rb_entries b). bu_kind e = rb_kind b))
       \<and> concat (map rb_entries bs) = map attempted (rq_entries q) \<and> rq_entries q1 = []
       \<and> rq_entries (requeue_batches bs q1) = map attempted (rq_entries q)
       \<and> rq_dropped_total (requeue_batches bs q1) = rq_dropped_total q"
  using assemble_batches_drains [OF assms(1)] assms(2)
  by (auto simp: batch_ok_def requeue_batches_def requeue_front_def count_dropped_def Let_def)

definition sample_queue :: report_queue where
  "sample_queue = enqueue_all [(1, RkEvents, JNull, 0), (2, RkEvents, JNull, 1), (3, RkTelemetry, JNull, 2)] (queue_new 10)"

theorem batches_round_trip_witness:
  "length (rq_entries sample_queue) \<le> rq_capacity sample_queue
   \<and> map (\<lambda>b. length (rb_entries b)) (fst (assemble_batches 5 sample_queue)) = [2, 1]
   \<and> rq_entries (requeue_batches (fst (assemble_batches 5 sample_queue)) (snd (assemble_batches 5 sample_queue)))
       = map attempted (rq_entries sample_queue)"
proof -
  have c: "length (rq_entries sample_queue) \<le> rq_capacity sample_queue"
    by (simp add: sample_queue_def enqueue_all_def enqueue_def queue_new_def count_dropped_def Let_def)
  have l: "map (\<lambda>b. length (rb_entries b)) (fst (assemble_batches 5 sample_queue)) = [2, 1]"
    by (simp add: sample_queue_def enqueue_all_def enqueue_def queue_new_def count_dropped_def Let_def assemble_batches_def
        queue_drain_def fresh_report_def attempted_def batch_entry_def MAX_EVENTS_PER_REPORT_def)
  show ?thesis
    using batches_round_trip [of 5 sample_queue "fst (assemble_batches 5 sample_queue)" "snd (assemble_batches 5 sample_queue)"] c l
    by simp
qed

lemma chunks_concat: "concat (chunks n xs) = xs"
  by (induction n xs rule: chunks.induct) simp_all

lemma chunks_sizes: "c \<in> set (chunks n xs) \<Longrightarrow> 1 \<le> n \<Longrightarrow> c \<noteq> [] \<and> length c \<le> n"
  by (induction n xs rule: chunks.induct) (auto simp: min_def)

text \<open>The wire form of a batch: between one and \<open>MAX_EVENTS_PER_REPORT\<close> events, and no event lost or repeated.\<close>

theorem event_batches_exact:
  "concat (map (\<lambda>p. the (Option.bind (json_get ''events'' p) as_array)) (event_batches wt es)) = map (event_json wt) es
   \<and> (\<forall>p \<in> set (event_batches wt es). \<exists>items. p = JObj [(''events'', JArr items)] \<and> items \<noteq> []
        \<and> length items \<le> MAX_EVENTS_PER_REPORT)"
proof
  have "concat (map (\<lambda>p. the (Option.bind (json_get ''events'' p) as_array)) (event_batches wt es))
      = concat (map (map (event_json wt)) (chunks MAX_EVENTS_PER_REPORT es))"
    by (simp add: event_batches_def comp_def json_get_def)
  then show "concat (map (\<lambda>p. the (Option.bind (json_get ''events'' p) as_array)) (event_batches wt es)) = map (event_json wt) es"
    by (simp add: chunks_concat flip: map_concat)
  show "\<forall>p \<in> set (event_batches wt es). \<exists>items. p = JObj [(''events'', JArr items)] \<and> items \<noteq> []
        \<and> length items \<le> MAX_EVENTS_PER_REPORT"
    using chunks_sizes [of _ MAX_EVENTS_PER_REPORT es] by (auto simp: event_batches_def MAX_EVENTS_PER_REPORT_def)
qed

section \<open>Schedules, skew and settings\<close>

text \<open>A throttle only slows down, and what is due is then at least the asked interval away.\<close>

theorem throttle_only_slows:
  "rs_interval s \<le> rs_interval (apply_throttle ms now s) \<and> millis (uint ms) \<le> rs_interval (apply_throttle ms now s)
   \<and> (apply_throttle ms now s \<noteq> s \<longrightarrow> rs_next_telemetry (apply_throttle ms now s) = now + millis (uint ms))"
  by (auto simp: apply_throttle_def Let_def)

theorem skew_exact:
  "assess_skew local_now candidate limit =
     (if candidate \<in> {local_now - limit..local_now + limit} then SkewWithin
      else if local_now < candidate then SkewAhead (candidate - local_now) else SkewBehind (local_now - candidate))"
  by (auto simp: assess_skew_def Let_def)

lemma first_error_None: "first_error es = None \<longleftrightarrow> (\<forall>e \<in> set es. e = None)"
proof -
  have "first_error es = None \<longleftrightarrow> filter (\<lambda>e. e \<noteq> None) es = []"
    by (auto simp: first_error_def split: list.splits dest: filter_eq_ConsD)
  then show ?thesis by (simp add: filter_empty_conv)
qed

text \<open>What a valid configuration guarantees. A plain \<open>ws\<close> endpoint is one of the things it allows.\<close>

theorem valid_settings:
  "cloud_validate c = None \<longleftrightarrow>
     (cc_enabled c \<longrightarrow> (\<exists>e. cc_endpoint c = Some e \<and> (starts_with ''wss://'' e \<or> starts_with ''ws://'' e)))
     \<and> 10 \<le> cc_telemetry_interval_seconds c \<and> 100 \<le> cc_report_buffer_max_records c \<and> cc_request_timeout_seconds c \<noteq> 0
     \<and> (ucast (cc_max_concurrent_privileged c) :: u64) \<noteq> 0 \<and> cc_reconnect_base_seconds c \<noteq> 0
     \<and> cc_reconnect_base_seconds c \<le> cc_reconnect_max_seconds c"
  by (auto simp: cloud_validate_def first_error_None check_min_def check_endpoint_def not_less split: option.splits)

theorem insecure_endpoint_accepted:
  "cloud_validate (cloud_config_default\<lparr> cc_enabled := True, cc_endpoint := Some ''ws://cloud'' \<rparr>) = None"
  by (simp add: valid_settings cloud_config_default_def starts_with_def)

end
