(* ===== verification/Mcp_Wiring.thy ===== *)
theory Mcp_Wiring
  imports Cloud_Client
begin

text \<open>
  External tool servers: the servers document with its validation and merge (\<open>argus-daemon\<close>,
  \<open>config.rs\<close>), the client runtime that adopts tools as capabilities and invokes them
  (\<open>argus-mcp\<close>, \<open>runtime.rs\<close>), and the wiring that starts, probes, reconnects and reconciles them
  (\<open>mcp.rs\<close>). What a server answers - its tools, the result of a call - and the printed form of a
  JSON value are parameters; so is the order in which concurrent connects complete.
\<close>

section \<open>The servers document\<close>

datatype mcp_transport = McpStdio string "string list" | McpHttp string

record mcp_tool_config =
  mt_name :: string
  mt_risk :: risk_class

record mcp_server =
  ms_name :: string
  ms_transport :: mcp_transport
  ms_enabled :: bool
  ms_timeout_seconds :: u32
  ms_tools :: "string list option"
  ms_overrides :: "mcp_tool_config list"

fun risk_of_str :: "string \<Rightarrow> risk_class option" where
  "risk_of_str s =
     map_of [(''read'', Read), (''low_risk'', LowRisk), (''controlled'', Controlled), (''high_risk'', HighRisk),
             (''destructive'', Destructive)] s"

definition transport_of_json :: "json \<Rightarrow> mcp_transport option" where
  "transport_of_json j =
     Option.bind (required as_string ''type'' j) (\<lambda>ty.
       if ty = ''stdio''
       then Option.bind (required as_string ''command'' j) (\<lambda>command.
            Option.bind (case json_get ''args'' j of None \<Rightarrow> Some [] | Some a \<Rightarrow> strings_of_json a) (\<lambda>args.
              Some (McpStdio command args)))
       else if ty = ''http'' then map_option McpHttp (required as_string ''url'' j)
       else None)"

definition tool_config_of_json :: "json \<Rightarrow> mcp_tool_config option" where
  "tool_config_of_json j =
     Option.bind (required as_string ''name'' j) (\<lambda>name.
     Option.bind (required (\<lambda>v. Option.bind (as_string v) risk_of_str) ''risk'' j) (\<lambda>risk.
       Some \<lparr> mt_name = name, mt_risk = risk \<rparr>))"

definition list_default :: "(json \<Rightarrow> 'a option) \<Rightarrow> string \<Rightarrow> json \<Rightarrow> 'a list option" where
  "list_default f key j =
     (case json_get key j of
        None \<Rightarrow> Some []
      | Some v \<Rightarrow> Option.bind (as_array v) (\<lambda>items. those (map f items)))"

definition clamp_timeout :: "u32 option \<Rightarrow> u32" where
  "clamp_timeout t = max 5 (min 300 (case t of None \<Rightarrow> 30 | Some n \<Rightarrow> n))"

definition server_of_json :: "json \<Rightarrow> mcp_server option" where
  "server_of_json j =
     Option.bind (required as_string ''name'' j) (\<lambda>name.
     Option.bind (required transport_of_json ''transport'' j) (\<lambda>tr.
     Option.bind (opt_of_json as_bool (json_get ''enabled'' j)) (\<lambda>enabled.
     Option.bind (opt_of_json word_of_json (json_get ''timeout_seconds'' j)) (\<lambda>timeout.
     Option.bind (opt_of_json strings_of_json (json_get ''tools'' j)) (\<lambda>tools.
     Option.bind (list_default tool_config_of_json ''overrides'' j) (\<lambda>overrides.
       Some \<lparr> ms_name = name, ms_transport = tr, ms_enabled = (enabled = Some True),
              ms_timeout_seconds = clamp_timeout timeout, ms_tools = tools, ms_overrides = overrides \<rparr>))))))"

definition mcp_config_of_json :: "json \<Rightarrow> mcp_server list option" where
  "mcp_config_of_json j = (case j of JObj _ \<Rightarrow> list_default server_of_json ''servers'' j | _ \<Rightarrow> None)"

definition enabled_servers :: "mcp_server list \<Rightarrow> mcp_server list" where
  "enabled_servers servers = filter ms_enabled servers"

definition find_server :: "string \<Rightarrow> mcp_server list \<Rightarrow> mcp_server option" where
  "find_server name servers = find (\<lambda>s. ms_name s = name) servers"

definition merged_over :: "mcp_server list \<Rightarrow> mcp_server list \<Rightarrow> mcp_server list" where
  "merged_over own delivered =
     fold (\<lambda>d merged. if find_server (ms_name d) merged \<noteq> None then merged else merged @ [d]) delivered
       (map (\<lambda>s. case find_server (ms_name s) delivered of Some d \<Rightarrow> d | None \<Rightarrow> s) own)"

definition is_capability_segment :: "string \<Rightarrow> bool" where
  "is_capability_segment name \<longleftrightarrow> CHR ''.'' \<notin> set name \<and> is_ok (capability_id_new (''mcp.'' @ name @ ''.probe''))"

datatype mcp_config_error =
    McpBadName string | McpDuplicateName string | McpEmptyCommand string | McpBadUrl string
  | McpBadAllowed string string | McpBadOverride string string

definition check_transport :: "mcp_server \<Rightarrow> mcp_config_error option" where
  "check_transport s =
     (case ms_transport s of
        McpStdio command _ \<Rightarrow> if trim command = [] then Some (McpEmptyCommand (ms_name s)) else None
      | McpHttp url \<Rightarrow>
          if \<not> starts_with ''http://'' url \<and> \<not> starts_with ''https://'' url then Some (McpBadUrl (ms_name s)) else None)"

fun validate_servers :: "string list \<Rightarrow> mcp_server list \<Rightarrow> mcp_config_error option" where
  "validate_servers seen [] = None"
| "validate_servers seen (s # rest) =
     (case first_error
        ([if \<not> is_capability_segment (ms_name s) then Some (McpBadName (ms_name s)) else None,
          if ms_name s \<in> set seen then Some (McpDuplicateName (ms_name s)) else None,
          check_transport s]
         @ map (\<lambda>t. if \<not> is_capability_segment t then Some (McpBadAllowed (ms_name s) t) else None)
             (case ms_tools s of None \<Rightarrow> [] | Some ts \<Rightarrow> ts)
         @ map (\<lambda>t. if \<not> is_capability_segment (mt_name t) then Some (McpBadOverride (ms_name s) (mt_name t)) else None)
             (ms_overrides s)) of
        Some e \<Rightarrow> Some e
      | None \<Rightarrow> validate_servers (ms_name s # seen) rest)"

definition mcp_validate :: "mcp_server list \<Rightarrow> mcp_config_error option" where
  "mcp_validate servers = validate_servers [] servers"

section \<open>The client runtime\<close>

definition EVIDENCE_CAP_BYTES :: nat where
  "EVIDENCE_CAP_BYTES = 8 * 1024"

text \<open>A tool as advertised; its annotations and hints are not read.\<close>

record mcp_tool =
  tl_name :: string
  tl_input_schema :: "(string \<times> json) list"

datatype mcp_error =
    NotConnected string | UnknownTool string string | McpTimeout string string nat | ConnectTimeout string nat
  | McpTransportError string | ToolFailed string string string | InvalidArguments string | InvalidCapability string

text \<open>The executor's view of a failure: whether the effect can have begun.\<close>

definition effect_refused :: "mcp_error \<Rightarrow> bool" where
  "effect_refused e =
     (case e of
        NotConnected _ \<Rightarrow> False | McpTimeout _ _ _ \<Rightarrow> False | ConnectTimeout _ _ \<Rightarrow> False | McpTransportError _ \<Rightarrow> False
      | _ \<Rightarrow> True)"

record mcp_connection =
  mc_tools :: "string list"
  mc_timeout_seconds :: nat

record mcp_runtime =
  mr_slots :: "string \<Rightarrow> mcp_connection option"
  mr_registered :: "(capability_id, capability_descriptor) btree"

definition runtime_new :: mcp_runtime where
  "runtime_new = \<lparr> mr_slots = (\<lambda>_. None), mr_registered = [] \<rparr>"

definition split_capability :: "string \<Rightarrow> (string \<times> string) option" where
  "split_capability i =
     (if starts_with ''mcp.'' i
      then (case split_once (CHR ''.'') (drop 4 i) of
              None \<Rightarrow> None
            | Some (server, tool) \<Rightarrow> if CHR ''.'' \<in> set tool \<or> tool = [] \<or> server = [] then None else Some (server, tool))
      else None)"

definition tool_of :: "capability_id \<Rightarrow> string" where
  "tool_of i = (case split_capability (as_str i) of Some (_, tool) \<Rightarrow> tool | None \<Rightarrow> [])"

definition tool_trust :: "mcp_tool_config list \<Rightarrow> string \<Rightarrow> risk_class \<times> bool" where
  "tool_trust overrides tool =
     (case find (\<lambda>c. mt_name c = tool) overrides of Some c \<Rightarrow> (mt_risk c, False) | None \<Rightarrow> (HighRisk, True))"

definition adopt_tool ::
  "string \<Rightarrow> nat \<Rightarrow> mcp_tool_config list \<Rightarrow> string list option \<Rightarrow> mcp_tool \<Rightarrow> capability_descriptor option" where
  "adopt_tool server timeout overrides allow tool =
     (let name = trim (tl_name tool)
      in if name = [] \<or> CHR ''.'' \<in> set name then None
         else if (case allow of None \<Rightarrow> False | Some allowed \<Rightarrow> name \<notin> set allowed) then None
         else case capability_id_new (''mcp.'' @ server @ ''.'' @ name) of
                Inl _ \<Rightarrow> None
              | Inr i \<Rightarrow>
                  (let (risk, approval) = tool_trust overrides name
                   in Some (with_timeout_seconds (max timeout 1) (requiring_approval_if approval
                        (with_blast_radius RadiusHost
                          (descriptor_new i (''mcp:'' @ server) name risk (0, 1, 0) (JObj (tl_input_schema tool)) (JObj [])
                             NotReversible))))))"

definition adopt_tools ::
  "string \<Rightarrow> nat \<Rightarrow> mcp_tool_config list \<Rightarrow> string list option \<Rightarrow> mcp_tool list \<Rightarrow> capability_descriptor list" where
  "adopt_tools server timeout overrides allow tools = List.map_filter (adopt_tool server timeout overrides allow) tools"

definition runtime_register :: "capability_descriptor \<Rightarrow> mcp_runtime \<Rightarrow> mcp_runtime" where
  "runtime_register d rt = rt\<lparr> mr_registered := bt_insert (cd_id d) d (mr_registered rt) \<rparr>"

definition runtime_connect ::
  "mcp_server \<Rightarrow> mcp_error + mcp_tool list \<Rightarrow> mcp_runtime \<Rightarrow> (mcp_error + capability_descriptor list) \<times> mcp_runtime" where
  "runtime_connect s answer rt =
     (case answer of
        Inl e \<Rightarrow> (Inl e, rt)
      | Inr tools \<Rightarrow>
          (let timeout = unat (ms_timeout_seconds s);
               ds = adopt_tools (ms_name s) timeout (ms_overrides s) (ms_tools s) tools;
               rt1 = fold runtime_register ds rt
           in (Inr ds, rt1\<lparr> mr_slots := (mr_slots rt1)(ms_name s \<mapsto>
                   \<lparr> mc_tools = map (\<lambda>d. tool_of (cd_id d)) ds, mc_timeout_seconds = timeout \<rparr>) \<rparr>)))"

definition runtime_refresh ::
  "mcp_server \<Rightarrow> mcp_error + mcp_tool list \<Rightarrow> mcp_runtime \<Rightarrow> (mcp_error + capability_descriptor list) \<times> mcp_runtime" where
  "runtime_refresh s answer rt =
     (case mr_slots rt (ms_name s) of
        None \<Rightarrow> (Inl (NotConnected (ms_name s)), rt)
      | Some c \<Rightarrow>
          (case answer of
             Inl e \<Rightarrow> (Inl e, rt)
           | Inr tools \<Rightarrow>
               (let ds = adopt_tools (ms_name s) (mc_timeout_seconds c) (ms_overrides s) (ms_tools s) tools;
                    rt1 = rt\<lparr> mr_slots := (mr_slots rt)(ms_name s \<mapsto> c\<lparr> mc_tools := map (\<lambda>d. tool_of (cd_id d)) ds \<rparr>) \<rparr>
                in (Inr ds, fold runtime_register ds rt1))))"

definition runtime_disconnect :: "string \<Rightarrow> mcp_runtime \<Rightarrow> mcp_runtime" where
  "runtime_disconnect name rt = rt\<lparr> mr_slots := (mr_slots rt)(name := None) \<rparr>"

definition has_connection :: "string \<Rightarrow> mcp_runtime \<Rightarrow> bool" where
  "has_connection name rt \<longleftrightarrow> mr_slots rt name \<noteq> None"

definition runtime_unregister :: "string \<Rightarrow> mcp_runtime \<Rightarrow> capability_id list \<times> mcp_runtime" where
  "runtime_unregister server rt =
     (let removed = filter (\<lambda>i. starts_with (''mcp.'' @ server @ ''.'') (as_str i)) (map fst (mr_registered rt))
      in (removed, rt\<lparr> mr_registered := fold bt_remove removed (mr_registered rt) \<rparr>))"

record call_result =
  cl_is_error :: bool
  cl_structured :: "json option"
  cl_texts :: "string list"
  cl_content_empty :: bool
  cl_content :: json

fun join_lines :: "string list \<Rightarrow> string" where
  "join_lines [] = []"
| "join_lines [t] = t"
| "join_lines (t # ts) = t @ [CHR 0x0A] @ join_lines ts"

text \<open>The longest prefix of whole characters within a number of bytes.\<close>

fun clip_utf8 :: "nat \<Rightarrow> string \<Rightarrow> string" where
  "clip_utf8 n [] = []"
| "clip_utf8 n (c # cs) = (if length (utf8_char c) \<le> n then c # clip_utf8 (n - length (utf8_char c)) cs else [])"

definition cap_evidence :: "(json \<Rightarrow> string) \<Rightarrow> json \<Rightarrow> json" where
  "cap_evidence show_json output =
     (if length (utf8 (show_json output)) \<le> EVIDENCE_CAP_BYTES then JObj [(''output'', output)]
      else JObj [(''output'', JStr (clip_utf8 EVIDENCE_CAP_BYTES (show_json output))), (''truncated'', JBool True)])"

definition evidence_from_result :: "(json \<Rightarrow> string) \<Rightarrow> string \<Rightarrow> string \<Rightarrow> call_result \<Rightarrow> mcp_error + json" where
  "evidence_from_result show_json server tool r =
     (if cl_is_error r
      then Inl (ToolFailed server tool (if cl_texts r = [] then ''unknown tool error'' else join_lines (cl_texts r)))
      else Inr (cap_evidence show_json
             (case cl_structured r of
                Some v \<Rightarrow> v
              | None \<Rightarrow> if cl_texts r \<noteq> [] then JStr (join_lines (cl_texts r))
                        else if cl_content_empty r then JNull else cl_content r)))"

definition runtime_invoke ::
  "(json \<Rightarrow> string) \<Rightarrow> (string \<Rightarrow> string \<Rightarrow> (string \<times> json) list \<Rightarrow> mcp_error + call_result) \<Rightarrow> capability_id \<Rightarrow> json \<Rightarrow>
   mcp_runtime \<Rightarrow> mcp_error + json" where
  "runtime_invoke show_json call i arguments rt =
     (case split_capability (as_str i) of
        None \<Rightarrow> Inl (InvalidCapability (as_str i))
      | Some (server, tool) \<Rightarrow>
     (case map_of (mr_registered rt) i of
        None \<Rightarrow> Inl (UnknownTool server tool)
      | Some d \<Rightarrow>
     (case as_object arguments of
        None \<Rightarrow> Inl (InvalidArguments (as_str i))
      | Some argument_map \<Rightarrow>
          if \<not> input_matches (cd_input_schema d) arguments then Inl (InvalidArguments (as_str i))
          else (case mr_slots rt server of
                  None \<Rightarrow> Inl (NotConnected server)
                | Some c \<Rightarrow>
                    if tool \<notin> set (mc_tools c) then Inl (UnknownTool server tool)
                    else (case call server tool argument_map of
                            Inl e \<Rightarrow> Inl e
                          | Inr r \<Rightarrow> evidence_from_result show_json server tool r)))))"

section \<open>The wiring\<close>

record desired_server =
  dv_server :: mcp_server
  dv_from_cloud :: bool

abbreviation desired_name :: "desired_server \<Rightarrow> string" where
  "desired_name h \<equiv> ms_name (dv_server h)"

definition cloud_owned :: "mcp_server \<Rightarrow> desired_server" where
  "cloud_owned s = \<lparr> dv_server = s, dv_from_cloud = True \<rparr>"

fun supersede :: "mcp_server \<Rightarrow> desired_server list \<Rightarrow> desired_server list" where
  "supersede s [] = [cloud_owned s]"
| "supersede s (h # hs) = (if desired_name h = ms_name s then cloud_owned s # hs else h # supersede s hs)"

definition startup_topology :: "mcp_server list \<Rightarrow> mcp_server list \<Rightarrow> desired_server list" where
  "startup_topology own cloud = fold supersede cloud (map (\<lambda>s. \<lparr> dv_server = s, dv_from_cloud = False \<rparr>) own)"

text \<open>What a restart seeds: the file's servers and the persisted delivery, when their merge is valid.\<close>

definition restart_topology :: "mcp_server list \<Rightarrow> mcp_server list option \<Rightarrow> desired_server list" where
  "restart_topology own persisted =
     startup_topology (enabled_servers own)
       (case persisted of
          None \<Rightarrow> []
        | Some document \<Rightarrow> if mcp_validate (merged_over own document) = None then enabled_servers document else [])"

definition reconcile_plan ::
  "desired_server list \<Rightarrow> mcp_server list \<Rightarrow> mcp_server list \<times> mcp_server list \<times> desired_server list" where
  "reconcile_plan current delivered =
     (let added = filter (\<lambda>s. \<not> list_ex (\<lambda>h. desired_name h = ms_name s) current) delivered
      in (List.map_filter (\<lambda>h. case find_server (desired_name h) delivered of
                          Some s \<Rightarrow> if s \<noteq> dv_server h then Some s else None | None \<Rightarrow> None) current @ added,
          List.map_filter (\<lambda>h. case find_server (desired_name h) delivered of
                          Some s \<Rightarrow> if s \<noteq> dv_server h then Some (dv_server h) else None
                        | None \<Rightarrow> if dv_from_cloud h then Some (dv_server h) else None) current,
          List.map_filter (\<lambda>h. case find_server (desired_name h) delivered of
                          Some s \<Rightarrow> Some (cloud_owned s)
                        | None \<Rightarrow> if dv_from_cloud h then None else Some h) current @ map cloud_owned added))"

record retry_state =
  rt_attempt :: u32
  rt_not_before :: instant

definition PROBE_INTERVAL :: duration where
  "PROBE_INTERVAL = seconds 10"

definition backoff_delay :: "u32 \<Rightarrow> duration" where
  "backoff_delay attempt = seconds (2 ^ unat (min attempt 6))"

record mcp_wiring =
  mw_runtime :: mcp_runtime
  mw_servers :: "desired_server list"
  mw_retries :: "string \<Rightarrow> retry_state option"

definition bump_retry :: "instant \<Rightarrow> string \<Rightarrow> mcp_wiring \<Rightarrow> mcp_wiring" where
  "bump_retry now name w =
     (let attempt = (case mw_retries w name of None \<Rightarrow> 0 | Some r \<Rightarrow> rt_attempt r) + 1
      in w\<lparr> mw_retries := (mw_retries w)(name \<mapsto>
              \<lparr> rt_attempt = attempt, rt_not_before = now + backoff_delay attempt \<rparr>) \<rparr>)"

definition clear_retry :: "string \<Rightarrow> mcp_wiring \<Rightarrow> mcp_wiring" where
  "clear_retry name w = w\<lparr> mw_retries := (mw_retries w)(name := None) \<rparr>"

text \<open>The earliest pending retry among the desired servers bounds the pause of the lifecycle.\<close>

definition pass_pause :: "instant \<Rightarrow> string list \<Rightarrow> mcp_wiring \<Rightarrow> duration" where
  "pass_pause now names w =
     (case List.map_filter (\<lambda>n. map_option rt_not_before (mw_retries w n)) names of
        [] \<Rightarrow> PROBE_INTERVAL
      | d # ds \<Rightarrow>
          (let due = foldl min d ds in if now < due then min (due - now) PROBE_INTERVAL else PROBE_INTERVAL))"

definition adopt_fresh :: "capability_descriptor list \<Rightarrow> capability_registry \<Rightarrow> nat \<times> capability_registry" where
  "adopt_fresh ds reg =
     fold (\<lambda>d (n, r). if registry_get r (cd_id d) \<noteq> None then (n, r)
                      else (case registry_register d r of Inl _ \<Rightarrow> (n, r) | Inr r' \<Rightarrow> (Suc n, r'))) ds (0, reg)"

record reconcile_report =
  rc_connected :: "string list"
  rc_removed :: "string list"
  rc_failed :: "(string \<times> mcp_error) list"

definition drop_server ::
  "mcp_server \<Rightarrow> mcp_wiring \<times> capability_registry \<Rightarrow> mcp_wiring \<times> capability_registry" where
  "drop_server s = (\<lambda>(w, reg).
     let rt = snd (runtime_unregister (ms_name s) (runtime_disconnect (ms_name s) (mw_runtime w)))
     in (clear_retry (ms_name s) (w\<lparr> mw_runtime := rt \<rparr>), snd (unregister_server (ms_name s) reg)))"

definition connect_server ::
  "(mcp_server \<Rightarrow> mcp_error + mcp_tool list) \<Rightarrow> instant \<Rightarrow> mcp_server \<Rightarrow>
   reconcile_report \<times> mcp_wiring \<times> capability_registry \<Rightarrow> reconcile_report \<times> mcp_wiring \<times> capability_registry" where
  "connect_server discover now s = (\<lambda>(report, w, reg).
     case runtime_connect s (discover s) (mw_runtime w) of
       (Inr ds, rt) \<Rightarrow>
         (report\<lparr> rc_connected := rc_connected report @ [ms_name s] \<rparr>,
          clear_retry (ms_name s) (w\<lparr> mw_runtime := rt \<rparr>), snd (adopt_fresh ds reg))
     | (Inl e, rt) \<Rightarrow>
         (report\<lparr> rc_failed := rc_failed report @ [(ms_name s, e)] \<rparr>,
          bump_retry now (ms_name s) (w\<lparr> mw_runtime := rt \<rparr>), reg))"

definition apply_servers ::
  "(mcp_server \<Rightarrow> mcp_error + mcp_tool list) \<Rightarrow> (mcp_server list \<Rightarrow> mcp_server list) \<Rightarrow> instant \<Rightarrow> mcp_server list \<Rightarrow>
   mcp_wiring \<times> capability_registry \<Rightarrow> reconcile_report \<times> mcp_wiring \<times> capability_registry" where
  "apply_servers discover arrive now delivered = (\<lambda>(w, reg).
     let (to_connect, to_remove, desired) = reconcile_plan (mw_servers w) (enabled_servers delivered);
         (w1, reg1) = fold drop_server to_remove (w, reg);
         (report, w2, reg2) =
           fold (connect_server discover now) (arrive to_connect)
             (\<lparr> rc_connected = [], rc_removed = map ms_name to_remove, rc_failed = [] \<rparr>, w1, reg1)
     in (report, w2\<lparr> mw_servers := desired \<rparr>, reg2))"

text \<open>At start-up every descriptor is offered to the registry, which refuses a duplicate.\<close>

definition start_server ::
  "(mcp_server \<Rightarrow> mcp_error + mcp_tool list) \<Rightarrow> instant \<Rightarrow> mcp_server \<Rightarrow> mcp_wiring \<times> capability_registry \<Rightarrow>
   mcp_wiring \<times> capability_registry" where
  "start_server discover now s = (\<lambda>(w, reg).
     case runtime_connect s (discover s) (mw_runtime w) of
       (Inr ds, rt) \<Rightarrow>
         (w\<lparr> mw_runtime := rt \<rparr>, fold (\<lambda>d r. case registry_register d r of Inl _ \<Rightarrow> r | Inr r' \<Rightarrow> r') ds reg)
     | (Inl e, rt) \<Rightarrow> (bump_retry now (ms_name s) (w\<lparr> mw_runtime := rt \<rparr>), reg))"

definition connect_startup ::
  "(mcp_server \<Rightarrow> mcp_error + mcp_tool list) \<Rightarrow> instant \<Rightarrow> mcp_wiring \<times> capability_registry \<Rightarrow>
   mcp_wiring \<times> capability_registry" where
  "connect_startup discover now = (\<lambda>(w, reg). fold (start_server discover now) (map dv_server (mw_servers w)) (w, reg))"

text \<open>One visit of the lifecycle: probe a live slot, reconnect a dead one once its delay has passed.\<close>

definition visit_server ::
  "(mcp_server \<Rightarrow> mcp_error + mcp_tool list) \<Rightarrow> instant \<Rightarrow> mcp_server \<Rightarrow> mcp_wiring \<times> capability_registry \<Rightarrow>
   mcp_wiring \<times> capability_registry" where
  "visit_server answer now s = (\<lambda>(w, reg).
     if has_connection (ms_name s) (mw_runtime w)
     then (case runtime_refresh s (answer s) (mw_runtime w) of
             (Inr ds, rt) \<Rightarrow> (clear_retry (ms_name s) (w\<lparr> mw_runtime := rt \<rparr>), snd (adopt_fresh ds reg))
           | (Inl e, rt) \<Rightarrow>
               (bump_retry now (ms_name s) (w\<lparr> mw_runtime := runtime_disconnect (ms_name s) rt \<rparr>), reg))
     else if (case mw_retries w (ms_name s) of None \<Rightarrow> False | Some r \<Rightarrow> now < rt_not_before r) then (w, reg)
     else (case runtime_connect s (answer s) (mw_runtime w) of
             (Inr ds, rt) \<Rightarrow> (clear_retry (ms_name s) (w\<lparr> mw_runtime := rt \<rparr>), snd (adopt_fresh ds reg))
           | (Inl e, rt) \<Rightarrow> (bump_retry now (ms_name s) (w\<lparr> mw_runtime := rt \<rparr>), reg)))"

definition lifecycle_pass ::
  "(mcp_server \<Rightarrow> mcp_error + mcp_tool list) \<Rightarrow> (mcp_server list \<Rightarrow> mcp_server list) \<Rightarrow> instant \<Rightarrow>
   mcp_wiring \<times> capability_registry \<Rightarrow> mcp_wiring \<times> capability_registry" where
  "lifecycle_pass answer arrive now = (\<lambda>(w, reg).
     fold (visit_server answer now) (arrive (map dv_server (mw_servers w))) (w, reg))"

definition server_state :: "mcp_wiring \<Rightarrow> desired_server \<Rightarrow> string \<times> string \<times> nat" where
  "server_state w h =
     (desired_name h,
      if has_connection (desired_name h) (mw_runtime w) then ''connected''
      else if mw_retries w (desired_name h) \<noteq> None then ''retrying'' else ''connecting'',
      length (filter (\<lambda>i. starts_with (''mcp.'' @ desired_name h @ ''.'') (as_str i)) (map fst (mr_registered (mw_runtime w)))))"

definition server_states :: "mcp_wiring \<Rightarrow> (string \<times> string \<times> nat) list" where
  "server_states w = map (server_state w) (mw_servers w)"


section \<open>Trust is configuration\<close>

lemma split_capability_made:
  assumes "CHR ''.'' \<notin> set server" and "server \<noteq> []" and "CHR ''.'' \<notin> set tool" and "tool \<noteq> []"
  shows "split_capability (''mcp.'' @ server @ ''.'' @ tool) = Some (server, tool)"
  using assms split_once_append [of "CHR ''.''" server tool] by (simp add: split_capability_def)

text \<open>Namespaces of different servers are disjoint.\<close>

lemma namespace_disjoint:
  assumes "CHR ''.'' \<notin> set a" and "CHR ''.'' \<notin> set b"
  shows "starts_with (''mcp.'' @ a @ ''.'') (''mcp.'' @ b @ ''.'' @ t) \<longleftrightarrow> a = b"
proof
  assume "starts_with (''mcp.'' @ a @ ''.'') (''mcp.'' @ b @ ''.'' @ t)"
  then obtain r where "b @ CHR ''.'' # t = a @ CHR ''.'' # r" by (auto simp: starts_with_iff)
  then show "a = b" using split_once_append [OF assms(1), of r] split_once_append [OF assms(2), of t] by simp
qed (simp add: starts_with_iff)

lemma adopt_tool_spec:
  assumes "adopt_tool server timeout overrides allow tool = Some d"
  defines "name \<equiv> trim (tl_name tool)"
  shows "as_str (cd_id d) = ''mcp.'' @ server @ ''.'' @ name" and "name \<noteq> []" and "CHR ''.'' \<notin> set name"
    and "valid_capability (cd_id d)" and "\<And>allowed. allow = Some allowed \<Longrightarrow> name \<in> set allowed"
    and "(cd_risk_class d, cd_requires_approval d) = tool_trust overrides name"
    and "cd_blast_radius d = Some RadiusHost" and "cd_reversibility d = NotReversible"
    and "cd_input_schema d = JObj (tl_input_schema tool)" and "cd_privileged d = False" and "cd_privileges d = []"
  using assms
  by (auto simp: adopt_tool_def Let_def descriptor_new_def with_blast_radius_def requiring_approval_if_def
      with_timeout_seconds_def dest: capability_id_new_valid split: if_splits sum.splits prod.splits option.splits)

lemma tool_trust_cases:
  "(\<exists>c \<in> set overrides. mt_name c = tool \<and> tool_trust overrides tool = (mt_risk c, False))
   \<or> (\<forall>c \<in> set overrides. mt_name c \<noteq> tool) \<and> tool_trust overrides tool = (HighRisk, True)"
proof (cases "find (\<lambda>c. mt_name c = tool) overrides")
  case None
  then have "\<forall>c \<in> set overrides. mt_name c \<noteq> tool" by (auto simp: find_None_iff)
  then show ?thesis using None by (simp add: tool_trust_def)
next
  case (Some c)
  then have "c \<in> set overrides \<and> mt_name c = tool" by (auto simp: find_Some_iff)
  then show ?thesis using Some by (auto simp: tool_trust_def)
qed


definition sample_tool :: "string \<Rightarrow> mcp_tool" where
  "sample_tool name = \<lparr> tl_name = name, tl_input_schema = [(''type'', JStr ''object'')] \<rparr>"

lemma sample_adopted:
  "adopt_tools ''metrics'' 30 [\<lparr> mt_name = ''query'', mt_risk = Controlled \<rparr>] None [sample_tool ''query'', sample_tool ''reset''] =
     (let d = \<lambda>name risk approval. with_timeout_seconds 30 (requiring_approval_if approval (with_blast_radius RadiusHost
        (descriptor_new (CapabilityId (''mcp.metrics.'' @ name)) ''mcp:metrics'' name risk (0, 1, 0)
           (JObj [(''type'', JStr ''object'')]) (JObj []) NotReversible)))
      in [d ''query'' Controlled False, d ''reset'' HighRisk True])"
  by (simp add: adopt_tools_def map_filter_def adopt_tool_def sample_tool_def tool_trust_def trim_def is_whitespace_def
      capability_id_new_def is_dotted_path_def is_segment_def char_class_defs Let_def)


text \<open>An override lifts the approval whatever class it names, also when it names the default class or a higher one.\<close>

theorem raising_override_lifts_approval:
  "tool_trust [\<lparr> mt_name = tool, mt_risk = Destructive \<rparr>] tool = (Destructive, False) \<and> tool_trust [] tool = (HighRisk, True)"
  by (simp add: tool_trust_def)

text \<open>A padded name is not skipped but adopted under another name, which calls then use.\<close>

theorem padded_tool_adopted_trimmed:
  "map (\<lambda>d. as_str (cd_id d)) (adopt_tools ''metrics'' 30 [] None [sample_tool '' query '']) = [''mcp.metrics.query'']"
  by (simp add: adopt_tools_def map_filter_def adopt_tool_def sample_tool_def tool_trust_def trim_def is_whitespace_def
      capability_id_new_def is_dotted_path_def is_segment_def char_class_defs Let_def with_timeout_seconds_def requiring_approval_if_def
      with_blast_radius_def descriptor_new_def)

section \<open>Calls fail closed\<close>

lemma utf8_Cons: "utf8 (c # cs) = utf8_char c @ utf8 cs"
  by (simp add: utf8_def)

lemma clip_utf8_bound: "length (utf8 (clip_utf8 n s)) \<le> n \<and> (\<exists>r. s = clip_utf8 n s @ r)"
proof (induction n s rule: clip_utf8.induct)
  case (2 n c cs)
  then show ?case by (auto simp: utf8_Cons) (simp add: utf8_def)
qed (simp add: utf8_def)

definition callable :: "capability_id \<Rightarrow> json \<Rightarrow> mcp_runtime \<Rightarrow> (string \<times> string \<times> (string \<times> json) list) option" where
  "callable i arguments rt =
     (case split_capability (as_str i) of
        None \<Rightarrow> None
      | Some (server, tool) \<Rightarrow>
          (case (map_of (mr_registered rt) i, as_object arguments, mr_slots rt server) of
             (Some d, Some m, Some c) \<Rightarrow>
               if input_matches (cd_input_schema d) arguments \<and> tool \<in> set (mc_tools c) then Some (server, tool, m) else None
           | _ \<Rightarrow> None))"

theorem calls_fail_closed:
  "(case callable i arguments rt of
      None \<Rightarrow> (\<exists>e. \<forall>call. runtime_invoke show_json call i arguments rt = Inl e)
    | Some (server, tool, m) \<Rightarrow>
        runtime_invoke show_json call i arguments rt =
          (case call server tool m of Inl e \<Rightarrow> Inl e | Inr r \<Rightarrow> evidence_from_result show_json server tool r))"
  by (simp add: callable_def runtime_invoke_def split: option.split prod.split)

theorem evidence_bounded:
  assumes "evidence_from_result show_json server tool r = Inr ev"
  shows "\<not> cl_is_error r \<and> (\<exists>output. ev = JObj [(''output'', output)] \<and> length (utf8 (show_json output)) \<le> EVIDENCE_CAP_BYTES
      \<or> (\<exists>t. ev = JObj [(''output'', JStr t), (''truncated'', JBool True)] \<and> length (utf8 t) \<le> EVIDENCE_CAP_BYTES))"
  using assms clip_utf8_bound by (auto simp: evidence_from_result_def cap_evidence_def split: if_splits)

section \<open>Deliveries and restarts\<close>

lemma find_server_iff:
  assumes "distinct (map ms_name servers)"
  shows "find_server name servers = Some s \<longleftrightarrow> s \<in> set servers \<and> ms_name s = name"
proof -
  have "find_server name servers = Some s \<Longrightarrow> s \<in> set servers \<and> ms_name s = name"
    by (auto simp: find_server_def find_Some_iff)
  moreover have "find_server name servers = Some s" if s: "s \<in> set servers" "ms_name s = name"
  proof -
    obtain t where t: "find_server name servers = Some t"
      using s by (metis (mono_tags, lifting) find_None_iff find_server_def not_None_eq)
    then have "t \<in> set servers \<and> ms_name t = ms_name s" using s by (auto simp: find_server_def find_Some_iff)
    then show ?thesis using t s assms by (metis distinct_map inj_onD)
  qed
  ultimately show ?thesis by blast
qed

lemma find_server_None: "find_server name servers = None \<longleftrightarrow> name \<notin> ms_name ` set servers"
  by (auto simp: find_server_def find_None_iff)

abbreviation own_server :: "mcp_server \<Rightarrow> desired_server" where
  "own_server s \<equiv> \<lparr> dv_server = s, dv_from_cloud = False \<rparr>"

definition desired_after :: "desired_server list \<Rightarrow> mcp_server list \<Rightarrow> desired_server list" where
  "desired_after current delivered = snd (snd (reconcile_plan current delivered))"

lemma mem_map_filter: "y \<in> set (List.map_filter f xs) \<longleftrightarrow> (\<exists>x \<in> set xs. f x = Some y)"
  by (force simp: map_filter_def)

lemma cloud_owned_simps [simp]: "dv_server (cloud_owned s) = s" "dv_from_cloud (cloud_owned s)"
  "cloud_owned s = cloud_owned t \<longleftrightarrow> s = t" "cloud_owned s \<noteq> own_server t" "own_server t \<noteq> cloud_owned s"
  by (simp_all add: cloud_owned_def)

lemma desired_after_set:
  assumes "distinct (map ms_name delivered)"
  shows "set (desired_after current delivered) =
     cloud_owned ` set delivered \<union> {h \<in> set current. \<not> dv_from_cloud h \<and> desired_name h \<notin> ms_name ` set delivered}"
proof -
  let ?keep = "\<lambda>h. case find_server (desired_name h) delivered of
      Some s \<Rightarrow> Some (cloud_owned s) | None \<Rightarrow> if dv_from_cloud h then None else Some h"
  have keep: "?keep held = Some h \<longleftrightarrow> (\<exists>s \<in> set delivered. ms_name s = desired_name held \<and> h = cloud_owned s)
      \<or> desired_name held \<notin> ms_name ` set delivered \<and> \<not> dv_from_cloud held \<and> h = held" for held h
  proof (cases "find_server (desired_name held) delivered")
    case None
    then have "desired_name held \<notin> ms_name ` set delivered" by (simp add: find_server_None)
    then show ?thesis using None by (auto simp: image_iff)
  next
    case (Some s)
    then have s: "s \<in> set delivered" "ms_name s = desired_name held"
        and u: "\<forall>t \<in> set delivered. ms_name t = desired_name held \<longrightarrow> t = s"
      using find_server_iff [OF assms] by (metis, metis, metis option.inject)
    then have "desired_name held \<in> ms_name ` set delivered" by (metis image_eqI)
    then have "(\<exists>t \<in> set delivered. ms_name t = desired_name held \<and> h = cloud_owned t)
      \<or> desired_name held \<notin> ms_name ` set delivered \<and> \<not> dv_from_cloud held \<and> h = held \<longleftrightarrow> h = cloud_owned s"
      using s u by metis
    then show ?thesis by (simp add: Some eq_commute)
  qed
  have "desired_after current delivered = List.map_filter ?keep current
      @ map cloud_owned (filter (\<lambda>s. \<not> list_ex (\<lambda>h. desired_name h = ms_name s) current) delivered)"
    by (simp add: desired_after_def reconcile_plan_def Let_def)
  then have "set (desired_after current delivered) = {h. \<exists>held \<in> set current. ?keep held = Some h}
      \<union> cloud_owned ` {s \<in> set delivered. \<forall>held \<in> set current. desired_name held \<noteq> ms_name s}"
    by (simp only: set_append set_map set_filter list_ex_iff) (simp add: set_eq_iff mem_map_filter)
  note after = this [unfolded keep]
  show ?thesis
  proof (intro equalityI subsetI)
    fix h assume "h \<in> set (desired_after current delivered)"
    then show "h \<in> cloud_owned ` set delivered \<union> {h \<in> set current. \<not> dv_from_cloud h \<and> desired_name h \<notin> ms_name ` set delivered}"
      unfolding after by auto
  next
    fix h
    assume "h \<in> cloud_owned ` set delivered \<union> {h \<in> set current. \<not> dv_from_cloud h \<and> desired_name h \<notin> ms_name ` set delivered}"
    then consider (cloud) s where "s \<in> set delivered" "h = cloud_owned s"
      | (kept) "h \<in> set current" "\<not> dv_from_cloud h" "desired_name h \<notin> ms_name ` set delivered" by auto
    then show "h \<in> set (desired_after current delivered)"
    proof cases
      case cloud
      then show ?thesis unfolding after by (cases "\<exists>held \<in> set current. desired_name held = ms_name s") (fastforce, auto)
    next
      case kept
      then show ?thesis unfolding after by auto
    qed
  qed
qed

lemma set_supersede:
  assumes "distinct (map desired_name hs)"
  shows "set (supersede s hs) = insert (cloud_owned s) {h \<in> set hs. desired_name h \<noteq> ms_name s}"
    and "distinct (map desired_name (supersede s hs))"
    and "desired_name ` set (supersede s hs) = insert (ms_name s) (desired_name ` set hs)"
  using assms by (induction hs) (auto simp: image_iff)

lemma startup_topology_set:
  assumes "distinct (map ms_name own)" and "distinct (map ms_name cloud)"
  shows "set (startup_topology own cloud) = cloud_owned ` set cloud \<union> own_server ` {s \<in> set own. ms_name s \<notin> ms_name ` set cloud}"
proof -
  have "distinct (map desired_name hs) \<Longrightarrow> distinct (map ms_name cloud) \<Longrightarrow>
      set (fold supersede cloud hs) = cloud_owned ` set cloud \<union> {h \<in> set hs. desired_name h \<notin> ms_name ` set cloud}" for hs
  proof (induction cloud arbitrary: hs)
    case (Cons s cloud)
    then show ?case using set_supersede [OF Cons.prems(1), of s] Cons.IH [of "supersede s hs"] by auto
  qed simp
  from this [of "map own_server own"] show ?thesis using assms by (auto simp: startup_topology_def comp_def)
qed

text \<open>The topology after a history of deliveries, starting from the file.\<close>

definition topology_after :: "mcp_server list \<Rightarrow> mcp_server list list \<Rightarrow> desired_server list" where
  "topology_after own deliveries = fold (\<lambda>d current. desired_after current d) deliveries (startup_topology own [])"

lemma topology_after_set:
  assumes "distinct (map ms_name own)" and "\<forall>d \<in> set deliveries. distinct (map ms_name d)"
  shows "set (topology_after own deliveries) =
     (if deliveries = [] then {} else cloud_owned ` set (last deliveries))
     \<union> own_server ` {s \<in> set own. ms_name s \<notin> ms_name ` \<Union> (set ` set deliveries)}"
  using assms(2)
proof (induction deliveries rule: rev_induct)
  case Nil
  show ?case using startup_topology_set [OF assms(1), of "[]"] by (simp add: topology_after_def)
next
  case (snoc d ds)
  have step: "topology_after own (ds @ [d]) = desired_after (topology_after own ds) d" by (simp add: topology_after_def)
  have "set (topology_after own ds) = (if ds = [] then {} else cloud_owned ` set (last ds))
     \<union> own_server ` {s \<in> set own. ms_name s \<notin> ms_name ` \<Union> (set ` set ds)}"
    using snoc by simp
  moreover have "distinct (map ms_name d)" using snoc.prems by simp
  ultimately show ?case unfolding step desired_after_set [OF \<open>distinct (map ms_name d)\<close>] by (auto simp: image_Un split: if_splits)
qed

lemma topology_vs_restart:
  assumes "distinct (map ms_name own)" and "\<forall>d \<in> set (deliveries @ [document]). distinct (map ms_name d)"
  shows "set (topology_after own (deliveries @ [document])) =
       cloud_owned ` set document \<union> own_server ` {s \<in> set own. ms_name s \<notin> ms_name ` \<Union> (set ` set (deliveries @ [document]))}
     \<and> (set (topology_after own (deliveries @ [document])) = set (startup_topology own document) \<longleftrightarrow>
          (\<forall>s \<in> set own. (\<exists>d \<in> set deliveries. ms_name s \<in> ms_name ` set d) \<longrightarrow> ms_name s \<in> ms_name ` set document))"
proof -
  have after: "set (topology_after own (deliveries @ [document])) =
       cloud_owned ` set document \<union> own_server ` {s \<in> set own. ms_name s \<notin> ms_name ` \<Union> (set ` set (deliveries @ [document]))}"
    using topology_after_set [OF assms] by simp
  have start: "set (startup_topology own document) =
       cloud_owned ` set document \<union> own_server ` {s \<in> set own. ms_name s \<notin> ms_name ` set document}"
    using startup_topology_set [OF assms(1)] assms(2) by simp
  have iff: "cloud_owned ` set document \<union> own_server ` A = cloud_owned ` set document \<union> own_server ` B \<longleftrightarrow> A = B" for A B
  proof
    have minus: "(cloud_owned ` set document \<union> own_server ` A) - range cloud_owned = own_server ` A" for A by auto
    assume "cloud_owned ` set document \<union> own_server ` A = cloud_owned ` set document \<union> own_server ` B"
    then have "own_server ` A = own_server ` B" using minus [of A] minus [of B] by metis
    then show "A = B" by (rule inj_onI [THEN inj_image_eq_iff, THEN iffD1, rotated]) simp
  qed simp
  have "set (topology_after own (deliveries @ [document])) = set (startup_topology own document) \<longleftrightarrow>
      {s \<in> set own. ms_name s \<notin> ms_name ` \<Union> (set ` set (deliveries @ [document]))} = {s \<in> set own. ms_name s \<notin> ms_name ` set document}"
    unfolding after start by (rule iff)
  also have "\<dots> \<longleftrightarrow> (\<forall>s \<in> set own. (\<exists>d \<in> set deliveries. ms_name s \<in> ms_name ` set d) \<longrightarrow> ms_name s \<in> ms_name ` set document)"
    by (simp add: set_eq_iff image_Un image_UN) blast
  finally show ?thesis using after by blast
qed

definition sample_server :: "string \<Rightarrow> string \<Rightarrow> mcp_server" where
  "sample_server name url =
     \<lparr> ms_name = name, ms_transport = McpHttp url, ms_enabled = True, ms_timeout_seconds = 30, ms_tools = None, ms_overrides = [] \<rparr>"


section \<open>Every desired server is connected or retried\<close>

lemma validate_servers_names:
  "validate_servers seen servers = None \<Longrightarrow>
     distinct (map ms_name servers) \<and> ms_name ` set servers \<inter> set seen = {} \<and> (\<forall>s \<in> set servers. is_capability_segment (ms_name s))"
proof (induction servers arbitrary: seen)
  case (Cons s rest)
  let ?errors = "[if \<not> is_capability_segment (ms_name s) then Some (McpBadName (ms_name s)) else None,
          if ms_name s \<in> set seen then Some (McpDuplicateName (ms_name s)) else None, check_transport s]"
  obtain more where more: "validate_servers seen (s # rest) =
      (case first_error (?errors @ more) of Some e \<Rightarrow> Some e | None \<Rightarrow> validate_servers (ms_name s # seen) rest)"
    by simp
  then have none: "first_error (?errors @ more) = None" "validate_servers (ms_name s # seen) rest = None"
    using Cons.prems by (cases "first_error (?errors @ more)"; simp)+
  have "is_capability_segment (ms_name s) \<and> ms_name s \<notin> set seen"
    using none(1) unfolding first_error_None by (simp split: if_splits)
  then show ?case using Cons.IH [OF none(2)] by auto
qed simp

lemma valid_document:
  assumes "mcp_validate document = None"
  shows "distinct (map ms_name (enabled_servers document))" and "s \<in> set document \<Longrightarrow> CHR ''.'' \<notin> set (ms_name s)"
  using validate_servers_names [of "[]" document] assms
  by (auto simp: mcp_validate_def enabled_servers_def distinct_map_filter is_capability_segment_def)

lemma map_filter_names:
  assumes "\<And>x y. f x = Some y \<Longrightarrow> g y = g' x" shows "distinct (map g' xs) \<Longrightarrow> distinct (map g (List.map_filter f xs))"
    and "g ` set (List.map_filter f xs) \<subseteq> g' ` set xs"
proof -
  show sub: "g ` set (List.map_filter f xs) \<subseteq> g' ` set xs" for xs using assms by (auto simp: mem_map_filter)
  show "distinct (map g' xs) \<Longrightarrow> distinct (map g (List.map_filter f xs))"
  proof (induction xs)
    case (Cons x xs)
    then show ?case using sub [of xs] assms [of x] by (auto simp: List.map_filter_simps split: option.splits)
  qed (simp add: List.map_filter_simps)
qed

lemma desired_after_distinct:
  assumes "distinct (map desired_name current)" and "distinct (map ms_name delivered)"
  shows "distinct (map desired_name (desired_after current delivered))"
proof -
  let ?keep = "\<lambda>h. case find_server (desired_name h) delivered of
      Some s \<Rightarrow> Some (cloud_owned s) | None \<Rightarrow> if dv_from_cloud h then None else Some h"
  let ?added = "filter (\<lambda>s. \<not> list_ex (\<lambda>h. desired_name h = ms_name s) current) delivered"
  have names: "?keep x = Some y \<Longrightarrow> desired_name y = desired_name x" for x y
  proof -
    assume y: "?keep x = Some y"
    show "desired_name y = desired_name x"
    proof (cases "find_server (desired_name x) delivered")
      case None
      then show ?thesis using y by (simp split: if_splits)
    next
      case (Some s)
      then have "ms_name s = desired_name x" using find_server_iff [OF assms(2)] by blast
      then show ?thesis using y Some by auto
    qed
  qed
  have eq: "desired_after current delivered = List.map_filter ?keep current @ map cloud_owned ?added"
    by (simp add: desired_after_def reconcile_plan_def Let_def)
  have "distinct (map desired_name (List.map_filter ?keep current))"
    by (rule map_filter_names(1) [where f = ?keep and g = desired_name and g' = desired_name, OF names assms(1)])
  moreover have "desired_name ` set (List.map_filter ?keep current) \<subseteq> desired_name ` set current"
    by (rule map_filter_names(2) [where f = ?keep and g = desired_name and g' = desired_name, OF names])
  moreover have "distinct (map ms_name ?added)" using assms(2) by (rule distinct_map_filter)
  moreover have "desired_name ` set current \<inter> ms_name ` set ?added = {}" by (auto simp: list_ex_iff)
  ultimately show ?thesis unfolding eq by (auto simp: comp_def)
qed

text \<open>A desired server is either new or changed, and then connected anew, or left alone.\<close>

lemma reconcile_covers:
  assumes plan: "reconcile_plan current delivered = (to_connect, to_remove, desired)"
    and d: "distinct (map desired_name current)" "distinct (map ms_name delivered)" and h: "h \<in> set desired"
  shows "desired_name h \<in> ms_name ` set to_connect
       \<or> desired_name h \<in> desired_name ` set current \<and> desired_name h \<notin> ms_name ` set to_remove"
proof -
  have uniq: "x \<in> set current \<Longrightarrow> y \<in> set current \<Longrightarrow> desired_name x = desired_name y \<Longrightarrow> x = y" for x y
    using d(1) by (auto simp: distinct_map inj_on_def)
  have desired: "set desired = set (desired_after current delivered)" using plan by (simp add: desired_after_def)
  have remove: "s \<in> set to_remove \<longleftrightarrow> (\<exists>x \<in> set current. s = dv_server x \<and>
      (case find_server (desired_name x) delivered of Some t \<Rightarrow> t \<noteq> dv_server x | None \<Rightarrow> dv_from_cloud x))" for s
  proof -
    let ?f = "\<lambda>x. case find_server (desired_name x) delivered of Some t \<Rightarrow> if t \<noteq> dv_server x then Some (dv_server x) else None
        | None \<Rightarrow> if dv_from_cloud x then Some (dv_server x) else None"
    have "to_remove = List.map_filter ?f current" using plan by (simp add: reconcile_plan_def Let_def)
    moreover have "?f x = Some s \<longleftrightarrow> s = dv_server x \<and>
      (case find_server (desired_name x) delivered of Some t \<Rightarrow> t \<noteq> dv_server x | None \<Rightarrow> dv_from_cloud x)" for x
      by (cases "find_server (desired_name x) delivered") auto
    ultimately show ?thesis by (simp only: mem_map_filter)
  qed
  have not_removed: "desired_name x \<notin> ms_name ` set to_remove" if x: "x \<in> set current"
      and held: "\<not> (case find_server (desired_name x) delivered of Some t \<Rightarrow> t \<noteq> dv_server x | None \<Rightarrow> dv_from_cloud x)" for x
  proof
    assume "desired_name x \<in> ms_name ` set to_remove"
    then obtain r where r: "r \<in> set to_remove" "ms_name r = desired_name x" by (metis imageE)
    then obtain y where y: "y \<in> set current" "r = dv_server y"
        "case find_server (desired_name y) delivered of Some t \<Rightarrow> t \<noteq> dv_server y | None \<Rightarrow> dv_from_cloud y"
      using remove by blast
    have "y = x" using uniq [OF y(1) x] r(2) y(2) by simp
    then show False using y(3) held by blast
  qed
  have connect: "x \<in> set current \<Longrightarrow> find_server (desired_name x) delivered = Some t \<Longrightarrow> t \<noteq> dv_server x \<Longrightarrow> t \<in> set to_connect" for x t
    using plan by (force simp: reconcile_plan_def Let_def mem_map_filter)
  have added: "s \<in> set delivered \<Longrightarrow> \<forall>x \<in> set current. desired_name x \<noteq> ms_name s \<Longrightarrow> s \<in> set to_connect" for s
    using plan by (auto simp: reconcile_plan_def Let_def list_ex_iff)
  consider (cloud) s where "s \<in> set delivered" "h = cloud_owned s"
    | (kept) "h \<in> set current" "\<not> dv_from_cloud h" "desired_name h \<notin> ms_name ` set delivered"
    using h unfolding desired desired_after_set [OF d(2)] by auto
  then show ?thesis
  proof cases
    case cloud
    show ?thesis
    proof (cases "\<exists>x \<in> set current. desired_name x = ms_name s")
      case True
      then obtain x where x: "x \<in> set current" "desired_name x = ms_name s" by blast
      then have f: "find_server (desired_name x) delivered = Some s" using cloud(1) by (simp add: find_server_iff [OF d(2)])
      show ?thesis
      proof (cases "s = dv_server x")
        case True
        then have "\<not> (case find_server (desired_name x) delivered of Some t \<Rightarrow> t \<noteq> dv_server x | None \<Rightarrow> dv_from_cloud x)"
          unfolding f by simp
        from not_removed [OF x(1) this] have "desired_name h \<notin> ms_name ` set to_remove" by (simp only: x(2) cloud(2) cloud_owned_simps(1) simp_thms)
        moreover have "desired_name h \<in> desired_name ` set current" using x cloud(2) by (metis cloud_owned_simps(1) image_eqI)
        ultimately show ?thesis by blast
      next
        case False
        then show ?thesis using connect [OF x(1) f] cloud(2) by auto
      qed
    next
      case False
      then show ?thesis using added [OF cloud(1)] cloud(2) by auto
    qed
  next
    case kept
    then have "find_server (desired_name h) delivered = None" by (simp add: find_server_None)
    then have "desired_name h \<notin> ms_name ` set to_remove" using not_removed [OF kept(1)] kept(2) by simp
    then show ?thesis using kept by auto
  qed
qed

definition slot_state :: "mcp_wiring \<Rightarrow> string \<Rightarrow> mcp_connection option \<times> retry_state option" where
  "slot_state w name = (mr_slots (mw_runtime w) name, mw_retries w name)"

definition attended :: "mcp_wiring \<Rightarrow> string \<Rightarrow> bool" where
  "attended w name \<longleftrightarrow> slot_state w name \<noteq> (None, None)"

lemma register_slots [simp]: "mr_slots (fold runtime_register ds rt) = mr_slots rt"
  by (induction ds arbitrary: rt) (simp_all add: runtime_register_def)

lemma connect_slots: "mr_slots (snd (runtime_connect s answer rt)) name =
    (if name = ms_name s \<and> is_ok answer then mr_slots (snd (runtime_connect s answer rt)) name else mr_slots rt name)"
  by (auto simp: runtime_connect_def Let_def is_ok_def split: sum.splits)

lemma connect_live: "is_ok answer \<Longrightarrow> mr_slots (snd (runtime_connect s answer rt)) (ms_name s) \<noteq> None"
  by (auto simp: runtime_connect_def Let_def is_ok_def split: sum.splits)

lemma connect_server_slots:
  "slot_state (fst (snd (connect_server discover now s st))) name = slot_state (fst (snd st)) name \<or> name = ms_name s"
  "attended (fst (snd (connect_server discover now s st))) (ms_name s)"
proof -
  obtain report w reg where st: "st = (report, w, reg)" by (cases st)
  note slots = connect_slots [of s "discover s" "mw_runtime w"] connect_live [of "discover s" s "mw_runtime w"]
  have ok: "is_ok (fst (runtime_connect s (discover s) (mw_runtime w))) = is_ok (discover s)"
    by (simp add: runtime_connect_def Let_def split: sum.split)
  obtain r rt where r: "runtime_connect s (discover s) (mw_runtime w) = (r, rt)" by fastforce
  show "slot_state (fst (snd (connect_server discover now s st))) name = slot_state (fst (snd st)) name \<or> name = ms_name s"
    using slots(1) [of name] by (cases r) (auto simp: st r connect_server_def slot_state_def clear_retry_def bump_retry_def Let_def)
  show "attended (fst (snd (connect_server discover now s st))) (ms_name s)"
    using slots(2) ok by (cases r) (auto simp: st r connect_server_def attended_def slot_state_def clear_retry_def bump_retry_def Let_def)
qed

lemma fold_connect_attended:
  "attended (fst (snd st)) name \<or> name \<in> ms_name ` set xs \<Longrightarrow>
   attended (fst (snd (fold (connect_server discover now) xs st))) name"
proof (induction xs arbitrary: st)
  case (Cons s xs)
  have "attended (fst (snd (connect_server discover now s st))) name \<or> name \<in> ms_name ` set xs"
    using Cons.prems connect_server_slots(1) [of discover now s st name] connect_server_slots(2) [of discover now s st]
    by (auto simp: attended_def)
  then show ?case using Cons.IH by simp
qed auto

lemma drop_server_slots: "name \<noteq> ms_name s \<Longrightarrow> slot_state (fst (drop_server s st)) name = slot_state (fst st) name"
  by (cases st) (simp add: drop_server_def slot_state_def clear_retry_def runtime_disconnect_def runtime_unregister_def Let_def)

lemma fold_drop_slots: "name \<notin> ms_name ` set xs \<Longrightarrow> slot_state (fst (fold drop_server xs st)) name = slot_state (fst st) name"
  by (induction xs arbitrary: st) (simp_all add: drop_server_slots)

lemma visit_attended:
  "attended (fst (visit_server answer now s st)) (ms_name s)"
  "attended (fst st) name \<Longrightarrow> attended (fst (visit_server answer now s st)) name"
proof -
  obtain w reg where st: "st = (w, reg)" by (cases st)
  obtain r rt where r: "runtime_connect s (answer s) (mw_runtime w) = (r, rt)" by fastforce
  obtain q qt where q: "runtime_refresh s (answer s) (mw_runtime w) = (q, qt)" by fastforce
  have live: "is_ok (answer s) \<Longrightarrow> mr_slots rt (ms_name s) \<noteq> None" "is_ok r = is_ok (answer s)"
      "n \<noteq> ms_name s \<Longrightarrow> mr_slots rt n = mr_slots (mw_runtime w) n" for n
    using connect_live [of "answer s" s "mw_runtime w"] connect_slots [of s "answer s" "mw_runtime w" n] r
    by (auto simp: runtime_connect_def Let_def split: sum.splits)
  have probe: "mr_slots qt n = None \<longleftrightarrow> mr_slots (mw_runtime w) n = None" for n
    using q by (auto simp: runtime_refresh_def Let_def split: option.splits sum.splits if_splits)
  note defs = visit_server_def st r q attended_def slot_state_def has_connection_def clear_retry_def bump_retry_def
    runtime_disconnect_def Let_def
  show "attended (fst (visit_server answer now s st)) (ms_name s)"
    using live(1,2) probe [of "ms_name s"] by (cases r; cases q) (auto simp: defs split: option.splits if_splits)
  show "attended (fst st) name \<Longrightarrow> attended (fst (visit_server answer now s st)) name"
    using live probe [of name] by (cases r; cases q) (auto simp: defs split: option.splits if_splits)
qed

text \<open>
  What happens to a running wiring: documents are delivered, and passes of the lifecycle run between
  them. Each carries what the servers answered and the order in which its concurrent visits ended.
\<close>

datatype mcp_op =
    Delivered "mcp_server \<Rightarrow> mcp_error + mcp_tool list" "mcp_server list \<Rightarrow> mcp_server list" instant "mcp_server list"
  | Passed "mcp_server \<Rightarrow> mcp_error + mcp_tool list" "mcp_server list \<Rightarrow> mcp_server list" instant

fun mcp_step :: "mcp_op \<Rightarrow> mcp_wiring \<times> capability_registry \<Rightarrow> mcp_wiring \<times> capability_registry" where
  "mcp_step (Delivered discover arrive now document) st =
     (if mcp_validate document = None then snd (apply_servers discover arrive now document st) else st)"
| "mcp_step (Passed answer arrive now) st = lifecycle_pass answer arrive now st"

fun op_arrive :: "mcp_op \<Rightarrow> mcp_server list \<Rightarrow> mcp_server list" where
  "op_arrive (Delivered _ arrive _ _) = arrive"
| "op_arrive (Passed _ arrive _) = arrive"

definition documents :: "mcp_op list \<Rightarrow> mcp_server list list" where
  "documents ops = List.map_filter (\<lambda>op. case op of
     Delivered _ _ _ document \<Rightarrow> if mcp_validate document = None then Some (enabled_servers document) else None | _ \<Rightarrow> None) ops"

definition wiring_new :: "desired_server list \<Rightarrow> mcp_wiring" where
  "wiring_new servers = \<lparr> mw_runtime = runtime_new, mw_servers = servers, mw_retries = (\<lambda>_. None) \<rparr>"

definition wiring_ok :: "mcp_wiring \<Rightarrow> bool" where
  "wiring_ok w \<longleftrightarrow> distinct (map desired_name (mw_servers w)) \<and> (\<forall>h \<in> set (mw_servers w). attended w (desired_name h))"

lemma connect_server_servers [simp]: "mw_servers (fst (snd (connect_server discover now s st))) = mw_servers (fst (snd st))"
  by (cases st) (auto simp: connect_server_def clear_retry_def bump_retry_def Let_def split: prod.splits sum.splits)

lemma fold_connect_servers [simp]:
  "mw_servers (fst (snd (fold (connect_server discover now) xs st))) = mw_servers (fst (snd st))"
  by (induction xs arbitrary: st) simp_all

lemma visit_servers [simp]: "mw_servers (fst (visit_server answer now s st)) = mw_servers (fst st)"
  by (cases st) (auto simp: visit_server_def clear_retry_def bump_retry_def Let_def split: prod.splits sum.splits if_splits)

lemma fold_visit_servers [simp]: "mw_servers (fst (fold (visit_server answer now) xs st)) = mw_servers (fst st)"
  by (induction xs arbitrary: st) simp_all

lemma fold_visit_attended:
  "attended (fst st) name \<or> name \<in> ms_name ` set xs \<Longrightarrow> attended (fst (fold (visit_server answer now) xs st)) name"
proof (induction xs arbitrary: st)
  case (Cons s xs)
  have "attended (fst (visit_server answer now s st)) name \<or> name \<in> ms_name ` set xs"
    using Cons.prems visit_attended(1) [of answer now s st] visit_attended(2) [of st name answer now s] by auto
  then show ?case using Cons.IH by simp
qed auto

lemma apply_servers_keeps:
  assumes ok: "wiring_ok w" and valid: "mcp_validate document = None" and fair: "\<And>xs. set (arrive xs) = set xs"
    and run: "apply_servers discover arrive now document (w, reg) = (report, w', reg')"
  shows "mw_servers w' = desired_after (mw_servers w) (enabled_servers document)" and "wiring_ok w'"
proof -
  obtain to_connect to_remove desired where plan:
      "reconcile_plan (mw_servers w) (enabled_servers document) = (to_connect, to_remove, desired)" by (metis prod_cases3)
  obtain w1 reg1 where drop: "fold drop_server to_remove (w, reg) = (w1, reg1)" by fastforce
  let ?st = "(\<lparr> rc_connected = [], rc_removed = map ms_name to_remove, rc_failed = [] \<rparr>, w1, reg1)"
  obtain report2 w2 reg2 where conn: "fold (connect_server discover now) (arrive to_connect) ?st = (report2, w2, reg2)"
    by (metis prod_cases3)
  have w': "w' = w2\<lparr> mw_servers := desired \<rparr>" using run by (simp add: apply_servers_def plan drop conn)
  show servers: "mw_servers w' = desired_after (mw_servers w) (enabled_servers document)"
    using plan by (simp add: w' desired_after_def)
  have d: "distinct (map desired_name (mw_servers w))" "distinct (map ms_name (enabled_servers document))"
    using ok valid_document(1) [OF valid] by (simp_all add: wiring_ok_def)
  have "attended w2 (desired_name h)" if h: "h \<in> set desired" for h
  proof -
    have "attended w1 (desired_name h) \<or> desired_name h \<in> ms_name ` set to_connect"
    proof (cases "desired_name h \<in> ms_name ` set to_connect")
      case False
      then have n: "desired_name h \<in> desired_name ` set (mw_servers w)" "desired_name h \<notin> ms_name ` set to_remove"
        using reconcile_covers [OF plan d h] by auto
      then have "attended w (desired_name h)" using ok by (auto simp: wiring_ok_def)
      then show ?thesis using fold_drop_slots [OF n(2), of "(w, reg)"] drop by (simp add: attended_def)
    qed simp
    then show ?thesis
      using fold_connect_attended [of ?st "desired_name h" "arrive to_connect" discover now] conn fair by simp
  qed
  moreover have "attended w' = attended w2" by (simp add: w' attended_def slot_state_def fun_eq_iff)
  ultimately show "wiring_ok w'"
    using desired_after_distinct [OF d] servers by (simp add: wiring_ok_def w')
qed

lemma mcp_step_keeps:
  assumes "wiring_ok (fst st)" and "\<And>xs. set (op_arrive op xs) = set xs"
  shows "wiring_ok (fst (mcp_step op st))"
    and "mw_servers (fst (mcp_step op st)) = fold (\<lambda>d current. desired_after current d) (documents [op]) (mw_servers (fst st))"
proof -
  have "wiring_ok (fst (mcp_step op st)) \<and> mw_servers (fst (mcp_step op st)) =
      fold (\<lambda>d current. desired_after current d) (documents [op]) (mw_servers (fst st))"
  proof (cases op)
    case (Delivered discover arrive now document)
    obtain w reg where st: "st = (w, reg)" by (cases st)
    obtain report w' reg' where run: "apply_servers discover arrive now document (w, reg) = (report, w', reg')" by (metis prod_cases3)
    show ?thesis
    proof (cases "mcp_validate document = None")
      case True
      have "wiring_ok w" "\<And>xs. set (arrive xs) = set xs" using assms by (simp_all add: st Delivered)
      then show ?thesis
        using apply_servers_keeps [OF _ True _ run] True by (simp add: Delivered st run documents_def List.map_filter_simps)
    next
      case False
      then show ?thesis using assms(1) by (auto simp: Delivered documents_def List.map_filter_simps)
    qed
  next
    case (Passed answer arrive now)
    obtain w reg where st: "st = (w, reg)" by (cases st)
    have "attended (fst (fold (visit_server answer now) (arrive (map dv_server (mw_servers w))) (w, reg))) (desired_name h)"
      if "h \<in> set (mw_servers w)" for h
      using that assms by (intro fold_visit_attended) (simp add: wiring_ok_def st)
    then show ?thesis using assms(1)
      by (simp add: Passed st lifecycle_pass_def wiring_ok_def documents_def List.map_filter_simps)
  qed
  then show "wiring_ok (fst (mcp_step op st))"
    and "mw_servers (fst (mcp_step op st)) = fold (\<lambda>d current. desired_after current d) (documents [op]) (mw_servers (fst st))"
    by blast+
qed

lemma documents_Cons: "documents (op # ops) = documents [op] @ documents ops"
  by (simp add: documents_def List.map_filter_simps split: option.split)

lemma mcp_run_keeps:
  assumes "wiring_ok (fst st)" and "\<forall>op \<in> set ops. \<forall>xs. set (op_arrive op xs) = set xs"
  shows "wiring_ok (fst (fold mcp_step ops st))
    \<and> mw_servers (fst (fold mcp_step ops st)) = fold (\<lambda>d current. desired_after current d) (documents ops) (mw_servers (fst st))"
  using assms
proof (induction ops arbitrary: st)
  case Nil
  then show ?case by (simp add: documents_def List.map_filter_simps)
next
  case (Cons op ops)
  have k: "wiring_ok (fst (mcp_step op st))"
      "mw_servers (fst (mcp_step op st)) = fold (\<lambda>d current. desired_after current d) (documents [op]) (mw_servers (fst st))"
    using mcp_step_keeps [of st op] Cons.prems by simp_all
  then show ?case using Cons.IH [OF k(1)] Cons.prems(2) documents_Cons [of op ops] by simp
qed

lemma startup_ok:
  assumes "distinct (map ms_name own)"
  shows "wiring_ok (fst (connect_startup discover now (wiring_new (startup_topology own []), reg)))
    \<and> mw_servers (fst (connect_startup discover now (wiring_new (startup_topology own []), reg))) = startup_topology own []"
proof -
  have servers: "mw_servers (fst (start_server discover now s st)) = mw_servers (fst st)" for s st
    by (cases st) (auto simp: start_server_def bump_retry_def Let_def split: prod.splits sum.splits)
  have one: "attended (fst (start_server discover now s st)) (ms_name s)"
      "attended (fst st) name \<Longrightarrow> attended (fst (start_server discover now s st)) name" for s st name
  proof -
    obtain w reg where st: "st = (w, reg)" by (cases st)
    obtain r rt where r: "runtime_connect s (discover s) (mw_runtime w) = (r, rt)" by fastforce
    have live: "is_ok r \<Longrightarrow> mr_slots rt (ms_name s) \<noteq> None" "name \<noteq> ms_name s \<Longrightarrow> mr_slots rt name = mr_slots (mw_runtime w) name"
      using r by (auto simp: runtime_connect_def Let_def split: sum.splits)
    show "attended (fst (start_server discover now s st)) (ms_name s)"
      using live(1) by (cases r) (auto simp: st r start_server_def attended_def slot_state_def bump_retry_def Let_def)
    show "attended (fst st) name \<Longrightarrow> attended (fst (start_server discover now s st)) name"
      using live by (cases r; cases "name = ms_name s") (auto simp: st r start_server_def attended_def slot_state_def bump_retry_def Let_def)
  qed
  have run: "mw_servers (fst (fold (start_server discover now) xs st)) = mw_servers (fst st)
      \<and> (attended (fst st) name \<or> name \<in> ms_name ` set xs \<longrightarrow> attended (fst (fold (start_server discover now) xs st)) name)" for xs st name
  proof (induction xs arbitrary: st)
    case (Cons s xs)
    show ?case using Cons.IH [of "start_server discover now s st"] one(1) [of s st] one(2) [of st name s] by (auto simp: servers)
  qed auto
  have eq: "startup_topology own [] = map own_server own" by (simp add: startup_topology_def)
  show ?thesis
    using run [of "map dv_server (startup_topology own [])" "(wiring_new (startup_topology own []), reg)"] assms
    by (auto simp: connect_startup_def wiring_ok_def wiring_new_def eq comp_def)
qed

lemma documents_valid: "\<forall>d \<in> set (documents ops). distinct (map ms_name d)"
proof
  fix d assume "d \<in> set (documents ops)"
  then obtain op where op: "(case op of Delivered _ _ _ document \<Rightarrow>
      if mcp_validate document = None then Some (enabled_servers document) else None | _ \<Rightarrow> None) = Some d"
    by (auto simp: documents_def mem_map_filter)
  then show "distinct (map ms_name d)" using valid_document(1) by (cases op) (auto split: if_splits)
qed

text \<open>
  Deliveries, passes and restarts of the tool servers. However documents and passes of the
  lifecycle interleave after a start, and whatever the servers answer, every desired server is
  connected or scheduled for a retry. The desired servers are those the last valid document enables,
  owned by the cloud, and those of the file that no document ever named. The topology a restart would
  build from the file and that document is the same exactly when every file server some document named
  is still named by the last: a file server that was superseded and then left out is gone until a
  restart brings it back.
\<close>

theorem topology_follows_deliveries:
  assumes "distinct (map ms_name own)" and "\<forall>op \<in> set ops. \<forall>xs. set (op_arrive op xs) = set xs"
    and "documents ops = deliveries @ [document]"
    and w_def: "w = fst (fold mcp_step ops (connect_startup discover now (wiring_new (startup_topology own []), reg)))"
  shows "list_all (\<lambda>(_, state, _). state = ''connected'' \<or> state = ''retrying'') (server_states w)
     \<and> set (mw_servers w) = cloud_owned ` set document
         \<union> own_server ` {s \<in> set own. ms_name s \<notin> ms_name ` \<Union> (set ` set (deliveries @ [document]))}
     \<and> (set (mw_servers w) = set (startup_topology own document) \<longleftrightarrow>
          (\<forall>s \<in> set own. (\<exists>d \<in> set deliveries. ms_name s \<in> ms_name ` set d) \<longrightarrow> ms_name s \<in> ms_name ` set document))"
proof -
  let ?st = "connect_startup discover now (wiring_new (startup_topology own []), reg)"
  have start: "wiring_ok (fst ?st)" "mw_servers (fst ?st) = startup_topology own []" using startup_ok [OF assms(1)] by blast+
  have "wiring_ok w" and servers: "mw_servers w = topology_after own (deliveries @ [document])"
    using mcp_run_keeps [OF start(1) assms(2)] assms(3) start(2) by (simp_all add: w_def topology_after_def)
  then have "list_all (\<lambda>(_, state, _). state = ''connected'' \<or> state = ''retrying'') (server_states w)"
    by (auto simp: list_all_iff server_states_def server_state_def wiring_ok_def attended_def slot_state_def has_connection_def)
  moreover have "\<forall>d \<in> set (deliveries @ [document]). distinct (map ms_name d)"
    using documents_valid [of ops] unfolding assms(3) .
  from topology_vs_restart [OF assms(1) this]
  have "set (mw_servers w) = cloud_owned ` set document
         \<union> own_server ` {s \<in> set own. ms_name s \<notin> ms_name ` \<Union> (set ` set (deliveries @ [document]))}"
      and "set (mw_servers w) = set (startup_topology own document) \<longleftrightarrow>
          (\<forall>s \<in> set own. (\<exists>d \<in> set deliveries. ms_name s \<in> ms_name ` set d) \<longrightarrow> ms_name s \<in> ms_name ` set document)"
    unfolding servers by (rule conjunct1, rule conjunct2)
  ultimately show ?thesis by (intro conjI)
qed

definition sample_ops :: "mcp_server list list \<Rightarrow> mcp_op list" where
  "sample_ops docs = map (\<lambda>document. Delivered (\<lambda>s. Inl (NotConnected (ms_name s))) id 0 document) docs
     @ [Passed (\<lambda>s. Inr []) id (seconds 60)]"

lemma sample_valid: "mcp_validate [sample_server ''metrics'' ''http://cloud''] = None" "mcp_validate [] = None"
  by (simp_all add: mcp_validate_def sample_server_def first_error_def check_transport_def is_capability_segment_def
      capability_id_new_def is_dotted_path_def is_segment_def char_class_defs starts_with_def)

theorem topology_follows_deliveries_witness:
  "set (mw_servers (fst (fold mcp_step (sample_ops [[sample_server ''metrics'' ''http://cloud''], []])
      (connect_startup (\<lambda>_. Inr []) 0 (wiring_new (startup_topology [sample_server ''metrics'' ''http://own''] []), registry_new))))) = {}
   \<and> set (startup_topology [sample_server ''metrics'' ''http://own''] []) = {own_server (sample_server ''metrics'' ''http://own'')}"
proof -
  let ?own = "[sample_server ''metrics'' ''http://own'']" and ?cloud = "[sample_server ''metrics'' ''http://cloud'']"
  have fair: "\<forall>op \<in> set (sample_ops [?cloud, []]). \<forall>xs. set (op_arrive op xs) = set xs" by (simp add: sample_ops_def)
  have docs: "documents (sample_ops [?cloud, []]) = [?cloud] @ [[]]"
    by (simp add: sample_ops_def documents_def List.map_filter_simps sample_valid) (simp add: enabled_servers_def sample_server_def)
  have "distinct (map ms_name ?own)" by simp
  from topology_follows_deliveries [OF this fair docs refl, of "\<lambda>_. Inr []" 0 registry_new]
  show ?thesis by (simp add: sample_server_def startup_topology_def)
qed

text \<open>A server neither changed nor removed keeps its connection and its retry state through a delivery.\<close>

theorem unchanged_server_untouched:
  assumes "reconcile_plan (mw_servers w) (enabled_servers document) = (to_connect, to_remove, desired)"
    and "name \<notin> ms_name ` set to_connect" and "name \<notin> ms_name ` set to_remove" and "\<And>xs. set (arrive xs) = set xs"
  shows "slot_state (fst (snd (apply_servers discover arrive now document (w, reg)))) name = slot_state w name"
proof -
  have conn: "name \<notin> ms_name ` set xs \<Longrightarrow>
      slot_state (fst (snd (fold (connect_server discover now) xs st))) name = slot_state (fst (snd st)) name" for xs st
  proof (induction xs arbitrary: st)
    case (Cons s xs)
    have "slot_state (fst (snd (connect_server discover now s st))) name = slot_state (fst (snd st)) name"
      using connect_server_slots(1) [of discover now s st name] Cons.prems by auto
    then show ?case using Cons by simp
  qed simp
  have "slot_state (w'\<lparr> mw_servers := desired \<rparr>) name = slot_state w' name" for w' by (simp add: slot_state_def)
  then show ?thesis
    using conn [of "arrive to_connect"] fold_drop_slots [OF assms(3), of "(w, reg)"] assms(2,4)
    by (simp add: apply_servers_def assms(1) split: prod.split)
       (metis fst_conv snd_conv)
qed

text \<open>A delivered document cannot switch a file server off: its disabled entry is dropped before ownership is decided.\<close>

theorem disabled_delivery_ignored:
  "merged_over [sample_server ''metrics'' ''http://own''] [(sample_server ''metrics'' ''http://own'')\<lparr> ms_enabled := False \<rparr>]
     = [(sample_server ''metrics'' ''http://own'')\<lparr> ms_enabled := False \<rparr>]
   \<and> restart_topology [sample_server ''metrics'' ''http://own''] (Some [(sample_server ''metrics'' ''http://own'')\<lparr> ms_enabled := False \<rparr>])
     = [own_server (sample_server ''metrics'' ''http://own'')]"
  by (simp add: merged_over_def find_server_def sample_server_def restart_topology_def enabled_servers_def startup_topology_def)

text \<open>A retry that has come due during a pass waits for a whole probe interval.\<close>

theorem elapsed_retry_waits:
  assumes "mw_retries w n = Some r" and "rt_not_before r \<le> now"
  shows "pass_pause now [n] w = PROBE_INTERVAL"
  using assms by (simp add: pass_pause_def map_filter_def)

lemma backoff_delay_bounds: "seconds 1 \<le> backoff_delay n" "backoff_delay n \<le> seconds 64"
proof -
  have "(2::int) ^ unat (min n 6) \<le> 2 ^ 6" by (intro power_increasing) (simp_all add: min_def word_le_nat_alt)
  then show "backoff_delay n \<le> seconds 64" by (simp add: backoff_delay_def)
qed (simp add: backoff_delay_def)

text \<open>A server whose delay has not passed is left alone, so a flapping server is tried at most once per delay.\<close>

theorem backoff_respected:
  assumes "mr_slots (mw_runtime w) (ms_name s) = None" and "mw_retries w (ms_name s) = Some r" and "now < rt_not_before r"
  shows "visit_server answer now s (w, reg) = (w, reg)"
  using assms by (simp add: visit_server_def has_connection_def)

end
