(* ===== verification/Cloud_Session.thy ===== *)
theory Cloud_Session
  imports Brain Mcp_Wiring
begin

text \<open>
  The daemon's side of the cloud (\<open>argus-daemon\<close>, \<open>cloud.rs\<close>): the secret and settings stores,
  enrollment and forgetting, the split and application of delivered configurations of every kind, and
  the state of the connection that an operator is shown.

  Each deed takes what the host answered: whether a write succeeded, the clock, the frames of the
  transport. A read of a store that fails is told apart from one that finds nothing where the code
  does so.
\<close>

section \<open>State\<close>

datatype secret_file = SessionCredential | ProviderCredential | IdentityKey

record cloud_connection =
  cn_negotiated_protocol_version :: string
  cn_heartbeat_interval_seconds :: u64
  cn_last_exchange_at :: "instant option"
  cn_last_error :: "string option"
  cn_backoff_attempt :: u32

definition connection_connected :: "string \<Rightarrow> cloud_connection" where
  "connection_connected version =
     \<lparr> cn_negotiated_protocol_version = version, cn_heartbeat_interval_seconds = 20, cn_last_exchange_at = None,
       cn_last_error = None, cn_backoff_attempt = 0 \<rparr>"

definition CONNECTION_PROTOCOL_LABEL :: string where
  "CONNECTION_PROTOCOL_LABEL = ''1.0.0''"

datatype apply_status = ApplyNone | ApplyApplied | ApplyRejected | ApplyFailed

record managed_configuration =
  mg_configuration_id :: uuid
  mg_kind :: string
  mg_current_version_id :: "uuid option"
  mg_current_version_number :: int
  mg_content_hash :: "string option"
  mg_applied_at :: "instant option"
  mg_apply_status :: apply_status
  mg_apply_reason :: "string option"

record applied_configuration =
  ap_configuration_id :: uuid
  ap_applied_version_id :: "uuid option"
  ap_applied_version_number :: int
  ap_content_hash :: "string option"
  ap_updated_at :: instant

record mcp_delivery_record =
  md_configuration_id :: uuid
  md_version_id :: uuid
  md_version_number :: int
  md_delivered_at :: instant
  md_content :: json

record cloud_daemon =
  cx_config :: cloud_config
  cx_enrollment :: "cloud_enrollment option"
  cx_connection :: "cloud_connection option"
  cx_secrets :: "secret_file \<Rightarrow> string option"
  cx_settings :: "(string \<times> json) list option"
  cx_tracker :: connectivity_tracker
  cx_queue :: report_queue
  cx_ledger :: daemon_ledger
  cx_control :: brain_control
  cx_runbooks :: runbook_manager
  cx_mcp :: "(mcp_wiring \<times> capability_registry) option"
  cx_mcp_delivery :: "mcp_delivery_record option"
  cx_managed :: "uuid \<Rightarrow> managed_configuration option"
  cx_applied :: "applied_configuration list"
  cx_rebuilder :: bool
  cx_rebuilds :: nat

section \<open>Stores\<close>

text \<open>A write fails on an empty secret, or with the error of the file system; reading trims line ends.\<close>

definition is_line_end :: "char \<Rightarrow> bool" where
  "is_line_end c \<longleftrightarrow> c = CHR 0x0A \<or> c = CHR 0x0D"

definition read_secret :: "secret_file \<Rightarrow> cloud_daemon \<Rightarrow> string option" where
  "read_secret f d =
     (case cx_secrets d f of
        None \<Rightarrow> None
      | Some v \<Rightarrow> let trimmed = rev (dropWhile is_line_end (rev v)) in if trimmed = [] then None else Some trimmed)"

definition write_secret :: "string option \<Rightarrow> secret_file \<Rightarrow> string \<Rightarrow> cloud_daemon \<Rightarrow> string option \<times> cloud_daemon" where
  "write_secret failure f secret d =
     (if secret = [] then (Some ''secret store operation failed: refusing to store an empty secret'', d)
      else case failure of
             Some e \<Rightarrow> (Some e, d)
           | None \<Rightarrow> (None, d\<lparr> cx_secrets := (cx_secrets d)(f \<mapsto> secret) \<rparr>))"

definition remove_secret :: "string option \<Rightarrow> secret_file \<Rightarrow> cloud_daemon \<Rightarrow> string option \<times> cloud_daemon" where
  "remove_secret failure f d =
     (case failure of Some e \<Rightarrow> (Some e, d) | None \<Rightarrow> (None, d\<lparr> cx_secrets := (cx_secrets d)(f := None) \<rparr>))"

definition write_settings :: "string option \<Rightarrow> (string \<times> json) list \<Rightarrow> cloud_daemon \<Rightarrow> string option \<times> cloud_daemon" where
  "write_settings failure settings d =
     (case failure of Some e \<Rightarrow> (Some e, d) | None \<Rightarrow> (None, d\<lparr> cx_settings := Some settings \<rparr>))"

definition clear_settings :: "string option \<Rightarrow> cloud_daemon \<Rightarrow> string option \<times> cloud_daemon" where
  "clear_settings failure d = (case failure of Some e \<Rightarrow> (Some e, d) | None \<Rightarrow> (None, d\<lparr> cx_settings := None \<rparr>))"

text \<open>
  The tables of cloud-derived state, in the order they are emptied; those of the command channel and
  of the report buffer hold nothing modelled here. A failure stops after the tables emptied so far.
\<close>

definition CLOUD_TABLES :: "(cloud_daemon \<Rightarrow> cloud_daemon) list" where
  "CLOUD_TABLES =
     [\<lambda>d. d\<lparr> cx_enrollment := None \<rparr>, \<lambda>d. d\<lparr> cx_connection := None \<rparr>, id, id, id, id,
      \<lambda>d. d\<lparr> cx_managed := (\<lambda>_. None) \<rparr>, \<lambda>d. d\<lparr> cx_applied := [] \<rparr>, id, \<lambda>d. d\<lparr> cx_mcp_delivery := None \<rparr>]"

definition clear_cloud_state :: "(nat \<times> string) option \<Rightarrow> cloud_daemon \<Rightarrow> string option \<times> cloud_daemon" where
  "clear_cloud_state failure d =
     (case failure of
        Some (n, e) \<Rightarrow> (Some e, fold (\<lambda>f. f) (take n CLOUD_TABLES) d)
      | None \<Rightarrow> (None, fold (\<lambda>f. f) CLOUD_TABLES d))"

definition upsert_applied :: "applied_configuration \<Rightarrow> applied_configuration list \<Rightarrow> applied_configuration list" where
  "upsert_applied a as =
     (if list_ex (\<lambda>b. ap_configuration_id b = ap_configuration_id a) as
      then map (\<lambda>b. if ap_configuration_id b = ap_configuration_id a then a else b) as else as @ [a])"

section \<open>Enrollment\<close>

fun try_each :: "(cloud_daemon \<Rightarrow> string option \<times> cloud_daemon) list \<Rightarrow> cloud_daemon \<Rightarrow> string option \<times> cloud_daemon" where
  "try_each [] d = (None, d)"
| "try_each (f # fs) d = (case f d of (Some e, d1) \<Rightarrow> (Some e, d1) | (None, d1) \<Rightarrow> try_each fs d1)"

definition forget_enrollment ::
  "(nat \<Rightarrow> string option) \<Rightarrow> (nat \<times> string) option \<Rightarrow> cloud_daemon \<Rightarrow> string option \<times> cloud_daemon" where
  "forget_enrollment failures clearing =
     try_each [remove_secret (failures 0) SessionCredential, remove_secret (failures 1) IdentityKey,
               remove_secret (failures 2) ProviderCredential, clear_settings (failures 3), clear_cloud_state clearing]"

datatype enrollment_error =
    AlreadyEnrolled | NotConfigured | EnrollmentDenied pairing_denial_code string | CloudRequestFailed cloud_error
  | PersistenceFailed string | SecretFailed string | IdentityFailed string

record enrollment_report =
  er_installation_id :: uuid
  er_tenant_id :: uuid
  er_instance_name :: string
  er_protocol_version :: string

record enrollment_io =
  eo_enrollment_read :: "string option"
  eo_seed_stored :: "string option"
  eo_seed_removed :: "string option"
  eo_enrollment_saved :: "string option"
  eo_credential_stored :: "string option"

definition enroll_installation ::
  "wire_codec \<Rightarrow> key_scheme \<Rightarrow> enrollment_io \<Rightarrow> installation_key \<Rightarrow> string \<Rightarrow> string \<Rightarrow> string \<Rightarrow> instant \<Rightarrow>
   transport \<Rightarrow> cloud_daemon \<Rightarrow> (enrollment_error + enrollment_report) \<times> transport \<times> cloud_daemon" where
  "enroll_installation wc ks eo k c hostname agent_version now t d =
     (if \<not> cloud_is_active (cx_config d) then (Inl NotConfigured, t, d)
      else case eo_enrollment_read eo of
        Some e \<Rightarrow> (Inl (PersistenceFailed e), t, d)
      | None \<Rightarrow>
          if cx_enrollment d \<noteq> None then (Inl AlreadyEnrolled, t, d)
          else case write_secret (eo_seed_stored eo) IdentityKey (seed_b64 ks k) d of
            (Some e, d1) \<Rightarrow> (Inl (IdentityFailed e), t, d1)
          | (None, d1) \<Rightarrow>
              (case enroll wc ks c hostname agent_version (cc_expected_cloud_id (cx_config d)) k t of
                 (Inl e, t1) \<Rightarrow> (Inl (CloudRequestFailed e), t1, d1)
               | (Inr (DeniedPairing denial remedy), t1) \<Rightarrow>
                   (Inl (EnrollmentDenied denial remedy), t1, snd (remove_secret (eo_seed_removed eo) IdentityKey d1))
               | (Inr (Granted p), t1) \<Rightarrow>
                   (let identity = from_granted p now (public_key_b64 ks k)
                    in case eo_enrollment_saved eo of
                         Some e \<Rightarrow> (Inl (PersistenceFailed e), t1, d1)
                       | None \<Rightarrow>
                           (let d2 = d1\<lparr> cx_enrollment := Some (to_enrollment identity) \<rparr>
                            in case write_secret (eo_credential_stored eo) SessionCredential (gr_session_token p) d2 of
                                 (Some e, d3) \<Rightarrow> (Inl (SecretFailed e), t1, d3)
                               | (None, d3) \<Rightarrow>
                                   (Inr \<lparr> er_installation_id = ei_installation_id identity, er_tenant_id = ei_tenant_id identity,
                                          er_instance_name = ei_instance_name identity,
                                          er_protocol_version = ei_protocol_version identity \<rparr>, t1, d3)))))"

section \<open>Delivered configurations\<close>

definition MANAGED_PROVIDER_SETTINGS :: "string list" where
  "MANAGED_PROVIDER_SETTINGS = [''provider'', ''model'', ''fallback_models'', ''base_url'']"

definition MANAGED_PROVIDER_SECRET :: string where
  "MANAGED_PROVIDER_SECRET = ''api_token''"

text \<open>A TOML value is written as the JSON value it stands for.\<close>

fun json_to_toml :: "json \<Rightarrow> string + json" where
  "json_to_toml (JStr s) = Inr (JStr s)"
| "json_to_toml (JBool b) = Inr (JBool b)"
| "json_to_toml (JNum n) =
     (case as_i64 (JNum n) of
        Some _ \<Rightarrow> Inr (JNum n)
      | None \<Rightarrow> (case as_f64 (JNum n) of Some x \<Rightarrow> Inr (JNum (FloatNum x)) | None \<Rightarrow> Inl ''unsupported number''))"
| "json_to_toml (JArr items) =
     (if list_all (\<lambda>j. is_ok (json_to_toml j)) items
      then Inr (JArr (map (\<lambda>j. case json_to_toml j of Inr v \<Rightarrow> v | Inl _ \<Rightarrow> JNull) items))
      else (case filter (\<lambda>r. \<not> is_ok r) (map json_to_toml items) of r # _ \<Rightarrow> r | [] \<Rightarrow> Inl []))"
| "json_to_toml JNull = Inl ''null is not a valid setting value''"
| "json_to_toml (JObj _) = Inl ''nested tables are not supported for provider settings''"

fun insert_leaves :: "(string \<times> json) list \<Rightarrow> (string \<times> json) list \<Rightarrow> string + (string \<times> json) list" where
  "insert_leaves [] settings = Inr settings"
| "insert_leaves ((k, v) # rest) settings =
     (case json_to_toml v of Inl e \<Rightarrow> Inl e | Inr t \<Rightarrow> insert_leaves rest (obj_insert k t settings))"

fun split_content ::
  "(string \<times> json) list \<Rightarrow> (string \<times> json) list \<Rightarrow> string option \<Rightarrow> string + (string \<times> json) list \<times> string option" where
  "split_content [] settings credential = Inr (settings, credential)"
| "split_content ((k, v) # rest) settings credential =
     (if k = ''kind'' then split_content rest settings credential
      else if k = MANAGED_PROVIDER_SECRET
      then (case as_string v of
              None \<Rightarrow> Inl ([CHR 0x27] @ k @ [CHR 0x27] @ '' must be a string'')
            | Some s \<Rightarrow> split_content rest settings (Some s))
      else if k \<in> set MANAGED_PROVIDER_SETTINGS
      then (case (case v of JObj leaves \<Rightarrow> insert_leaves leaves settings | _ \<Rightarrow> insert_leaves [(k, v)] settings) of
              Inl e \<Rightarrow> Inl e
            | Inr settings1 \<Rightarrow> split_content rest settings1 credential)
      else if starts_with ''brain.'' k
      then (case insert_leaves [(k, v)] settings of Inl e \<Rightarrow> Inl e | Inr settings1 \<Rightarrow> split_content rest settings1 credential)
      else Inl (''unrecognised configuration field '' @ [CHR 0x27] @ k @ [CHR 0x27]))"

definition split_provider_content :: "(string \<times> json) list \<Rightarrow> string + (string \<times> json) list \<times> string option" where
  "split_provider_content content = split_content content [] None"

datatype config_disposition = DispApply | DispDeferred | DispUnknown

definition disposition :: "string \<Rightarrow> config_disposition" where
  "disposition kind =
     (if kind \<in> {''provider'', ''brain'', ''runbook'', ''mcp''} then DispApply
      else if kind \<in> {''agent_team'', ''orchestration''} then DispDeferred else DispUnknown)"

fun disposition_refusal :: "config_disposition \<Rightarrow> string option" where
  "disposition_refusal DispApply = None"
| "disposition_refusal DispDeferred =
     Some (''this configuration kind is recognised but has no local runtime in this release, '' @ ''so it was not applied'')"
| "disposition_refusal DispUnknown = Some ''this configuration kind is not recognised by this installation''"

record config_apply =
  ca_configuration_id :: uuid
  ca_version_id :: uuid
  ca_version_number :: int
  ca_content_hash :: string
  ca_content :: "(string \<times> json) list"
  ca_mode :: config_apply_mode

definition mode_of_json :: "json option \<Rightarrow> config_apply_mode option" where
  "mode_of_json v =
     (case v of
        None \<Rightarrow> Some ModeApply
      | Some j \<Rightarrow> Option.bind (as_string j) (\<lambda>s. map_of [(''apply'', ModeApply), (''rollback'', ModeRollback)] s))"

definition config_apply_of_json :: "wire_text \<Rightarrow> json \<Rightarrow> config_apply option" where
  "config_apply_of_json wt j =
     Option.bind (required (uuid_of_json wt) ''configuration_id'' j) (\<lambda>configuration_id.
     Option.bind (required (uuid_of_json wt) ''version_id'' j) (\<lambda>version_id.
     Option.bind (required as_i64 ''version_number'' j) (\<lambda>version_number.
     Option.bind (required as_string ''content_hash'' j) (\<lambda>content_hash.
     Option.bind (required as_object ''content'' j) (\<lambda>content.
     Option.bind (mode_of_json (json_get ''mode'' j)) (\<lambda>mode.
       Some \<lparr> ca_configuration_id = configuration_id, ca_version_id = version_id, ca_version_number = version_number,
              ca_content_hash = content_hash, ca_content = content, ca_mode = mode \<rparr>))))))"

datatype config_result_status = ResultApplied | ResultRejected | ResultFailed

record config_result =
  cr_version_id :: uuid
  cr_status :: config_result_status
  cr_reason :: "string option"

definition config_reply :: "uuid \<Rightarrow> config_result_status \<Rightarrow> string option \<Rightarrow> config_result" where
  "config_reply version_id status reason = \<lparr> cr_version_id = version_id, cr_status = status, cr_reason = reason \<rparr>"

record config_io =
  io_now :: instant
  io_managed_readable :: bool
  io_secret_failure :: "string option"
  io_settings_failure :: "string option"
  io_managed_saved :: bool
  io_applied_saved :: bool
  io_mcp_failure :: "string option"
  io_show_setting :: "setting_error \<Rightarrow> string"
  io_show_delivery :: "delivery_error \<Rightarrow> string"
  io_show_mcp :: "mcp_config_error \<Rightarrow> string"
  io_malformed :: "json \<Rightarrow> string"
  io_toml :: "string \<Rightarrow> string + runbook_file"
  io_fresh :: uuid
  io_runbook_written :: bool
  io_episodes :: "episode list"
  io_descriptors :: "capability_descriptor list"
  io_discover :: "mcp_server \<Rightarrow> mcp_error + mcp_tool list"
  io_arrive :: "mcp_server list \<Rightarrow> mcp_server list"

definition record_applied :: "config_io \<Rightarrow> string \<Rightarrow> config_apply \<Rightarrow> cloud_daemon \<Rightarrow> cloud_daemon" where
  "record_applied io kind p d =
     (let d1 = (if io_managed_saved io
                then d\<lparr> cx_managed := (cx_managed d)(ca_configuration_id p \<mapsto>
                       \<lparr> mg_configuration_id = ca_configuration_id p, mg_kind = kind,
                         mg_current_version_id = Some (ca_version_id p), mg_current_version_number = ca_version_number p,
                         mg_content_hash = Some (ca_content_hash p), mg_applied_at = Some (io_now io),
                         mg_apply_status = ApplyApplied, mg_apply_reason = None \<rparr>) \<rparr>
                else d)
      in if io_applied_saved io
         then d1\<lparr> cx_applied := upsert_applied
                  \<lparr> ap_configuration_id = ca_configuration_id p, ap_applied_version_id = Some (ca_version_id p),
                    ap_applied_version_number = ca_version_number p, ap_content_hash = Some (ca_content_hash p),
                    ap_updated_at = io_now io \<rparr> (cx_applied d1) \<rparr>
         else d1)"

definition apply_runbook_delivery :: "config_io \<Rightarrow> config_apply \<Rightarrow> cloud_daemon \<Rightarrow> config_result \<times> cloud_daemon" where
  "apply_runbook_delivery io p d =
     (case Option.bind (map_of (ca_content p) ''toml'') as_string of
        None \<Rightarrow> (config_reply (ca_version_id p) ResultFailed
                  (Some (''a runbook configuration carries its document as the string member '' @ [CHR 0x27] @ ''toml'' @ [CHR 0x27])), d)
      | Some doc \<Rightarrow>
          (case deliver (io_toml io)
                  \<lparr> di_text = doc, di_fresh = io_fresh io, di_configuration_id = ca_configuration_id p,
                    di_version_id = ca_version_id p, di_version_number = ca_version_number p, di_now = io_now io,
                    di_written = io_runbook_written io \<rparr>
                  (io_episodes io) (io_descriptors io) (cx_runbooks d) of
             (Inr _, m) \<Rightarrow>
               (config_reply (ca_version_id p) ResultApplied None, record_applied io ''runbook'' p (d\<lparr> cx_runbooks := m \<rparr>))
           | (Inl e, m) \<Rightarrow>
               (config_reply (ca_version_id p) ResultFailed (Some (io_show_delivery io e)), d\<lparr> cx_runbooks := m \<rparr>)))"

definition apply_mcp_delivery :: "config_io \<Rightarrow> config_apply \<Rightarrow> cloud_daemon \<Rightarrow> config_result \<times> cloud_daemon" where
  "apply_mcp_delivery io p d =
     (case mcp_config_of_json (JObj (ca_content p)) of
        None \<Rightarrow> (config_reply (ca_version_id p) ResultFailed
                  (Some (''the servers document is malformed: '' @ io_malformed io (JObj (ca_content p)))), d)
      | Some servers \<Rightarrow>
     (case mcp_validate servers of
        Some e \<Rightarrow> (config_reply (ca_version_id p) ResultFailed (Some (io_show_mcp io e)), d)
      | None \<Rightarrow>
     (case cx_mcp d of
        None \<Rightarrow> (config_reply (ca_version_id p) ResultFailed (Some ''no MCP runtime is running''), d)
      | Some wiring \<Rightarrow>
     (case io_mcp_failure io of
        Some e \<Rightarrow> (config_reply (ca_version_id p) ResultFailed
                    (Some (''could not persist the delivered servers document: '' @ e)), d)
      | None \<Rightarrow>
          (let d1 = d\<lparr> cx_mcp_delivery := Some
                 \<lparr> md_configuration_id = ca_configuration_id p, md_version_id = ca_version_id p,
                   md_version_number = ca_version_number p, md_delivered_at = io_now io, md_content = JObj (ca_content p) \<rparr>,
                 cx_mcp := Some (snd (apply_servers (io_discover io) (io_arrive io) (io_now io) servers wiring)) \<rparr>
           in (config_reply (ca_version_id p) ResultApplied None, record_applied io ''mcp'' p d1))))))"

definition held_version :: "config_io \<Rightarrow> uuid \<Rightarrow> cloud_daemon \<Rightarrow> int" where
  "held_version io i d =
     (case (if io_managed_readable io then cx_managed d i else None) of
        Some m \<Rightarrow> mg_current_version_number m | None \<Rightarrow> - 1)"

definition apply_provider_delivery :: "config_io \<Rightarrow> string \<Rightarrow> config_apply \<Rightarrow> cloud_daemon \<Rightarrow> config_result \<times> cloud_daemon" where
  "apply_provider_delivery io kind p d =
     (case split_provider_content (ca_content p) of
        Inl reason \<Rightarrow> (config_reply (ca_version_id p) ResultRejected (Some reason), d)
      | Inr (settings, credential) \<Rightarrow>
     (case validate_all (cx_control d) settings of
        Inl e \<Rightarrow> (config_reply (ca_version_id p) ResultRejected (Some (io_show_setting io e)), d)
      | Inr applied_brain \<Rightarrow>
     (case (case credential of None \<Rightarrow> (None, d) | Some c \<Rightarrow> write_secret (io_secret_failure io) ProviderCredential c d) of
        (Some e, d1) \<Rightarrow> (config_reply (ca_version_id p) ResultFailed
                          (Some (''could not store the provider credential: '' @ e)), d1)
      | (None, d1) \<Rightarrow>
     (case write_settings (io_settings_failure io) settings d1 of
        (Some e, d2) \<Rightarrow> (config_reply (ca_version_id p) ResultFailed
                          (Some (''could not write the managed settings: '' @ e)), d2)
      | (None, d2) \<Rightarrow>
          (let d3 = (if applied_brain \<noteq> [] then d2\<lparr> cx_control := commit_all applied_brain (cx_control d2) \<rparr> else d2);
               d4 = (if list_ex (\<lambda>k. k \<in> fst ` set settings) MANAGED_PROVIDER_SETTINGS \<and> cx_rebuilder d3
                     then d3\<lparr> cx_rebuilds := Suc (cx_rebuilds d3) \<rparr> else d3)
           in (config_reply (ca_version_id p) ResultApplied None, record_applied io kind p d4))))))"

definition apply_configuration :: "wire_text \<Rightarrow> config_io \<Rightarrow> json \<Rightarrow> cloud_daemon \<Rightarrow> config_result \<times> cloud_daemon" where
  "apply_configuration wt io payload d =
     (case config_apply_of_json wt payload of
        None \<Rightarrow> (config_reply 0 ResultFailed (Some ''the delivered configuration was malformed''), d)
      | Some p \<Rightarrow>
     (case Option.bind (map_of (ca_content p) ''kind'') as_string of
        None \<Rightarrow> (config_reply (ca_version_id p) ResultRejected (Some ''the configuration does not declare its kind''), d)
      | Some kind \<Rightarrow>
     (case disposition_refusal (disposition kind) of
        Some reason \<Rightarrow> (config_reply (ca_version_id p) ResultRejected (Some reason), d)
      | None \<Rightarrow>
          if \<not> changes_held_version (classify_delivery (held_version io (ca_configuration_id p) d) (ca_version_number p) (ca_mode p))
          then (config_reply (ca_version_id p) ResultRejected
                  (Some (''version '' @ show_int (ca_version_number p) @ '' is not newer than the version held (''
                         @ show_int (held_version io (ca_configuration_id p) d) @ '')'')), d)
          else if kind = ''runbook'' then apply_runbook_delivery io p d
          else if kind = ''mcp'' then apply_mcp_delivery io p d
          else apply_provider_delivery io kind p d)))"

text \<open>What is reported on a pull: the applied versions, and of the provider only whether a token is set.\<close>

record config_state_entry =
  cs_configuration_id :: uuid
  cs_applied_version_id :: "uuid option"
  cs_token_set :: "bool option"
  cs_mcp_servers :: "(string \<times> string \<times> nat) list option"

definition config_state :: "cloud_daemon \<Rightarrow> config_state_entry list" where
  "config_state d =
     map (\<lambda>a. let kind = map_option mg_kind (cx_managed d (ap_configuration_id a))
              in \<lparr> cs_configuration_id = ap_configuration_id a, cs_applied_version_id = ap_applied_version_id a,
                   cs_token_set = (if kind = Some ''provider'' then Some (read_secret ProviderCredential d \<noteq> None) else None),
                   cs_mcp_servers = (if kind = Some ''mcp''
                                     then Some (case cx_mcp d of Some (w, _) \<Rightarrow> server_states w | None \<Rightarrow> []) else None) \<rparr>)
       (cx_applied d)"

definition rotate_session_credential ::
  "wire_codec \<Rightarrow> string option \<Rightarrow> instant \<Rightarrow> json \<Rightarrow> cloud_daemon \<Rightarrow> cloud_daemon" where
  "rotate_session_credential wc failure now payload d =
     (case (required as_string ''rotation_token'' payload, required (time_of_json wc) ''expires_at'' payload) of
        (Some rotated, Some expires) \<Rightarrow>
          if expires \<le> now then d else snd (write_secret failure SessionCredential rotated d)
      | _ \<Rightarrow> d)"

section \<open>State of the connection\<close>

definition set_state :: "bool \<Rightarrow> cloud_connectivity_state \<Rightarrow> string option \<Rightarrow> cloud_daemon \<Rightarrow> cloud_daemon" where
  "set_state saved s failure d =
     (let t1 = tracker_transition s (cx_tracker d);
          t2 = (case failure of None \<Rightarrow> t1 | Some e \<Rightarrow> record_error e t1);
          connection = (connection_connected CONNECTION_PROTOCOL_LABEL)
            \<lparr> cn_last_exchange_at := ct_last_exchange_at t2, cn_last_error := failure \<rparr>;
          d1 = d\<lparr> cx_tracker := t2 \<rparr>
      in if saved then d1\<lparr> cx_connection := Some connection \<rparr> else d1)"

definition mark_exchange :: "bool \<Rightarrow> instant \<Rightarrow> cloud_daemon \<Rightarrow> cloud_daemon" where
  "mark_exchange saved now d =
     (let d1 = d\<lparr> cx_tracker := record_exchange now (cx_tracker d) \<rparr>
      in if saved then d1\<lparr> cx_connection := Some ((connection_connected CONNECTION_PROTOCOL_LABEL)
                                  \<lparr> cn_last_exchange_at := Some now \<rparr>) \<rparr> else d1)"

record cloud_status =
  st_state :: cloud_connectivity_state
  st_enabled :: bool
  st_endpoint_configured :: bool
  st_tenant_id :: "uuid option"
  st_installation_id :: "uuid option"
  st_instance_name :: "string option"
  st_protocol_version :: "string option"
  st_last_exchange_at :: "instant option"
  st_last_error :: "string option"
  st_buffered_reports :: nat
  st_buffer_capacity :: nat
  st_dropped_reports :: u64
  st_privileged_execution_enabled :: bool
  st_remediation :: "string option"

definition cloud_status_of :: "cloud_daemon \<Rightarrow> cloud_status" where
  "cloud_status_of d =
     \<lparr> st_state = ct_state (cx_tracker d), st_enabled = cc_enabled (cx_config d),
       st_endpoint_configured = (cc_endpoint (cx_config d) \<noteq> None),
       st_tenant_id = map_option ce_tenant_id (cx_enrollment d),
       st_installation_id = map_option ce_installation_id (cx_enrollment d),
       st_instance_name = map_option ce_instance_name (cx_enrollment d),
       st_protocol_version = map_option cn_negotiated_protocol_version (cx_connection d),
       st_last_exchange_at = (case ct_last_exchange_at (cx_tracker d) of
                                Some at1 \<Rightarrow> Some at1 | None \<Rightarrow> Option.bind (cx_connection d) cn_last_exchange_at),
       st_last_error = ct_last_error (cx_tracker d), st_buffered_reports = length (rq_entries (cx_queue d)),
       st_buffer_capacity = rq_capacity (cx_queue d), st_dropped_reports = rq_dropped_total (cx_queue d),
       st_privileged_execution_enabled = cc_allow_privileged_execution (cx_config d),
       st_remediation = tracker_remediation (cx_tracker d) \<rparr>"

fun stop_outcome :: "stop_reason \<Rightarrow> cloud_connectivity_state \<times> string" where
  "stop_outcome StopRevoked = (CsRevoked, ''this installation was revoked; re-enrollment is required'')"
| "stop_outcome StopUnsupportedVersion =
     (CsDisconnected, ''no mutually supported protocol version; an upgrade is required'')"
| "stop_outcome StopRequested = (CsNotConfigured, ''cloud supervision was stopped'')"
| "stop_outcome StopNotEnrolled = (CsNotConfigured, ''this installation is not enrolled'')"

fun describe_outcome :: "connection_outcome \<Rightarrow> string" where
  "describe_outcome (HandshakeFailed f) = failure_remediation f"
| "describe_outcome (TransportFailed reason) = ''connection failed: '' @ reason"
| "describe_outcome SessionEnded = ''the cloud closed the session''"
| "describe_outcome StoppedByHuman = ''cloud supervision was stopped''"

section \<open>Configurations are applied whole, in order and once\<close>

definition binding :: "cloud_daemon \<Rightarrow> cloud_config \<times> cloud_enrollment option \<times> string option \<times> string option" where
  "binding d = (cx_config d, cx_enrollment d, cx_secrets d SessionCredential, cx_secrets d IdentityKey)"

definition in_force ::
  "cloud_daemon \<Rightarrow> (string \<times> json) list option \<times> brain_control \<times> (mcp_wiring \<times> capability_registry) option
     \<times> mcp_delivery_record option \<times> (uuid \<Rightarrow> managed_configuration option) \<times> applied_configuration list" where
  "in_force d = (cx_settings d, cx_control d, cx_mcp d, cx_mcp_delivery d, cx_managed d, cx_applied d)"

definition recorded_version :: "uuid \<Rightarrow> cloud_daemon \<Rightarrow> int" where
  "recorded_version i d = (case cx_managed d i of Some m \<Rightarrow> mg_current_version_number m | None \<Rightarrow> - 1)"

lemma held_recorded: "io_managed_readable io \<Longrightarrow> held_version io i d = recorded_version i d"
  by (simp add: held_version_def recorded_version_def)

lemma record_applied_frame [simp]:
  "cx_config (record_applied io kind p d) = cx_config d"
  "cx_enrollment (record_applied io kind p d) = cx_enrollment d"
  "cx_secrets (record_applied io kind p d) = cx_secrets d"
  "cx_settings (record_applied io kind p d) = cx_settings d"
  by (simp_all add: record_applied_def Let_def)

lemma record_applied_managed:
  "cx_managed (record_applied io kind p d) i =
     (if io_managed_saved io \<and> i = ca_configuration_id p
      then Some \<lparr> mg_configuration_id = ca_configuration_id p, mg_kind = kind,
                  mg_current_version_id = Some (ca_version_id p), mg_current_version_number = ca_version_number p,
                  mg_content_hash = Some (ca_content_hash p), mg_applied_at = Some (io_now io),
                  mg_apply_status = ApplyApplied, mg_apply_reason = None \<rparr>
      else cx_managed d i)"
  by (simp add: record_applied_def Let_def)

text \<open>What each of the three applications does: nothing in force moves unless the reply is \<open>Applied\<close>.\<close>

definition applied_as :: "config_io \<Rightarrow> string \<Rightarrow> config_apply \<Rightarrow> cloud_daemon \<Rightarrow> config_result \<times> cloud_daemon \<Rightarrow> bool" where
  "applied_as io kind p d outcome \<longleftrightarrow>
     (case outcome of (r, d') \<Rightarrow>
        cr_version_id r = ca_version_id p \<and> binding d' = binding d
        \<and> (case cr_status r of
             ResultRejected \<Rightarrow> d' = d
           | ResultFailed \<Rightarrow> in_force d' = in_force d
           | ResultApplied \<Rightarrow> \<exists>d1. cx_managed d1 = cx_managed d \<and> d' = record_applied io kind p d1))"

lemma applied_runbook: "applied_as io ''runbook'' p d (apply_runbook_delivery io p d)"
proof -
  have frame: "cx_managed (d\<lparr> cx_runbooks := m \<rparr>) = cx_managed d" for m by simp
  show ?thesis
    by (auto simp: applied_as_def apply_runbook_delivery_def config_reply_def binding_def in_force_def
        split: option.split sum.split prod.split intro: frame)
qed

lemma applied_mcp: "applied_as io ''mcp'' p d (apply_mcp_delivery io p d)"
proof -
  have frame: "cx_managed (d\<lparr> cx_mcp_delivery := x, cx_mcp := y \<rparr>) = cx_managed d" for x y by simp
  show ?thesis
    by (auto simp: applied_as_def apply_mcp_delivery_def config_reply_def binding_def in_force_def Let_def
        split: option.split intro: frame)
qed

lemma write_secret_frame:
  "write_secret failure f s d = (e, d') \<Longrightarrow> in_force d' = in_force d \<and> cx_managed d' = cx_managed d \<and> cx_config d' = cx_config d
     \<and> cx_enrollment d' = cx_enrollment d \<and> (\<forall>g. g \<noteq> f \<longrightarrow> cx_secrets d' g = cx_secrets d g)"
  by (auto simp: write_secret_def in_force_def split: if_splits option.splits)

lemma applied_provider: "applied_as io kind p d (apply_provider_delivery io kind p d)"
proof (cases "split_provider_content (ca_content p)")
  case (Inl reason)
  then show ?thesis by (simp add: applied_as_def apply_provider_delivery_def config_reply_def)
next
  case (Inr pair)
  then obtain settings credential where s: "split_provider_content (ca_content p) = Inr (settings, credential)"
    by (cases pair) simp
  show ?thesis
  proof (cases "validate_all (cx_control d) settings")
    case (Inl e)
    with s show ?thesis by (simp add: applied_as_def apply_provider_delivery_def config_reply_def)
  next
    case valid: (Inr applied_brain)
    obtain e d1 where w: "(case credential of None \<Rightarrow> (None, d)
        | Some c \<Rightarrow> write_secret (io_secret_failure io) ProviderCredential c d) = (e, d1)" by fastforce
    have frame: "in_force d1 = in_force d" "cx_managed d1 = cx_managed d" "binding d1 = binding d"
      using w by (auto simp: binding_def dest!: write_secret_frame split: option.splits)
    show ?thesis
    proof (cases e)
      case (Some x)
      with s valid w frame show ?thesis by (simp add: applied_as_def apply_provider_delivery_def config_reply_def)
    next
      case None
      show ?thesis
      proof (cases "io_settings_failure io")
        case (Some x)
        with None s valid w frame show ?thesis
          by (simp add: applied_as_def apply_provider_delivery_def config_reply_def write_settings_def)
      next
        case stored: None
        obtain d4 where d4: "apply_provider_delivery io kind p d = (config_reply (ca_version_id p) ResultApplied None, record_applied io kind p d4)"
            "cx_managed d4 = cx_managed d1" "binding d4 = binding d1"
          using stored None s valid w
          by (auto simp: apply_provider_delivery_def write_settings_def Let_def binding_def)
        then show ?thesis using frame
          by (auto simp: applied_as_def config_reply_def binding_def)
      qed
    qed
  qed
qed

lemma applied_configuration:
  obtains (malformed) reason where "config_apply_of_json wt payload = None"
      "apply_configuration wt io payload d = (config_reply 0 ResultFailed (Some reason), d)"
  | (refused) p reason where "config_apply_of_json wt payload = Some p"
      "apply_configuration wt io payload d = (config_reply (ca_version_id p) ResultRejected (Some reason), d)"
  | (tried) p kind where "config_apply_of_json wt payload = Some p"
      "ca_mode p = ModeRollback \<or> held_version io (ca_configuration_id p) d < ca_version_number p"
      "applied_as io kind p d (apply_configuration wt io payload d)"
proof (cases "config_apply_of_json wt payload")
  case None
  then show ?thesis by (intro malformed) (auto simp: apply_configuration_def)
next
  case (Some p)
  show ?thesis
  proof (cases "Option.bind (map_of (ca_content p) ''kind'') as_string")
    case None
    with Some show ?thesis by (intro refused [of p]) (auto simp: apply_configuration_def)
  next
    case kind: (Some kind)
    show ?thesis
    proof (cases "disposition_refusal (disposition kind)")
      case refusal: (Some reason)
      with Some kind show ?thesis by (intro refused [of p reason]) (auto simp: apply_configuration_def)
    next
      case applicable: None
      show ?thesis
      proof (cases "changes_held_version (classify_delivery (held_version io (ca_configuration_id p) d) (ca_version_number p) (ca_mode p))")
        case False
        with Some kind applicable show ?thesis by (intro refused [of p]) (auto simp: apply_configuration_def)
      next
        case True
        then have "ca_mode p = ModeRollback \<or> held_version io (ca_configuration_id p) d < ca_version_number p"
          by (auto simp: changes_held_version_def classify_delivery_def split: config_apply_mode.splits if_splits)
        moreover have "\<exists>k. applied_as io k p d (apply_configuration wt io payload d)"
          using True Some kind applicable applied_runbook [of io p d] applied_mcp [of io p d] applied_provider [of io kind p d]
          by (auto simp: apply_configuration_def)
        ultimately show ?thesis using tried Some by blast
      qed
    qed
  qed
qed


text \<open>The versions a sequence of deliveries applies, with the configuration each belongs to.\<close>

definition applied_version :: "wire_text \<Rightarrow> config_io \<Rightarrow> json \<Rightarrow> cloud_daemon \<Rightarrow> (uuid \<times> int) list" where
  "applied_version wt io payload d =
     (case config_apply_of_json wt payload of
        Some p \<Rightarrow> if cr_status (fst (apply_configuration wt io payload d)) = ResultApplied
                  then [(ca_configuration_id p, ca_version_number p)] else []
      | None \<Rightarrow> [])"

fun applied_history :: "wire_text \<Rightarrow> (config_io \<times> json) list \<Rightarrow> cloud_daemon \<Rightarrow> (uuid \<times> int) list \<times> cloud_daemon" where
  "applied_history wt [] d = ([], d)"
| "applied_history wt ((io, payload) # rest) d =
     (let (later, d') = applied_history wt rest (snd (apply_configuration wt io payload d))
      in (applied_version wt io payload d @ later, d'))"

definition forward :: "wire_text \<Rightarrow> config_io \<times> json \<Rightarrow> bool" where
  "forward wt delivery \<longleftrightarrow>
     (case delivery of (io, payload) \<Rightarrow> io_managed_readable io \<and> io_managed_saved io
        \<and> (case config_apply_of_json wt payload of Some p \<Rightarrow> ca_mode p = ModeApply | None \<Rightarrow> True))"

lemma applied_step:
  assumes "forward wt (io, payload)"
  shows "map snd (filter (\<lambda>(j, _). j = i) (applied_version wt io payload d)) =
           (if recorded_version i (snd (apply_configuration wt io payload d)) = recorded_version i d then []
            else [recorded_version i (snd (apply_configuration wt io payload d))])"
    and "recorded_version i d \<le> recorded_version i (snd (apply_configuration wt io payload d))"
proof -
  let ?d' = "snd (apply_configuration wt io payload d)"
  have "map snd (filter (\<lambda>(j, _). j = i) (applied_version wt io payload d)) =
           (if recorded_version i ?d' = recorded_version i d then [] else [recorded_version i ?d'])
      \<and> recorded_version i d \<le> recorded_version i ?d'"
  proof (cases rule: applied_configuration [of wt payload io d])
    case (malformed reason)
    then show ?thesis by (simp add: applied_version_def)
  next
    case (refused p reason)
    then show ?thesis by (simp add: applied_version_def config_reply_def)
  next
    case (tried p kind)
    obtain r d' where a: "apply_configuration wt io payload d = (r, d')" by fastforce
    have newer: "recorded_version (ca_configuration_id p) d < ca_version_number p"
      using tried(1,2) assms by (auto simp: forward_def held_recorded)
    show ?thesis
    proof (cases "cr_status r")
      case ResultApplied
      then obtain d1 where "cx_managed d1 = cx_managed d" "d' = record_applied io kind p d1"
        using tried(3) a by (auto simp: applied_as_def)
      then have "recorded_version i d' = (if i = ca_configuration_id p then ca_version_number p else recorded_version i d)"
        using assms by (auto simp: recorded_version_def record_applied_managed forward_def)
      then show ?thesis using newer tried(1) ResultApplied a by (auto simp: applied_version_def)
    next
      case ResultRejected
      then show ?thesis using tried(1,3) a by (auto simp: applied_as_def applied_version_def)
    next
      case ResultFailed
      then have "cx_managed d' = cx_managed d" using tried(3) a by (auto simp: applied_as_def in_force_def)
      then show ?thesis using tried(1) ResultFailed a by (auto simp: applied_version_def recorded_version_def)
    qed
  qed
  then show "map snd (filter (\<lambda>(j, _). j = i) (applied_version wt io payload d)) =
           (if recorded_version i ?d' = recorded_version i d then [] else [recorded_version i ?d'])"
    "recorded_version i d \<le> recorded_version i ?d'" by simp_all
qed

lemma history_ordered:
  assumes "list_all (forward wt) deliveries" and "applied_history wt deliveries d = (applied, d')"
  shows "sorted_wrt (<) (recorded_version i d # map snd (filter (\<lambda>(j, _). j = i) applied))
       \<and> recorded_version i d' = last (recorded_version i d # map snd (filter (\<lambda>(j, _). j = i) applied))"
  using assms
proof (induction deliveries arbitrary: d applied)
  case Nil
  then show ?case by simp
next
  case (Cons delivery rest)
  obtain io payload where delivery: "delivery = (io, payload)" by fastforce
  let ?d1 = "snd (apply_configuration wt io payload d)"
  obtain later where later: "applied_history wt rest ?d1 = (later, d')" "applied = applied_version wt io payload d @ later"
    using Cons.prems(2) by (auto simp: delivery split: prod.splits)
  have f: "forward wt (io, payload)" using Cons.prems(1) by (simp add: delivery)
  have tail: "sorted_wrt (<) (recorded_version i ?d1 # map snd (filter (\<lambda>(j, _). j = i) later))"
      "recorded_version i d' = last (recorded_version i ?d1 # map snd (filter (\<lambda>(j, _). j = i) later))"
    using Cons.IH [OF _ later(1)] Cons.prems(1) by simp_all
  show ?case
    using tail applied_step [OF f, of i d] by (auto simp: later(2) split: if_splits)
qed

text \<open>
  C33. No delivery is applied twice, and none overtakes a newer one. Over every sequence of deliveries that
  are not rollbacks, interleaved over any configurations, with rejections and failures in between,
  while the recorded versions can be read and written: the versions applied of each configuration
  increase strictly from the one held at the start, and the version held at the end is the last one
  applied. A repeated or late frame therefore never takes effect again.
\<close>

theorem configurations_move_forward:
  assumes "list_all (forward wt) deliveries" and "applied_history wt deliveries d = (applied, d')"
  shows "sorted_wrt (<) (recorded_version i d # map snd (filter (\<lambda>(j, _). j = i) applied))
       \<and> recorded_version i d' = last (recorded_version i d # map snd (filter (\<lambda>(j, _). j = i) applied))"
  using assms by (rule history_ordered)

definition sample_cloud :: cloud_daemon where
  "sample_cloud =
     \<lparr> cx_config = cloud_config_default, cx_enrollment = None, cx_connection = None, cx_secrets = (\<lambda>_. None),
       cx_settings = Some [(''provider'', JStr ''local'')], cx_tracker = tracker_new, cx_queue = queue_new 10,
       cx_ledger = ledger_new repo_new True 30 1000, cx_control = brain_control_default, cx_runbooks = manager_new [] [], cx_mcp = None,
       cx_mcp_delivery = None, cx_managed = (\<lambda>_. None), cx_applied = [], cx_rebuilder = False, cx_rebuilds = 0 \<rparr>"

definition sample_io :: config_io where
  "sample_io =
     \<lparr> io_now = 0, io_managed_readable = True, io_secret_failure = None, io_settings_failure = None, io_managed_saved = True,
       io_applied_saved = True, io_mcp_failure = None, io_show_setting = (\<lambda>_. ''setting''), io_show_delivery = (\<lambda>_. ''delivery''),
       io_show_mcp = (\<lambda>_. ''mcp''), io_malformed = (\<lambda>_. ''malformed''), io_toml = (\<lambda>_. Inl ''toml''), io_fresh = 1,
       io_runbook_written = True, io_episodes = [], io_descriptors = [], io_discover = (\<lambda>_. Inr []), io_arrive = id \<rparr>"

lemma sample_io_saved: "io_managed_saved sample_io" "io_managed_readable sample_io"
  by (simp_all add: sample_io_def)

definition brain_document :: "int \<Rightarrow> json" where
  "brain_document n =
     JObj [(''configuration_id'', JStr ''7''), (''version_id'', JStr ''70''), (''version_number'', JNum (PosInt (nat n))),
           (''content_hash'', JStr ''h''),
           (''content'', JObj [(''kind'', JStr ''brain''), (''brain.autonomy'', JStr ''l2_recommend'')])]"

lemma brain_document_read:
  "config_apply_of_json plain_text (brain_document 3) =
     Some \<lparr> ca_configuration_id = 7, ca_version_id = 70, ca_version_number = 3, ca_content_hash = ''h'',
            ca_content = [(''kind'', JStr ''brain''), (''brain.autonomy'', JStr ''l2_recommend'')], ca_mode = ModeApply \<rparr>"
  by (simp add: brain_document_def config_apply_of_json_def required_def uuid_of_json_def plain_text_def parse_digits_def
      is_ascii_digit_def mode_of_json_def)

lemma brain_document_applied:
  "apply_configuration plain_text sample_io (brain_document 3) sample_cloud =
     (config_reply 70 ResultApplied None,
      record_applied sample_io ''brain''
        \<lparr> ca_configuration_id = 7, ca_version_id = 70, ca_version_number = 3, ca_content_hash = ''h'',
          ca_content = [(''kind'', JStr ''brain''), (''brain.autonomy'', JStr ''l2_recommend'')], ca_mode = ModeApply \<rparr>
        (sample_cloud\<lparr> cx_settings := Some [(''brain.autonomy'', JStr ''l2_recommend'')],
                       cx_control := brain_control_default\<lparr> bl_autonomy := L2Recommend \<rparr> \<rparr>))"
proof -
  have mode: "deserialize_mode ''l2_recommend'' = Some L2Recommend" by code_simp
  show ?thesis
    by (simp add: apply_configuration_def brain_document_read disposition_def held_version_def sample_io_def sample_cloud_def
        changes_held_version_def classify_delivery_def apply_provider_delivery_def split_provider_content_def
        MANAGED_PROVIDER_SECRET_def MANAGED_PROVIDER_SETTINGS_def starts_with_def obj_insert_def validate_all_def apply_to_def
        mode write_settings_def commit_all_def commit_one_def)
qed


theorem configurations_move_forward_witness:
  "applied_history plain_text [(sample_io, brain_document 3), (sample_io, brain_document 3)] sample_cloud
     = ([(7, 3)], snd (apply_configuration plain_text sample_io (brain_document 3) sample_cloud))"
proof -
  let ?ds = "[(sample_io, brain_document 3), (sample_io, brain_document 3)]"
  let ?d1 = "snd (apply_configuration plain_text sample_io (brain_document 3) sample_cloud)"
  have first: "applied_version plain_text sample_io (brain_document 3) sample_cloud = [(7, 3)]"
    by (simp add: applied_version_def brain_document_read brain_document_applied config_reply_def)
  have again: "applied_version plain_text sample_io (brain_document 3) d \<in> {[], [(7, 3)]}" for d
    by (simp add: applied_version_def brain_document_read)
  obtain applied d' where h: "applied_history plain_text ?ds sample_cloud = (applied, d')" by fastforce
  have f: "list_all (forward plain_text) ?ds" by (simp add: forward_def sample_io_saved brain_document_read)
  have "sorted_wrt (<) (map snd (filter (\<lambda>(j, _). j = 7) applied))"
    using configurations_move_forward [OF f h, of 7] by simp
  then have "applied_version plain_text sample_io (brain_document 3) ?d1 = []"
    using h again [of ?d1] by (auto simp: first Let_def)
  moreover from this have "cr_status (fst (apply_configuration plain_text sample_io (brain_document 3) ?d1)) \<noteq> ResultApplied"
    by (auto simp: applied_version_def brain_document_read split: if_splits)
  moreover have "recorded_version 7 ?d1 = 3"
    by (simp add: brain_document_applied recorded_version_def record_applied_managed sample_io_saved)
  then have "held_version sample_io 7 ?d1 = 3" by (simp add: held_recorded sample_io_saved)
  then have "snd (apply_configuration plain_text sample_io (brain_document 3) ?d1) = ?d1"
    by (simp add: apply_configuration_def brain_document_read disposition_def changes_held_version_def classify_delivery_def)
  ultimately show ?thesis by (simp add: first Let_def)
qed

text \<open>
  The settings file holds the last delivery only: a delivery of levers erases the provider settings
  that another configuration had delivered, and which remains recorded as applied.
\<close>

theorem lever_delivery_erases_provider:
  "cx_settings sample_cloud = Some [(''provider'', JStr ''local'')]
   \<and> cx_settings (snd (apply_configuration plain_text sample_io (brain_document 3) sample_cloud))
       = Some [(''brain.autonomy'', JStr ''l2_recommend'')]"
  by (simp add: brain_document_applied) (simp add: sample_cloud_def)

text \<open>
  The leaves of a nested table are not checked: a token under \<open>model\<close> passes the split as a plain
  setting, and is written with the settings instead of the secrets.
\<close>

theorem nested_token_is_plain_setting:
  "split_provider_content [(''kind'', JStr ''provider''), (''model'', JObj [(''api_token'', JStr token)])]
     = Inr ([(''api_token'', JStr token)], None)"
  by (simp add: split_provider_content_def MANAGED_PROVIDER_SECRET_def MANAGED_PROVIDER_SETTINGS_def obj_insert_def)

text \<open>The credential of a delivery that then fails is kept: the configuration is in part applied.\<close>

theorem failed_delivery_keeps_credential:
  assumes "split_provider_content (ca_content p) = Inr (settings, Some credential)" "credential \<noteq> []"
    and "validate_all (cx_control d) settings = Inr applied_brain"
    and "io_secret_failure io = None" "io_settings_failure io = Some e"
  shows "cr_status (fst (apply_provider_delivery io kind p d)) = ResultFailed"
    and "cx_secrets (snd (apply_provider_delivery io kind p d)) ProviderCredential = Some credential"
  using assms by (simp_all add: apply_provider_delivery_def write_secret_def write_settings_def config_reply_def)

section \<open>Enrollment\<close>

definition holds_identity :: "key_scheme \<Rightarrow> installation_key \<Rightarrow> cloud_daemon \<Rightarrow> bool" where
  "holds_identity ks k d \<longleftrightarrow> cx_secrets d IdentityKey = Some (seed_b64 ks k)"

lemma write_secret_stored: "write_secret failure f s d = (None, d') \<Longrightarrow> d' = d\<lparr> cx_secrets := (cx_secrets d)(f \<mapsto> s) \<rparr>"
  by (auto simp: write_secret_def split: if_splits option.splits)

lemma write_secret_failed: "write_secret failure f s d = (Some e, d') \<Longrightarrow> d' = d"
  by (auto simp: write_secret_def split: if_splits option.splits)

text \<open>
  C35. An enrollment is bound once. While one is held, or while the cloud is not configured, an enrollment
  attempt sends nothing and changes nothing. Otherwise the private key is stored before the first
  frame leaves: when it cannot be stored nothing is sent. An attempt that succeeds leaves the
  enrollment of the installation it reports, the key that was announced and the credential that was
  granted; one that is denied, or fails before the binding is saved, leaves no enrollment.
\<close>

theorem enrollment_bound_once:
  assumes "enroll_installation wc ks eo k c hostname version now t d = (r, t', d')"
  shows "(\<not> cloud_is_active (cx_config d) \<or> cx_enrollment d \<noteq> None \<longrightarrow> t' = t \<and> d' = d \<and> (\<exists>e. r = Inl e))
       \<and> (t' \<noteq> t \<longrightarrow> holds_identity ks k d' \<or> (\<exists>denial remedy. r = Inl (EnrollmentDenied denial remedy)))
       \<and> (case r of
            Inr report \<Rightarrow>
              cx_enrollment d = None \<and> holds_identity ks k d'
              \<and> (\<exists>p. fst (enroll wc ks c hostname version (cc_expected_cloud_id (cx_config d)) k t) = Inr (Granted p)
                   \<and> er_installation_id report = gr_instance_id p
                   \<and> map_option ce_installation_id (cx_enrollment d') = Some (gr_instance_id p)
                   \<and> cx_secrets d' SessionCredential = Some (gr_session_token p))
          | Inl (SecretFailed _) \<Rightarrow> cx_enrollment d' \<noteq> None
          | Inl _ \<Rightarrow> cx_enrollment d' = cx_enrollment d)"
proof (cases "cloud_is_active (cx_config d) \<and> eo_enrollment_read eo = None \<and> cx_enrollment d = None")
  case False
  then show ?thesis using assms by (auto simp: enroll_installation_def split: if_splits option.splits)
next
  case open1: True
  obtain e d1 where w: "write_secret (eo_seed_stored eo) IdentityKey (seed_b64 ks k) d = (e, d1)" by fastforce
  show ?thesis
  proof (cases e)
    case (Some x)
    then show ?thesis using assms open1 w write_secret_failed [of "eo_seed_stored eo" IdentityKey "seed_b64 ks k" d x d1]
      by (auto simp: enroll_installation_def)
  next
    case None
    then have d1: "d1 = d\<lparr> cx_secrets := (cx_secrets d)(IdentityKey \<mapsto> seed_b64 ks k) \<rparr>" using w write_secret_stored by blast
    obtain o1 t1 where en: "enroll wc ks c hostname version (cc_expected_cloud_id (cx_config d)) k t = (o1, t1)" by fastforce
    show ?thesis
    proof (cases o1)
      case (Inl x)
      then show ?thesis using assms open1 w None en by (auto simp: enroll_installation_def holds_identity_def d1)
    next
      case (Inr outcome)
      show ?thesis
      proof (cases outcome)
        case (DeniedPairing denial remedy)
        then show ?thesis using assms open1 w None en Inr
          by (auto simp: enroll_installation_def d1 remove_secret_def split: option.splits)
      next
        case (Granted p)
        show ?thesis
        proof (cases "eo_enrollment_saved eo")
          case (Some x)
          then show ?thesis using assms open1 w None en Inr Granted
            by (auto simp: enroll_installation_def Let_def d1 holds_identity_def)
        next
          case saved: None
          let ?d2 = "d1\<lparr> cx_enrollment := Some (to_enrollment (from_granted p now (public_key_b64 ks k))) \<rparr>"
          obtain f d3 where c: "write_secret (eo_credential_stored eo) SessionCredential (gr_session_token p) ?d2 = (f, d3)"
            by fastforce
          have d3: "d3 = (if f = None then ?d2\<lparr> cx_secrets := (cx_secrets ?d2)(SessionCredential \<mapsto> gr_session_token p) \<rparr> else ?d2)"
            using write_secret_stored [of _ _ _ ?d2 d3] write_secret_failed [of _ _ _ ?d2 _ d3] c by (cases f) simp_all
          show ?thesis using assms open1 w None en Inr Granted saved c
            by (auto simp: enroll_installation_def Let_def d3 d1 holds_identity_def to_enrollment_def from_granted_def enrollment_new_def
                split: option.splits)
        qed
      qed
    qed
  qed
qed

definition sample_pairing :: "envelope list" where
  "sample_pairing =
     [sample_hello ''argus-cloud'' [''1.0.0''],
      envelope_new (11, 0) PairingGranted
        (JObj [(''instance_id'', JStr ''1''), (''tenant_id'', JStr ''2''), (''instance_name'', JStr ''host''),
               (''session_token'', JStr ''secret''), (''session_expires_at'', JStr ''now''),
               (''negotiated_protocol_version'', JStr ''1.0.0'')]) None]"

definition sample_grant :: granted_payload where
  "sample_grant =
     \<lparr> gr_instance_id = 1, gr_tenant_id = 2, gr_instance_name = ''host'', gr_session_token = ''secret'',
       gr_session_expires_at = 0, gr_negotiated_protocol_version = ''1.0.0'' \<rparr>"

definition sample_unenrolled :: cloud_daemon where
  "sample_unenrolled = sample_cloud\<lparr> cx_config := cloud_config_default\<lparr> cc_enabled := True, cc_endpoint := Some ''wss://cloud'' \<rparr> \<rparr>"

definition sample_storage :: enrollment_io where
  "sample_storage =
     \<lparr> eo_enrollment_read = None, eo_seed_stored = None, eo_seed_removed = None, eo_enrollment_saved = None,
       eo_credential_stored = None \<rparr>"

definition sample_key :: installation_key where
  "sample_key = InstallationKey (replicate 32 7)"

lemma sample_seed_stored: "seed_b64 sample_keys sample_key \<noteq> []"
  by (simp add: seed_b64_def sample_keys_def sample_key_def numeral_eq_Suc)

lemma sample_pairing_granted:
  "fst (enroll sample_codec sample_keys ''PAIR-CODE'' ''host'' ''0.1.0'' ''argus-cloud'' k (sample_transport sample_pairing))
     = Inr (Granted sample_grant)"
proof -
  have kh: "envelope_kind (sample_hello cloud v) = Some HandshakeHello" for cloud v by (simp add: sample_hello_def)
  have valid: "validate_code ''PAIR-CODE'' = Inr ()" "validate_identity_fields ''host'' ''0.1.0'' = Inr ()" by code_simp+
  have granted: "granted_of_json sample_codec (JObj [(''instance_id'', JStr ''1''), (''tenant_id'', JStr ''2''),
      (''instance_name'', JStr ''host''), (''session_token'', JStr ''secret''), (''session_expires_at'', JStr ''now''),
      (''negotiated_protocol_version'', JStr ''1.0.0'')]) = Some sample_grant"
    by (simp add: granted_of_json_def required_def uuid_of_json_def time_of_json_def sample_codec_def plain_text_def
        parse_digits_def is_ascii_digit_def sample_grant_def)
  show ?thesis
    by (simp add: enroll_def valid recv_heartbeat_aware.simps transport_recv_def sample_transport_def sample_pairing_def kh
        pairing_hello_def sample_hello_read verify_cloud_identity_def transport_send_def Let_def enrollment_reply_def granted)
qed

lemma sample_unenrolled_fields:
  "cloud_is_active (cx_config sample_unenrolled)" "cx_enrollment sample_unenrolled = None"
  "cc_expected_cloud_id (cx_config sample_unenrolled) = ''argus-cloud''"
  by (simp_all add: sample_unenrolled_def sample_cloud_def cloud_config_default_def cloud_is_active_def)

lemma sample_enrolls:
  assumes "eo_enrollment_read eo = None" "eo_seed_stored eo = None" "eo_enrollment_saved eo = None"
  shows "\<exists>t' d'. enroll_installation sample_codec sample_keys eo sample_key ''PAIR-CODE'' ''host'' ''0.1.0'' 0
          (sample_transport sample_pairing) sample_unenrolled =
            (case eo_credential_stored eo of
               None \<Rightarrow> Inr \<lparr> er_installation_id = 1, er_tenant_id = 2, er_instance_name = ''host'', er_protocol_version = ''1.0.0'' \<rparr>
             | Some e \<Rightarrow> Inl (SecretFailed e), t', d') \<and> cx_enrollment d' \<noteq> None \<and> cx_config d' = cx_config sample_unenrolled"
proof -
  obtain t1 where "enroll sample_codec sample_keys ''PAIR-CODE'' ''host'' ''0.1.0'' ''argus-cloud'' sample_key
      (sample_transport sample_pairing) = (Inr (Granted sample_grant), t1)"
    using sample_pairing_granted [of sample_key] by (metis prod.collapse)
  moreover have "gr_session_token sample_grant = ''secret''" "gr_instance_id sample_grant = 1" "gr_tenant_id sample_grant = 2"
      "gr_instance_name sample_grant = ''host''" "gr_negotiated_protocol_version sample_grant = ''1.0.0''"
    by (simp_all add: sample_grant_def)
  ultimately show ?thesis
    using assms sample_seed_stored sample_unenrolled_fields
    by (auto simp: enroll_installation_def write_secret_def Let_def from_granted_def split: option.split)
qed

theorem enrollment_bound_once_witness:
  "map_option ce_installation_id (cx_enrollment (snd (snd (enroll_installation sample_codec sample_keys sample_storage sample_key
      ''PAIR-CODE'' ''host'' ''0.1.0'' 0 (sample_transport sample_pairing) sample_unenrolled)))) = Some 1"
proof -
  obtain t' d' where run: "enroll_installation sample_codec sample_keys sample_storage sample_key ''PAIR-CODE'' ''host'' ''0.1.0'' 0
      (sample_transport sample_pairing) sample_unenrolled =
        (Inr \<lparr> er_installation_id = 1, er_tenant_id = 2, er_instance_name = ''host'', er_protocol_version = ''1.0.0'' \<rparr>, t', d')"
    using sample_enrolls [of sample_storage] by (auto simp: sample_storage_def)
  from enrollment_bound_once [OF this] have "map_option ce_installation_id (cx_enrollment d') = Some 1" by auto
  with run show ?thesis by simp
qed

text \<open>
  When only the credential cannot be stored, the enrollment is already saved: the attempt fails, and
  the next one is refused as if it had succeeded.
\<close>

theorem lost_credential_blocks_enrollment:
  "\<exists>t' d'. enroll_installation sample_codec sample_keys (sample_storage\<lparr> eo_credential_stored := Some ''disk full'' \<rparr>) sample_key
        ''PAIR-CODE'' ''host'' ''0.1.0'' 0 (sample_transport sample_pairing) sample_unenrolled
      = (Inl (SecretFailed ''disk full''), t', d')
    \<and> fst (enroll_installation sample_codec sample_keys sample_storage sample_key ''PAIR-CODE'' ''host'' ''0.1.0'' 0
             (sample_transport sample_pairing) d') = Inl AlreadyEnrolled"
proof -
  obtain t' d' where run: "enroll_installation sample_codec sample_keys (sample_storage\<lparr> eo_credential_stored := Some ''disk full'' \<rparr>)
      sample_key ''PAIR-CODE'' ''host'' ''0.1.0'' 0 (sample_transport sample_pairing) sample_unenrolled
        = (Inl (SecretFailed ''disk full''), t', d')" "cx_enrollment d' \<noteq> None" "cx_config d' = cx_config sample_unenrolled"
    using sample_enrolls [of "sample_storage\<lparr> eo_credential_stored := Some ''disk full'' \<rparr>"] by (auto simp: sample_storage_def)
  then show ?thesis using sample_unenrolled_fields by (auto simp: enroll_installation_def sample_storage_def)
qed

text \<open>A transport that fails leaves the fresh key behind, which only a denial removes.\<close>

theorem failed_pairing_leaves_key:
  assumes "cloud_is_active (cx_config d)" "cx_enrollment d = None" "seed_b64 ks k \<noteq> []"
    and "enroll wc ks c hostname version (cc_expected_cloud_id (cx_config d)) k t = (Inl e, t')"
  shows "enroll_installation wc ks sample_storage k c hostname version now t d
       = (Inl (CloudRequestFailed e), t', d\<lparr> cx_secrets := (cx_secrets d)(IdentityKey \<mapsto> seed_b64 ks k) \<rparr>)"
  using assms by (simp add: enroll_installation_def sample_storage_def write_secret_def)

text \<open>
  Forgetting removes every credential, the settings and the cloud-derived rows. What deliveries put
  into the running daemon stays: the runbooks, the levers of the brain and the tool servers.
\<close>

theorem forget_leaves_no_binding:
  assumes "forget_enrollment failures clearing d = (None, d')"
  shows "cx_enrollment d' = None" "cx_secrets d' = (\<lambda>_. None)" "cx_settings d' = None" "cx_managed d' = (\<lambda>_. None)"
    and "cx_runbooks d' = cx_runbooks d" "cx_control d' = cx_control d" "cx_mcp d' = cx_mcp d"
proof -
  have "((cx_secrets d)(SessionCredential := None, IdentityKey := None, ProviderCredential := None)) f = None" for f
    by (cases f) simp_all
  then have "(cx_secrets d)(SessionCredential := None, IdentityKey := None, ProviderCredential := None) = (\<lambda>_. None)" by blast
  moreover have "d' = d\<lparr> cx_secrets := (cx_secrets d)(SessionCredential := None, IdentityKey := None, ProviderCredential := None),
      cx_settings := None, cx_enrollment := None, cx_connection := None, cx_managed := (\<lambda>_. None), cx_applied := [],
      cx_mcp_delivery := None \<rparr>"
    using assms
    by (cases "failures 0"; cases "failures 1"; cases "failures 2"; cases "failures 3"; cases clearing)
       (auto simp: forget_enrollment_def remove_secret_def clear_settings_def clear_cloud_state_def CLOUD_TABLES_def)
  ultimately show "cx_enrollment d' = None" "cx_secrets d' = (\<lambda>_. None)" "cx_settings d' = None" "cx_managed d' = (\<lambda>_. None)"
    "cx_runbooks d' = cx_runbooks d" "cx_control d' = cx_control d" "cx_mcp d' = cx_mcp d"
    by simp_all
qed

text \<open>The token of the provider never leaves with a report: only whether one is stored does.\<close>

theorem config_state_hides_token:
  assumes "read_secret ProviderCredential d \<noteq> None" "secret \<noteq> []" "\<not> is_line_end (last secret)"
  shows "config_state (d\<lparr> cx_secrets := (cx_secrets d)(ProviderCredential \<mapsto> secret) \<rparr>) = config_state d"
proof -
  have "dropWhile is_line_end (rev secret) = rev secret" using assms(2,3) by (cases secret rule: rev_cases) auto
  then have "read_secret ProviderCredential (d\<lparr> cx_secrets := (cx_secrets d)(ProviderCredential \<mapsto> secret) \<rparr>) = Some secret"
    using assms(2) by (simp add: read_secret_def)
  then show ?thesis using assms(1) by (auto simp: config_state_def Let_def cong: map_cong)
qed

end
