(* ===== verification/Session_Loop.thy ===== *)
theory Session_Loop
  imports Cloud_Session Cloud_Command
begin

text \<open>
  The life of a connection (\<open>argus-daemon\<close>, \<open>cloud.rs\<close>): the capability surface and its publication
  (with \<open>argus-domain\<close>, \<open>cloud.rs\<close> and \<open>argus-cloud\<close>, \<open>mapping/capability.rs\<close>), the telemetry and
  health projections (\<open>mapping/telemetry.rs\<close>, \<open>mapping/health.rs\<close>), the session loop with its ticks,
  its heartbeat and the dispatch of inbound frames, and the supervision loop around it.

  The arms of the session's \<open>select\<close> are the constructors of \<open>session_event\<close>; a session is run on the
  sequence in which they fire. The canonical text of a descriptor list and the size of an encoded
  payload are \<open>serde_json\<close>'s, the decision on a paused plan is that of the port the daemon hands in:
  all three are members of \<open>session_ports\<close>.
\<close>

section \<open>Managed settings of the model\<close>

record model_provider_config =
  mp_provider :: string
  mp_model :: string
  mp_fallback_models :: "string list"
  mp_base_url :: "string option"
  mp_credential_ref :: "string option"

definition merge_model_setting :: "string \<times> json \<Rightarrow> model_provider_config \<Rightarrow> model_provider_config" where
  "merge_model_setting kv m =
     (let key = fst kv; v = snd kv
      in if key = ''provider'' then (case as_string v of Some s \<Rightarrow> m\<lparr> mp_provider := s \<rparr> | None \<Rightarrow> m)
         else if key = ''model'' then (case as_string v of Some s \<Rightarrow> m\<lparr> mp_model := s \<rparr> | None \<Rightarrow> m)
         else if key = ''base_url'' then (case as_string v of Some s \<Rightarrow> m\<lparr> mp_base_url := Some s \<rparr> | None \<Rightarrow> m)
         else if key = ''fallback_models''
         then (case as_array v of Some items \<Rightarrow> m\<lparr> mp_fallback_models := List.map_filter as_string items \<rparr> | None \<Rightarrow> m)
         else m)"

definition apply_managed_model_settings :: "(string \<times> json) list \<Rightarrow> model_provider_config \<Rightarrow> model_provider_config" where
  "apply_managed_model_settings settings m = fold merge_model_setting settings m"

section \<open>The capability surface\<close>

record capability_surface =
  sf_current :: "capability_descriptor list"
  sf_dirty :: bool

definition surface_new :: "capability_descriptor list \<Rightarrow> capability_surface" where
  "surface_new descriptors = \<lparr> sf_current = descriptors, sf_dirty = False \<rparr>"

definition surface_replace :: "capability_descriptor list \<Rightarrow> capability_surface \<Rightarrow> capability_surface" where
  "surface_replace descriptors s = \<lparr> sf_current = descriptors, sf_dirty = True \<rparr>"

definition take_dirty :: "capability_surface \<Rightarrow> bool \<times> capability_surface" where
  "take_dirty s = (sf_dirty s, s\<lparr> sf_dirty := False \<rparr>)"

record capability_publication =
  pb_publication_id :: uuid
  pb_version :: string
  pb_capabilities :: "capability_descriptor list"
  pb_published_at :: instant
  pb_content_hash :: string

definition publication_hash :: "(capability_descriptor list \<Rightarrow> string) \<Rightarrow> capability_descriptor list \<Rightarrow> string" where
  "publication_hash canonical capabilities = fnv1a_hex (canonical capabilities)"

definition publication_new ::
  "(capability_descriptor list \<Rightarrow> string) \<Rightarrow> uuid \<Rightarrow> string \<Rightarrow> capability_descriptor list \<Rightarrow> instant \<Rightarrow> capability_publication" where
  "publication_new canonical i version capabilities now =
     \<lparr> pb_publication_id = i, pb_version = version, pb_capabilities = capabilities, pb_published_at = now,
       pb_content_hash = publication_hash canonical capabilities \<rparr>"

definition is_noop_for :: "(capability_descriptor list \<Rightarrow> string) \<Rightarrow> capability_descriptor list \<Rightarrow> capability_publication \<Rightarrow> bool" where
  "is_noop_for canonical capabilities p \<longleftrightarrow> pb_content_hash p = publication_hash canonical capabilities"

fun risk_class_wire :: "risk_class \<Rightarrow> string" where
  "risk_class_wire Read = ''Read''"
| "risk_class_wire LowRisk = ''LowRisk''"
| "risk_class_wire Controlled = ''Controlled''"
| "risk_class_wire HighRisk = ''HighRisk''"
| "risk_class_wire Destructive = ''Destructive''"

fun reversibility_wire :: "reversibility \<Rightarrow> string" where
  "reversibility_wire NotReversible = ''irreversible''"
| "reversibility_wire Reversible = ''reversible''"
| "reversibility_wire PartiallyReversible = ''reversible''"

fun schema_wire :: "json \<Rightarrow> json option" where
  "schema_wire (JObj m) = (if m = [] then None else Some (JObj m))"
| "schema_wire _ = None"

definition descriptor_wire :: "bool \<Rightarrow> capability_descriptor \<Rightarrow> json" where
  "descriptor_wire requires_approval d =
     JObj ([(''id'', JStr (as_str (cd_id d))), (''provider'', JStr (cd_provider d)), (''operation'', JStr (cd_operation d)),
            (''risk_class'', JStr (risk_class_wire (cd_risk_class d))),
            (''reversibility'', JStr (reversibility_wire (cd_reversibility d)))]
        @ Ledger.member ''input_schema'' (schema_wire (cd_input_schema d))
        @ Ledger.member ''output_schema'' (schema_wire (cd_output_schema d))
        @ [(''requires_approval'', JBool requires_approval)])"

datatype mapping_error = BoundExceeded string nat nat | EncodingError string string

fun mapping_error_str :: "mapping_error \<Rightarrow> string" where
  "mapping_error_str (BoundExceeded kind actual limit) =
     kind @ '' exceeds the contract bound: '' @ show_nat actual @ '' > '' @ show_nat limit"
| "mapping_error_str (EncodingError kind detail) = ''cannot encode '' @ kind @ '': '' @ detail"

definition MAX_CAPABILITIES_PER_PUBLICATION :: nat where
  "MAX_CAPABILITIES_PER_PUBLICATION = 1000"

definition publication_payload ::
  "string \<Rightarrow> capability_descriptor list \<Rightarrow> (capability_id \<Rightarrow> bool) \<Rightarrow> mapping_error + json" where
  "publication_payload version descriptors requires_approval =
     (if MAX_CAPABILITIES_PER_PUBLICATION < length descriptors
      then Inl (BoundExceeded ''capabilities'' (length descriptors) MAX_CAPABILITIES_PER_PUBLICATION)
      else Inr (JObj [(''version'', JStr version),
                      (''capabilities'', JArr (map (\<lambda>d. descriptor_wire (requires_approval (cd_id d)) d) descriptors))]))"

definition CAPABILITY_SCHEMA_VERSION :: string where
  "CAPABILITY_SCHEMA_VERSION = ''0.1.0''"

section \<open>Telemetry and health\<close>

datatype health_state_wire = WireHealthy | WireDegraded | WireCritical | WireUnknown

fun health_state_of :: "health_state \<Rightarrow> health_state_wire" where
  "health_state_of HealthReady = WireHealthy"
| "health_state_of HealthDegraded = WireDegraded"
| "health_state_of HealthNotReady = WireCritical"

fun health_label :: "health_state_wire \<Rightarrow> string" where
  "health_label WireHealthy = ''healthy''"
| "health_label WireDegraded = ''degraded''"
| "health_label WireCritical = ''critical''"
| "health_label WireUnknown = ''unknown''"

fun human_summary :: "health_state \<Rightarrow> string" where
  "human_summary HealthReady = ''the runtime is ready''"
| "human_summary HealthDegraded = ''the runtime is degraded''"
| "human_summary HealthNotReady = ''the runtime is not ready''"

definition health_report :: "wire_text \<Rightarrow> health_status \<Rightarrow> json" where
  "health_report wt h =
     JObj [(''state'', JStr (health_label (health_state_of (hs_state h)))),
           (''summary'', JStr (case hs_reason h of Some r \<Rightarrow> r | None \<Rightarrow> human_summary (hs_state h))),
           (''reported_at'', JStr (wt_time wt (hs_checked_at h)))]"

fun connectivity_label :: "cloud_connectivity_state \<Rightarrow> string" where
  "connectivity_label CsNotConfigured = ''not_configured''"
| "connectivity_label CsConnecting = ''connecting''"
| "connectivity_label CsConnected = ''connected''"
| "connectivity_label CsDegraded = ''degraded''"
| "connectivity_label CsDisconnected = ''disconnected''"
| "connectivity_label CsSuspended = ''suspended''"
| "connectivity_label CsRevoked = ''revoked''"

record metrics_snapshot =
  ms_uptime_seconds :: u64
  ms_info :: u64
  ms_warning :: u64
  ms_error :: u64

record telemetry_source =
  tl_health_state :: health_state_wire
  tl_metrics :: metrics_snapshot
  tl_capability_count :: nat
  tl_plugin_count :: nat
  tl_connectivity :: cloud_connectivity_state
  tl_buffered_reports :: nat
  tl_dropped_reports :: u64

definition MAX_TELEMETRY_BYTES :: nat where
  "MAX_TELEMETRY_BYTES = 256 * 1024"

definition telemetry_report :: "(json \<Rightarrow> nat) \<Rightarrow> wire_text \<Rightarrow> instant \<Rightarrow> telemetry_source \<Rightarrow> mapping_error + json" where
  "telemetry_report encoded wt now src =
     (let payload = JObj [(''metrics'', JObj
            [(''health'', JStr (health_label (tl_health_state src))),
             (''uptime_seconds'', json_word (ms_uptime_seconds (tl_metrics src))),
             (''events_info'', json_word (ms_info (tl_metrics src))),
             (''events_warning'', json_word (ms_warning (tl_metrics src))),
             (''events_error'', json_word (ms_error (tl_metrics src))),
             (''capabilities'', JNum (PosInt (tl_capability_count src))),
             (''plugins'', JNum (PosInt (tl_plugin_count src))),
             (''connectivity'', JStr (connectivity_label (tl_connectivity src))),
             (''buffered_reports'', JNum (PosInt (tl_buffered_reports src))),
             (''dropped_reports'', json_word (tl_dropped_reports src))]),
            (''reported_at'', JStr (wt_time wt now))]
      in if MAX_TELEMETRY_BYTES < encoded payload
         then Inl (BoundExceeded ''telemetry'' (encoded payload) MAX_TELEMETRY_BYTES) else Inr payload)"

section \<open>The session\<close>

record ('h, 'p) session_ports =
  xp_codec :: wire_codec
  xp_canonical :: "capability_descriptor list \<Rightarrow> string"
  xp_encoded :: "json \<Rightarrow> nat"
  xp_commands :: "'h command_deps"
  xp_decide :: "uuid \<Rightarrow> bool \<Rightarrow> string \<Rightarrow> 'p \<Rightarrow> (string + string) \<times> 'p"
  xp_show_ladder :: "promotion_error \<Rightarrow> string"
  xp_show_decide :: "decide_error \<Rightarrow> string"

record ('h, 'p) session_state =
  se_daemon :: cloud_daemon
  se_commands :: "'h command_state"
  se_port :: 'p
  se_surface :: capability_surface
  se_publication :: "capability_publication option"
  se_transport :: transport
  se_flight :: in_flight
  se_heartbeat :: heartbeat
  se_schedule :: reporting_schedule

abbreviation port_text :: "('h, 'p) session_ports \<Rightarrow> wire_text" where
  "port_text ports \<equiv> wc_text (xp_codec ports)"

definition say ::
  "message_type \<Rightarrow> json \<Rightarrow> uuid option \<Rightarrow> ('h, 'p) session_state \<Rightarrow> transport_error option \<times> ('h, 'p) session_state" where
  "say ty payload correlation s =
     (let (e, t) = transport_send ty payload correlation (se_transport s) in (e, s\<lparr> se_transport := t \<rparr>))"

text \<open>Most replies ignore whether the transport took them.\<close>

definition tell :: "message_type \<Rightarrow> json \<Rightarrow> uuid option \<Rightarrow> ('h, 'p) session_state \<Rightarrow> ('h, 'p) session_state" where
  "tell ty payload correlation s = snd (say ty payload correlation s)"

record publish_input =
  pu_readable :: bool
  pu_saved :: bool
  pu_id :: uuid
  pu_now :: instant

definition publish_capabilities ::
  "('h, 'p) session_ports \<Rightarrow> publish_input \<Rightarrow> bool \<Rightarrow> ('h, 'p) session_state \<Rightarrow> transport_error option \<times> ('h, 'p) session_state" where
  "publish_capabilities ports pu published_this_session s =
     (let descriptors = sf_current (se_surface s)
      in if published_this_session \<and> pu_readable pu
            \<and> (case se_publication s of Some previous \<Rightarrow> is_noop_for (xp_canonical ports) descriptors previous | None \<Rightarrow> False)
         then (None, s)
         else case publication_payload CAPABILITY_SCHEMA_VERSION descriptors (\<lambda>_. False) of
                Inl e \<Rightarrow> (Some (SendError (mapping_error_str e)), s)
              | Inr payload \<Rightarrow>
                  (case say CapabilitiesPublish payload None s of
                     (Some e, s1) \<Rightarrow> (Some e, s1)
                   | (None, s1) \<Rightarrow>
                       (None, if pu_saved pu
                              then s1\<lparr> se_publication := Some (publication_new (xp_canonical ports) (pu_id pu)
                                       CAPABILITY_SCHEMA_VERSION descriptors (pu_now pu)) \<rparr>
                              else s1)))"

definition state_entry_json :: "wire_text \<Rightarrow> config_state_entry \<Rightarrow> json" where
  "state_entry_json wt e =
     JObj ([(''configuration_id'', JStr (wt_uuid wt (cs_configuration_id e))),
            (''applied_version_id'', json_opt (\<lambda>i. JStr (wt_uuid wt i)) (cs_applied_version_id e))]
        @ Ledger.member ''token_set'' (map_option JBool (cs_token_set e))
        @ Ledger.member ''mcp_servers'' (map_option (\<lambda>servers. JArr (map (\<lambda>(name, state, tools).
              JObj [(''name'', JStr name), (''state'', JStr state), (''tools'', JNum (PosInt (tools mod 2 ^ 32)))]) servers))
            (cs_mcp_servers e)))"

definition send_config_state ::
  "('h, 'p) session_ports \<Rightarrow> bool \<Rightarrow> uuid option \<Rightarrow> ('h, 'p) session_state \<Rightarrow> ('h, 'p) session_state" where
  "send_config_state ports listed correlation s =
     tell ConfigState
       (JObj [(''configurations'', JArr (if listed then map (state_entry_json (port_text ports)) (config_state (se_daemon s)) else []))])
       correlation s"

text \<open>The results the command channel produced since, each as a frame.\<close>

fun command_status_str :: "command_result_status \<Rightarrow> string" where
  "command_status_str ResAcknowledged = ''acknowledged''"
| "command_status_str ResFailed = ''failed''"
| "command_status_str ResRefused = ''refused''"

definition command_result_json :: "wire_text \<Rightarrow> command_result \<Rightarrow> json" where
  "command_result_json wt r =
     JObj ([(''command_id'', JStr (wt_uuid wt (rs_command_id r))), (''status'', JStr (command_status_str (rs_status r)))]
        @ Ledger.member ''result'' (map_option JObj (rs_result r)) @ Ledger.member ''reason'' (map_option JStr (rs_reason r)))"

definition with_commands ::
  "('h, 'p) session_ports \<Rightarrow> ('h command_state \<Rightarrow> 'h command_state) \<Rightarrow> ('h, 'p) session_state \<Rightarrow> ('h, 'p) session_state" where
  "with_commands ports f s =
     (let c = f (se_commands s)
      in fold (\<lambda>(r, correlation). tell CommandResultMsg (command_result_json (port_text ports) r) correlation)
           (drop (length (cl_sent (se_commands s))) (cl_sent c)) (s\<lparr> se_commands := c \<rparr>))"

subsection \<open>Reports\<close>

fun report_message :: "report_kind \<Rightarrow> message_type" where
  "report_message RkTelemetry = TelemetryReport"
| "report_message RkHealth = HealthReport"
| "report_message RkEvents = EventsReport"
| "report_message RkActivities = ActivitiesReport"
| "report_message RkSentinel = SentinelReport"
| "report_message RkActionLedger = ActionEvent"
| "report_message RkBrainTrace = BrainTraceMsg"
| "report_message RkTokenUsage = TokenUsageMsg"

fun send_reports :: "buffered_report list \<Rightarrow> ('h, 'p) session_state \<Rightarrow> transport_error option \<times> ('h, 'p) session_state" where
  "send_reports [] s = (None, s)"
| "send_reports (e # es) s =
     (case say (report_message (bu_kind e)) (bu_payload e) None s of
        (Some err, s1) \<Rightarrow> (Some err, s1)
      | (None, s1) \<Rightarrow>
          send_reports es (s1\<lparr> se_flight := se_flight s1 @ [(fst (tp_fresh (se_transport s) (tp_attempts (se_transport s))), e)] \<rparr>))"

abbreviation set_queue :: "report_queue \<Rightarrow> ('h, 'p) session_state \<Rightarrow> ('h, 'p) session_state" where
  "set_queue q s \<equiv> s\<lparr> se_daemon := (se_daemon s)\<lparr> cx_queue := q \<rparr> \<rparr>"

abbreviation session_queue :: "('h, 'p) session_state \<Rightarrow> report_queue" where
  "session_queue s \<equiv> cx_queue (se_daemon s)"

definition set_buffer :: "ledger_buffer \<Rightarrow> ('h, 'p) session_state \<Rightarrow> ('h, 'p) session_state" where
  "set_buffer b s = s\<lparr> se_daemon := (se_daemon s)\<lparr> cx_ledger := (cx_ledger (se_daemon s))\<lparr> dl_buffer := b \<rparr> \<rparr> \<rparr>"

abbreviation session_buffer :: "('h, 'p) session_state \<Rightarrow> ledger_buffer" where
  "session_buffer s \<equiv> dl_buffer (cx_ledger (se_daemon s))"

definition session_flush_reports :: "instant \<Rightarrow> ('h, 'p) session_state \<Rightarrow> transport_error option \<times> ('h, 'p) session_state" where
  "session_flush_reports now s =
     (let (entries, q) = queue_drain (length (rq_entries (session_queue s))) now (session_queue s)
      in send_reports entries (set_queue q s))"

definition session_flush_ledger ::
  "('h, 'p) session_ports \<Rightarrow> (nat \<Rightarrow> uuid) \<Rightarrow> instant \<Rightarrow> ('h, 'p) session_state \<Rightarrow>
   transport_error option \<times> ('h, 'p) session_state" where
  "session_flush_ledger ports fresh now s =
     (let (entries, b) = buffer_drain (port_text ports) fresh now (session_buffer s)
      in send_reports entries (set_buffer b s))"

definition session_requeue :: "('h, 'p) session_ports \<Rightarrow> ('h, 'p) session_state \<Rightarrow> ('h, 'p) session_state" where
  "session_requeue ports s =
     (let (q, b) = requeue_in_flight (port_text ports) (se_flight s) (session_queue s) (session_buffer s)
      in set_buffer b (set_queue q s)\<lparr> se_flight := [] \<rparr>)"

record tick_input =
  ti_now :: instant
  ti_wall :: instant
  ti_bus :: "bus_item list"
  ti_notice :: uuid
  ti_fresh :: "nat \<Rightarrow> uuid"
  ti_publish :: publish_input
  ti_ledger_fresh :: "nat \<Rightarrow> uuid"
  ti_health_readable :: bool
  ti_metrics :: metrics_snapshot
  ti_telemetry_id :: uuid
  ti_health_id :: uuid
  ti_pruned :: "bool \<times> bool"
  ti_sentinel :: "string + json"
  ti_sentinel_id :: uuid

definition collect_bus_events :: "('h, 'p) session_ports \<Rightarrow> tick_input \<Rightarrow> ('h, 'p) session_state \<Rightarrow> ('h, 'p) session_state" where
  "collect_bus_events ports ti s =
     set_queue (snd (collect_events (port_text ports) (ti_notice ti) (ti_fresh ti) (ti_wall ti) (ti_bus ti) (session_queue s))) s"

definition collect_telemetry_and_health ::
  "('h, 'p) session_ports \<Rightarrow> tick_input \<Rightarrow> ('h, 'p) session_state \<Rightarrow> ('h, 'p) session_state" where
  "collect_telemetry_and_health ports ti s =
     (let d = se_daemon s;
          health = (if ti_health_readable ti then rp_health (dl_repository (cx_ledger d)) else None);
          src = \<lparr> tl_health_state = (case health of Some h \<Rightarrow> health_state_of (hs_state h) | None \<Rightarrow> WireUnknown),
                  tl_metrics = ti_metrics ti, tl_capability_count = length (sf_current (se_surface s)), tl_plugin_count = 0,
                  tl_connectivity = ct_state (cx_tracker d), tl_buffered_reports = length (rq_entries (cx_queue d)),
                  tl_dropped_reports = rq_dropped_total (cx_queue d) \<rparr>;
          q1 = (case telemetry_report (xp_encoded ports) (port_text ports) (ti_wall ti) src of
                  Inr payload \<Rightarrow> snd (enqueue (ti_telemetry_id ti) RkTelemetry payload (ti_wall ti) (cx_queue d)) | Inl _ \<Rightarrow> cx_queue d);
          q2 = (case health of
                  Some h \<Rightarrow> snd (enqueue (ti_health_id ti) RkHealth (health_report (port_text ports) h) (ti_wall ti) q1) | None \<Rightarrow> q1);
          q3 = (case ti_sentinel ti of
                  Inr payload \<Rightarrow> snd (enqueue (ti_sentinel_id ti) RkSentinel payload (ti_wall ti) q2) | Inl _ \<Rightarrow> q2);
          ledger = ledger_prune (fst (ti_pruned ti)) (snd (ti_pruned ti)) (ti_wall ti) (cx_ledger d)
      in s\<lparr> se_daemon := d\<lparr> cx_queue := q3, cx_ledger := ledger \<rparr> \<rparr>)"

text \<open>The steps of a tick, of which the first that fails ends the session.\<close>

type_synonym ('h, 'p) session_deed = "('h, 'p) session_state \<Rightarrow> transport_error option \<times> ('h, 'p) session_state"

fun in_turn :: "('h, 'p) session_deed list \<Rightarrow> ('h, 'p) session_deed" where
  "in_turn [] s = (None, s)"
| "in_turn (f # fs) s = (case f s of (Some e, s1) \<Rightarrow> (Some e, s1) | (None, s1) \<Rightarrow> in_turn fs s1)"

definition tick_republish :: "('h, 'p) session_ports \<Rightarrow> tick_input \<Rightarrow> ('h, 'p) session_deed" where
  "tick_republish ports ti s =
     (let (dirty, surface) = take_dirty (se_surface s); s1 = s\<lparr> se_surface := surface \<rparr>
      in if dirty then publish_capabilities ports (ti_publish ti) True s1 else (None, s1))"

definition tick_ledger :: "('h, 'p) session_ports \<Rightarrow> tick_input \<Rightarrow> ('h, 'p) session_deed" where
  "tick_ledger ports ti s =
     (if buffer_empty (session_buffer s) then (None, s) else session_flush_ledger ports (ti_ledger_fresh ti) (ti_wall ti) s)"

definition tick_telemetry :: "('h, 'p) session_ports \<Rightarrow> tick_input \<Rightarrow> ('h, 'p) session_deed" where
  "tick_telemetry ports ti s =
     (if \<not> telemetry_due (ti_now ti) (se_schedule s) then (None, s)
      else case session_flush_reports (ti_wall ti) (collect_telemetry_and_health ports ti s) of
             (Some e, s1) \<Rightarrow> (Some e, s1)
           | (None, s1) \<Rightarrow> (None, s1\<lparr> se_schedule := note_telemetry_sent (ti_now ti) (se_schedule s1) \<rparr>))"

definition tick_ping :: "tick_input \<Rightarrow> ('h, 'p) session_deed" where
  "tick_ping ti s =
     (if \<not> ping_due (ti_now ti) (se_heartbeat s) then (None, s)
      else case say Ping (JObj []) None s of
             (Some e, s1) \<Rightarrow> (Some e, s1)
           | (None, s1) \<Rightarrow> (None, s1\<lparr> se_heartbeat := note_seen (ti_now ti) (se_heartbeat s1) \<rparr>))"

definition session_tick ::
  "('h, 'p) session_ports \<Rightarrow> tick_input \<Rightarrow> ('h, 'p) session_state \<Rightarrow> connection_outcome option \<times> ('h, 'p) session_state" where
  "session_tick ports ti s =
     (if is_overdue (ti_now ti) (se_heartbeat s)
      then (Some (TransportFailed ''the cloud stopped answering heartbeats''), session_requeue ports s)
      else case in_turn [tick_republish ports ti, tick_ledger ports ti, tick_telemetry ports ti, tick_ping ti]
                  (collect_bus_events ports ti s) of
             (Some e, s1) \<Rightarrow> (Some (TransportFailed (transport_error_str e)), session_requeue ports s1)
           | (None, s1) \<Rightarrow> (None, s1))"

subsection \<open>Inbound frames\<close>

record frame_input =
  fi_now :: instant
  fi_wall :: instant
  fi_io :: config_io
  fi_delivery :: delivery
  fi_rotation_failure :: "string option"
  fi_states_listed :: bool
  fi_audited :: bool
  fi_written :: bool
  fi_marked :: bool

definition command_invoke_of_json :: "wire_text \<Rightarrow> json \<Rightarrow> command_invoke option" where
  "command_invoke_of_json wt j =
     Option.bind (required (uuid_of_json wt) ''command_id'' j) (\<lambda>command_id.
     Option.bind (required as_string ''capability_id'' j) (\<lambda>capability_id.
     Option.bind (required as_object ''input'' j) (\<lambda>input.
     Option.bind (opt_of_json as_string (json_get ''correlation_id'' j)) (\<lambda>correlation.
       Some \<lparr> ci_command_id = command_id, ci_capability_id = capability_id, ci_input = input,
              ci_correlation_id = correlation \<rparr>))))"

fun config_status_str :: "config_result_status \<Rightarrow> string" where
  "config_status_str ResultApplied = ''applied''"
| "config_status_str ResultRejected = ''rejected''"
| "config_status_str ResultFailed = ''failed''"

definition reply_config_result ::
  "('h, 'p) session_ports \<Rightarrow> instant \<Rightarrow> uuid option \<Rightarrow> config_result \<Rightarrow> ('h, 'p) session_state \<Rightarrow> ('h, 'p) session_state" where
  "reply_config_result ports now correlation r =
     tell ConfigResult
       (JObj ([(''version_id'', JStr (wt_uuid (port_text ports) (cr_version_id r))), (''status'', JStr (config_status_str (cr_status r)))]
          @ Ledger.member ''reason'' (map_option JStr (cr_reason r))
          @ Ledger.member ''applied_at'' (if cr_status r = ResultApplied then Some (JStr (wt_time (port_text ports) now)) else None)))
       correlation"

definition decision_of_json :: "string \<Rightarrow> json \<Rightarrow> (string \<times> string \<times> string) option" where
  "decision_of_json subject j =
     Option.bind (required as_string subject j) (\<lambda>name.
     Option.bind (required as_string ''decision'' j) (\<lambda>decision.
     Option.bind (required as_string ''decided_by'' j) (\<lambda>decided_by. Some (name, decision, decided_by))))"

definition reply_decision ::
  "message_type \<Rightarrow> string \<Rightarrow> uuid option \<Rightarrow> string \<Rightarrow> string + string \<Rightarrow> ('h, 'p) session_state \<Rightarrow> ('h, 'p) session_state" where
  "reply_decision ty subject correlation name outcome =
     tell ty
       (JObj ([(subject, JStr name), (''accepted'', JBool (is_ok outcome))]
          @ (case outcome of Inr status \<Rightarrow> [(''outcome'', JStr status)] | Inl reason \<Rightarrow> [(''reason'', JStr reason)])))
       correlation"

definition handle_approval_decision ::
  "('h, 'p) session_ports \<Rightarrow> envelope \<Rightarrow> ('h, 'p) session_state \<Rightarrow> ('h, 'p) session_state" where
  "handle_approval_decision ports frame s =
     (let answer = reply_decision ApprovalResult ''token'' (reply_correlation frame)
      in case decision_of_json ''token'' (en_payload frame) of
           None \<Rightarrow> answer [] (Inl ''the approval decision was malformed'') s
         | Some (token, decision, decided_by) \<Rightarrow>
             if decision \<notin> {''grant'', ''deny''}
             then answer token (Inl (''unknown decision '' @ [CHR 0x27] @ decision @ [CHR 0x27])) s
             else case wt_parse_uuid (port_text ports) token of
                    None \<Rightarrow> answer token (Inl ''the token is not a UUID'') s
                  | Some i \<Rightarrow>
                      (let (outcome, p) = xp_decide ports i (decision = ''grant'') decided_by (se_port s)
                       in answer token outcome (s\<lparr> se_port := p \<rparr>)))"

definition handle_runbook_decision ::
  "('h, 'p) session_ports \<Rightarrow> frame_input \<Rightarrow> envelope \<Rightarrow> ('h, 'p) session_state \<Rightarrow> ('h, 'p) session_state" where
  "handle_runbook_decision ports fi frame s =
     (let answer = reply_decision RunbookResult ''name'' (reply_correlation frame)
      in case decision_of_json ''name'' (en_payload frame) of
           None \<Rightarrow> answer [] (Inl ''the runbook decision was malformed'') s
         | Some (name, raw, decided_by) \<Rightarrow>
             (case decision_parse raw of
                None \<Rightarrow> answer name (Inl (''unknown decision '' @ [CHR 0x27] @ raw @ [CHR 0x27])) s
              | Some d \<Rightarrow>
                  (let (outcome, m) = manager_decide (xp_show_ladder ports) (fi_audited fi) (fi_written fi) name d decided_by
                                        (cx_runbooks (se_daemon s))
                   in answer name (case outcome of Inr status \<Rightarrow> Inr status | Inl e \<Rightarrow> Inl (xp_show_decide ports e))
                        (s\<lparr> se_daemon := (se_daemon s)\<lparr> cx_runbooks := m \<rparr> \<rparr>))))"

definition ack_of_json :: "json \<Rightarrow> (string \<times> bool) option" where
  "ack_of_json j =
     Option.bind (required as_string ''message_id'' j) (\<lambda>i.
     Option.bind (required as_bool ''accepted'' j) (\<lambda>accepted.
     Option.bind (opt_of_json (word_of_json :: json \<Rightarrow> u64 option) (json_get ''count'' j)) (\<lambda>_.
     Option.bind (opt_of_json as_string (json_get ''reason'' j)) (\<lambda>_. Some (i, accepted)))))"

definition handle_ack :: "('h, 'p) session_ports \<Rightarrow> json \<Rightarrow> ('h, 'p) session_state \<Rightarrow> ('h, 'p) session_state" where
  "handle_ack ports payload s =
     (case Option.bind (ack_of_json payload) (\<lambda>(raw, accepted). map_option (\<lambda>i. (i, accepted)) (wt_parse_uuid (port_text ports) raw)) of
        None \<Rightarrow> s
      | Some (i, accepted) \<Rightarrow>
          (let (flight, q, b) = on_ack (port_text ports) i accepted (se_flight s) (session_queue s) (session_buffer s)
           in set_buffer b (set_queue q s)\<lparr> se_flight := flight \<rparr>))"

definition handle_inbound ::
  "('h, 'p) session_ports \<Rightarrow> frame_input \<Rightarrow> envelope \<Rightarrow> ('h, 'p) session_state \<Rightarrow> ('h, 'p) session_state" where
  "handle_inbound ports fi frame s =
     (case envelope_kind frame of
        None \<Rightarrow> s
      | Some ty \<Rightarrow>
          if ty = Ping then tell Pong (JObj []) (reply_correlation frame) s
          else if ty = StreamThrottle
          then (case required word_of_json ''interval_ms'' (en_payload frame) of
                  Some ms \<Rightarrow> s\<lparr> se_schedule := apply_throttle ms (fi_now fi) (se_schedule s) \<rparr> | None \<Rightarrow> s)
          else if ty = SessionRotate
          then s\<lparr> se_daemon := rotate_session_credential (xp_codec ports) (fi_rotation_failure fi) (fi_wall fi) (en_payload frame) (se_daemon s) \<rparr>
          else if ty = ConfigApply
          then (let (r, d) = apply_configuration (port_text ports) (fi_io fi) (en_payload frame) (se_daemon s)
                in reply_config_result ports (fi_wall fi) (reply_correlation frame) r (s\<lparr> se_daemon := d \<rparr>))
          else if ty = ConfigPullRequest then send_config_state ports (fi_states_listed fi) (reply_correlation frame) s
          else if ty = CommandInvokeMsg
          then with_commands ports
                 (handle_command_invoke (wt_uuid (port_text ports)) ((xp_commands ports)\<lparr> dp_surface := sf_current (se_surface s) \<rparr>)
                    (fi_delivery fi) (command_invoke_of_json (port_text ports) (en_payload frame)) (reply_correlation frame)) s
          else if ty = ApprovalDecisionMsg then handle_approval_decision ports frame s
          else if ty = RunbookDecision then handle_runbook_decision ports fi frame s
          else if is_report_ack ty then handle_ack ports (en_payload frame) s
          else s)"

subsection \<open>The loop\<close>

datatype session_event =
    EvStop | EvWake | EvTick tick_input | EvFrame frame_input envelope | EvClosed | EvFailed transport_error

fun session_step ::
  "('h, 'p) session_ports \<Rightarrow> session_event \<Rightarrow> ('h, 'p) session_state \<Rightarrow>
   (connection_outcome \<times> bool) option \<times> ('h, 'p) session_state" where
  "session_step ports EvStop s = (Some (StoppedByHuman, False), session_requeue ports s)"
| "session_step ports EvWake s = (Some (StoppedByHuman, True), session_requeue ports s)"
| "session_step ports (EvTick ti) s =
     (case session_tick ports ti s of (ended, s1) \<Rightarrow> (map_option (\<lambda>outcome. (outcome, False)) ended, s1))"
| "session_step ports (EvFrame fi frame) s =
     (let s1 = handle_inbound ports fi frame (s\<lparr> se_heartbeat := note_seen (fi_now fi) (se_heartbeat s) \<rparr>)
      in (None, s1\<lparr> se_daemon := mark_exchange (fi_marked fi) (fi_wall fi) (se_daemon s1) \<rparr>))"
| "session_step ports EvClosed s = (Some (SessionEnded, False), session_requeue ports s)"
| "session_step ports (EvFailed e) s = (Some (TransportFailed (transport_error_str e), False), session_requeue ports s)"

text \<open>A session that has not ended when the events run out is still running.\<close>

fun session_run ::
  "('h, 'p) session_ports \<Rightarrow> session_event list \<Rightarrow> ('h, 'p) session_state \<Rightarrow>
   (connection_outcome \<times> bool) option \<times> ('h, 'p) session_state" where
  "session_run ports [] s = (None, s)"
| "session_run ports (ev # evs) s =
     (case session_step ports ev s of (Some r, s1) \<Rightarrow> (Some r, s1) | (None, s1) \<Rightarrow> session_run ports evs s1)"

record start_input =
  si_now :: instant
  si_wall :: instant
  si_publish :: publish_input
  si_listing :: "uuid list option"
  si_settled :: "uuid \<Rightarrow> bool"
  si_states_listed :: bool

definition run_session ::
  "('h, 'p) session_ports \<Rightarrow> start_input \<Rightarrow> authenticated_session \<Rightarrow> session_event list \<Rightarrow> ('h, 'p) session_state \<Rightarrow>
   (connection_outcome \<times> bool) option \<times> ('h, 'p) session_state" where
  "run_session ports si session evs s =
     (let s1 = s\<lparr> se_heartbeat := heartbeat_new (as_heartbeat_interval_seconds session) (si_now si),
                  se_schedule := schedule_new (cc_telemetry_interval_seconds (cx_config (se_daemon s))) (si_now si),
                  se_flight := [] \<rparr>
      in case publish_capabilities ports (si_publish si) False s1 of
           (Some e, s2) \<Rightarrow> (Some (TransportFailed (transport_error_str e), False), s2)
         | (None, s2) \<Rightarrow>
             (let s3 = with_commands ports (resolve_interrupted_commands (si_listing si) (si_settled si) (si_wall si)) s2;
                  s4 = (if as_config_pull_required session then send_config_state ports (si_states_listed si) None s3 else s3)
              in session_run ports evs s4))"

section \<open>Supervision\<close>

datatype wait_outcome = WaitElapsed | WaitStopped | WaitWoken

record cycle_input =
  cy_stopped :: bool
  cy_enrollment_failure :: "string option"
  cy_seed_failure :: "string option"
  cy_credential_failure :: "string option"
  cy_connect :: "string \<Rightarrow> transport_error + transport"
  cy_hostname :: string
  cy_agent_version :: string
  cy_start :: start_input
  cy_events :: "session_event list"
  cy_wait :: wait_outcome
  cy_seed :: u64
  cy_saved :: bool
  cy_wall :: instant

definition RECHECK :: duration where
  "RECHECK = seconds 30"

definition supervision_policy :: "u64 \<Rightarrow> cloud_config \<Rightarrow> reconnect_policy" where
  "supervision_policy seed c =
     policy_with_seed (seconds (uint (max (cc_reconnect_base_seconds c) 1))) (seconds (uint (max (cc_reconnect_max_seconds c) 1))) seed"

definition active_endpoint :: "bool \<Rightarrow> cloud_daemon \<Rightarrow> string option \<times> cloud_daemon" where
  "active_endpoint saved d =
     (case cc_endpoint (cx_config d) of
        Some endpoint \<Rightarrow> if cloud_is_active (cx_config d) then (Some endpoint, d) else (None, set_state saved CsNotConfigured None d)
      | None \<Rightarrow> (None, set_state saved CsNotConfigured None d))"

definition enrollment_held :: "cycle_input \<Rightarrow> cloud_daemon \<Rightarrow> cloud_enrollment option \<times> cloud_daemon" where
  "enrollment_held cy d =
     (case cy_enrollment_failure cy of
        Some e \<Rightarrow> (None, set_state (cy_saved cy) CsDegraded (Some e) d)
      | None \<Rightarrow> (case cx_enrollment d of Some e \<Rightarrow> (Some e, d) | None \<Rightarrow> (None, set_state (cy_saved cy) CsNotConfigured None d)))"

fun identity_error_str :: "identity_error \<Rightarrow> string" where
  "identity_error_str NotBase64 = ''the installation key seed is not valid base64url''"
| "identity_error_str (WrongLength n) = ''the installation key seed must be '' @ show_nat SEED_LEN @ '' bytes, got '' @ show_nat n"

definition held_key :: "key_scheme \<Rightarrow> cycle_input \<Rightarrow> cloud_daemon \<Rightarrow> installation_key option \<times> cloud_daemon" where
  "held_key ks cy d =
     (case cy_seed_failure cy of
        Some e \<Rightarrow> (None, set_state (cy_saved cy) CsDegraded (Some e) d)
      | None \<Rightarrow>
          (case read_secret IdentityKey d of
             None \<Rightarrow> (None, set_state (cy_saved cy) CsDisconnected
                              (Some ''the installation key is missing; re-enrollment is required'') d)
           | Some seed \<Rightarrow>
               (case key_from_seed_b64 ks seed of
                  Inr k \<Rightarrow> (Some k, d)
                | Inl e \<Rightarrow> (None, set_state (cy_saved cy) CsDegraded
                             (Some (''the installation key is corrupt ('' @ identity_error_str e @ ''); re-enrollment is required'')) d))))"

definition held_credential :: "cycle_input \<Rightarrow> cloud_daemon \<Rightarrow> string option \<times> cloud_daemon" where
  "held_credential cy d =
     (case cy_credential_failure cy of
        Some e \<Rightarrow> (None, set_state (cy_saved cy) CsDegraded (Some e) d)
      | None \<Rightarrow> (read_secret SessionCredential d, d))"

datatype cycle_verdict = CycleReturns | CycleContinues reconnect_policy | CycleRuns

text \<open>A wait that is not for a backoff only distinguishes a stop.\<close>

definition recheck :: "cycle_input \<Rightarrow> reconnect_policy \<Rightarrow> cycle_verdict" where
  "recheck cy policy = (if cy_wait cy = WaitStopped then CycleReturns else CycleContinues policy)"

abbreviation on_daemon :: "(cloud_daemon \<Rightarrow> cloud_daemon) \<Rightarrow> ('h, 'p) session_state \<Rightarrow> ('h, 'p) session_state" where
  "on_daemon f s \<equiv> s\<lparr> se_daemon := f (se_daemon s) \<rparr>"

text \<open>After a connection: a panic of the delay is the \<open>None\<close> of the policy.\<close>

definition after_connection ::
  "cycle_input \<Rightarrow> connection_outcome \<Rightarrow> reconnect_policy \<Rightarrow> ('h, 'p) session_state \<Rightarrow> (cycle_verdict \<times> ('h, 'p) session_state) option" where
  "after_connection cy outcome policy s =
     (case policy_after outcome policy of
        None \<Rightarrow> None
      | Some (StopSupervision reason, _) \<Rightarrow>
          Some (CycleReturns, on_daemon (set_state (cy_saved cy) (fst (stop_outcome reason)) (Some (snd (stop_outcome reason)))) s)
      | Some (Reconnect _, policy1) \<Rightarrow>
          Some (case cy_wait cy of
                  WaitStopped \<Rightarrow> CycleReturns
                | WaitWoken \<Rightarrow> CycleContinues (supervision_policy (cy_seed cy) (cx_config (se_daemon s)))
                | WaitElapsed \<Rightarrow> CycleContinues policy1,
                on_daemon (set_state (cy_saved cy) CsDisconnected (Some (describe_outcome outcome))) s))"

definition request_of ::
  "key_scheme \<Rightarrow> cycle_input \<Rightarrow> cloud_enrollment \<Rightarrow> installation_key \<Rightarrow> string option \<Rightarrow> cloud_daemon \<Rightarrow> session_request" where
  "request_of ks cy enrollment k credential d =
     \<lparr> sr_expected_cloud_id = cc_expected_cloud_id (cx_config d),
       sr_identity = from_enrollment enrollment CONNECTION_PROTOCOL_LABEL (public_key_b64 ks k), sr_key = k,
       sr_session_proof = credential, sr_hostname = cy_hostname cy, sr_agent_version = cy_agent_version cy,
       sr_capability_schema_version = None \<rparr>"

definition connected_cycle ::
  "('h, 'p) session_ports \<Rightarrow> cycle_input \<Rightarrow> transport \<Rightarrow> authenticated_session \<Rightarrow> reconnect_policy \<Rightarrow> ('h, 'p) session_state \<Rightarrow>
   (cycle_verdict \<times> ('h, 'p) session_state) option" where
  "connected_cycle ports cy t session policy s =
     (let policy1 = note_connected policy;
          s1 = on_daemon (\<lambda>d. mark_exchange (cy_saved cy) (cy_wall cy) (set_state (cy_saved cy) CsConnected None d)) (s\<lparr> se_transport := t \<rparr>)
      in case run_session ports (cy_start cy) session (cy_events cy) s1 of
           (None, s2) \<Rightarrow> Some (CycleRuns, s2)
         | (Some (outcome, True), s2) \<Rightarrow>
             Some (CycleContinues (supervision_policy (cy_seed cy) (cx_config (se_daemon s2))), s2)
         | (Some (outcome, False), s2) \<Rightarrow> after_connection cy outcome policy1 s2)"

definition supervise_cycle ::
  "(string \<Rightarrow> 'v::linorder option) \<Rightarrow> key_scheme \<Rightarrow> ('h, 'p) session_ports \<Rightarrow> cycle_input \<Rightarrow> reconnect_policy \<Rightarrow>
   ('h, 'p) session_state \<Rightarrow> (cycle_verdict \<times> ('h, 'p) session_state) option" where
  "supervise_cycle parse ks ports cy policy s =
     (if cy_stopped cy then Some (CycleReturns, s)
      else case active_endpoint (cy_saved cy) (se_daemon s) of
        (None, d1) \<Rightarrow> Some (recheck cy policy, s\<lparr> se_daemon := d1 \<rparr>)
      | (Some endpoint, d1) \<Rightarrow>
      (case enrollment_held cy d1 of
        (None, d2) \<Rightarrow> Some (recheck cy policy, s\<lparr> se_daemon := d2 \<rparr>)
      | (Some enrollment, d2) \<Rightarrow>
      (case held_key ks cy d2 of
        (None, d3) \<Rightarrow> Some (recheck cy policy, s\<lparr> se_daemon := d3 \<rparr>)
      | (Some k, d3) \<Rightarrow>
          (let (credential, d4) = held_credential cy d3;
               s1 = s\<lparr> se_daemon := set_state (cy_saved cy) CsConnecting None d4 \<rparr>
           in case connect_once (xp_codec ports) ks parse (cy_connect cy) endpoint
                     (request_of ks cy enrollment k credential (se_daemon s1)) of
                Inl outcome \<Rightarrow> after_connection cy outcome policy s1
              | Inr (t, session) \<Rightarrow> connected_cycle ports cy t session policy s1))))"

text \<open>The loop over what each cycle meets; whether supervision has returned when the inputs run out.\<close>

fun supervise ::
  "(string \<Rightarrow> 'v::linorder option) \<Rightarrow> key_scheme \<Rightarrow> ('h, 'p) session_ports \<Rightarrow> cycle_input list \<Rightarrow> reconnect_policy \<Rightarrow>
   ('h, 'p) session_state \<Rightarrow> (bool \<times> ('h, 'p) session_state) option" where
  "supervise parse ks ports [] policy s = Some (False, s)"
| "supervise parse ks ports (cy # cys) policy s =
     (case supervise_cycle parse ks ports cy policy s of
        None \<Rightarrow> None
      | Some (CycleReturns, s1) \<Rightarrow> Some (True, s1)
      | Some (CycleRuns, s1) \<Rightarrow> Some (False, s1)
      | Some (CycleContinues policy1, s1) \<Rightarrow> supervise parse ks ports cys policy1 s1)"

section \<open>Frames of a session\<close>

definition accepting :: "transport \<Rightarrow> bool" where
  "accepting t \<longleftrightarrow> (\<forall>n. tp_verdict t n = None)"

lemma say_frame:
  "say ty payload c s = (e, s') \<Longrightarrow> s' = s\<lparr> se_transport := se_transport s' \<rparr> \<and> tp_verdict (se_transport s') = tp_verdict (se_transport s)
     \<and> tp_fresh (se_transport s') = tp_fresh (se_transport s) \<and> tp_attempts (se_transport s') = Suc (tp_attempts (se_transport s))"
  by (auto simp: say_def transport_send_def Let_def split: option.splits)

lemma say_accepted: "accepting (se_transport s) \<Longrightarrow> fst (say ty payload c s) = None"
  by (simp add: say_def transport_send_def Let_def accepting_def)

lemma tell_frame [simp]:
  "se_daemon (tell ty payload c s) = se_daemon s"
  "se_commands (tell ty payload c s) = se_commands s"
  "se_port (tell ty payload c s) = se_port s"
  "se_surface (tell ty payload c s) = se_surface s"
  "se_publication (tell ty payload c s) = se_publication s"
  "se_flight (tell ty payload c s) = se_flight s"
  "se_heartbeat (tell ty payload c s) = se_heartbeat s"
  "se_schedule (tell ty payload c s) = se_schedule s"
  "tp_verdict (se_transport (tell ty payload c s)) = tp_verdict (se_transport s)"
  "tp_fresh (se_transport (tell ty payload c s)) = tp_fresh (se_transport s)"
  "tp_attempts (se_transport (tell ty payload c s)) = Suc (tp_attempts (se_transport s))"
  by (simp_all add: tell_def say_def transport_send_def Let_def case_prod_beta split: option.split)

lemma set_buffer_frame [simp]:
  "session_queue (set_buffer b s) = session_queue s" "session_buffer (set_buffer b s) = b"
  "se_flight (set_buffer b s) = se_flight s" "se_transport (set_buffer b s) = se_transport s"
  "se_surface (set_buffer b s) = se_surface s" "se_heartbeat (set_buffer b s) = se_heartbeat s"
  by (simp_all add: set_buffer_def)

text \<open>What every deed of a tick but the ping leaves alone, on a transport that accepts everything.\<close>

definition calm :: "('h, 'p) session_state \<Rightarrow> ('h, 'p) session_state \<Rightarrow> bool" where
  "calm s s' \<longleftrightarrow> tp_verdict (se_transport s') = tp_verdict (se_transport s) \<and> tp_fresh (se_transport s') = tp_fresh (se_transport s)
     \<and> sf_current (se_surface s') = sf_current (se_surface s) \<and> se_heartbeat s' = se_heartbeat s"

lemma calm_trans: "calm s s' \<Longrightarrow> calm s' s'' \<Longrightarrow> calm s s''"
  by (simp add: calm_def)

lemma calm_accepting: "calm s s' \<Longrightarrow> accepting (se_transport s') \<longleftrightarrow> accepting (se_transport s)"
  by (simp add: calm_def accepting_def)

lemma say_calm: "calm s (snd (say ty payload c s))"
  by (simp add: calm_def tell_def [symmetric])

lemma send_reports_calm:
  "calm s (snd (send_reports es s)) \<and> (accepting (se_transport s) \<longrightarrow> fst (send_reports es s) = None)"
proof (induction es arbitrary: s)
  case Nil
  then show ?case by (simp add: calm_def)
next
  case (Cons e es)
  obtain r s1 where r: "say (report_message (bu_kind e)) (bu_payload e) None s = (r, s1)" by fastforce
  have c: "calm s s1" using say_calm [of s] r by (metis snd_conv)
  show ?case
  proof (cases r)
    case (Some x)
    then show ?thesis using r c say_accepted [of s "report_message (bu_kind e)" "bu_payload e" None] by auto
  next
    case None
    let ?s2 = "s1\<lparr> se_flight := se_flight s1 @ [(fst (tp_fresh (se_transport s) (tp_attempts (se_transport s))), e)] \<rparr>"
    have c2: "calm s ?s2" using c by (simp add: calm_def)
    show ?thesis using Cons.IH [of ?s2] calm_trans [OF c2] calm_accepting [OF c2] None r by simp
  qed
qed

lemma flush_calm:
  "calm s (snd (session_flush_reports now s)) \<and> (accepting (se_transport s) \<longrightarrow> fst (session_flush_reports now s) = None)"
  "calm s (snd (session_flush_ledger ports fresh now s)) \<and> (accepting (se_transport s) \<longrightarrow> fst (session_flush_ledger ports fresh now s) = None)"
proof -
  obtain entries q where d: "queue_drain (length (rq_entries (session_queue s))) now (session_queue s) = (entries, q)" by fastforce
  have "calm s (set_queue q s)" by (simp add: calm_def)
  then show "calm s (snd (session_flush_reports now s)) \<and> (accepting (se_transport s) \<longrightarrow> fst (session_flush_reports now s) = None)"
    using send_reports_calm [of "set_queue q s" entries] calm_trans calm_accepting [of s "set_queue q s"]
    by (auto simp: session_flush_reports_def d)
  obtain ledger b where l: "buffer_drain (port_text ports) fresh now (session_buffer s) = (ledger, b)" by fastforce
  have "calm s (set_buffer b s)" by (simp add: calm_def)
  then show "calm s (snd (session_flush_ledger ports fresh now s)) \<and> (accepting (se_transport s) \<longrightarrow> fst (session_flush_ledger ports fresh now s) = None)"
    using send_reports_calm [of "set_buffer b s" ledger] calm_trans calm_accepting [of s "set_buffer b s"]
    by (auto simp: session_flush_ledger_def l)
qed

lemma publish_calm:
  "calm s (snd (publish_capabilities ports pu again s))
   \<and> (accepting (se_transport s) \<and> length (sf_current (se_surface s)) \<le> MAX_CAPABILITIES_PER_PUBLICATION
        \<longrightarrow> fst (publish_capabilities ports pu again s) = None)"
proof (cases "publication_payload CAPABILITY_SCHEMA_VERSION (sf_current (se_surface s)) (\<lambda>_. False)")
  case (Inl e)
  then have "MAX_CAPABILITIES_PER_PUBLICATION < length (sf_current (se_surface s))"
    by (auto simp: publication_payload_def split: if_splits)
  then show ?thesis by (simp add: publish_capabilities_def Let_def Inl calm_def)
next
  case (Inr payload)
  obtain r s1 where r: "say CapabilitiesPublish payload None s = (r, s1)" by fastforce
  have "calm s s1" using say_calm [of s CapabilitiesPublish payload None] r by simp
  moreover have "accepting (se_transport s) \<longrightarrow> r = None" using say_accepted [of s CapabilitiesPublish payload None] r by simp
  ultimately show ?thesis by (simp add: publish_capabilities_def Let_def Inr r calm_def split: option.split)
qed

lemma deeds_calm:
  "calm s (snd (tick_republish ports ti s))" "calm s (snd (tick_ledger ports ti s))" "calm s (snd (tick_telemetry ports ti s))"
  "calm s (collect_bus_events ports ti s)"
  "accepting (se_transport s) \<and> length (sf_current (se_surface s)) \<le> MAX_CAPABILITIES_PER_PUBLICATION \<Longrightarrow> fst (tick_republish ports ti s) = None"
  "accepting (se_transport s) \<Longrightarrow> fst (tick_ledger ports ti s) = None"
  "accepting (se_transport s) \<Longrightarrow> fst (tick_telemetry ports ti s) = None"
proof -
  have refl: "calm s s" by (simp add: calm_def)
  let ?s1 = "s\<lparr> se_surface := (se_surface s)\<lparr> sf_dirty := False \<rparr> \<rparr>"
  have c1: "calm s ?s1" by (simp add: calm_def)
  show "calm s (snd (tick_republish ports ti s))"
    using calm_trans [OF c1] publish_calm [of ?s1 ports "ti_publish ti" True] c1
    by (simp add: tick_republish_def take_dirty_def Let_def)
  show "accepting (se_transport s) \<and> length (sf_current (se_surface s)) \<le> MAX_CAPABILITIES_PER_PUBLICATION \<Longrightarrow> fst (tick_republish ports ti s) = None"
    using publish_calm [of ?s1 ports "ti_publish ti" True]
    by (simp add: tick_republish_def take_dirty_def Let_def)
  show "calm s (snd (tick_ledger ports ti s))" "accepting (se_transport s) \<Longrightarrow> fst (tick_ledger ports ti s) = None"
    using refl flush_calm(2) [of s ports "ti_ledger_fresh ti" "ti_wall ti"] by (simp_all add: tick_ledger_def)
  have c2: "calm s (collect_telemetry_and_health ports ti s)" by (simp add: calm_def collect_telemetry_and_health_def Let_def)
  have c3: "calm s' (s'\<lparr> se_schedule := x \<rparr>)" for s' :: "('a, 'b) session_state" and x by (simp add: calm_def)
  show "calm s (snd (tick_telemetry ports ti s))" "accepting (se_transport s) \<Longrightarrow> fst (tick_telemetry ports ti s) = None"
    using refl flush_calm(1) [of "collect_telemetry_and_health ports ti s" "ti_wall ti"] calm_trans [OF c2] calm_accepting [OF c2]
      calm_trans [OF _ c3]
    by (auto simp: tick_telemetry_def split: prod.split option.split)
  show "calm s (collect_bus_events ports ti s)" by (simp add: calm_def collect_bus_events_def)
qed

section \<open>A silent cloud\<close>

lemma quiet_tick:
  assumes "accepting (se_transport s)" "length (sf_current (se_surface s)) \<le> MAX_CAPABILITIES_PER_PUBLICATION"
    and "\<not> is_overdue (ti_now ti) (se_heartbeat s)"
  shows "\<exists>s'. session_tick ports ti s = (None, s') \<and> accepting (se_transport s')
       \<and> length (sf_current (se_surface s')) \<le> MAX_CAPABILITIES_PER_PUBLICATION
       \<and> se_heartbeat s' = (if ping_due (ti_now ti) (se_heartbeat s) then note_seen (ti_now ti) (se_heartbeat s) else se_heartbeat s)"
proof -
  let ?s0 = "collect_bus_events ports ti s"
  have c0: "calm s ?s0" by (rule deeds_calm)
  obtain s1 where s1: "tick_republish ports ti ?s0 = (None, s1)" "calm s s1"
    using deeds_calm(5) [of ?s0 ports ti] calm_trans [OF c0 deeds_calm(1)] calm_accepting [OF c0] assms(1,2) c0
    by (metis calm_def prod.collapse)
  obtain s2 where s2: "tick_ledger ports ti s1 = (None, s2)" "calm s s2"
    using deeds_calm(6) [of s1 ports ti] calm_trans [OF s1(2) deeds_calm(2)] calm_accepting [OF s1(2)] assms(1) by (metis prod.collapse)
  obtain s3 where s3: "tick_telemetry ports ti s2 = (None, s3)" "calm s s3"
    using deeds_calm(7) [of s2 ports ti] calm_trans [OF s2(2) deeds_calm(3)] calm_accepting [OF s2(2)] assms(1) by (metis prod.collapse)
  obtain s4 where s4: "say Ping (JObj []) None s3 = (None, s4)" "calm s s4"
    using say_accepted [of s3] say_calm [of s3 Ping "JObj []" None] calm_trans [OF s3(2)] calm_accepting [OF s3(2)] assms(1)
    by (metis prod.collapse)
  have "session_tick ports ti s = (None, if ping_due (ti_now ti) (se_heartbeat s3)
      then s4\<lparr> se_heartbeat := note_seen (ti_now ti) (se_heartbeat s4) \<rparr> else s3)"
    using assms(3) s1(1) s2(1) s3(1) s4(1) by (simp add: session_tick_def tick_ping_def)
  then show ?thesis using s3(2) s4(2) assms by (auto simp: calm_def accepting_def)
qed

fun paced :: "duration \<Rightarrow> instant \<Rightarrow> tick_input list \<Rightarrow> bool" where
  "paced gap from [] = True"
| "paced gap from (ti # tis) = (from \<le> ti_now ti \<and> ti_now ti \<le> from + gap \<and> paced gap (ti_now ti) tis)"

text \<open>
  A cloud that never answers is never noticed: the ping the installation itself sends counts as a
  sign of life, so as long as ticks come no further apart than the grace period, a session whose
  transport accepts what is written runs on, however long nothing is received.
\<close>

theorem silent_cloud_unnoticed:
  assumes "accepting (se_transport s)" "length (sf_current (se_surface s)) \<le> MAX_CAPABILITIES_PER_PUBLICATION"
    and "hb_last_seen (se_heartbeat s) \<le> from" "from - hb_last_seen (se_heartbeat s) < hb_interval (se_heartbeat s)"
    and "paced (hb_grace (se_heartbeat s)) from tis"
  shows "fst (session_run ports (map EvTick tis) s) = None"
  using assms
proof (induction tis arbitrary: s "from")
  case Nil
  then show ?case by simp
next
  case (Cons ti tis)
  let ?h = "se_heartbeat s"
  have alert: "\<not> is_overdue (ti_now ti) ?h"
    using Cons.prems(3-5) by (simp add: is_overdue_def heartbeat_timeout_def silent_for_def)
  obtain s' where s': "session_tick ports ti s = (None, s')" "accepting (se_transport s')"
      "length (sf_current (se_surface s')) \<le> MAX_CAPABILITIES_PER_PUBLICATION"
      "se_heartbeat s' = (if ping_due (ti_now ti) ?h then note_seen (ti_now ti) ?h else ?h)"
    using quiet_tick [OF Cons.prems(1,2) alert] by blast
  have "hb_last_seen (se_heartbeat s') \<le> ti_now ti" "hb_grace (se_heartbeat s') = hb_grace ?h"
    using Cons.prems(3,5) by (auto simp: s'(4) note_seen_def)
  moreover have "ti_now ti - hb_last_seen (se_heartbeat s') < hb_interval (se_heartbeat s')"
    using Cons.prems(3-5) by (auto simp: s'(4) note_seen_def ping_due_def silent_for_def)
  ultimately show ?case using Cons.IH [OF s'(2,3)] Cons.prems(5) by (simp add: s'(1))
qed

section \<open>No report leaves silently\<close>

definition report_ids :: "report_queue \<Rightarrow> uuid set" where
  "report_ids q = bu_entry_id ` {e \<in> set (rq_entries q). \<not> is_ledger (bu_kind e)}"

definition flying_ids :: "in_flight \<Rightarrow> uuid set" where
  "flying_ids flight = bu_entry_id ` {e \<in> snd ` set flight. \<not> is_ledger (bu_kind e)}"

definition held :: "('h, 'p) session_state \<Rightarrow> uuid set" where
  "held s = report_ids (session_queue s) \<union> flying_ids (se_flight s)"

definition counted :: "u64 \<Rightarrow> u64 \<Rightarrow> bool" where
  "counted a b \<longleftrightarrow> a < b \<or> b = - 1"

text \<open>Nothing but the reports of a set leaves, or the loss shows in the counter.\<close>

definition custody :: "uuid set \<Rightarrow> uuid set \<Rightarrow> u64 \<Rightarrow> uuid set \<Rightarrow> u64 \<Rightarrow> bool" where
  "custody out ids dropped ids' dropped' \<longleftrightarrow> dropped \<le> dropped' \<and> (ids \<subseteq> ids' \<union> out \<or> counted dropped dropped')"

lemma custody_trans:
  "custody X ids a ids' b \<Longrightarrow> custody Y ids' b ids'' c \<Longrightarrow> custody (X \<union> Y) ids a ids'' c"
proof -
  assume one: "custody X ids a ids' b" and two: "custody Y ids' b ids'' c"
  have top: "b = - 1 \<Longrightarrow> c = - 1" using two by (metis custody_def word_order.extremum_unique)
  have "a \<le> c" using one two by (auto simp: custody_def)
  moreover have "counted a b \<or> counted b c \<Longrightarrow> counted a c"
    using one two top by (auto simp: counted_def custody_def)
  ultimately show ?thesis using one two by (auto simp: custody_def)
qed

lemma unat_u64: "unat (d :: u64) \<le> 2 ^ 64 - 1"
  using unsigned_less [of d, where ?'a = nat] by simp

lemma counted_drops: "0 < n \<Longrightarrow> counted d (((\<lambda>d. sat_add d 1) ^^ n) d)"
proof -
  assume "0 < n"
  have "unat (((\<lambda>d. sat_add d 1) ^^ n) d) = min (unat d + n) (2 ^ 64 - 1)" by (rule saturating_count)
  moreover have "unat (- 1 :: u64) = 2 ^ 64 - 1" using uint_minus_one_64 by (simp flip: nat_uint_eq)
  moreover have "unat d \<le> 2 ^ 64 - 1" by (rule unat_u64)
  ultimately show ?thesis using \<open>0 < n\<close> by (auto simp: counted_def word_less_nat_alt word_unat_eq_iff min_def)
qed

lemma drops_grow: "d \<le> ((\<lambda>d. sat_add d (1 :: u64)) ^^ n) d"
  using unat_u64 [of d] by (simp add: word_le_nat_alt saturating_count)

abbreviation queue_keeps :: "report_queue \<Rightarrow> report_queue \<Rightarrow> bool" where
  "queue_keeps q q' \<equiv> custody {} (report_ids q) (rq_dropped_total q) (report_ids q') (rq_dropped_total q')"

lemma queue_keeps_trans: "queue_keeps q q' \<Longrightarrow> queue_keeps q' q'' \<Longrightarrow> queue_keeps q q''"
  using custody_trans [of "{}" _ _ _ _ "{}"] by fastforce

lemma enqueue_keeps: "queue_keeps q (snd (enqueue i kind payload now q))"
proof (cases "rq_capacity q \<le> length (rq_entries q) \<and> rq_entries q \<noteq> []")
  case True
  then obtain e es where "rq_entries q = e # es" by (cases "rq_entries q") auto
  then show ?thesis
    using True counted_drops [of 1 "rq_dropped_total q"] drops_grow [of "rq_dropped_total q" 1]
    by (simp add: enqueue_def custody_def count_dropped_def)
next
  case False
  then show ?thesis by (auto simp: enqueue_def custody_def report_ids_def)
qed

lemma enqueue_all_keeps: "queue_keeps q (enqueue_all rs q)"
proof (induction rs arbitrary: q)
  case Nil
  then show ?case by (simp add: enqueue_all_def custody_def)
next
  case (Cons r rs)
  obtain i kind payload now where r: "r = (i, kind, payload, now)" by (cases r)
  then have "enqueue_all (r # rs) q = enqueue_all rs (snd (enqueue i kind payload now q))" by (simp add: enqueue_all_def)
  then show ?case using queue_keeps_trans [OF enqueue_keeps Cons.IH] by simp
qed

lemma requeue_front_keeps:
  "custody {} (report_ids q \<union> bu_entry_id ` {e \<in> set es. \<not> is_ledger (bu_kind e)}) (rq_dropped_total q)
     (report_ids (requeue_front es q)) (rq_dropped_total (requeue_front es q))"
proof (cases "length (es @ rq_entries q) - rq_capacity q = 0")
  case True
  then show ?thesis by (auto simp: requeue_front_def Let_def custody_def count_dropped_def report_ids_def)
next
  case False
  then show ?thesis
    using counted_drops [of "length (es @ rq_entries q) - rq_capacity q" "rq_dropped_total q"]
      drops_grow [of "rq_dropped_total q" "length (es @ rq_entries q) - rq_capacity q"]
    by (simp add: requeue_front_def Let_def custody_def count_dropped_def)
qed

text \<open>The identifiers in flight are distinct, and were drawn before.\<close>

definition sent_id :: "('h, 'p) session_state \<Rightarrow> nat \<Rightarrow> uuid" where
  "sent_id s n = fst (tp_fresh (se_transport s) n)"

definition flight_ok :: "('h, 'p) session_state \<Rightarrow> bool" where
  "flight_ok s \<longleftrightarrow> distinct (map fst (se_flight s)) \<and> fst ` set (se_flight s) \<subseteq> sent_id s ` {..<tp_attempts (se_transport s)}"

text \<open>
  The transport accepts what is written and the first \<open>N\<close> identifiers it draws differ. What a deed
  keeps is stated for runs that draw no more.
\<close>

definition ready :: "nat \<Rightarrow> ('h, 'p) session_state \<Rightarrow> bool" where
  "ready N s \<longleftrightarrow> accepting (se_transport s) \<and> inj_on (sent_id s) {..<N} \<and> flight_ok s"

abbreviation attempts :: "('h, 'p) session_state \<Rightarrow> nat" where
  "attempts s \<equiv> tp_attempts (se_transport s)"

definition keeps :: "nat \<Rightarrow> uuid set \<Rightarrow> ('h, 'p) session_state \<Rightarrow> ('h, 'p) session_state \<Rightarrow> bool" where
  "keeps N out s s' \<longleftrightarrow> attempts s \<le> attempts s'
     \<and> (ready N s \<and> attempts s' \<le> N \<longrightarrow>
          ready N s' \<and> custody out (held s) (rq_dropped_total (session_queue s)) (held s') (rq_dropped_total (session_queue s')))"

lemma keeps_trans: "keeps N X s s' \<Longrightarrow> keeps N Y s' s'' \<Longrightarrow> keeps N (X \<union> Y) s s''"
  by (fastforce simp: keeps_def intro: custody_trans)

lemma keeps_then: "keeps N {} s s' \<Longrightarrow> keeps N X s' s'' \<Longrightarrow> keeps N X s s''"
  using keeps_trans [of N "{}" s s' X s''] by simp

definition same_wire :: "('h, 'p) session_state \<Rightarrow> ('h, 'p) session_state \<Rightarrow> bool" where
  "same_wire s s' \<longleftrightarrow> tp_verdict (se_transport s') = tp_verdict (se_transport s) \<and> tp_fresh (se_transport s') = tp_fresh (se_transport s)
     \<and> tp_attempts (se_transport s) \<le> tp_attempts (se_transport s')"

lemma same_wire_ready:
  assumes "same_wire s s'" "ready N s" "distinct (map fst (se_flight s'))" "fst ` set (se_flight s') \<subseteq> fst ` set (se_flight s)"
  shows "ready N s'"
proof -
  have "sent_id s' = sent_id s" using assms(1) by (auto simp: same_wire_def sent_id_def)
  moreover have "sent_id s ` {..<tp_attempts (se_transport s)} \<subseteq> sent_id s ` {..<tp_attempts (se_transport s')}"
    using assms(1) by (auto simp: same_wire_def)
  moreover have "accepting (se_transport s')" using assms(1,2) by (simp add: same_wire_def ready_def accepting_def)
  moreover have "fst ` set (se_flight s') \<subseteq> sent_id s ` {..<tp_attempts (se_transport s)}" "inj_on (sent_id s) {..<N}"
    using assms(2,4) by (auto simp: ready_def flight_ok_def)
  ultimately show ?thesis using assms(3) by (auto simp: ready_def flight_ok_def)
qed

lemma keeps_queue:
  assumes "same_wire s s'" "se_flight s' = se_flight s" "queue_keeps (session_queue s) (session_queue s')"
  shows "keeps N {} s s'"
proof -
  have "ready N s \<Longrightarrow> ready N s'" using same_wire_ready [OF assms(1), of N] assms(2) by (auto simp: ready_def flight_ok_def)
  then show ?thesis using assms by (auto simp: keeps_def held_def custody_def same_wire_def)
qed

lemma keeps_idle:
  assumes "same_wire s s'" "se_flight s' = se_flight s" "session_queue s' = session_queue s"
  shows "keeps N {} s s'"
  using assms by (intro keeps_queue) (simp_all add: custody_def)

lemma keeps_refl: "keeps N {} s s"
  by (rule keeps_idle) (simp_all add: same_wire_def)

subsection \<open>Sending and returning\<close>

lemma send_reports_attempts: "attempts s \<le> attempts (snd (send_reports es s))"
proof (induction es arbitrary: s)
  case Nil
  then show ?case by simp
next
  case (Cons e es)
  obtain r s1 where r: "say (report_message (bu_kind e)) (bu_payload e) None s = (r, s1)" by fastforce
  let ?s2 = "s1\<lparr> se_flight := se_flight s1 @ [(fst (tp_fresh (se_transport s) (attempts s)), e)] \<rparr>"
  show ?case using say_frame [OF r] Cons.IH [of ?s2] r by (simp split: option.split)
qed

lemma send_reports_flight:
  assumes "ready N s" "attempts (snd (send_reports es s)) \<le> N"
  shows "ready N (snd (send_reports es s)) \<and> session_queue (snd (send_reports es s)) = session_queue s
     \<and> snd ` set (se_flight (snd (send_reports es s))) = snd ` set (se_flight s) \<union> set es"
  using assms
proof (induction es arbitrary: s)
  case Nil
  then show ?case by simp
next
  case (Cons e es)
  let ?n = "attempts s"
  obtain s1 where s1: "say (report_message (bu_kind e)) (bu_payload e) None s = (None, s1)"
    using say_accepted [of s "report_message (bu_kind e)" "bu_payload e" None] Cons.prems(1) by (metis ready_def prod.collapse)
  note frame = say_frame [OF s1]
  let ?s2 = "s1\<lparr> se_flight := se_flight s1 @ [(sent_id s ?n, e)] \<rparr>"
  have same: "se_flight s1 = se_flight s" "session_queue s1 = session_queue s" "sent_id ?s2 = sent_id s"
      "attempts ?s2 = Suc ?n" "accepting (se_transport ?s2)"
    using frame Cons.prems(1) by (metis session_state.select_convs(6,7,1) session_state.surjective session_state.update_convs(6),
      metis session_state.select_convs(1) session_state.surjective session_state.update_convs(6), auto simp: sent_id_def ready_def accepting_def)
  have tail: "send_reports (e # es) s = send_reports es ?s2" using s1 by (simp add: sent_id_def)
  then have n: "?n < N" using send_reports_attempts [of ?s2 es] Cons.prems(2) same(4) by simp
  have "sent_id s ?n \<noteq> sent_id s x" if "x < ?n" for x
    using inj_onD [of "sent_id s" "{..<N}" ?n x] Cons.prems(1) that n by (auto simp: ready_def)
  then have "sent_id s ?n \<notin> fst ` set (se_flight s)" using Cons.prems(1) by (fastforce simp: ready_def flight_ok_def)
  then have "ready N ?s2"
    using Cons.prems(1) same by (auto simp: ready_def flight_ok_def less_Suc_eq)
  then show ?case using Cons.IH [of ?s2] Cons.prems(2) same tail by auto
qed

lemma attempted_ids:
  "bu_entry_id ` {e \<in> attempted ` A. \<not> is_ledger (bu_kind e)} = bu_entry_id ` {e \<in> A. \<not> is_ledger (bu_kind e)}"
proof -
  have "{e \<in> attempted ` A. \<not> is_ledger (bu_kind e)} = attempted ` {e \<in> A. \<not> is_ledger (bu_kind e)}" by auto
  moreover have "bu_entry_id (attempted e) = bu_entry_id e" for e by (simp add: attempted_def)
  ultimately show ?thesis by (simp only: image_image)
qed

lemma flush_reports_keeps: "keeps N {} s (snd (session_flush_reports now s))"
proof -
  let ?es = "map attempted (rq_entries (session_queue s))"
  obtain q where d: "queue_drain (length (rq_entries (session_queue s))) now (session_queue s) = (?es, q)"
      and q: "rq_dropped_total q = rq_dropped_total (session_queue s)"
    by (simp add: queue_drain_def Let_def)
  have ids: "report_ids (session_queue s) = bu_entry_id ` {e \<in> set ?es. \<not> is_ledger (bu_kind e)}"
    by (simp add: report_ids_def attempted_ids)
  have f: "session_flush_reports now s = send_reports ?es (set_queue q s)" by (simp add: session_flush_reports_def d)
  have "ready N s \<Longrightarrow> ready N (set_queue q s)" by (rule same_wire_ready [of s]) (auto simp: same_wire_def ready_def flight_ok_def)
  then show ?thesis
    using send_reports_flight [of N "set_queue q s" ?es] send_reports_attempts [of "set_queue q s" ?es] q ids
    by (auto simp: keeps_def f custody_def held_def flying_ids_def)
qed

lemma flush_ledger_keeps: "keeps N {} s (snd (session_flush_ledger ports fresh now s))"
proof -
  obtain es b where d: "buffer_drain (port_text ports) fresh now (session_buffer s) = (es, b)" by fastforce
  have f: "session_flush_ledger ports fresh now s = send_reports es (set_buffer b s)" by (simp add: session_flush_ledger_def d)
  have "ready N s \<Longrightarrow> ready N (set_buffer b s)" by (rule same_wire_ready [of s]) (auto simp: same_wire_def ready_def flight_ok_def)
  then show ?thesis
    using send_reports_flight [of N "set_buffer b s" es] send_reports_attempts [of "set_buffer b s" es]
    by (auto simp: keeps_def f custody_def held_def flying_ids_def)
qed

lemma requeue_keeps: "keeps N {} s (session_requeue ports s) \<and> se_flight (session_requeue ports s) = []"
proof -
  obtain q b where r: "requeue_in_flight (port_text ports) (se_flight s) (session_queue s) (session_buffer s) = (q, b)" by fastforce
  have s': "session_requeue ports s = set_buffer b (set_queue q s)\<lparr> se_flight := [] \<rparr>" by (simp add: session_requeue_def r)
  have "ready N s \<Longrightarrow> ready N (session_requeue ports s)"
    by (rule same_wire_ready [of s]) (auto simp: s' same_wire_def ready_def flight_ok_def)
  moreover have "custody {} (held s) (rq_dropped_total (session_queue s)) (report_ids q) (rq_dropped_total q)"
  proof (cases "se_flight s = []")
    case True
    then show ?thesis using r by (auto simp: requeue_in_flight_def custody_def held_def flying_ids_def)
  next
    case False
    let ?es = "filter (\<lambda>e. \<not> is_ledger (bu_kind e)) (sort_key bu_enqueued_at (map snd (se_flight s)))"
    have "q = requeue_front ?es (session_queue s)" using r False by (simp add: requeue_in_flight_def Let_def)
    moreover have "flying_ids (se_flight s) = bu_entry_id ` {e \<in> set ?es. \<not> is_ledger (bu_kind e)}"
      by (auto simp: flying_ids_def)
    ultimately show ?thesis using requeue_front_keeps [of "session_queue s" ?es] by (simp add: held_def)
  qed
  ultimately show ?thesis by (simp add: keeps_def s' held_def flying_ids_def)
qed

subsection \<open>Deeds and frames\<close>

lemma record_applied_queue [simp]: "cx_queue (record_applied io kind p d) = cx_queue d"
  by (simp add: record_applied_def Let_def)

lemma write_secret_queue: "write_secret failure f v d = (e, d') \<Longrightarrow> cx_queue d' = cx_queue d"
  by (auto simp: write_secret_def split: if_splits option.splits)

lemma provider_queue: "cx_queue (snd (apply_provider_delivery io kind p d)) = cx_queue d"
proof (cases "split_provider_content (ca_content p)")
  case (Inl reason)
  then show ?thesis by (simp add: apply_provider_delivery_def)
next
  case (Inr pair)
  obtain settings credential where pair: "pair = (settings, credential)" by fastforce
  obtain e d1 where w: "(case credential of None \<Rightarrow> (None, d)
      | Some c \<Rightarrow> write_secret (io_secret_failure io) ProviderCredential c d) = (e, d1)" by fastforce
  then have "cx_queue d1 = cx_queue d" by (auto split: option.splits dest: write_secret_queue)
  then show ?thesis
    by (simp add: apply_provider_delivery_def Inr pair w write_settings_def Let_def split: sum.split option.split)
qed

lemma configuration_queue: "cx_queue (snd (apply_configuration wt io payload d)) = cx_queue d"
proof -
  have "cx_queue (snd (apply_runbook_delivery io p d)) = cx_queue d" for p
    by (simp add: apply_runbook_delivery_def split: option.split prod.split sum.split)
  moreover have "cx_queue (snd (apply_mcp_delivery io p d)) = cx_queue d" for p
    by (simp add: apply_mcp_delivery_def Let_def split: option.split)
  ultimately show ?thesis using provider_queue [of io _ _ d]
    by (simp add: apply_configuration_def split: option.split)
qed

lemma rotation_queue: "cx_queue (rotate_session_credential wc failure now payload d) = cx_queue d"
proof -
  have "cx_queue (snd (write_secret failure f v d)) = cx_queue d" for f v by (rule write_secret_queue) (rule prod.collapse [symmetric])
  then show ?thesis by (simp add: rotate_session_credential_def split: option.split)
qed

lemma mark_exchange_queue [simp]: "cx_queue (mark_exchange saved now d) = cx_queue d"
  by (simp add: mark_exchange_def Let_def)

lemma tell_keeps: "keeps N {} s (tell ty payload c s)"
  by (rule keeps_idle) (simp_all add: same_wire_def)

lemma daemon_keeps: "cx_queue d = session_queue s \<Longrightarrow> keeps N {} s (s\<lparr> se_daemon := d \<rparr>)"
  by (rule keeps_idle) (simp_all add: same_wire_def)

lemma commands_keep: "keeps N {} s (with_commands ports f s)"
proof -
  have fold: "keeps N {} s (fold (\<lambda>(r, c). tell CommandResultMsg (command_result_json (port_text ports) r) c) rs s)"
    for rs and s :: "('a, 'b) session_state"
  proof (induction rs arbitrary: s)
    case Nil
    then show ?case by (simp add: keeps_refl)
  next
    case (Cons r rs)
    then show ?case using keeps_then [OF tell_keeps Cons.IH] by (cases r) simp
  qed
  have "keeps N {} s (s\<lparr> se_commands := f (se_commands s) \<rparr>)" by (rule keeps_idle) (simp_all add: same_wire_def)
  from keeps_then [OF this fold] show ?thesis by (simp add: with_commands_def Let_def)
qed

lemma publish_keeps: "keeps N {} s (snd (publish_capabilities ports pu again s))"
proof (cases "publication_payload CAPABILITY_SCHEMA_VERSION (sf_current (se_surface s)) (\<lambda>_. False)")
  case (Inl e)
  then show ?thesis by (simp add: publish_capabilities_def Let_def keeps_refl)
next
  case (Inr payload)
  obtain r s1 where r: "say CapabilitiesPublish payload None s = (r, s1)" by fastforce
  have one: "keeps N {} s s1" using tell_keeps [of N s CapabilitiesPublish payload None] r by (simp add: tell_def)
  have "keeps N {} s1 (s1\<lparr> se_publication := x \<rparr>)" for x by (rule keeps_idle) (simp_all add: same_wire_def)
  from one keeps_then [OF one this] show ?thesis
    by (simp add: publish_capabilities_def Let_def Inr r keeps_refl split: option.split)
qed

lemma collect_keeps: "keeps N {} s (collect_bus_events ports ti s)" "keeps N {} s (collect_telemetry_and_health ports ti s)"
proof -
  show "keeps N {} s (collect_bus_events ports ti s)"
    by (rule keeps_queue) (simp_all add: collect_bus_events_def collect_events_def enqueue_events_def enqueue_all_keeps same_wire_def Let_def)
  have "queue_keeps q (case x of Inr payload \<Rightarrow> snd (enqueue i k payload now q) | Inl _ \<Rightarrow> q)"
      "queue_keeps q (case y of Some h \<Rightarrow> snd (enqueue i k (f h) now q) | None \<Rightarrow> q)" for q i k now f and x :: "'e + json" and y :: "'f option"
    using enqueue_keeps by (simp_all add: custody_def split: sum.split option.split)
  note choice = this
  let ?d = "se_daemon s"
  let ?health = "if ti_health_readable ti then rp_health (dl_repository (cx_ledger ?d)) else None"
  let ?src = "\<lparr> tl_health_state = (case ?health of Some h \<Rightarrow> health_state_of (hs_state h) | None \<Rightarrow> WireUnknown),
      tl_metrics = ti_metrics ti, tl_capability_count = length (sf_current (se_surface s)), tl_plugin_count = 0,
      tl_connectivity = ct_state (cx_tracker ?d), tl_buffered_reports = length (rq_entries (cx_queue ?d)),
      tl_dropped_reports = rq_dropped_total (cx_queue ?d) \<rparr>"
  let ?q1 = "case telemetry_report (xp_encoded ports) (port_text ports) (ti_wall ti) ?src of
      Inr payload \<Rightarrow> snd (enqueue (ti_telemetry_id ti) RkTelemetry payload (ti_wall ti) (cx_queue ?d)) | Inl _ \<Rightarrow> cx_queue ?d"
  let ?q2 = "case ?health of Some h \<Rightarrow> snd (enqueue (ti_health_id ti) RkHealth (health_report (port_text ports) h) (ti_wall ti) ?q1) | None \<Rightarrow> ?q1"
  have "session_queue (collect_telemetry_and_health ports ti s) =
      (case ti_sentinel ti of Inr payload \<Rightarrow> snd (enqueue (ti_sentinel_id ti) RkSentinel payload (ti_wall ti) ?q2) | Inl _ \<Rightarrow> ?q2)"
    unfolding collect_telemetry_and_health_def Let_def by simp
  then have last: "queue_keeps ?q2 (session_queue (collect_telemetry_and_health ports ti s))"
    by (simp only:) (rule choice(1))
  have first: "queue_keeps (session_queue s) ?q1" "queue_keeps ?q1 ?q2" by (rule choice)+
  show "keeps N {} s (collect_telemetry_and_health ports ti s)"
    by (rule keeps_queue [OF _ _ queue_keeps_trans [OF queue_keeps_trans [OF first] last]])
       (simp_all add: same_wire_def collect_telemetry_and_health_def Let_def)
qed

lemma tick_keeps:
  "keeps N {} s (snd (session_tick ports ti s)) \<and> (fst (session_tick ports ti s) \<noteq> None \<longrightarrow> se_flight (snd (session_tick ports ti s)) = [])"
proof (cases "is_overdue (ti_now ti) (se_heartbeat s)")
  case True
  then show ?thesis using requeue_keeps by (simp add: session_tick_def)
next
  case False
  have republish: "keeps N {} s (snd (tick_republish ports ti s))" for s :: "('a, 'b) session_state"
  proof -
    have "keeps N {} s (s\<lparr> se_surface := x \<rparr>)" for x by (rule keeps_idle) (simp_all add: same_wire_def)
    from this keeps_then [OF this publish_keeps] show ?thesis by (simp add: tick_republish_def take_dirty_def Let_def)
  qed
  have ledger: "keeps N {} s (snd (tick_ledger ports ti s))" for s :: "('a, 'b) session_state"
    by (simp add: tick_ledger_def keeps_refl flush_ledger_keeps)
  have telemetry: "keeps N {} s (snd (tick_telemetry ports ti s))" for s :: "('a, 'b) session_state"
  proof -
    obtain r s1 where r: "session_flush_reports (ti_wall ti) (collect_telemetry_and_health ports ti s) = (r, s1)" by fastforce
    have one: "keeps N {} s s1" using keeps_then [OF collect_keeps(2) flush_reports_keeps] r by (metis snd_conv)
    have "keeps N {} s1 (s1\<lparr> se_schedule := x \<rparr>)" for x by (rule keeps_idle) (simp_all add: same_wire_def)
    from one keeps_then [OF one this] show ?thesis by (simp add: tick_telemetry_def r keeps_refl split: option.split)
  qed
  have ping: "keeps N {} s (snd (tick_ping ti s))" for s :: "('a, 'b) session_state"
  proof -
    obtain r s1 where r: "say Ping (JObj []) None s = (r, s1)" by fastforce
    have one: "keeps N {} s s1" using tell_keeps [of N s Ping "JObj []" None] r by (simp add: tell_def)
    have "keeps N {} s1 (s1\<lparr> se_heartbeat := x \<rparr>)" for x by (rule keeps_idle) (simp_all add: same_wire_def)
    from one keeps_then [OF one this] show ?thesis by (simp add: tick_ping_def r keeps_refl split: option.split)
  qed
  have turn: "(\<And>f s. f \<in> set fs \<Longrightarrow> keeps N {} s (snd (f s))) \<Longrightarrow> keeps N {} s (snd (in_turn fs s))"
    for fs and s :: "('a, 'b) session_state"
  proof (induction fs arbitrary: s)
    case Nil
    then show ?case by (simp add: keeps_refl)
  next
    case (Cons f fs)
    obtain r s1 where r: "f s = (r, s1)" by fastforce
    have "keeps N {} s s1" using Cons.prems [of f s] r by simp
    with r keeps_then [OF this] Cons.IH [of s1] Cons.prems show ?case by (simp split: option.split)
  qed
  let ?fs = "[tick_republish ports ti, tick_ledger ports ti, tick_telemetry ports ti, tick_ping ti]"
  obtain r s1 where r: "in_turn ?fs (collect_bus_events ports ti s) = (r, s1)" by fastforce
  have "keeps N {} (collect_bus_events ports ti s) s1"
    using turn [of ?fs "collect_bus_events ports ti s"] republish ledger telemetry ping r by auto
  from keeps_then [OF collect_keeps(1) this] have one: "keeps N {} s s1" .
  show ?thesis using one keeps_then [OF one] requeue_keeps [of N s1 ports] False r by (simp add: session_tick_def split: option.split)
qed

subsection \<open>Acknowledgements\<close>

definition acknowledged :: "('h, 'p) session_ports \<Rightarrow> json \<Rightarrow> (uuid \<times> bool) option" where
  "acknowledged ports payload =
     Option.bind (ack_of_json payload) (\<lambda>(raw, accepted). map_option (\<lambda>i. (i, accepted)) (wt_parse_uuid (port_text ports) raw))"

text \<open>The reports a frame releases: those it accepts, and those rejected once too often.\<close>

definition settles :: "('h, 'p) session_ports \<Rightarrow> session_event \<Rightarrow> ('h, 'p) session_state \<Rightarrow> uuid set" where
  "settles ports ev s =
     (case ev of
        EvFrame fi frame \<Rightarrow>
          (case (envelope_kind frame, acknowledged ports (en_payload frame)) of
             (Some ty, Some (m, accepted)) \<Rightarrow>
               (if is_report_ack ty
                then bu_entry_id ` {e. (m, e) \<in> set (se_flight s) \<and> (accepted \<or> MAX_SEND_ATTEMPTS \<le> bu_attempts e)} else {})
           | _ \<Rightarrow> {})
      | _ \<Rightarrow> {})"

lemma ack_custody:
  assumes "distinct (map fst flight)" "on_ack wt m accepted flight q b = (flight', q', b')"
  shows "custody (bu_entry_id ` {e. (m, e) \<in> set flight \<and> (accepted \<or> MAX_SEND_ATTEMPTS \<le> bu_attempts e)})
      (report_ids q \<union> flying_ids flight) (rq_dropped_total q) (report_ids q' \<union> flying_ids flight') (rq_dropped_total q')
    \<and> distinct (map fst flight') \<and> set flight' \<subseteq> set flight"
proof -
  let ?f = "filter (\<lambda>(i, _). i \<noteq> m) flight"
  have f: "distinct (map fst ?f)" "set ?f \<subseteq> set flight" using assms(1) by (auto simp: distinct_map_filter)
  show ?thesis
  proof (cases "map_of flight m")
    case None
    then have "?f = flight" by (force simp: map_of_eq_None_iff filter_id_conv)
    then show ?thesis using assms None by (simp add: on_ack_def Let_def custody_def)
  next
    case (Some e)
    have only: "(m, x) \<in> set flight \<longleftrightarrow> x = e" for x using assms(1) Some by (metis map_of_eq_Some_iff option.inject)
    have fly: "flying_ids flight = flying_ids ?f \<union> bu_entry_id ` {x \<in> {e}. \<not> is_ledger (bu_kind x)}"
      using only by (force simp: flying_ids_def)
    consider (released) "accepted \<or> MAX_SEND_ATTEMPTS \<le> bu_attempts e" "(flight', q', b') = (?f, q, b)"
      | (ledger) "is_ledger (bu_kind e)" "flight' = ?f" "q' = q"
      | (returned) "\<not> is_ledger (bu_kind e)" "(flight', q', b') = (?f, requeue_front [e] q, b)"
      using assms(2) Some by (auto simp: on_ack_def Let_def split: if_splits)
    then show ?thesis
    proof cases
      case released
      then show ?thesis using f only by (auto simp: custody_def fly)
    next
      case ledger
      then show ?thesis using f by (auto simp: custody_def fly)
    next
      case returned
      then show ?thesis using f requeue_front_keeps [of q "[e]"] by (auto simp: custody_def fly)
    qed
  qed
qed

lemma ack_keeps:
  "keeps N (case acknowledged ports payload of
            Some (m, accepted) \<Rightarrow> bu_entry_id ` {e. (m, e) \<in> set (se_flight s) \<and> (accepted \<or> MAX_SEND_ATTEMPTS \<le> bu_attempts e)}
          | None \<Rightarrow> {}) s (handle_ack ports payload s)"
proof (cases "acknowledged ports payload")
  case None
  then show ?thesis by (simp add: handle_ack_def acknowledged_def [symmetric] keeps_refl)
next
  case (Some ack)
  obtain m accepted where ack: "ack = (m, accepted)" by fastforce
  obtain flight q b where r: "on_ack (port_text ports) m accepted (se_flight s) (session_queue s) (session_buffer s) = (flight, q, b)"
    by (metis prod_cases3)
  have h: "handle_ack ports payload s = set_buffer b (set_queue q s)\<lparr> se_flight := flight \<rparr>"
    using Some by (simp add: handle_ack_def acknowledged_def [symmetric] ack r)
  have "ready N (handle_ack ports payload s)" if "ready N s"
  proof -
    have "distinct (map fst flight)" "set flight \<subseteq> set (se_flight s)"
      using ack_custody [OF _ r] that by (simp_all add: ready_def flight_ok_def)
    moreover have "same_wire s (handle_ack ports payload s)" by (simp add: h same_wire_def)
    moreover have "se_flight (handle_ack ports payload s) = flight" by (simp add: h)
    ultimately show ?thesis using same_wire_ready [OF _ that, of "handle_ack ports payload s"] by (simp add: image_mono)
  qed
  moreover have "custody (bu_entry_id ` {e. (m, e) \<in> set (se_flight s) \<and> (accepted \<or> MAX_SEND_ATTEMPTS \<le> bu_attempts e)})
      (held s) (rq_dropped_total (session_queue s)) (held (handle_ack ports payload s)) (rq_dropped_total q)" if "ready N s"
    using ack_custody [OF _ r] that by (simp add: h held_def ready_def flight_ok_def)
  ultimately show ?thesis by (simp add: keeps_def Some ack) (simp add: h)
qed

lemma inbound_keeps: "keeps N (settles ports (EvFrame fi frame) s) s (handle_inbound ports fi frame s)"
proof (cases "envelope_kind frame")
  case None
  then show ?thesis by (simp add: settles_def handle_inbound_def keeps_refl)
next
  case (Some ty)
  have decision: "keeps N {} s (reply_decision t subject c name outcome (s1 :: ('a, 'b) session_state))" if "keeps N {} s s1" for t subject c name outcome s1
    using keeps_then [OF that tell_keeps] by (simp add: reply_decision_def)
  have port: "keeps N {} s (s\<lparr> se_port := x \<rparr>)" "keeps N {} s (s\<lparr> se_schedule := y \<rparr>)" for x y
    by (rule keeps_idle; simp add: same_wire_def)+
  have runbooks: "keeps N {} s (s\<lparr> se_daemon := (se_daemon s)\<lparr> cx_runbooks := m \<rparr> \<rparr>)" for m by (rule daemon_keeps) simp
  have applied: "keeps N {} s (reply_config_result ports now c r (s\<lparr> se_daemon := snd (apply_configuration wt io payload (se_daemon s)) \<rparr>))" for now c r wt io payload
    unfolding reply_config_result_def by (rule keeps_then [OF daemon_keeps tell_keeps]) (rule configuration_queue)
  have rotated: "keeps N {} s (s\<lparr> se_daemon := rotate_session_credential wc failure now payload (se_daemon s) \<rparr>)" for wc failure now payload
    by (rule daemon_keeps) (rule rotation_queue)
  consider (ack) "is_report_ack ty" | (other) "\<not> is_report_ack ty" by blast
  then show ?thesis
  proof cases
    case ack
    then have "handle_inbound ports fi frame s = handle_ack ports (en_payload frame) s"
      using Some by (auto simp: handle_inbound_def is_report_ack_def)
    then show ?thesis using ack_keeps [where N = N and ports = ports and payload = "en_payload frame" and s = s] Some ack
      by (simp add: settles_def split: option.splits prod.splits)
  next
    case other
    have "keeps N {} s (handle_inbound ports fi frame s)"
      using keeps_refl [of N s] tell_keeps [of N s] port decision runbooks applied rotated commands_keep [of N s ports] other Some
      by (simp add: handle_inbound_def handle_approval_decision_def handle_runbook_decision_def send_config_state_def Let_def
          case_prod_beta split: option.split)
    then show ?thesis using Some other by (simp add: settles_def split: option.split)
  qed
qed

lemma step_keeps:
  "keeps N (settles ports ev s) s (snd (session_step ports ev s))
   \<and> (fst (session_step ports ev s) \<noteq> None \<longrightarrow> se_flight (snd (session_step ports ev s)) = [])"
proof (cases ev)
  case (EvTick ti)
  then show ?thesis using tick_keeps [of N s ports ti] by (simp add: settles_def case_prod_beta)
next
  case (EvFrame fi frame)
  let ?s0 = "s\<lparr> se_heartbeat := note_seen (fi_now fi) (se_heartbeat s) \<rparr>"
  have one: "keeps N {} s ?s0" by (rule keeps_idle) (simp_all add: same_wire_def)
  have same: "settles ports ev ?s0 = settles ports ev s" by (simp add: settles_def EvFrame split: option.split)
  have "keeps N (settles ports ev s) s (handle_inbound ports fi frame ?s0)"
    using keeps_then [OF one inbound_keeps [of N ports fi frame ?s0]] same by (simp add: EvFrame)
  from keeps_trans [OF this daemon_keeps] show ?thesis by (simp add: EvFrame Let_def)
qed (use requeue_keeps in \<open>simp_all add: settles_def\<close>)

fun run_settles :: "('h, 'p) session_ports \<Rightarrow> session_event list \<Rightarrow> ('h, 'p) session_state \<Rightarrow> uuid set" where
  "run_settles ports [] s = {}"
| "run_settles ports (ev # evs) s =
     settles ports ev s \<union>
       (case session_step ports ev s of (None, s1) \<Rightarrow> run_settles ports evs s1 | (Some _, _) \<Rightarrow> {})"

lemma run_keeps:
  "keeps N (run_settles ports evs s) s (snd (session_run ports evs s))
   \<and> (fst (session_run ports evs s) \<noteq> None \<longrightarrow> se_flight (snd (session_run ports evs s)) = [])"
proof (induction evs arbitrary: s)
  case Nil
  then show ?case by (simp add: keeps_refl)
next
  case (Cons ev evs)
  obtain r s1 where r: "session_step ports ev s = (r, s1)" by fastforce
  show ?case using step_keeps [of N ports ev s] Cons.IH [of s1] keeps_trans r by (auto split: option.split)
qed


definition sample_session_ports :: "(mock_services, unit) session_ports" where
  "sample_session_ports =
     \<lparr> xp_codec = sample_codec, xp_canonical = (\<lambda>_. []), xp_encoded = (\<lambda>_. 0), xp_commands = sample_deps,
       xp_decide = (\<lambda>i grant by_whom p. (Inl ''unknown token'', p)), xp_show_ladder = (\<lambda>_. ''refused''),
       xp_show_decide = (\<lambda>_. ''refused'') \<rparr>"

definition sample_session :: "(mock_services, unit) session_state" where
  "sample_session =
     \<lparr> se_daemon = sample_cloud, se_commands = granted_channel, se_port = (), se_surface = surface_new [], se_publication = None,
       se_transport = (sample_transport [])\<lparr> tp_attempts := 1 \<rparr>,
       se_flight = [(0, fresh_report 5 RkHealth JNull 0)], se_heartbeat = heartbeat_new 20 0, se_schedule = schedule_new 60 0 \<rparr>"

lemma sample_session_ready:
  "accepting (se_transport sample_session)" "inj_on (sent_id sample_session) {..<2}" "flight_ok sample_session"
proof -
  have d: "sent_id sample_session n = of_nat n" for n by (simp add: sent_id_def sample_session_def sample_transport_def)
  show "accepting (se_transport sample_session)" by (simp add: accepting_def sample_session_def sample_transport_def)
  show "inj_on (sent_id sample_session) {..<2}" by (auto simp: inj_on_def d less_2_cases_iff)
  show "flight_ok sample_session" by (auto simp: flight_ok_def d) (simp_all add: sample_session_def)
qed


section \<open>Frames that do not concern the installation\<close>


definition sample_frame_input :: frame_input where
  "sample_frame_input =
     \<lparr> fi_now = 0, fi_wall = 0, fi_io = sample_io, fi_delivery = sample_delivery, fi_rotation_failure = None, fi_states_listed = True,
       fi_audited = True, fi_written = True, fi_marked = True \<rparr>"


section \<open>Supervision\<close>

lemma set_state_frame [simp]:
  "binding (set_state saved st failure d) = binding d" "cx_config (set_state saved st failure d) = cx_config d"
  "cx_enrollment (set_state saved st failure d) = cx_enrollment d" "cx_secrets (set_state saved st failure d) = cx_secrets d"
  by (simp_all add: set_state_def Let_def binding_def)

definition may_connect :: "key_scheme \<Rightarrow> cloud_daemon \<Rightarrow> bool" where
  "may_connect ks d \<longleftrightarrow> cloud_is_active (cx_config d) \<and> cx_enrollment d \<noteq> None
     \<and> (\<exists>seed k. read_secret IdentityKey d = Some seed \<and> key_from_seed_b64 ks seed = Inr k)"

lemma held_key_none:
  "\<not> (\<exists>seed k. read_secret IdentityKey d = Some seed \<and> key_from_seed_b64 ks seed = Inr k) \<Longrightarrow>
     \<exists>d'. held_key ks cy d = (None, d') \<and> binding d' = binding d"
  by (auto simp: held_key_def split: option.split sum.split)


definition sample_cycle :: cycle_input where
  "sample_cycle =
     \<lparr> cy_stopped = False, cy_enrollment_failure = None, cy_seed_failure = None, cy_credential_failure = None,
       cy_connect = (\<lambda>_. Inl Closed), cy_hostname = ''host'', cy_agent_version = ''0.1.0'',
       cy_start = \<lparr> si_now = 0, si_wall = 0, si_publish = \<lparr> pu_readable = True, pu_saved = True, pu_id = 1, pu_now = 0 \<rparr>,
                    si_listing = None, si_settled = (\<lambda>_. True), si_states_listed = True \<rparr>,
       cy_events = [], cy_wait = WaitElapsed, cy_seed = 7, cy_saved = True, cy_wall = 0 \<rparr>"


text \<open>
  A refused handshake with the code of a revocation ends supervision for good: what comes later,
  a new enrollment included, is not looked at until the daemon is restarted, although the operator
  is told that re-enrollment is required.
\<close>

theorem revocation_ends_supervision:
  assumes "supervise_cycle parse ks ports cy policy s = after_connection cy (HandshakeFailed (HsRejected ''REVOKED'' m)) policy s1"
  shows "\<exists>s2. (\<forall>cys. supervise parse ks ports (cy # cys) policy s = Some (True, s2))
       \<and> ct_last_error (cx_tracker (se_daemon s2)) = Some ''this installation was revoked; re-enrollment is required''"
  using assms
  by (simp add: after_connection_def policy_after_def set_state_def Let_def tracker_transition_def record_error_def)

section \<open>Surfaces\<close>

text \<open>The acknowledgement of a sentinel report is not recognised as one: the report stays in flight.\<close>

theorem sentinel_ack_ignored:
  "envelope_kind frame = Some SentinelAck \<Longrightarrow> handle_inbound ports fi frame s = s"
  by (simp add: handle_inbound_def is_report_ack_def)

text \<open>
  Every capability is published as needing no approval, whatever its descriptor declares and whatever
  the policy would answer, although the projection documents that the flag is derived from the
  authorization model.
\<close>

theorem approval_never_published:
  assumes "accepting (se_transport s)" "length (sf_current (se_surface s)) \<le> MAX_CAPABILITIES_PER_PUBLICATION"
  shows "tp_sent (se_transport (snd (publish_capabilities ports pu False s))) =
     tp_sent (se_transport s) @
       [envelope_new (tp_fresh (se_transport s) (attempts s)) CapabilitiesPublish
          (JObj [(''version'', JStr ''0.1.0''), (''capabilities'', JArr (map (descriptor_wire False) (sf_current (se_surface s))))]) None]"
  using assms
  by (simp add: publish_capabilities_def publication_payload_def say_def transport_send_def accepting_def CAPABILITY_SCHEMA_VERSION_def Let_def)

lemma merge_provider:
  "mp_provider (merge_model_setting (k, v) m) =
     (if k = ''provider'' then (case as_string v of Some s \<Rightarrow> s | None \<Rightarrow> mp_provider m) else mp_provider m)"
  by (simp add: merge_model_setting_def Let_def split: option.split)

text \<open>A delivered provider wins, an absent or unreadable one leaves the value of the file standing.\<close>

theorem managed_provider_wins:
  assumes "distinct (map fst settings)"
  shows "mp_provider (apply_managed_model_settings settings m) =
           (case Option.bind (map_of settings ''provider'') as_string of Some v \<Rightarrow> v | None \<Rightarrow> mp_provider m)"
  using assms
proof (induction settings arbitrary: m)
  case Nil
  then show ?case by (simp add: apply_managed_model_settings_def)
next
  case (Cons kv settings)
  obtain k v where kv: "kv = (k, v)" by fastforce
  have step: "mp_provider (apply_managed_model_settings (kv # settings) m) =
      (case Option.bind (map_of settings ''provider'') as_string of Some v \<Rightarrow> v | None \<Rightarrow> mp_provider (merge_model_setting kv m))"
    using Cons.IH [of "merge_model_setting kv m"] Cons.prems by (simp add: apply_managed_model_settings_def)
  show ?case
  proof (cases "k = ''provider''")
    case True
    then have "map_of settings ''provider'' = None" using Cons.prems by (simp add: kv map_of_eq_None_iff)
    then show ?thesis unfolding step by (simp add: kv True merge_provider)
  next
    case False
    then show ?thesis unfolding step by (simp add: kv merge_provider split: option.split)
  qed
qed

end
