(* ===== verification/Spec2Isabelle.thy ===== *)
theory Spec2Isabelle
  imports Loop_Findings Graduated_Autonomy Cloud_Command Remediation_Service Brain Session_Loop
begin

text \<open>
  ARGUS is an autonomous host agent (the Rust workspace under \<open>src/crates\<close>): a daemon that
  perceives its host, reasons about situations with a typed decision provider or with promoted
  runbooks, and acts on services, containers, cgroups and a cluster - but only through one
  boundary that consults policy, an autopilot governor, an action budget, an earned autonomy rung
  and, where these ask for it, an operator. A cloud control plane may deliver commands and
  runbooks; both cross the same boundary. This development models that boundary and what feeds it.

  \<^bold>\<open>Foundations.\<close> \<open>Argus_Prelude\<close> holds the shared types (machine words, instants in nanoseconds,
  UUIDs as 128-bit words), strings as the source uses them and results as sums; \<open>Json\<close> the JSON
  values and IEEE floats as exact rationals with their rounding; \<open>Key_Maps\<close> the map interface
  \<open>key_map\<close> with its hash-map and ordered-map instances; \<open>Identifiers\<close>, \<open>Capability\<close> and
  \<open>Reasoning\<close> the domain crate (identifiers, descriptors and their registry, plans, autonomy
  levels, authorization requests, context hashes).

  \<^bold>\<open>The gates.\<close> \<open>Policy\<close> (deny-by-default evaluator, escalation decision), \<open>Approval\<close> (single-use
  grants), \<open>Budget\<close> (hour and day windows), \<open>Autopilot\<close> (governor with budget and cooldown),
  \<open>Guardrail\<close>, \<open>Executors\<close> and \<open>Cluster\<close> (the executors and the guardrails before each effect),
  \<open>Validation\<close> (re-observation). Each port is a locale (\<open>policy_port\<close>, \<open>budget_gate\<close>,
  \<open>resource_governor\<close>, \<open>executor_port\<close>), interpreted on the code's own definitions.

  \<^bold>\<open>The plan loop.\<close> \<open>Control\<close> and \<open>Plan_Loop\<close> translate \<open>argus-daemon/src/control.rs\<close>: the step
  function with every gate in the order of the code, execution, rollback, pause and resume, events
  and ledger records. \<open>Loop_Correct\<close> proves the loop invariant once, for every policy, registry,
  governor, budget and executor; \<open>Loop_Properties\<close> and \<open>Loop_Findings\<close> draw the properties from it.

  \<^bold>\<open>Around the loop.\<close> \<open>Graduated_Autonomy\<close> is the assimilation machine (\<open>autonomy.rs\<close>),
  \<open>Descriptors\<close> the published surface and the local dispatch (\<open>runtime.rs\<close>), \<open>Cloud_Command\<close> the
  handling of cloud commands (\<open>cloud.rs\<close>) with its at-most-once log, \<open>Self_Observability\<close> the
  health counters and the safe-mode rule, \<open>Runbooks\<close>, \<open>Impact\<close> and \<open>Runbook_Manager\<close> the runbook
  ladder from file or delivery to promotion, \<open>Decision\<close> the evidence context, the typed gateway and
  the deduplication, \<open>Remediation_Service\<close> the daemon state that ties these together.

  \<^bold>\<open>Perception, memory and the brain.\<close> \<open>Sensors\<close> translates the parsers of the kernel's text
  files and the figures derived from them (\<open>argus-sensors\<close>), \<open>Memory\<close> the memory layers
  (\<open>argus-memory\<close>), \<open>Repository\<close> the in-memory repository of \<open>argus-state\<close> behind two table
  interfaces (\<open>keyed_table\<close>, \<open>append_log\<close>), \<open>Brain\<close> the loop of \<open>brain.rs\<close>: readings to
  situations, promoted runbooks to procedure plans, the provider path, acting through the remediation
  service at the effective autonomy, remembering, the tick that feeds the assimilation machine, and
  the managed levers of \<open>brain_state.rs\<close>.

  \<^bold>\<open>Upstream.\<close> \<open>Redaction\<close> is the redactor of \<open>argus-cloud\<close>, \<open>Ledger\<close> the report queue, the ledger
  buffer, the daemon's ledger sink with its wire payloads, and the flush and return of what it sent.
  \<open>Cloud_Client\<close> is the rest of \<open>argus-cloud\<close>: message types and envelopes, version negotiation,
  payload decoding, the installation key, handshake and pairing over a scripted transport, the
  backoff at word level with the reconnect policy, heartbeat and reporting schedules, batches,
  settings. \<open>Cloud_Session\<close> holds the daemon's stores, enrollment and forgetting, and the
  application of delivered configurations (provider, levers, runbooks, tool servers);
  \<open>Session_Loop\<close> the capability surface, telemetry and health, the session loop with its ticks,
  heartbeat and dispatch of frames - commands, decisions and acknowledgements go to the theories
  that model them - and the supervision loop around it (\<open>cloud.rs\<close>).

  \<^bold>\<open>Tool servers.\<close> \<open>Mcp_Wiring\<close> translates the servers document of \<open>config.rs\<close>, the client runtime of
  \<open>argus-mcp\<close> (adoption and trust of tools, calls, bounded evidence) and the wiring of \<open>mcp.rs\<close>
  (ownership of servers by file and cloud, reconciliation, retries, lifecycle passes).

  \<^bold>\<open>What the lemmas show.\<close> Safety of every execution (gates, guardrails, single use of approvals,
  at-most-once commands), the accounting of budgets, rungs and counters, the meaning of every
  status, absence of panics, liveness of answers and settlements, one enrollment and deliveries that
  only move forward and apply whole, custody of every report over a session, speech only with the
  expected cloud, trust of tools by configuration alone, round trips of identifiers, wire forms and
  undelivered reports, equality of stores and memories with their histories, refinement
  of the governor by its complete history, and the behaviours that differ from the documentation,
  each as a theorem about the same definitions.

  \<^bold>\<open>Parameters.\<close> What is not code of the repository is an argument: the clock (read by position),
  fresh identifiers, the text of a document, the results of the store's writes, the controllers of
  systemd, Docker, cgroups and Kubernetes over an abstract host, the decision provider, the TOML
  parser, the readings of a cycle, the frames and results of the transport, the key scheme, the texts
  of identifiers and times, what a tool server answers, and the last digits of the logarithm. There is
  no fuel: every loop of the source is a structural recursion here, or one with a length measure; the
  session and supervision loops, which run until they are stopped, are recursions over the sequence
  of events they meet, and say when they are still running.

  \<^bold>\<open>Not modelled.\<close> The WebSocket and JSON-RPC transports, process supervision, SQL, rendering of
  views, the tasks that read the sensors, the terminal interface and the installer: they are I/O
  around the modelled state. The analytics crates (anomaly, correlation, incidents, investigation,
  reporting) are called by no modelled path of the daemon.
\<close>

end
